(* ===== verification/Prelude.thy ===== *)
theory Prelude
  imports Complex_Main "HOL-Library.AList"
begin

text \<open>
  Shared vocabulary of the development.

  \<^item> Fallible code returns a value of a sum type: \<open>Inl\<close> carries the exception,
    \<open>Inr\<close> the result; \<open>bind_res\<close>, \<open>require\<close> and \<open>traverse\<close> sequence such calls the way
    a Python block does (the first exception ends it).
  \<^item> A Python \<^verbatim>\<open>dict\<close> is an association list with distinct keys in insertion order;
    \<open>AList.update\<close> overwrites in place or appends, as \<^verbatim>\<open>d[k] = v\<close> does, and
    \<open>AList.delete\<close> is \<^verbatim>\<open>del d[k]\<close>. The locale \<open>keyed_store\<close> is the contract the
    components with session and pattern tables rely on.
  \<^item> Values that come out of \<^verbatim>\<open>json.loads\<close> are \<open>'s json\<close>, where \<open>'s\<close> is the string type.
\<close>

named_theorems res_simps
named_theorems store_simps

section \<open>Results\<close>

type_synonym ('e, 'a) result = "'e + 'a"

definition bind_res :: "'e + 'a \<Rightarrow> ('a \<Rightarrow> 'e + 'b) \<Rightarrow> 'e + 'b" where
  "bind_res r f = (case r of Inl e \<Rightarrow> Inl e | Inr a \<Rightarrow> f a)"

definition require :: "bool \<Rightarrow> 'e \<Rightarrow> 'e + unit" where
  "require b e = (if b then Inr () else Inl e)"

fun traverse :: "('a \<Rightarrow> 'e + 'b) \<Rightarrow> 'a list \<Rightarrow> 'e + 'b list" where
  "traverse f [] = Inr []"
| "traverse f (x # xs) =
     bind_res (f x) (\<lambda>y. bind_res (traverse f xs) (\<lambda>ys. Inr (y # ys)))"

lemma bind_res_simps [simp, res_simps]:
  "bind_res (Inl e) f = Inl e"
  "bind_res (Inr a) f = f a"
  by (simp_all add: bind_res_def)

lemma bind_res_Inr_iff [res_simps]:
  "bind_res r f = Inr b \<longleftrightarrow> (\<exists>a. r = Inr a \<and> f a = Inr b)"
  by (cases r) auto

lemma bind_res_Inl_iff [res_simps]:
  "bind_res r f = Inl e \<longleftrightarrow> r = Inl e \<or> (\<exists>a. r = Inr a \<and> f a = Inl e)"
  by (cases r) auto

lemma require_simps [simp, res_simps]:
  "require True e = Inr ()"
  "require False e = Inl e"
  "require b e = Inr u \<longleftrightarrow> b"
  "require b e = Inl e' \<longleftrightarrow> \<not> b \<and> e' = e"
  by (auto simp: require_def)

lemma bind_require [res_simps]:
  "bind_res (require b e) f = (if b then f () else Inl e)"
  by (simp add: require_def)

lemma traverse_Inr_length: "traverse f xs = Inr ys \<Longrightarrow> length ys = length xs"
  by (induction xs arbitrary: ys) (auto simp: res_simps)

lemma traverse_Inr_set:
  "traverse f xs = Inr ys \<Longrightarrow> y \<in> set ys \<Longrightarrow> \<exists>x \<in> set xs. f x = Inr y"
  by (induction xs arbitrary: ys) (auto simp: res_simps)

lemma traverse_map_Inr:
  "(\<And>x. x \<in> set xs \<Longrightarrow> f (g x) = Inr x) \<Longrightarrow> traverse f (map g xs) = Inr xs"
  by (induction xs) auto

lemma case_sum_eq_Inr [res_simps]:
  "(case r of Inl e \<Rightarrow> Inl (h e) | Inr a \<Rightarrow> f a) = Inr b \<longleftrightarrow> (\<exists>a. r = Inr a \<and> f a = Inr b)"
  by (cases r) auto

fun all_until :: "('a \<Rightarrow> 'e + bool) \<Rightarrow> 'a list \<Rightarrow> 'e + bool" where
  \<comment> \<open>\<^verbatim>\<open>all(f(x) for x in xs)\<close> stops at the first false\<close>
  "all_until f [] = Inr True"
| "all_until f (x # xs) = bind_res (f x) (\<lambda>b. if b then all_until f xs else Inr False)"

lemma all_until_Inr: "\<forall>x \<in> set xs. f x = Inr True \<Longrightarrow> all_until f xs = Inr True"
  by (induction xs) auto

lemma all_until_True: "all_until f xs = Inr True \<Longrightarrow> x \<in> set xs \<Longrightarrow> f x = Inr True"
  by (induction xs) (auto simp: bind_res_Inr_iff split: if_splits)

text \<open>Long chains of conditions on text are split without keeping the conditions.\<close>

lemma if_eqE: "(if c then a else b) = x \<Longrightarrow> (a = x \<Longrightarrow> P) \<Longrightarrow> (b = x \<Longrightarrow> P) \<Longrightarrow> P"
  by (cases c) simp_all

section \<open>Dictionaries\<close>

type_synonym ('k, 'v) dict = "('k \<times> 'v) list"

definition dict_keys :: "('k, 'v) dict \<Rightarrow> 'k list" where
  "dict_keys d = map fst d"

definition has_keys :: "('k, 'v) dict \<Rightarrow> 'k list \<Rightarrow> bool" where
  \<comment> \<open>\<^verbatim>\<open>set(d) == {k1, ..., kn}\<close>\<close>
  "has_keys d ks = (set (dict_keys d) = set ks)"

lemma dict_keys_simps [simp]:
  "dict_keys [] = []"
  "dict_keys ((k, v) # d) = k # dict_keys d"
  by (simp_all add: dict_keys_def)

lemma has_keys_lookup:
  "has_keys d ks \<Longrightarrow> k \<in> set ks \<Longrightarrow> \<exists>v. map_of d k = Some v"
proof -
  assume "has_keys d ks" and "k \<in> set ks"
  then have "k \<in> fst ` set d"
    by (auto simp: has_keys_def dict_keys_def)
  then show ?thesis
    by (metis map_of_eq_None_iff not_None_eq)
qed

text \<open>
  The contract of a keyed table: what a lookup returns after an insertion or a removal, and
  that both keep the keys distinct. The session table of the broker, the session table of the
  gateway and the pattern table of the FIBSEM dispatcher all rely on exactly these laws.
\<close>

locale keyed_store =
  fixes find :: "'s \<Rightarrow> 'k \<Rightarrow> 'v option"
    and put :: "'k \<Rightarrow> 'v \<Rightarrow> 's \<Rightarrow> 's"
    and del :: "'k \<Rightarrow> 's \<Rightarrow> 's"
    and count :: "'s \<Rightarrow> nat"
    and ok :: "'s \<Rightarrow> bool"
  assumes find_put: "find (put k v s) k' = (if k' = k then Some v else find s k')"
    and find_del: "find (del k s) k' = (if k' = k then None else find s k')"
    and count_put_new: "ok s \<Longrightarrow> find s k = None \<Longrightarrow> count (put k v s) = Suc (count s)"
    and count_put_old: "ok s \<Longrightarrow> find s k = Some w \<Longrightarrow> count (put k v s) = count s"
    and count_del: "ok s \<Longrightarrow> find s k = Some w \<Longrightarrow> Suc (count (del k s)) = count s"
    and ok_put: "ok s \<Longrightarrow> ok (put k v s)"
    and ok_del: "ok s \<Longrightarrow> ok (del k s)"
begin

lemma find_put_same: "find (put k v s) k = Some v"
  by (simp add: find_put)

lemma find_put_other: "k' \<noteq> k \<Longrightarrow> find (put k v s) k' = find s k'"
  by (simp add: find_put)

lemma find_del_same: "find (del k s) k = None"
  by (simp add: find_del)

lemma find_del_other: "k' \<noteq> k \<Longrightarrow> find (del k s) k' = find s k'"
  by (simp add: find_del)

lemma put_del_round_trip:
  "find s k = None \<Longrightarrow> find (del k (put k v s)) = find s"
  by (rule ext) (auto simp: find_put find_del)

lemma count_put_del:
  "ok s \<Longrightarrow> find s k = None \<Longrightarrow> count (del k (put k v s)) = count s"
  using count_put_new [of s k v] count_del [of "put k v s" k v] ok_put [of s k v]
  by (simp add: find_put)

end

lemma length_delete_Suc:
  "distinct (map fst al) \<Longrightarrow> map_of al k = Some v \<Longrightarrow> Suc (length (AList.delete k al)) = length al"
proof (induction al)
  case (Cons p al)
  show ?case
  proof (cases "fst p = k")
    case True
    with Cons.prems have "k \<notin> fst ` set al"
      by auto
    then have "AList.delete k al = al"
      by (simp add: delete_notin_dom)
    with True show ?thesis
      by (cases p) simp
  next
    case False
    with Cons show ?thesis
      by (cases p) auto
  qed
qed simp

lemma length_update:
  "length (AList.update k v al) = (if map_of al k = None then Suc (length al) else length al)"
  by (induction al) auto

interpretation dict: keyed_store map_of AList.update AList.delete length
  "\<lambda>al. distinct (map fst al)"
  by unfold_locales
    (auto simp: update_conv' delete_conv' length_update length_delete_Suc distinct_update
      distinct_delete)

lemmas dict_lookup [store_simps] =
  dict.find_put_same dict.find_put_other dict.find_del_same dict.find_del_other

section \<open>JSON values\<close>

datatype pyfloat = Fin rat | PosInf | NegInf | NaN

definition isfinite :: "pyfloat \<Rightarrow> bool" where
  "isfinite x = (case x of Fin _ \<Rightarrow> True | _ \<Rightarrow> False)"

lemma isfinite_simps [simp]:
  "isfinite (Fin q)" "\<not> isfinite PosInf" "\<not> isfinite NegInf" "\<not> isfinite NaN"
  by (simp_all add: isfinite_def)

datatype 's json =
    JNull
  | JBool bool
  | JInt int
  | JFloat pyfloat
  | JStr 's
  | JList "'s json list"
  | JObj "('s \<times> 's json) list"

end
