(* ===== verification/Json_Text.thy ===== *)
theory Json_Text
  imports Prelude "HOL-Library.Char_ord" "HOL-Library.List_Lexorder" "HOL-Library.Multiset"
begin

text \<open>
  The text form of JSON values that the evaluators hash: \<^verbatim>\<open>json.dumps(value, sort_keys=True,
  separators=(",", ":"), ensure_ascii=True)\<close>. What the language runtime supplies and the
  sources only call is gathered in the record \<open>runtime\<close>: \<open>float_repr\<close> is \<^verbatim>\<open>float.__repr__\<close>
  and \<open>sha256\<close> is \<^verbatim>\<open>hashlib.sha256(...).hexdigest()\<close>. A text string is a list of characters with
  code points below 256, a byte string is a list of bytes, both \<open>char list\<close>.
\<close>

record runtime =
  float_repr :: "rat \<Rightarrow> string"
  sha256 :: "string \<Rightarrow> string"

function show_pos :: "int \<Rightarrow> string" where
  "show_pos n =
     (if n \<le> 0 then [] else show_pos (n div 10) @ [char_of (48 + nat (n mod 10))])"
  by pat_completeness auto
termination
  by (relation "measure nat") auto

declare show_pos.simps [simp del]

definition show_int :: "int \<Rightarrow> string" where
  \<comment> \<open>\<^verbatim>\<open>str(n)\<close> of an int\<close>
  "show_int n = (if n = 0 then ''0'' else if n < 0 then CHR ''-'' # show_pos (- n) else show_pos n)"

definition hex_digit :: "nat \<Rightarrow> char" where
  "hex_digit d = (if d < 10 then char_of (48 + d) else char_of (87 + d))"

definition escape_char :: "char \<Rightarrow> string" where
  "escape_char c =
     (if c = CHR 0x22 then [CHR 0x5C, CHR 0x22]
      else if c = CHR 0x5C then [CHR 0x5C, CHR 0x5C]
      else if c = CHR 0x0A then [CHR 0x5C, CHR ''n'']
      else if c = CHR 0x0D then [CHR 0x5C, CHR ''r'']
      else if c = CHR 0x09 then [CHR 0x5C, CHR ''t'']
      else if c = CHR 0x0C then [CHR 0x5C, CHR ''f'']
      else if c = CHR 0x08 then [CHR 0x5C, CHR ''b'']
      else if 32 \<le> (of_char c :: int) \<and> (of_char c :: int) \<le> 126 then [c]
      else [CHR 0x5C, CHR ''u'', CHR ''0'', CHR ''0'',
            hex_digit (of_char c div 16), hex_digit (of_char c mod 16)])"

definition quote_str :: "string \<Rightarrow> string" where
  "quote_str s = CHR 0x22 # concat (map escape_char s) @ [CHR 0x22]"

fun commas :: "string list \<Rightarrow> string" where
  "commas [] = []"
| "commas [s] = s"
| "commas (s # t # ss) = s @ CHR '','' # commas (t # ss)"

fun dumps :: "(rat \<Rightarrow> string) \<Rightarrow> string json \<Rightarrow> string" where
  "dumps fr JNull = ''null''"
| "dumps fr (JBool b) = (if b then ''true'' else ''false'')"
| "dumps fr (JInt n) = show_int n"
| "dumps fr (JFloat x) =
     (case x of Fin q \<Rightarrow> fr q | PosInf \<Rightarrow> ''Infinity'' | NegInf \<Rightarrow> ''-Infinity'' | NaN \<Rightarrow> ''NaN'')"
| "dumps fr (JStr s) = quote_str s"
| "dumps fr (JList vs) = CHR ''['' # commas (map (dumps fr) vs) @ '']''"
| "dumps fr (JObj kvs) =
     CHR ''{'' # commas (map (\<lambda>(k, s). quote_str k @ CHR '':'' # s)
       (sort_key fst (map (\<lambda>(k, v). (k, dumps fr v)) kvs))) @ ''}''"

fun finite_json :: "'s json \<Rightarrow> bool" where
  \<comment> \<open>no non-finite number anywhere\<close>
  "finite_json (JFloat x) = isfinite x"
| "finite_json (JList vs) = list_all finite_json vs"
| "finite_json (JObj kvs) = list_all (\<lambda>(k, v). finite_json v) kvs"
| "finite_json v = True"

definition json_get :: "('s \<times> 's json) list \<Rightarrow> 's \<Rightarrow> 's json" where
  \<comment> \<open>\<^verbatim>\<open>d.get(k)\<close>: \<^verbatim>\<open>None\<close> when the key is missing\<close>
  "json_get d k = (case map_of d k of None \<Rightarrow> JNull | Some v \<Rightarrow> v)"

lemma json_get_simps [simp]:
  "json_get [] k = JNull"
  "json_get ((k', v) # d) k = (if k = k' then v else json_get d k)"
  by (simp_all add: json_get_def)

definition eq_int :: "'s json \<Rightarrow> int \<Rightarrow> bool" where
  \<comment> \<open>\<^verbatim>\<open>v == n\<close> in Python, where \<^verbatim>\<open>True == 1\<close> and \<^verbatim>\<open>1.0 == 1\<close>\<close>
  "eq_int v n = (case v of JInt m \<Rightarrow> m = n | JBool b \<Rightarrow> (if b then 1 else 0) = n
     | JFloat (Fin q) \<Rightarrow> q = of_int n | _ \<Rightarrow> False)"

definition is_digest :: "'s json \<Rightarrow> ('s \<Rightarrow> string) \<Rightarrow> bool" where
  "is_digest v text = (case v of
     JStr s \<Rightarrow> length (text s) = 64 \<and> list_all (\<lambda>c. c \<in> set ''0123456789abcdef'') (text s)
   | _ \<Rightarrow> False)"

definition str_of :: "'s json \<Rightarrow> 's option" where
  \<comment> \<open>the string when \<^verbatim>\<open>isinstance(v, str)\<close>\<close>
  "str_of v = (case v of JStr s \<Rightarrow> Some s | _ \<Rightarrow> None)"

text \<open>\<^verbatim>\<open>isinstance\<close> guards: the payload of the expected kind, or the given error. Python's
  \<^verbatim>\<open>bool\<close> is not accepted as an int, as in the guards of the sources.\<close>

definition as_int :: "'s json \<Rightarrow> 'e \<Rightarrow> 'e + int" where
  "as_int v e = (case v of JInt n \<Rightarrow> Inr n | _ \<Rightarrow> Inl e)"

definition as_str :: "'s json \<Rightarrow> 'e \<Rightarrow> 'e + 's" where
  "as_str v e = (case v of JStr s \<Rightarrow> Inr s | _ \<Rightarrow> Inl e)"

definition as_obj :: "'s json \<Rightarrow> 'e \<Rightarrow> 'e + ('s \<times> 's json) list" where
  "as_obj v e = (case v of JObj d \<Rightarrow> Inr d | _ \<Rightarrow> Inl e)"

definition as_list :: "'s json \<Rightarrow> 'e \<Rightarrow> 'e + 's json list" where
  "as_list v e = (case v of JList vs \<Rightarrow> Inr vs | _ \<Rightarrow> Inl e)"

lemma as_Inr [res_simps]:
  "as_int v e = Inr n \<longleftrightarrow> v = JInt n"
  "as_str v e = Inr s \<longleftrightarrow> v = JStr s"
  "as_obj v e = Inr d \<longleftrightarrow> v = JObj d"
  "as_list v e = Inr vs \<longleftrightarrow> v = JList vs"
  by (auto simp: as_int_def as_str_def as_obj_def as_list_def split: json.splits)

lemma as_simps [simp]:
  "as_int (JInt n) e = Inr n" "as_str (JStr s) e = Inr s" "as_obj (JObj d) e = Inr d"
  "as_list (JList vs) e = Inr vs"
  by (simp_all add: as_int_def as_str_def as_obj_def as_list_def)

definition json_get_or :: "('s \<times> 's json) list \<Rightarrow> 's \<Rightarrow> 's json \<Rightarrow> 's json" where
  \<comment> \<open>\<^verbatim>\<open>d.get(k, v)\<close>\<close>
  "json_get_or d k v = (case map_of d k of None \<Rightarrow> v | Some w \<Rightarrow> w)"

definition as_bool :: "'s json \<Rightarrow> 'e \<Rightarrow> 'e + bool" where
  "as_bool v e = (case v of JBool b \<Rightarrow> Inr b | _ \<Rightarrow> Inl e)"

lemma as_bool_simps [simp]: "as_bool (JBool b) e = Inr b"
  by (simp add: as_bool_def)

lemma as_bool_Inr [res_simps]: "as_bool v e = Inr b \<longleftrightarrow> v = JBool b"
  by (auto simp: as_bool_def split: json.splits)

definition opt_json :: "('a \<Rightarrow> 's json) \<Rightarrow> 'a option \<Rightarrow> 's json" where
  \<comment> \<open>\<^verbatim>\<open>None\<close> or the value\<close>
  "opt_json f x = (case x of None \<Rightarrow> JNull | Some a \<Rightarrow> f a)"

section \<open>Equality of values\<close>

definition num_of :: "'s json \<Rightarrow> rat option" where
  \<comment> \<open>the finite number a value denotes; \<^verbatim>\<open>True\<close> and \<^verbatim>\<open>False\<close> are 1 and 0\<close>
  "num_of v = (case v of JInt n \<Rightarrow> Some (of_int n) | JBool b \<Rightarrow> Some (if b then 1 else 0)
     | JFloat (Fin q) \<Rightarrow> Some q | _ \<Rightarrow> None)"

fun py_eq :: "'s json \<Rightarrow> 's json \<Rightarrow> bool"
  and py_eq_list :: "'s json list \<Rightarrow> 's json list \<Rightarrow> bool"
  and py_eq_obj :: "('s \<times> 's json) list \<Rightarrow> ('s \<times> 's json) list \<Rightarrow> bool" where
  \<comment> \<open>\<^verbatim>\<open>v == w\<close>: numbers by value whatever their type, objects whatever their order\<close>
  "py_eq (JList xs) w = (case w of JList ys \<Rightarrow> py_eq_list xs ys | _ \<Rightarrow> False)"
| "py_eq (JObj d) w = (case w of JObj d' \<Rightarrow> length d = length d' \<and> py_eq_obj d d' | _ \<Rightarrow> False)"
| "py_eq (JStr s) w = (case w of JStr t \<Rightarrow> s = t | _ \<Rightarrow> False)"
| "py_eq JNull w = (case w of JNull \<Rightarrow> True | _ \<Rightarrow> False)"
| "py_eq (JFloat PosInf) w = (case w of JFloat PosInf \<Rightarrow> True | _ \<Rightarrow> False)"
| "py_eq (JFloat NegInf) w = (case w of JFloat NegInf \<Rightarrow> True | _ \<Rightarrow> False)"
| "py_eq (JFloat NaN) w = False"
| "py_eq (JFloat (Fin q)) w = (num_of w = Some q)"
| "py_eq (JInt n) w = (num_of w = Some (of_int n))"
| "py_eq (JBool b) w = (num_of w = Some (if b then 1 else 0))"
| "py_eq_list [] ys = (ys = [])"
| "py_eq_list (x # xs) ys = (case ys of [] \<Rightarrow> False | y # zs \<Rightarrow> py_eq x y \<and> py_eq_list xs zs)"
| "py_eq_obj [] d = True"
| "py_eq_obj ((k, v) # r) d = ((case map_of d k of None \<Rightarrow> False | Some w \<Rightarrow> py_eq v w) \<and> py_eq_obj r d)"

section \<open>A bound on the length of the text\<close>

fun text_bound :: "(rat \<Rightarrow> string) \<Rightarrow> string json \<Rightarrow> int" where
  "text_bound fr (JInt n) = \<bar>n\<bar> + 1"
| "text_bound fr (JStr s) = 6 * int (length s) + 2"
| "text_bound fr (JList vs) = 2 + sum_list (map (\<lambda>v. text_bound fr v + 1) vs)"
| "text_bound fr (JObj kvs) =
     2 + sum_list (map (\<lambda>(k, v). 6 * int (length k) + 3 + text_bound fr v + 1) kvs)"
| "text_bound fr v = int (length (dumps fr v))"

lemma length_show_pos: "int (length (show_pos n)) \<le> max n 0"
proof (induction n rule: show_pos.induct)
  case (1 n)
  have "n div 10 + 1 \<le> n" if "0 < n" using that by presburger
  with 1 show ?case by (subst show_pos.simps) auto
qed

lemma length_show_int: "int (length (show_int n)) \<le> \<bar>n\<bar> + 1"
  using length_show_pos [of n] length_show_pos [of "- n"] by (auto simp: show_int_def)

lemma length_quote_str: "int (length (quote_str s)) \<le> 6 * int (length s) + 2"
proof -
  have "length (escape_char c) \<le> 6" for c by (simp add: escape_char_def)
  then have "length (concat (map escape_char s)) \<le> 6 * length s"
    by (induction s) (auto intro: add_mono)
  then show ?thesis by (simp add: quote_str_def)
qed

lemma length_commas: "int (length (commas ss)) \<le> sum_list (map (\<lambda>s. int (length s) + 1) ss)"
  by (induction ss rule: commas.induct) simp_all

lemma sum_list_sort_key: "sum_list (map f (sort_key k xs)) = sum_list (map f xs)"
  for f :: "'a \<Rightarrow> int"
  by (simp flip: sum_mset_sum_list)

lemma length_dumps: "int (length (dumps fr v)) \<le> text_bound fr v"
proof (induction fr v rule: dumps.induct)
  case (6 fr vs)
  have "sum_list (map (\<lambda>v. int (length (dumps fr v)) + 1) vs) \<le> sum_list (map (\<lambda>v. text_bound fr v + 1) vs)"
    using 6 by (intro sum_list_mono) simp
  then show ?case
    using length_commas [of "map (dumps fr) vs"] by (simp add: comp_def)
next
  case (7 fr kvs)
  let ?line = "\<lambda>(k, s). quote_str k @ CHR '':'' # s"
  have "sum_list (map (\<lambda>(k, v). int (length (?line (k, dumps fr v))) + 1) kvs) \<le>
      sum_list (map (\<lambda>(k, v). 6 * int (length k) + 3 + text_bound fr v + 1) kvs)"
  proof (rule sum_list_mono)
    fix kv assume kv: "kv \<in> set kvs"
    show "(case kv of (k, v) \<Rightarrow> int (length (?line (k, dumps fr v))) + 1) \<le>
        (case kv of (k, v) \<Rightarrow> 6 * int (length k) + 3 + text_bound fr v + 1)"
      using 7 [OF kv, of "fst kv" "snd kv"] length_quote_str [of "fst kv"]
      by (simp add: case_prod_beta)
  qed
  moreover have "sum_list (map (\<lambda>s. int (length s) + 1) (map ?line (sort_key fst (map (\<lambda>(k, v). (k, dumps fr v)) kvs)))) =
      sum_list (map (\<lambda>(k, v). int (length (?line (k, dumps fr v))) + 1) kvs)"
    by (simp only: map_map sum_list_sort_key) (simp add: comp_def case_prod_beta')
  ultimately show ?case
    using length_commas [of "map ?line (sort_key fst (map (\<lambda>(k, v). (k, dumps fr v)) kvs))"] by simp
qed (simp_all add: length_show_int length_quote_str)

end
