(* ===== verification/Fibsem_Journal.thy ===== *)
theory Fibsem_Journal
  imports Json_Text
begin

text \<open>
  The hash-chained audit journal of the lift-out evaluator
  (\<^verbatim>\<open>sources/openfibsem/fibsem_liftout_v1/journal.py\<close>). A journal is its identity and the list of
  its events; \<open>append\<close> takes the clock reading as an argument. \<open>validate_records\<close> is the check the
  grader runs on records read back from disk. The lemmas show that a journal built by \<open>append\<close>
  always validates and returns its head hash, that reading its records back gives the same
  journal, and that two validated record lists with the same head hash are the same list as
  long as the digest does not collide on the records at hand.
\<close>

definition JOURNAL_SCHEMA_VERSION :: int where "JOURNAL_SCHEMA_VERSION = 1"
definition GENESIS_HASH :: string where "GENESIS_HASH = replicate 64 (CHR ''0'')"
definition MAX_CANONICAL_BYTES :: int where "MAX_CANONICAL_BYTES = 1048576"

type_synonym obj = "(string \<times> string json) list"

text \<open>
  \<^verbatim>\<open>_plain\<close> copies a value and rejects what JSON cannot carry: here, non-finite floats. Values of
  other Python types are excluded by the type of JSON values, repeated keys by the dictionary.
\<close>

definition plain :: "string json \<Rightarrow> string + string json" where
  "plain v = (if finite_json v then Inr v else Inl ''non-finite number'')"

definition canonical_bytes :: "runtime \<Rightarrow> string json \<Rightarrow> string + string" where
  "canonical_bytes rt v =
     bind_res (plain v) (\<lambda>p.
     let payload = dumps (float_repr rt) p in
     if MAX_CANONICAL_BYTES < int (length payload) then Inl ''canonical value is too large''
     else Inr payload)"

definition canonical_digest :: "runtime \<Rightarrow> string json \<Rightarrow> string + string" where
  "canonical_digest rt v = bind_res (canonical_bytes rt v) (\<lambda>b. Inr (sha256 rt b))"

record JournalEvent =
  sequence :: int
  ev_run_id :: string
  ev_world_id :: string
  recorded_ns :: int
  kind :: string
  ev_fields :: obj
  previous_hash :: string
  event_hash :: string

record EventJournal =
  run_id :: string
  world_id :: string
  events :: "JournalEvent list"

definition unsigned_record :: "JournalEvent \<Rightarrow> obj" where
  \<comment> \<open>the dictionary \<^verbatim>\<open>base\<close> whose digest is the event hash\<close>
  "unsigned_record e =
     [(''schema_version'', JInt JOURNAL_SCHEMA_VERSION),
      (''sequence'', JInt (sequence e)),
      (''run_id'', JStr (ev_run_id e)),
      (''world_id'', JStr (ev_world_id e)),
      (''recorded_ns'', JInt (recorded_ns e)),
      (''kind'', JStr (kind e)),
      (''fields'', JObj (ev_fields e)),
      (''previous_hash'', JStr (previous_hash e))]"

definition to_dict :: "JournalEvent \<Rightarrow> obj" where
  "to_dict e = unsigned_record e @ [(''event_hash'', JStr (event_hash e))]"

definition new_journal :: "string \<Rightarrow> string \<Rightarrow> string + EventJournal" where
  "new_journal r w =
     (if r = [] \<or> w = [] then Inl ''journal run and world identities must not be empty''
      else Inr \<lparr>run_id = r, world_id = w, events = []\<rparr>)"

definition head_hash :: "EventJournal \<Rightarrow> string" where
  "head_hash j = (if events j = [] then GENESIS_HASH else event_hash (last (events j)))"

definition draft_event :: "int \<Rightarrow> string \<Rightarrow> obj \<Rightarrow> EventJournal \<Rightarrow> JournalEvent" where
  \<comment> \<open>the event about to be appended, its hash still open\<close>
  "draft_event now k fs j =
     \<lparr>sequence = int (length (events j)) + 1, ev_run_id = run_id j, ev_world_id = world_id j,
      recorded_ns = now, kind = k, ev_fields = fs, previous_hash = head_hash j, event_hash = []\<rparr>"

definition journal_append ::
  "runtime \<Rightarrow> int \<Rightarrow> string \<Rightarrow> obj \<Rightarrow> EventJournal \<Rightarrow> string + EventJournal" where
  "journal_append rt now k fs j =
     (if k = [] \<or> 128 < length k then Inl ''journal event kind is invalid''
      else bind_res (plain (JObj fs)) (\<lambda>_.
           bind_res (canonical_digest rt (JObj (unsigned_record (draft_event now k fs j)))) (\<lambda>digest.
             Inr (j\<lparr>events := events j @ [draft_event now k fs j\<lparr>event_hash := digest\<rparr>]\<rparr>))))"

definition RECORD_KEYS :: "string list" where
  "RECORD_KEYS = [''schema_version'', ''sequence'', ''run_id'', ''world_id'', ''recorded_ns'',
     ''kind'', ''fields'', ''previous_hash'', ''event_hash'']"

definition validate_record ::
  "runtime \<Rightarrow> string \<Rightarrow> string \<Rightarrow> int \<Rightarrow> string \<Rightarrow> int \<Rightarrow> string json \<Rightarrow> string + string \<times> int" where
  \<comment> \<open>one turn of the loop: the next \<^verbatim>\<open>previous\<close> hash and timestamp\<close>
  "validate_record rt rid wid expected_sequence previous previous_timestamp source =
     bind_res (plain source) (\<lambda>record.
     bind_res (as_obj record ''journal event fields are invalid'') (\<lambda>r.
     bind_res (require (has_keys r RECORD_KEYS) ''journal event fields are invalid'') (\<lambda>_.
     bind_res (require (json_get r ''run_id'' = JStr rid \<and> json_get r ''world_id'' = JStr wid)
       ''journal identity mismatch'') (\<lambda>_.
     bind_res (require (eq_int (json_get r ''schema_version'') JOURNAL_SCHEMA_VERSION)
       ''journal schema version mismatch'') (\<lambda>_.
     bind_res (require (json_get r ''sequence'' = JInt expected_sequence)
       ''journal sequence mismatch'') (\<lambda>_.
     bind_res (as_int (json_get r ''recorded_ns'') ''journal timestamp is invalid'') (\<lambda>ts.
     bind_res (require (0 < ts \<and> previous_timestamp \<le> ts) ''journal timestamp is invalid'') (\<lambda>_.
     bind_res (as_str (json_get r ''kind'') ''journal event kind is invalid'') (\<lambda>k.
     bind_res (require (k \<noteq> []) ''journal event kind is invalid'') (\<lambda>_.
     bind_res (as_obj (json_get r ''fields'') ''journal event fields are invalid'') (\<lambda>_.
     bind_res (require (is_digest (json_get r ''previous_hash'') id \<and> is_digest (json_get r ''event_hash'') id)
       ''journal event digest is invalid'') (\<lambda>_.
     bind_res (require (json_get r ''previous_hash'' = JStr previous)
       ''journal previous hash mismatch'') (\<lambda>_.
     bind_res (as_str (json_get r ''event_hash'') ''journal event digest is invalid'') (\<lambda>claimed.
     bind_res (canonical_digest rt (JObj (AList.delete ''event_hash'' r))) (\<lambda>digest.
     bind_res (require (claimed = digest) ''journal event hash mismatch'') (\<lambda>_.
       Inr (claimed, ts)))))))))))))))))"

fun validate_from ::
  "runtime \<Rightarrow> string \<Rightarrow> string \<Rightarrow> int \<Rightarrow> string \<Rightarrow> int \<Rightarrow> string json list \<Rightarrow> string + string \<times> int" where
  \<comment> \<open>the loop, with its two variables \<^verbatim>\<open>previous\<close> and \<^verbatim>\<open>previous_timestamp\<close>\<close>
  "validate_from rt rid wid n previous ts [] = Inr (previous, ts)"
| "validate_from rt rid wid n previous ts (r # rs) =
     bind_res (validate_record rt rid wid n previous ts r) (\<lambda>(h, ts').
       validate_from rt rid wid (n + 1) h ts' rs)"

definition ends_terminal :: "string json list \<Rightarrow> bool" where
  \<comment> \<open>\<^verbatim>\<open>records[-1].get("kind") == "run.terminal"\<close>\<close>
  "ends_terminal records =
     (records \<noteq> [] \<and> (case last records of JObj r \<Rightarrow> json_get r ''kind'' = JStr ''run.terminal'' | _ \<Rightarrow> False))"

definition validate_records ::
  "runtime \<Rightarrow> string json list \<Rightarrow> string \<Rightarrow> string \<Rightarrow> bool \<Rightarrow> string + string" where
  "validate_records rt records rid wid require_terminal =
     bind_res (validate_from rt rid wid 1 GENESIS_HASH 0 records) (\<lambda>(previous, _).
       if require_terminal \<and> \<not> ends_terminal records
       then Inl ''journal terminal event is missing'' else Inr previous)"

definition event_of_record :: "string \<Rightarrow> string \<Rightarrow> obj \<Rightarrow> JournalEvent" where
  "event_of_record rid wid r =
     \<lparr>sequence = (case json_get r ''sequence'' of JInt n \<Rightarrow> n | _ \<Rightarrow> 0),
      ev_run_id = rid, ev_world_id = wid,
      recorded_ns = (case json_get r ''recorded_ns'' of JInt n \<Rightarrow> n | _ \<Rightarrow> 0),
      kind = (case json_get r ''kind'' of JStr s \<Rightarrow> s | _ \<Rightarrow> []),
      ev_fields = (case json_get r ''fields'' of JObj d \<Rightarrow> d | _ \<Rightarrow> []),
      previous_hash = (case json_get r ''previous_hash'' of JStr s \<Rightarrow> s | _ \<Rightarrow> []),
      event_hash = (case json_get r ''event_hash'' of JStr s \<Rightarrow> s | _ \<Rightarrow> [])\<rparr>"

definition from_records ::
  "runtime \<Rightarrow> obj list \<Rightarrow> string \<Rightarrow> string \<Rightarrow> bool \<Rightarrow> string + EventJournal" where
  "from_records rt records rid wid require_terminal =
     bind_res (validate_records rt (map JObj records) rid wid require_terminal) (\<lambda>_.
     bind_res (new_journal rid wid) (\<lambda>j.
       Inr (j\<lparr>events := map (event_of_record rid wid) records\<rparr>)))"

section \<open>Building and validating\<close>

lemma validate_from_append:
  "validate_from rt rid wid n p ts (xs @ ys) =
     bind_res (validate_from rt rid wid n p ts xs) (\<lambda>(h, ts').
       validate_from rt rid wid (n + int (length xs)) h ts' ys)"
proof (induction xs arbitrary: n p ts)
  case (Cons x xs)
  show ?case
    by (cases "validate_record rt rid wid n p ts x") (auto simp: Cons.IH ac_simps)
qed simp

definition hex_digest_ok :: "runtime \<Rightarrow> bool" where
  \<comment> \<open>\<^verbatim>\<open>hexdigest()\<close> returns 64 lowercase hexadecimal characters\<close>
  "hex_digest_ok rt \<longleftrightarrow> (\<forall>s. is_digest (JStr (sha256 rt s)) id)"

lemma genesis_is_digest [simp]: "is_digest (JStr GENESIS_HASH) id"
  by (simp add: is_digest_def GENESIS_HASH_def list_all_iff)

lemma canonical_digest_is_digest:
  "hex_digest_ok rt \<Longrightarrow> canonical_digest rt v = Inr d \<Longrightarrow> is_digest (JStr d) id"
  by (auto simp: canonical_digest_def hex_digest_ok_def res_simps)

lemma validate_own_record:
  assumes "ev_run_id e = rid" "ev_world_id e = wid" "sequence e = n" "previous_hash e = h"
    and "0 < recorded_ns e" "ts \<le> recorded_ns e" "kind e \<noteq> []" "finite_json (JObj (ev_fields e))"
    and "canonical_digest rt (JObj (unsigned_record e)) = Inr (event_hash e)"
    and "is_digest (JStr h) id" "is_digest (JStr (event_hash e)) id"
  shows "validate_record rt rid wid n h ts (JObj (to_dict e)) = Inr (event_hash e, recorded_ns e)"
proof -
  have "AList.delete ''event_hash'' (to_dict e) = unsigned_record e"
    by (simp add: to_dict_def unsigned_record_def)
  moreover have "finite_json (JObj (to_dict e))"
    using assms(8) by (simp add: to_dict_def unsigned_record_def)
  moreover have "has_keys (to_dict e) RECORD_KEYS"
    by (simp add: has_keys_def to_dict_def unsigned_record_def RECORD_KEYS_def)
  moreover have "json_get (to_dict e) ''schema_version'' = JInt JOURNAL_SCHEMA_VERSION"
    "json_get (to_dict e) ''sequence'' = JInt n" "json_get (to_dict e) ''run_id'' = JStr rid"
    "json_get (to_dict e) ''world_id'' = JStr wid"
    "json_get (to_dict e) ''recorded_ns'' = JInt (recorded_ns e)"
    "json_get (to_dict e) ''kind'' = JStr (kind e)"
    "json_get (to_dict e) ''fields'' = JObj (ev_fields e)"
    "json_get (to_dict e) ''previous_hash'' = JStr h"
    "json_get (to_dict e) ''event_hash'' = JStr (event_hash e)"
    using assms(1-4) by (simp_all add: to_dict_def unsigned_record_def)
  ultimately show ?thesis
    using assms(5-7,9-11) by (simp add: validate_record_def plain_def eq_int_def)
qed

definition last_ns :: "EventJournal \<Rightarrow> int" where
  "last_ns j = (if events j = [] then 0 else recorded_ns (last (events j)))"

inductive journal_run :: "runtime \<Rightarrow> EventJournal \<Rightarrow> bool" for rt :: runtime where
  start: "new_journal r w = Inr j \<Longrightarrow> journal_run rt j"
| extend: "journal_run rt j \<Longrightarrow> 0 < now \<Longrightarrow> last_ns j \<le> now \<Longrightarrow>
     journal_append rt now k fs j = Inr j' \<Longrightarrow> journal_run rt j'"

lemma new_journal_Inr:
  "new_journal r w = Inr j \<longleftrightarrow> r \<noteq> [] \<and> w \<noteq> [] \<and> j = \<lparr>run_id = r, world_id = w, events = []\<rparr>"
  by (auto simp: new_journal_def)

lemma unsigned_record_hash [simp]: "unsigned_record (e\<lparr>event_hash := d\<rparr>) = unsigned_record e"
  by (simp add: unsigned_record_def)

lemma draft_event_simps [simp]:
  "sequence (draft_event now k fs j) = int (length (events j)) + 1"
  "ev_run_id (draft_event now k fs j) = run_id j"
  "ev_world_id (draft_event now k fs j) = world_id j"
  "recorded_ns (draft_event now k fs j) = now" "kind (draft_event now k fs j) = k"
  "ev_fields (draft_event now k fs j) = fs" "previous_hash (draft_event now k fs j) = head_hash j"
  by (simp_all add: draft_event_def)

lemma journal_append_Inr:
  "journal_append rt now k fs j = Inr j' \<longleftrightarrow>
     k \<noteq> [] \<and> length k \<le> 128 \<and> finite_json (JObj fs) \<and>
     (\<exists>d. canonical_digest rt (JObj (unsigned_record (draft_event now k fs j))) = Inr d \<and>
          j' = j\<lparr>events := events j @ [draft_event now k fs j\<lparr>event_hash := d\<rparr>]\<rparr>)"
  by (auto simp: journal_append_def plain_def res_simps)

definition records_of :: "EventJournal \<Rightarrow> string json list" where
  "records_of j = map (JObj \<circ> to_dict) (events j)"

definition journal_ok :: "runtime \<Rightarrow> EventJournal \<Rightarrow> bool" where
  "journal_ok rt j \<longleftrightarrow>
     validate_from rt (run_id j) (world_id j) 1 GENESIS_HASH 0 (records_of j) =
       Inr (head_hash j, last_ns j) \<and>
     is_digest (JStr (head_hash j)) id \<and> run_id j \<noteq> [] \<and> world_id j \<noteq> [] \<and>
     (\<forall>e \<in> set (events j). ev_run_id e = run_id j \<and> ev_world_id e = world_id j)"

lemma journal_ok_new: "new_journal r w = Inr j \<Longrightarrow> journal_ok rt j"
  by (auto simp: new_journal_Inr journal_ok_def records_of_def head_hash_def last_ns_def)

lemma journal_ok_append:
  assumes "journal_ok rt j" "0 < now" "last_ns j \<le> now" "hex_digest_ok rt"
    and "journal_append rt now k fs j = Inr j'"
  shows "journal_ok rt j'"
proof -
  obtain d where dig: "canonical_digest rt (JObj (unsigned_record (draft_event now k fs j))) = Inr d"
    and j': "j' = j\<lparr>events := events j @ [draft_event now k fs j\<lparr>event_hash := d\<rparr>]\<rparr>"
    and k: "k \<noteq> []" and fs: "finite_json (JObj fs)"
    using assms(5) by (auto simp: journal_append_Inr)
  let ?e = "draft_event now k fs j\<lparr>event_hash := d\<rparr>"
  have d: "is_digest (JStr d) id"
    using assms(4) dig by (rule canonical_digest_is_digest)
  have "validate_record rt (run_id j) (world_id j) (1 + int (length (events j))) (head_hash j)
      (last_ns j) (JObj (to_dict ?e)) = Inr (event_hash ?e, recorded_ns ?e)"
    using assms(1-3) dig k fs d
    by (intro validate_own_record) (simp_all add: journal_ok_def ac_simps)
  then show ?thesis
    using assms(1) d
    by (auto simp: journal_ok_def records_of_def j' validate_from_append head_hash_def last_ns_def)
qed

lemma journal_run_ok: "journal_run rt j \<Longrightarrow> hex_digest_ok rt \<Longrightarrow> journal_ok rt j"
  by (induction rule: journal_run.induct) (auto intro: journal_ok_new journal_ok_append)

lemma event_of_own_record:
  "ev_run_id e = rid \<Longrightarrow> ev_world_id e = wid \<Longrightarrow> event_of_record rid wid (to_dict e) = e"
  by (cases e) (simp add: event_of_record_def to_dict_def unsigned_record_def)

section \<open>Tamper evidence\<close>

definition collision_free :: "runtime \<Rightarrow> obj set \<Rightarrow> bool" where
  \<comment> \<open>the digest separates the given dictionaries and never yields the genesis value on them\<close>
  "collision_free rt S \<longleftrightarrow>
     (\<forall>x \<in> S. canonical_digest rt (JObj x) \<noteq> Inr GENESIS_HASH) \<and>
     (\<forall>x \<in> S. \<forall>y \<in> S. canonical_digest rt (JObj x) = canonical_digest rt (JObj y) \<longrightarrow>
        map_of x = map_of y)"

definition unsigned_set :: "string json list \<Rightarrow> obj set" where
  \<comment> \<open>the dictionaries the validator hashes\<close>
  "unsigned_set rs = {AList.delete ''event_hash'' d | d. JObj d \<in> set rs}"

definition same_dict :: "string json \<Rightarrow> string json \<Rightarrow> bool" where
  "same_dict r r' \<longleftrightarrow> (\<exists>d d'. r = JObj d \<and> r' = JObj d' \<and> map_of d = map_of d')"

lemma validate_record_Inr:
  assumes "validate_record rt rid wid n p ts r = Inr (h, ts')"
  obtains d where "r = JObj d" "canonical_digest rt (JObj (AList.delete ''event_hash'' d)) = Inr h"
    "map_of d ''event_hash'' = Some (JStr h)" "map_of d ''previous_hash'' = Some (JStr p)"
    "map_of d ''sequence'' = Some (JInt n)"
proof -
  from assms obtain d where d: "r = JObj d" "json_get d ''previous_hash'' = JStr p"
    "json_get d ''sequence'' = JInt n" "json_get d ''event_hash'' = JStr h"
    "canonical_digest rt (JObj (AList.delete ''event_hash'' d)) = Inr h"
    by (auto simp: validate_record_def plain_def res_simps split: if_splits)
  have get: "json_get d k = JStr s \<Longrightarrow> map_of d k = Some (JStr s)"
    "json_get d k = JInt i \<Longrightarrow> map_of d k = Some (JInt i)" for k s i
    by (auto simp: json_get_def split: option.splits)
  show ?thesis using d by (intro that) (auto intro: get)
qed

lemma map_of_delete_eq:
  assumes "map_of (AList.delete k d) = map_of (AList.delete k d')" and "map_of d k = map_of d' k"
  shows "map_of d = map_of d'"
proof
  fix x
  show "map_of d x = map_of d' x"
    using fun_cong [OF assms(1), of x] assms(2) by (cases "x = k") (simp_all add: delete_conv')
qed

lemma validated_same_head:
  assumes "validate_from rt rid wid 1 GENESIS_HASH 0 rs = Inr (h, ts)"
    and "validate_from rt rid wid 1 GENESIS_HASH 0 rs' = Inr (h, ts')"
    and "collision_free rt S" and "unsigned_set rs \<subseteq> S" and "unsigned_set rs' \<subseteq> S"
  shows "list_all2 same_dict rs rs'"
  using assms
proof (induction rs arbitrary: rs' h ts ts' rule: rev_induct)
  case Nil
  show ?case
  proof (cases rs' rule: rev_cases)
    case (snoc xs x)
    with Nil.prems obtain p t where
      "validate_record rt rid wid (1 + int (length xs)) p t x = Inr (GENESIS_HASH, ts')"
      by (auto simp: validate_from_append res_simps)
    then obtain d where "x = JObj d"
      "canonical_digest rt (JObj (AList.delete ''event_hash'' d)) = Inr GENESIS_HASH"
      by (rule validate_record_Inr)
    with Nil.prems(3,5) snoc show ?thesis by (auto simp: collision_free_def unsigned_set_def)
  qed simp
next
  case (snoc r rs)
  from snoc.prems(1) obtain p t where
    pre: "validate_from rt rid wid 1 GENESIS_HASH 0 rs = Inr (p, t)"
    and last: "validate_record rt rid wid (1 + int (length rs)) p t r = Inr (h, ts)"
    by (auto simp: validate_from_append res_simps)
  from last obtain d where d: "r = JObj d"
    "canonical_digest rt (JObj (AList.delete ''event_hash'' d)) = Inr h"
    "map_of d ''event_hash'' = Some (JStr h)" "map_of d ''previous_hash'' = Some (JStr p)"
    "map_of d ''sequence'' = Some (JInt (1 + int (length rs)))"
    by (rule validate_record_Inr)
  show ?case
  proof (cases rs' rule: rev_cases)
    case Nil
    with snoc.prems d show ?thesis by (auto simp: collision_free_def unsigned_set_def)
  next
    case (snoc xs x)
    with snoc.prems(2) obtain p' t' where
      pre': "validate_from rt rid wid 1 GENESIS_HASH 0 xs = Inr (p', t')"
      and last': "validate_record rt rid wid (1 + int (length xs)) p' t' x = Inr (h, ts')"
      by (auto simp: validate_from_append res_simps)
    from last' obtain d' where d': "x = JObj d'"
      "canonical_digest rt (JObj (AList.delete ''event_hash'' d')) = Inr h"
      "map_of d' ''event_hash'' = Some (JStr h)" "map_of d' ''previous_hash'' = Some (JStr p')"
      "map_of d' ''sequence'' = Some (JInt (1 + int (length xs)))"
      by (rule validate_record_Inr)
    have "AList.delete ''event_hash'' d \<in> S" "AList.delete ''event_hash'' d' \<in> S"
      using snoc.prems(4,5) d(1) d'(1) snoc by (auto simp: unsigned_set_def)
    then have "map_of (AList.delete ''event_hash'' d) = map_of (AList.delete ''event_hash'' d')"
      using snoc.prems(3) d(2) d'(2) unfolding collision_free_def by metis
    then have eq: "map_of d = map_of d'" by (rule map_of_delete_eq) (simp add: d(3) d'(3))
    then have "p' = p" using d(4) d'(4) by simp
    with pre pre' snoc.prems(3-5) snoc have "list_all2 same_dict rs xs"
      by (intro snoc.IH [of p t xs t']) (auto simp: unsigned_set_def)
    moreover have "same_dict r x" using eq d(1) d'(1) by (auto simp: same_dict_def)
    ultimately show ?thesis by (simp add: snoc list_all2_appendI)
  qed
qed

lemma journal_run_head:
  assumes "journal_run rt j" and "hex_digest_ok rt"
  shows "validate_records rt (records_of j) (run_id j) (world_id j) False = Inr (head_hash j)"
  using journal_run_ok [OF assms] by (simp add: journal_ok_def validate_records_def)

section \<open>A concrete journal\<close>

definition example_runtime :: runtime where
  "example_runtime = \<lparr>float_repr = (\<lambda>_. ''0.0''), sha256 = (\<lambda>s. replicate 64 (CHR ''1''))\<rparr>"

definition example_event :: JournalEvent where
  "example_event = \<lparr>sequence = 1, ev_run_id = ''r'', ev_world_id = ''w'', recorded_ns = 7,
     kind = ''run.terminal'', ev_fields = [(''safe'', JBool True)], previous_hash = GENESIS_HASH,
     event_hash = replicate 64 (CHR ''1'')\<rparr>"

definition example_journal :: EventJournal where
  "example_journal = \<lparr>run_id = ''r'', world_id = ''w'', events = [example_event]\<rparr>"

lemma example_digest:
  "canonical_digest example_runtime (JObj (unsigned_record example_event)) =
     Inr (replicate 64 (CHR ''1''))"
  by code_simp

lemma example_hex: "hex_digest_ok example_runtime"
  by (simp add: hex_digest_ok_def is_digest_def example_runtime_def list_all_iff)

lemma example_journal_run: "journal_run example_runtime example_journal"
proof (rule journal_run.extend)
  let ?j = "\<lparr>run_id = ''r'', world_id = ''w'', events = []\<rparr>"
  show "journal_run example_runtime ?j"
    by (rule journal_run.start [of "''r''" "''w''"]) (simp add: new_journal_def)
  have "draft_event 7 ''run.terminal'' [(''safe'', JBool True)] ?j\<lparr>event_hash := replicate 64 (CHR ''1'')\<rparr>
      = example_event"
    by (simp add: draft_event_def example_event_def head_hash_def)
  moreover have "unsigned_record (draft_event 7 ''run.terminal'' [(''safe'', JBool True)] ?j) =
      unsigned_record example_event"
    by (metis calculation unsigned_record_hash)
  ultimately show "journal_append example_runtime 7 ''run.terminal'' [(''safe'', JBool True)] ?j =
      Inr example_journal"
    by (simp add: journal_append_Inr example_digest example_journal_def)
qed (simp_all add: last_ns_def)

section \<open>Properties\<close>

text \<open>
  C26. A journal that was only ever extended by \<open>append\<close>, with a monotone positive clock, always
  passes its own validation, and the hash the validator returns is the journal's head hash.
\<close>

theorem journal_run_validates:
  assumes "journal_run rt j" and "hex_digest_ok rt"
  shows "validate_records rt (records_of j) (run_id j) (world_id j) False = Inr (head_hash j)"
  using assms by (rule journal_run_head)

theorem journal_run_validates_witness:
  "validate_records example_runtime (records_of example_journal) ''r'' ''w'' False =
     Inr (replicate 64 (CHR ''1''))"
  using journal_run_validates [OF example_journal_run example_hex]
  by (simp add: example_journal_def head_hash_def example_event_def)

text \<open>
  C27. Reading a journal's exported records back gives exactly the journal that wrote them.
\<close>

theorem from_records_round_trip:
  assumes "journal_run rt j" and "hex_digest_ok rt"
  shows "from_records rt (map to_dict (events j)) (run_id j) (world_id j) False = Inr j"
proof -
  have ok: "journal_ok rt j" using assms by (rule journal_run_ok)
  have "map JObj (map to_dict (events j)) = records_of j" by (simp add: records_of_def)
  moreover have "map (event_of_record (run_id j) (world_id j)) (map to_dict (events j)) = events j"
    using ok by (intro nth_equalityI) (auto simp: journal_ok_def event_of_own_record)
  ultimately show ?thesis
    using ok journal_run_head [OF assms]
    by (simp add: from_records_def new_journal_def journal_ok_def)
qed

theorem from_records_round_trip_witness:
  "from_records example_runtime [to_dict example_event] ''r'' ''w'' False = Inr example_journal"
  using from_records_round_trip [OF example_journal_run example_hex]
  by (simp add: example_journal_def)

text \<open>
  C11. The hash chain is tamper evident: if two record lists of one run both validate with the same
  head hash, and the digest does not collide on the records at hand, then the lists have the same
  length and agree record by record, so no event was changed, dropped, added or reordered.
\<close>

theorem journal_tamper_evident:
  assumes "validate_records rt rs rid wid t = Inr h" and "validate_records rt rs' rid wid t' = Inr h"
    and "collision_free rt (unsigned_set rs \<union> unsigned_set rs')"
  shows "length rs = length rs' \<and> list_all2 same_dict rs rs'"
proof -
  obtain ts ts' where "validate_from rt rid wid 1 GENESIS_HASH 0 rs = Inr (h, ts)"
    "validate_from rt rid wid 1 GENESIS_HASH 0 rs' = Inr (h, ts')"
    using assms(1,2) by (auto simp: validate_records_def res_simps split: if_splits)
  then have "list_all2 same_dict rs rs'"
    by (rule validated_same_head [OF _ _ assms(3)]) simp_all
  then show ?thesis by (simp add: list_all2_lengthD)
qed

theorem journal_tamper_evident_witness:
  "list_all2 same_dict (records_of example_journal) (records_of example_journal)"
proof -
  have v: "validate_records example_runtime (records_of example_journal) ''r'' ''w'' False =
      Inr (replicate 64 (CHR ''1''))"
    using journal_run_head [OF example_journal_run example_hex]
    by (simp add: example_journal_def head_hash_def example_event_def)
  have "AList.delete ''event_hash'' (to_dict example_event) = unsigned_record example_event"
    by (simp add: to_dict_def unsigned_record_def)
  then have "unsigned_set (records_of example_journal) = {unsigned_record example_event}"
    by (simp add: unsigned_set_def records_of_def example_journal_def)
  then have "collision_free example_runtime
      (unsigned_set (records_of example_journal) \<union> unsigned_set (records_of example_journal))"
    by (simp add: collision_free_def example_digest GENESIS_HASH_def)
  from journal_tamper_evident [OF v v this] show ?thesis by blast
qed

end
