(* ===== verification/Float64.thy ===== *)
theory Float64
  imports Prelude
begin

text \<open>
  Python floats. A finite \<^verbatim>\<open>float\<close> is the rational number it denotes, and every arithmetic
  operation is the exact one followed by \<open>fl\<close>, IEEE 754 rounding to nearest, ties to even, with
  53 significant bits and the subnormal threshold \<open>2 ^ -1074\<close>. Overflow to infinity is not
  modelled (no value of the scored quantities comes near \<open>2 ^ 1024\<close>) and the two zeros are one
  value. \<open>py_round6\<close> is \<^verbatim>\<open>round(x, 6)\<close>: the nearest multiple of \<open>10 ^ -6\<close> of the exact value,
  ties to even, then the nearest float. \<open>fsum\<close> is \<^verbatim>\<open>sum(values)\<close> of the interpreter the
  repository pins (3.11): a plain left fold.

  The locale \<open>rounding\<close> is what the scoring code needs of an operation that rounds: it is
  monotone and leaves the integers up to \<open>2 ^ 53\<close> alone. All bounds on scores are proved in it
  once; \<open>fl\<close> and \<open>py_round6\<close> are its two instances.
\<close>

named_theorems float_bounds

section \<open>Rounding to nearest, ties to even\<close>

definition round_half_even :: "rat \<Rightarrow> int" where
  "round_half_even x =
     (let f = \<lfloor>x\<rfloor>; d = x - of_int f in
      if d < 1 / 2 then f
      else if 1 / 2 < d then f + 1
      else if even f then f else f + 1)"

definition pow2 :: "int \<Rightarrow> rat" where
  "pow2 e = (if 0 \<le> e then 2 ^ nat e else 1 / 2 ^ nat (- e))"

function bits :: "int \<Rightarrow> int" where
  \<comment> \<open>\<^verbatim>\<open>int.bit_length\<close>\<close>
  "bits n = (if n \<le> 0 then 0 else 1 + bits (n div 2))"
  by pat_completeness auto
termination
  by (relation "measure nat") auto

declare bits.simps [simp del]

definition ilog2 :: "rat \<Rightarrow> int" where
  \<comment> \<open>the largest \<open>e\<close> with \<open>2 ^ e \<le> x\<close>, for positive \<open>x\<close>\<close>
  "ilog2 x =
     (case quotient_of x of (p, q) \<Rightarrow>
        let e = bits p - bits q
        in if pow2 e \<le> x then e else e - 1)"

definition ulp_exp :: "rat \<Rightarrow> int" where
  "ulp_exp x = max (ilog2 x - 52) (- 1074)"

definition fl_pos :: "rat \<Rightarrow> rat" where
  "fl_pos x = of_int (round_half_even (x / pow2 (ulp_exp x))) * pow2 (ulp_exp x)"

definition fl :: "rat \<Rightarrow> rat" where
  "fl x = (if x = 0 then 0 else if 0 < x then fl_pos x else - fl_pos (- x))"

definition py_round6 :: "rat \<Rightarrow> rat" where
  "py_round6 x = fl (of_int (round_half_even (x * 1000000)) / 1000000)"

definition fadd :: "rat \<Rightarrow> rat \<Rightarrow> rat" where "fadd x y = fl (x + y)"
definition fsub :: "rat \<Rightarrow> rat \<Rightarrow> rat" where "fsub x y = fl (x - y)"
definition fmul :: "rat \<Rightarrow> rat \<Rightarrow> rat" where "fmul x y = fl (x * y)"
definition fdiv :: "rat \<Rightarrow> rat \<Rightarrow> rat" where "fdiv x y = fl (x / y)"

definition fsum :: "rat list \<Rightarrow> rat" where
  "fsum xs = foldl fadd 0 xs"

section \<open>Properties of the integer rounding\<close>

lemma round_half_even_mono: "x \<le> y \<Longrightarrow> round_half_even x \<le> round_half_even y"
proof -
  assume le: "x \<le> y"
  then have fle: "\<lfloor>x\<rfloor> \<le> \<lfloor>y\<rfloor>"
    by (rule floor_mono)
  have lo: "of_int \<lfloor>z\<rfloor> \<le> z" and hi: "z < of_int \<lfloor>z\<rfloor> + 1" for z :: rat
    by linarith+
  show ?thesis
  proof (cases "\<lfloor>x\<rfloor> = \<lfloor>y\<rfloor>")
    case True
    then show ?thesis
      using le by (auto simp: round_half_even_def Let_def)
  next
    case False
    with fle have "\<lfloor>x\<rfloor> + 1 \<le> \<lfloor>y\<rfloor>"
      by linarith
    then show ?thesis
      by (auto simp: round_half_even_def Let_def)
  qed
qed

lemma round_half_even_of_int [simp]: "round_half_even (of_int n) = n"
  by (simp add: round_half_even_def)

lemma round_half_even_numeral [simp]:
  "round_half_even 0 = 0" "round_half_even 1 = 1" "round_half_even (numeral k) = numeral k"
  using round_half_even_of_int [of 0] round_half_even_of_int [of 1]
    round_half_even_of_int [of "numeral k"] by simp_all

section \<open>Binary exponents\<close>

lemma pow2_pos [simp]: "0 < pow2 e"
  by (simp add: pow2_def)

lemma pow2_nonzero [simp]: "pow2 e \<noteq> 0"
  using pow2_pos [of e] by linarith

lemma pow2_eq_powi: "pow2 e = 2 powi e"
  by (simp add: pow2_def power_int_def field_simps)

lemma pow2_add: "pow2 (a + b) = pow2 a * pow2 b"
  by (simp add: pow2_eq_powi power_int_add)

lemma pow2_mono: "a \<le> b \<Longrightarrow> pow2 a \<le> pow2 b"
  by (simp add: pow2_eq_powi power_int_increasing)

lemma pow2_strict_mono: "a < b \<Longrightarrow> pow2 a < pow2 b"
  by (simp add: pow2_eq_powi power_int_strict_increasing)

lemma pow2_less_D: "pow2 a < pow2 b \<Longrightarrow> a < b"
  using pow2_mono [of b a] by linarith

lemma pow2_ratio_int: "a \<le> b \<Longrightarrow> \<exists>m :: int. pow2 b / pow2 a = of_int m"
proof -
  assume "a \<le> b"
  then have "pow2 b = pow2 (b - a) * pow2 a"
    by (simp flip: pow2_add)
  then have "pow2 b / pow2 a = of_int (2 ^ nat (b - a))"
    using \<open>a \<le> b\<close> by (simp add: pow2_def)
  then show ?thesis ..
qed

lemma bits_Suc: "0 < n \<Longrightarrow> \<exists>k. bits n = int (Suc k) \<and> 2 ^ k \<le> n \<and> n < 2 ^ Suc k"
proof (induction n rule: bits.induct)
  case (1 n)
  show ?case
  proof (cases "n = 1")
    case True
    then show ?thesis by (simp add: bits.simps exI [of _ 0])
  next
    case False
    with "1.prems" have "0 < n div 2" by simp
    with "1.IH" "1.prems" obtain k where
      k: "bits (n div 2) = int (Suc k)" "2 ^ k \<le> n div 2" "n div 2 < 2 ^ Suc k"
      by auto
    have "bits n = int (Suc (Suc k))"
      using "1.prems" k(1) by (simp add: bits.simps [of n])
    moreover have "2 ^ Suc k \<le> n" "n < 2 ^ Suc (Suc k)"
      using k(2,3) by simp_all
    ultimately show ?thesis by blast
  qed
qed

lemma bits_pow2:
  assumes "0 < n"
  shows "pow2 (bits n - 1) \<le> of_int n" and "of_int n < pow2 (bits n)"
proof -
  obtain k where k: "bits n = int (Suc k)" "2 ^ k \<le> n" "n < 2 ^ Suc k"
    using bits_Suc [OF assms] by blast
  have "pow2 (bits n - 1) = of_int (2 ^ k)" using k(1) by (simp add: pow2_def)
  then show "pow2 (bits n - 1) \<le> of_int n" using k(2) by (metis of_int_le_iff)
  have "pow2 (bits n) = of_int (2 ^ Suc k)" using k(1) by (simp add: pow2_def nat_add_distrib)
  then show "of_int n < pow2 (bits n)" using k(3) by (metis of_int_less_iff)
qed

lemma quotient_pow2_bounds:
  assumes "0 < p" and "0 < q"
  defines "e \<equiv> bits p - bits q"
  shows "pow2 (e - 1) \<le> of_int p / of_int q" and "of_int p / of_int q < pow2 (e + 1)"
proof -
  have q: "(0 :: rat) < of_int q" using assms(2) by simp
  have "pow2 (e - 1) * of_int q \<le> pow2 (e - 1) * pow2 (bits q)"
    using bits_pow2(2) [OF assms(2)] by (simp add: mult_left_mono less_imp_le)
  also have "\<dots> = pow2 (bits p - 1)" by (simp add: e_def flip: pow2_add)
  also have "\<dots> \<le> of_int p" by (rule bits_pow2(1) [OF assms(1)])
  finally show "pow2 (e - 1) \<le> of_int p / of_int q" using q by (simp add: le_divide_eq)
  have "of_int p < pow2 (bits p)" by (rule bits_pow2(2) [OF assms(1)])
  also have "\<dots> = pow2 (e + 1) * pow2 (bits q - 1)" by (simp add: e_def flip: pow2_add)
  also have "\<dots> \<le> pow2 (e + 1) * of_int q"
    using bits_pow2(1) [OF assms(2)] by (simp add: mult_left_mono less_imp_le)
  finally show "of_int p / of_int q < pow2 (e + 1)" using q by (simp add: divide_less_eq)
qed

lemma ilog2_bounds:
  assumes "0 < x"
  shows "pow2 (ilog2 x) \<le> x" and "x < pow2 (ilog2 x + 1)"
proof -
  obtain p q where pq: "quotient_of x = (p, q)"
    by (cases "quotient_of x")
  have q: "0 < q" and x: "x = of_int p / of_int q"
    using pq by (simp_all add: quotient_of_denom_pos quotient_of_div)
  with assms have p: "0 < p"
    by (simp add: zero_less_divide_iff)
  have b: "pow2 (bits p - bits q - 1) \<le> x" "x < pow2 (bits p - bits q + 1)"
    using quotient_pow2_bounds [OF p q] by (simp_all add: x)
  have il: "ilog2 x = (if pow2 (bits p - bits q) \<le> x then bits p - bits q else bits p - bits q - 1)"
    by (simp add: ilog2_def pq Let_def)
  show "pow2 (ilog2 x) \<le> x" using b(1) by (simp add: il)
  show "x < pow2 (ilog2 x + 1)" using b(2) by (simp add: il)
qed

lemma ilog2_mono: "0 < x \<Longrightarrow> x \<le> y \<Longrightarrow> ilog2 x \<le> ilog2 y"
proof -
  assume x: "0 < x" and le: "x \<le> y"
  have "pow2 (ilog2 x) \<le> x" by (rule ilog2_bounds(1) [OF x])
  also have "x \<le> y" by (rule le)
  also have "y < pow2 (ilog2 y + 1)" by (rule ilog2_bounds(2)) (use x le in linarith)
  finally show ?thesis by (auto dest: pow2_less_D)
qed

lemma ilog2_le: "0 < x \<Longrightarrow> x < pow2 k \<Longrightarrow> ilog2 x < k"
  using ilog2_bounds(1) [of x] by (auto intro: pow2_less_D order_le_less_trans)

section \<open>Rounding of floats\<close>

lemma fl_pos_le:
  assumes "x \<le> g" and "g / pow2 (ulp_exp x) = of_int m"
  shows "fl_pos x \<le> g"
proof -
  have "x / pow2 (ulp_exp x) \<le> of_int m"
    using assms by (metis divide_right_mono less_imp_le pow2_pos)
  then have "round_half_even (x / pow2 (ulp_exp x)) \<le> m"
    using round_half_even_mono [of _ "of_int m"] by simp
  then have "fl_pos x \<le> of_int m * pow2 (ulp_exp x)"
    by (simp add: fl_pos_def mult_right_mono less_imp_le)
  also have "\<dots> = g" by (simp flip: assms(2))
  finally show ?thesis .
qed

lemma fl_pos_ge:
  assumes "g \<le> x" and "g / pow2 (ulp_exp x) = of_int m"
  shows "g \<le> fl_pos x"
proof -
  have "of_int m \<le> x / pow2 (ulp_exp x)"
    using assms by (metis divide_right_mono less_imp_le pow2_pos)
  then have "m \<le> round_half_even (x / pow2 (ulp_exp x))"
    using round_half_even_mono [of "of_int m"] by simp
  then have "of_int m * pow2 (ulp_exp x) \<le> fl_pos x"
    by (simp add: fl_pos_def mult_right_mono less_imp_le)
  then show ?thesis by (simp flip: assms(2))
qed

lemma fl_pos_nonneg: "0 \<le> x \<Longrightarrow> 0 \<le> fl_pos x"
  by (rule fl_pos_ge [where m = 0]) simp_all

lemma fl_pos_mono_binade:
  assumes "0 < x" and "x \<le> y" and "ulp_exp x < ulp_exp y"
  shows "fl_pos x \<le> fl_pos y"
proof -
  have y: "0 < y" using assms by linarith
  have ex: "ulp_exp y = ilog2 y - 52" and less: "ilog2 x < ilog2 y"
    using assms(3) by (auto simp: ulp_exp_def max_def split: if_splits)
  obtain m where m: "pow2 (ilog2 y) / pow2 (ulp_exp y) = of_int m"
    using pow2_ratio_int [of "ulp_exp y" "ilog2 y"] ex by auto
  obtain n where n: "pow2 (ilog2 y) / pow2 (ulp_exp x) = of_int n"
    using pow2_ratio_int [of "ulp_exp x" "ilog2 y"] ex assms(3) by auto
  have "x < pow2 (ilog2 x + 1)" by (rule ilog2_bounds(2) [OF assms(1)])
  also have "\<dots> \<le> pow2 (ilog2 y)" using less by (intro pow2_mono) simp
  finally have "fl_pos x \<le> pow2 (ilog2 y)" using n by (intro fl_pos_le) simp_all
  also have "\<dots> \<le> fl_pos y" using ilog2_bounds(1) [OF y] m by (intro fl_pos_ge)
  finally show ?thesis .
qed

lemma fl_pos_mono: "0 < x \<Longrightarrow> x \<le> y \<Longrightarrow> fl_pos x \<le> fl_pos y"
proof -
  assume x: "0 < x" and le: "x \<le> y"
  have "ulp_exp x \<le> ulp_exp y"
    using ilog2_mono [OF x le] by (auto simp: ulp_exp_def)
  then consider "ulp_exp x = ulp_exp y" | "ulp_exp x < ulp_exp y" by linarith
  then show ?thesis
  proof cases
    case 1
    have "x / pow2 (ulp_exp y) \<le> y / pow2 (ulp_exp y)"
      using le by (simp add: divide_right_mono less_imp_le)
    then show ?thesis
      by (simp add: fl_pos_def 1 mult_right_mono less_imp_le round_half_even_mono)
  next
    case 2
    with x le show ?thesis by (rule fl_pos_mono_binade)
  qed
qed

lemma fl_mono: "x \<le> y \<Longrightarrow> fl x \<le> fl y"
proof -
  assume le: "x \<le> y"
  consider "0 < x" | "x \<le> 0" "0 \<le> y" | "y < 0" by linarith
  then show ?thesis
  proof cases
    case 1
    with le show ?thesis by (simp add: fl_def fl_pos_mono)
  next
    case 2
    have "fl x \<le> 0" using 2 fl_pos_nonneg [of "- x"] by (simp add: fl_def)
    also have "0 \<le> fl y" using 2 fl_pos_nonneg [of y] by (simp add: fl_def)
    finally show ?thesis .
  next
    case 3
    with le have "fl_pos (- y) \<le> fl_pos (- x)" by (intro fl_pos_mono) simp_all
    with 3 le show ?thesis by (simp add: fl_def)
  qed
qed

lemma fl_pos_exact_small:
  assumes "0 < m" and "m < 2 ^ 53" and "- 1074 \<le> e"
  shows "fl_pos (of_int m * pow2 e) = of_int m * pow2 e"
proof -
  let ?x = "of_int m * pow2 e"
  have pos: "0 < ?x" using assms by simp
  have "of_int m < (pow2 53 :: rat)"
    using assms(2) by (simp add: pow2_def)
  then have "?x < pow2 (e + 53)"
    by (simp add: pow2_add mult.commute)
  then have "ilog2 ?x < e + 53" by (rule ilog2_le [OF pos])
  then have "ulp_exp ?x \<le> e" using assms(3) by (simp add: ulp_exp_def)
  then obtain k where "pow2 e / pow2 (ulp_exp ?x) = of_int k"
    using pow2_ratio_int by blast
  then have "?x / pow2 (ulp_exp ?x) = of_int (m * k)"
    by (metis of_int_mult times_divide_eq_right)
  then show ?thesis using fl_pos_le [OF order_refl] fl_pos_ge [OF order_refl]
    by (metis order_antisym)
qed

lemma fl_pos_exact:
  assumes "0 < m" and "m \<le> 2 ^ 53" and "- 1074 \<le> e"
  shows "fl_pos (of_int m * pow2 e) = of_int m * pow2 e"
proof (cases "m = 2 ^ 53")
  case True
  have "of_int m * pow2 e = of_int 1 * pow2 (e + 53)"
    by (simp add: True pow2_add) (simp add: pow2_def)
  then show ?thesis using fl_pos_exact_small [of 1 "e + 53"] assms(3) by simp
next
  case False
  with assms show ?thesis by (intro fl_pos_exact_small) simp_all
qed

lemma fl_exact: "\<bar>m\<bar> \<le> 2 ^ 53 \<Longrightarrow> - 1074 \<le> e \<Longrightarrow> fl (of_int m * pow2 e) = of_int m * pow2 e"
proof (cases m "0 :: int" rule: linorder_cases)
  case less
  moreover assume "\<bar>m\<bar> \<le> 2 ^ 53" "- 1074 \<le> e"
  ultimately show ?thesis
    using fl_pos_exact [of "- m" e] mult_neg_pos [of "of_int m" "pow2 e"] by (simp add: fl_def)
qed (auto simp: fl_def fl_pos_exact)

lemma fl_of_int: "\<bar>m\<bar> \<le> 2 ^ 53 \<Longrightarrow> fl (of_int m) = of_int m"
  using fl_exact [of m 0] by (simp add: pow2_def)

lemma fl_pos_float:
  assumes "0 < x"
  shows "\<exists>k. fl_pos x = of_int k * pow2 (ulp_exp x) \<and> 0 \<le> k \<and> k \<le> 2 ^ 53"
proof -
  let ?k = "round_half_even (x / pow2 (ulp_exp x))"
  have "x < pow2 (ilog2 x + 1)" by (rule ilog2_bounds(2) [OF assms])
  also have "\<dots> \<le> pow2 (53 + ulp_exp x)" by (intro pow2_mono) (simp add: ulp_exp_def)
  also have "\<dots> = of_int (2 ^ 53) * pow2 (ulp_exp x)" by (simp add: pow2_add) (simp add: pow2_def)
  finally have "x / pow2 (ulp_exp x) \<le> of_int (2 ^ 53)" by (simp add: divide_le_eq less_imp_le)
  then have "?k \<le> 2 ^ 53" using round_half_even_mono by (metis round_half_even_of_int)
  moreover have "0 \<le> x / pow2 (ulp_exp x)" using assms by (simp add: less_imp_le)
  then have "0 \<le> ?k" using round_half_even_mono [of 0] by simp
  ultimately show ?thesis by (auto simp: fl_pos_def)
qed

lemma fl_idem [simp]: "fl (fl x) = fl x"
proof -
  have pos: "fl (fl_pos y) = fl_pos y \<and> fl (- fl_pos y) = - fl_pos y" if y: "0 < y" for y
  proof -
    obtain k where k: "fl_pos y = of_int k * pow2 (ulp_exp y)" "0 \<le> k" "k \<le> 2 ^ 53"
      using fl_pos_float [OF y] by blast
    have "- 1074 \<le> ulp_exp y" by (simp add: ulp_exp_def)
    then show ?thesis
      using fl_exact [of k "ulp_exp y"] fl_exact [of "- k" "ulp_exp y"] k by simp
  qed
  show ?thesis
    using pos [of x] pos [of "- x"] by (cases x "0 :: rat" rule: linorder_cases)
      (simp_all add: fl_def [of x], simp add: fl_def)
qed

section \<open>The contract of a rounding operation\<close>

locale rounding =
  fixes rnd :: "rat \<Rightarrow> rat"
  assumes rnd_mono: "x \<le> y \<Longrightarrow> rnd x \<le> rnd y"
    and rnd_int: "\<bar>m\<bar> \<le> 2 ^ 53 \<Longrightarrow> rnd (of_int m) = of_int m"
begin

lemma rnd_0: "rnd 0 = 0"
  using rnd_int [of 0] by simp

lemma rnd_1: "rnd 1 = 1"
  using rnd_int [of 1] by simp

lemma rnd_numeral: "numeral k \<le> (2 :: int) ^ 53 \<Longrightarrow> rnd (numeral k) = numeral k"
  using rnd_int [of "numeral k"] by simp

lemma rnd_nonneg: "0 \<le> x \<Longrightarrow> 0 \<le> rnd x"
  using rnd_mono [of 0 x] by (simp add: rnd_0)

lemma rnd_le_1: "x \<le> 1 \<Longrightarrow> rnd x \<le> 1"
  using rnd_mono [of x 1] by (simp add: rnd_1)

lemma rnd_le_int: "\<bar>m\<bar> \<le> 2 ^ 53 \<Longrightarrow> x \<le> of_int m \<Longrightarrow> rnd x \<le> of_int m"
  using rnd_mono [of x "of_int m"] by (simp add: rnd_int)

lemma rnd_ge_int: "\<bar>m\<bar> \<le> 2 ^ 53 \<Longrightarrow> of_int m \<le> x \<Longrightarrow> of_int m \<le> rnd x"
  using rnd_mono [of "of_int m" x] by (simp add: rnd_int)

text \<open>A sum that rounds after every addition stays below the sum of integer bounds.\<close>

lemma foldl_bounds:
  assumes "list_all2 (\<lambda>x m. 0 \<le> x \<and> x \<le> of_int m) xs ms"
    and "0 \<le> a" and "a \<le> of_int k" and "0 \<le> k" and "k + sum_list ms \<le> 2 ^ 53"
    and "\<forall>m \<in> set ms. 0 \<le> m"
  shows "0 \<le> foldl (\<lambda>s x. rnd (s + x)) a xs
       \<and> foldl (\<lambda>s x. rnd (s + x)) a xs \<le> of_int (k + sum_list ms)"
  using assms
proof (induction xs ms arbitrary: a k rule: list_all2_induct)
  case Nil
  then show ?case by simp
next
  case (Cons x xs m ms)
  have ms: "0 \<le> sum_list ms" using Cons.prems by (auto intro: sum_list_nonneg)
  have "0 \<le> rnd (a + x)" using Cons by (intro rnd_nonneg) simp
  moreover have "rnd (a + x) \<le> of_int (k + m)"
    using Cons ms by (intro rnd_le_int) auto
  moreover have "(k + m) + sum_list ms \<le> 2 ^ 53" "0 \<le> k + m" "\<forall>m \<in> set ms. 0 \<le> m"
    using Cons.prems by auto
  ultimately show ?case using Cons.IH [of "rnd (a + x)" "k + m"] by (simp add: add.assoc)
qed

end

interpretation fl: rounding fl
  by unfold_locales (simp_all add: fl_mono fl_of_int)

lemma py_round6_mono: "x \<le> y \<Longrightarrow> py_round6 x \<le> py_round6 y"
  unfolding py_round6_def
  by (intro fl_mono divide_right_mono) (simp_all add: round_half_even_mono)

lemma py_round6_of_int: "\<bar>m\<bar> \<le> 2 ^ 53 \<Longrightarrow> py_round6 (of_int m) = of_int m"
proof -
  assume m: "\<bar>m\<bar> \<le> 2 ^ 53"
  have "round_half_even (of_int m * 1000000) = m * 1000000"
    using round_half_even_of_int [of "m * 1000000"] by simp
  with m show ?thesis by (simp add: py_round6_def fl_of_int)
qed

interpretation round6: rounding py_round6
  by unfold_locales (simp_all add: py_round6_mono py_round6_of_int)

lemmas [simp] = fl.rnd_0 fl.rnd_1 fl.rnd_numeral round6.rnd_0 round6.rnd_1 round6.rnd_numeral

lemma fsum_Nil [simp]: "fsum [] = 0"
  by (simp add: fsum_def)

lemma fsum_bounds:
  assumes "list_all2 (\<lambda>x m. 0 \<le> x \<and> x \<le> of_int m) xs ms"
    and "\<forall>m \<in> set ms. 0 \<le> m" and "sum_list ms \<le> 2 ^ 53"
  shows "0 \<le> fsum xs" and "fsum xs \<le> of_int (sum_list ms)"
proof -
  have "fsum xs = foldl (\<lambda>s x. fl (s + x)) 0 xs"
    by (simp add: fsum_def fadd_def [abs_def])
  then show "0 \<le> fsum xs" "fsum xs \<le> of_int (sum_list ms)"
    using fl.foldl_bounds [OF assms(1), of 0 0] assms(2,3) by simp_all
qed

lemma fsum_ints:
  "\<forall>m \<in> set ms. 0 \<le> m \<Longrightarrow> 0 \<le> k \<Longrightarrow> k + sum_list ms \<le> 2 ^ 53 \<Longrightarrow>
   foldl fadd (of_int k) (map of_int ms) = of_int (k + sum_list ms)"
proof (induction ms arbitrary: k)
  case (Cons m ms)
  have "0 \<le> sum_list ms" using Cons.prems by (auto intro: sum_list_nonneg)
  then have "fadd (of_int k) (of_int m) = of_int (k + m)"
    using Cons.prems fl_of_int [of "k + m"] by (simp add: fadd_def)
  moreover have "foldl fadd (of_int (k + m)) (map of_int ms) = of_int ((k + m) + sum_list ms)"
    using Cons.prems by (intro Cons.IH) auto
  ultimately show ?case by (simp add: add.assoc)
qed simp

lemma fadd_bounds:
  "0 \<le> x \<Longrightarrow> 0 \<le> y \<Longrightarrow> 0 \<le> fadd x y"
  by (simp add: fadd_def fl.rnd_nonneg)

lemma fmul_unit:
  assumes "0 \<le> x" "x \<le> 1" "0 \<le> m" "m \<le> 2 ^ 53"
  shows "0 \<le> fmul x (of_int m)" and "fmul x (of_int m) \<le> of_int m"
proof -
  show "0 \<le> fmul x (of_int m)" using assms by (simp add: fmul_def fl.rnd_nonneg)
  have "x * of_int m \<le> of_int m" using assms by (simp add: mult_left_le_one_le)
  then show "fmul x (of_int m) \<le> of_int m"
    using assms fl.rnd_le_int [of m] by (simp add: fmul_def)
qed

lemma fdiv_unit: "0 \<le> x \<Longrightarrow> x \<le> y \<Longrightarrow> 0 < y \<Longrightarrow> 0 \<le> fdiv x y \<and> fdiv x y \<le> 1"
  by (simp add: fdiv_def fl.rnd_nonneg fl.rnd_le_1)

lemma fdiv_same [simp]: "x \<noteq> 0 \<Longrightarrow> fdiv x x = 1"
  by (simp add: fdiv_def)

lemma fl_neg: "fl (- x) = - fl x"
  by (simp add: fl_def)

lemma fl_min_max [simp]: "fl x = x \<Longrightarrow> fl y = y \<Longrightarrow> fl (min x y) = min x y"
  "fl x = x \<Longrightarrow> fl y = y \<Longrightarrow> fl (max x y) = max x y"
  by (simp_all add: min_def max_def)

lemma fsum_mono:
  assumes "list_all2 (\<le>) xs ys"
  shows "fsum xs \<le> fsum ys"
proof -
  have "foldl fadd a xs \<le> foldl fadd b ys" if "a \<le> b" for a b
    using assms that
  proof (induction xs ys arbitrary: a b rule: list_all2_induct)
    case (Cons x xs y ys)
    then have "fadd a x \<le> fadd b y" by (simp add: fadd_def fl_mono add_mono)
    then show ?case using Cons.IH by simp
  qed simp
  then show ?thesis by (simp add: fsum_def)
qed

lemma fl_half [simp]: "fl (1 / 2) = 1 / 2"
  using fl_exact [of 1 "- 1"] by (simp add: pow2_def)

end
