(* ===== verification/Step_Rubric.thy ===== *)
theory Step_Rubric
  imports Float64 "HOL-Library.Char_ord" "HOL-Library.List_Lexorder"
begin

text \<open>
  The deterministic step rubric of the lift-out evaluator
  (\<^verbatim>\<open>sources/openfibsem/fibsem_liftout_v1/step_rubric.py\<close>) with the data it reads: the geometry
  metrics of \<^verbatim>\<open>geometry/oracle.py\<close>, the shape comparison of \<^verbatim>\<open>geometry/similarity.py\<close> and the
  adaptive tolerances of \<^verbatim>\<open>models.py\<close>. Every float operation rounds (theory \<open>Float64\<close>), decimal
  literals denote the nearest float, and each criterion, cap and rounding step of the source is
  one definition. The lemmas bound every score, show that a full score is impossible while a
  required topology fact is violated, that perfect evidence earns full points, and that
  better shape agreement never lowers a score.
\<close>

section \<open>Data\<close>

record GeometryMetrics =
  sample_to_source :: bool
  sample_to_needle :: bool
  sample_to_target :: bool
  needle_joint_section_um :: rat
  target_joint_section_um :: rat
  sample_component_count :: int
  total_sample_fraction :: rat
  retained_sample_fraction :: rat
  sample_position_error_um :: rat
  sample_orientation_error_degrees :: rat
  sample_integrity_step_1 :: bool
  sample_integrity_final :: bool
  changes_within_work_envelopes :: bool
  envelope_violations :: "string list"
  needle_retraction_distance_um :: rat
  needle_safely_retracted :: bool
  collision :: bool
  simulator_idle :: bool
  canonical_geometry_hash :: string

record ShapeComparison =
  candidate_volume_um3 :: rat
  reference_volume_um3 :: rat
  volume_similarity :: rat
  voxel_iou :: rat
  symmetric_surface_distance_um :: rat
  hausdorff_distance_um :: rat
  asd_score :: rat
  hausdorff_score :: rat
  shape_score :: rat
  voxel_size_um :: rat
  surface_sample_count :: int
  candidate_geometry_sha256 :: string
  reference_geometry_sha256 :: string

record AdaptiveTolerances =
  characteristic_length_um :: rat
  position_um :: rat
  joint_scale_um :: rat
  orientation_degrees :: rat
  safe_retraction_um :: rat

definition from_dimensions ::
  "(rat \<Rightarrow> rat) \<Rightarrow> rat \<times> rat \<times> rat \<Rightarrow> string + AdaptiveTolerances" where
  \<comment> \<open>\<open>cube_root\<close> is the platform's \<^verbatim>\<open>x ** (1.0 / 3.0)\<close>\<close>
  "from_dimensions cube_root dims =
     (case dims of (sx, sy, sz) \<Rightarrow>
        if min sx (min sy sz) \<le> 0 then Inl ''sample dimensions must be positive''
        else let len = cube_root (fmul (fmul sx sy) sz) in
          Inr \<lparr>characteristic_length_um = len,
               position_um = min (max (fmul (fl (8 / 100)) len) (fl (1 / 2))) 2,
               joint_scale_um = min (max (fmul (fl (3 / 100)) len) (fl (2 / 10))) 1,
               orientation_degrees = 5,
               safe_retraction_um = min (max (fmul (fl (1 / 2)) len) 5) 20\<rparr>)"

datatype metric = MBool bool | MInt int | MFloat rat | MStr string

record CriterionScore =
  criterion_id :: string
  points :: rat
  maximum_points :: rat
  metrics :: "(string, metric) dict"

record ScoreCap =
  cap_maximum :: rat
  reasons :: "string list"

record StepBreakdown =
  b_step_id :: string
  raw_score :: rat
  final_score :: rat
  b_maximum_points :: rat
  criteria :: "(string, CriterionScore) dict"
  cap :: ScoreCap

record StepEvidence =
  step_id :: string
  geometry :: GeometryMetrics
  shapes :: "(string, ShapeComparison) dict"
  co_motion_score :: rat
  trusted :: bool

definition STEP_TOTALS :: "(string, rat) dict" where
  "STEP_TOTALS = [(''step_1'', 20), (''step_2'', 25), (''step_3'', 25), (''step_4'', 20)]"

definition step_evidence_init :: "StepEvidence \<Rightarrow> string + StepEvidence" where
  \<comment> \<open>\<^verbatim>\<open>StepEvidence.__post_init__\<close>; the co-motion score is finite by its type here\<close>
  "step_evidence_init e =
     bind_res (require (step_id e \<in> set (dict_keys STEP_TOTALS)) ''step evidence ID is invalid'') (\<lambda>_.
     bind_res (require (0 \<le> co_motion_score e \<and> co_motion_score e \<le> 1)
       ''co-motion score must be between zero and one'') (\<lambda>_. Inr e))"

section \<open>Criteria\<close>

definition sorted_items :: "(string, 'v) dict \<Rightarrow> (string, 'v) dict" where
  \<comment> \<open>\<^verbatim>\<open>dict(sorted(d.items()))\<close>\<close>
  "sorted_items d = sort_key fst d"

definition rounded :: "rat \<Rightarrow> rat" where
  "rounded value = py_round6 value"

definition clamp01 :: "rat \<Rightarrow> rat" where
  "clamp01 value = min 1 (max 0 value)"

definition criterion :: "string \<Rightarrow> rat \<Rightarrow> rat \<Rightarrow> (string, metric) dict \<Rightarrow> CriterionScore" where
  "criterion cid fraction maximum ms =
     \<lparr>criterion_id = cid, points = rounded (fmul (clamp01 fraction) maximum),
      maximum_points = maximum, metrics = sorted_items ms\<rparr>"

definition shape_fraction :: "StepEvidence \<Rightarrow> string \<Rightarrow> rat" where
  "shape_fraction evidence name =
     (case map_of (shapes evidence) name of None \<Rightarrow> 0 | Some v \<Rightarrow> clamp01 (shape_score v))"

definition shape_criterion :: "string \<Rightarrow> StepEvidence \<Rightarrow> string \<Rightarrow> rat \<Rightarrow> CriterionScore" where
  "shape_criterion cid evidence shape_name maximum =
     (case map_of (shapes evidence) shape_name of
        None \<Rightarrow> criterion cid 0 maximum [(''missing_shape_evidence'', MBool True)]
      | Some v \<Rightarrow> criterion cid (shape_score v) maximum
          [(''candidate_volume_um3'', MFloat (candidate_volume_um3 v)),
           (''reference_volume_um3'', MFloat (reference_volume_um3 v)),
           (''volume_similarity'', MFloat (volume_similarity v)),
           (''voxel_iou'', MFloat (voxel_iou v)),
           (''symmetric_surface_distance_um'', MFloat (symmetric_surface_distance_um v)),
           (''hausdorff_distance_um'', MFloat (hausdorff_distance_um v)),
           (''asd_score'', MFloat (asd_score v)),
           (''hausdorff_score'', MFloat (hausdorff_score v)),
           (''shape_score'', MFloat (shape_score v)),
           (''voxel_size_um'', MFloat (voxel_size_um v)),
           (''surface_sample_count'', MInt (surface_sample_count v)),
           (''candidate_geometry_sha256'', MStr (candidate_geometry_sha256 v)),
           (''reference_geometry_sha256'', MStr (reference_geometry_sha256 v))])"

definition threshold_fraction :: "rat \<Rightarrow> rat \<Rightarrow> rat \<Rightarrow> rat" where
  "threshold_fraction value minimum full =
     (if value \<le> minimum then 0 else if full \<le> value then 1
      else fdiv (fsub value minimum) (fsub full minimum))"

definition pose_fraction :: "rat \<Rightarrow> rat \<Rightarrow> rat" where
  "pose_fraction error tolerance =
     (if error \<le> tolerance then 1
      else if fmul 3 tolerance \<le> error then 0
      else fdiv (fsub 3 (fdiv error tolerance)) 2)"

definition common_fraction :: "GeometryMetrics \<Rightarrow> rat" where
  "common_fraction m =
     fdiv (fadd (fadd (if \<not> collision m then 1 / 2 else 0) (if simulator_idle m then 1 / 2 else 0))
                (if changes_within_work_envelopes m then 1 else 0)) 2"

definition bool_sum :: "bool list \<Rightarrow> rat" where
  \<comment> \<open>\<^verbatim>\<open>sum((b1, b2, b3))\<close>: the integer number of true flags\<close>
  "bool_sum bs = of_nat (length (filter id bs))"

definition step_1 :: "StepEvidence \<Rightarrow> (string, CriterionScore) dict" where
  "step_1 evidence =
     (let m = geometry evidence;
          bridge_fraction = fdiv (fadd (shape_fraction evidence ''source_bridge'')
                                       (if sample_to_source m then 1 else 0)) 2;
          integrity_fraction =
            fdiv (fadd (if sample_component_count m = 1 then 1 else 0)
                       (threshold_fraction (retained_sample_fraction m) (fl (65 / 100)) (fl (75 / 100)))) 2
      in [(''sample_global'', shape_criterion ''sample_global'' evidence ''sample'' 6),
          (''cut_morphology'', shape_criterion ''cut_morphology'' evidence ''cut'' 4),
          (''protection_morphology'',
             shape_criterion ''protection_morphology'' evidence ''protection'' 3),
          (''source_bridge'', criterion ''source_bridge'' bridge_fraction 3
             [(''sample_to_source'', MBool (sample_to_source m))]),
          (''sample_integrity'', criterion ''sample_integrity'' integrity_fraction 2
             [(''component_count'', MInt (sample_component_count m)),
              (''retained_fraction'', MFloat (rounded (retained_sample_fraction m)))]),
          (''common_state'', criterion ''common_state'' (common_fraction m) 2 [])])"

definition step_2 :: "StepEvidence \<Rightarrow> AdaptiveTolerances \<Rightarrow> (string, CriterionScore) dict" where
  "step_2 evidence tol =
     (let m = geometry evidence;
          state_fraction = fdiv (bool_sum [\<not> sample_to_source m, sample_to_needle m, \<not> sample_to_target m]) 3;
          joint_fraction = clamp01 (fdiv (needle_joint_section_um m) (joint_scale_um tol));
          connectivity_points = fadd (fmul 3 state_fraction) (fmul 2 joint_fraction)
      in [(''sample_preservation'', shape_criterion ''sample_preservation'' evidence ''sample'' 5),
          (''source_separation'', shape_criterion ''source_separation'' evidence ''source_separation'' 5),
          (''needle_joint'', shape_criterion ''needle_joint'' evidence ''needle_joint'' 5),
          (''transfer_connectivity'', criterion ''transfer_connectivity'' (fdiv connectivity_points 5) 5
             [(''sample_to_source'', MBool (sample_to_source m)),
              (''sample_to_needle'', MBool (sample_to_needle m)),
              (''sample_to_target'', MBool (sample_to_target m)),
              (''needle_joint_section_um'', MFloat (rounded (needle_joint_section_um m)))]),
          (''co_motion'', criterion ''co_motion'' (co_motion_score evidence) 3 []),
          (''common_state'', criterion ''common_state'' (common_fraction m) 2 [])])"

definition step_3 :: "StepEvidence \<Rightarrow> AdaptiveTolerances \<Rightarrow> (string, CriterionScore) dict" where
  "step_3 evidence tol =
     (let m = geometry evidence;
          position_fraction = pose_fraction (sample_position_error_um m) (position_um tol);
          orientation_fraction =
            pose_fraction (sample_orientation_error_degrees m) (orientation_degrees tol);
          pose_points = fadd (fmul 3 position_fraction) (fmul 2 orientation_fraction);
          state_fraction = fdiv (bool_sum [\<not> sample_to_source m, sample_to_needle m, sample_to_target m]) 3;
          needle_fraction = clamp01 (fdiv (needle_joint_section_um m) (joint_scale_um tol));
          target_fraction = clamp01 (fdiv (target_joint_section_um m) (joint_scale_um tol));
          connectivity_points = fadd (fadd (fmul 3 state_fraction) needle_fraction) target_fraction
      in [(''sample_preservation'', shape_criterion ''sample_preservation'' evidence ''sample'' 4),
          (''target_pose'', criterion ''target_pose'' (fdiv pose_points 5) 5
             [(''position_error_um'', MFloat (rounded (sample_position_error_um m))),
              (''orientation_error_degrees'', MFloat (rounded (sample_orientation_error_degrees m)))]),
          (''target_joint'', shape_criterion ''target_joint'' evidence ''target_joint'' 5),
          (''dual_connectivity'', criterion ''dual_connectivity'' (fdiv connectivity_points 5) 5
             [(''sample_to_needle'', MBool (sample_to_needle m)),
              (''sample_to_target'', MBool (sample_to_target m)),
              (''needle_joint_section_um'', MFloat (rounded (needle_joint_section_um m))),
              (''target_joint_section_um'', MFloat (rounded (target_joint_section_um m)))]),
          (''target_interface'', shape_criterion ''target_interface'' evidence ''target_interface'' 4),
          (''common_state'', criterion ''common_state'' (common_fraction m) 2 [])])"

definition step_4 :: "StepEvidence \<Rightarrow> AdaptiveTolerances \<Rightarrow> (string, CriterionScore) dict" where
  "step_4 evidence tol =
     (let m = geometry evidence;
          final_topology = fdiv (bool_sum [\<not> sample_to_source m, \<not> sample_to_needle m, sample_to_target m]) 3;
          position_fraction = pose_fraction (sample_position_error_um m) (position_um tol);
          orientation_fraction =
            pose_fraction (sample_orientation_error_degrees m) (orientation_degrees tol);
          pose_points = fadd (fmul (fl (12 / 10)) position_fraction) (fmul (fl (8 / 10)) orientation_fraction);
          retraction_points = fadd (if needle_safely_retracted m then 3 / 2 else 0)
                                   (if simulator_idle m then 1 / 2 else 0)
      in [(''sample_preservation'', shape_criterion ''sample_preservation'' evidence ''sample'' 4),
          (''needle_separation'', shape_criterion ''needle_separation'' evidence ''needle_separation'' 4),
          (''target_joint_preservation'',
             shape_criterion ''target_joint_preservation'' evidence ''target_joint'' 4),
          (''final_topology'', criterion ''final_topology'' final_topology 4
             [(''sample_to_source'', MBool (sample_to_source m)),
              (''sample_to_needle'', MBool (sample_to_needle m)),
              (''sample_to_target'', MBool (sample_to_target m))]),
          (''target_pose'', criterion ''target_pose'' (fdiv pose_points 2) 2
             [(''position_error_um'', MFloat (rounded (sample_position_error_um m))),
              (''orientation_error_degrees'', MFloat (rounded (sample_orientation_error_degrees m)))]),
          (''safe_retraction'', criterion ''safe_retraction'' (fdiv retraction_points 2) 2
             [(''needle_safely_retracted'', MBool (needle_safely_retracted m)),
              (''simulator_idle'', MBool (simulator_idle m))])])"

section \<open>Caps and the step score\<close>

definition cap_if :: "bool \<Rightarrow> rat \<Rightarrow> string \<Rightarrow> (rat \<times> string) list" where
  \<comment> \<open>\<^verbatim>\<open>if cond: applicable.append((maximum, reason))\<close>\<close>
  "cap_if cond maximum reason = (if cond then [(maximum, reason)] else [])"

definition fragmented :: "GeometryMetrics \<Rightarrow> bool" where
  "fragmented m = (sample_component_count m \<noteq> 1 \<or> retained_sample_fraction m < fl (65 / 100))"

definition applicable_caps ::
  "string \<Rightarrow> GeometryMetrics \<Rightarrow> AdaptiveTolerances \<Rightarrow> (rat \<times> string) list" where
  "applicable_caps sid m tol =
     (if sid = ''step_1'' then
        cap_if (\<not> sample_to_source m) 8 ''sample_not_connected_to_source''
        @ cap_if (sample_to_needle m) 8 ''early_needle_connection''
        @ cap_if (sample_to_target m) 8 ''early_target_connection''
        @ cap_if (fragmented m) 5 ''sample_fragmented_or_below_65_percent''
        @ cap_if (collision m \<or> \<not> changes_within_work_envelopes m) 5
            ''collision_or_outside_work_envelope''
      else if sid = ''step_2'' then
        cap_if (sample_to_source m) 10 ''source_still_connected''
        @ cap_if (\<not> sample_to_needle m) 10 ''needle_not_connected''
        @ cap_if (sample_to_target m) 8 ''target_connected_too_early''
        @ cap_if (sample_to_needle m \<and> needle_joint_section_um m < joint_scale_um tol) 12
            ''needle_joint_one_sided_or_thin''
        @ cap_if (fragmented m) 6 ''sample_fragmented_or_below_65_percent''
      else if sid = ''step_3'' then
        cap_if (\<not> sample_to_target m) 10 ''target_not_connected''
        @ cap_if (\<not> sample_to_needle m) 10 ''needle_disconnected_too_early''
        @ cap_if (sample_to_source m) 5 ''source_reconnected''
        @ cap_if (fmul 3 (position_um tol) < sample_position_error_um m) 12
            ''target_position_beyond_three_tolerances''
        @ cap_if (sample_to_target m \<and> target_joint_section_um m < joint_scale_um tol) 12
            ''target_joint_one_sided_or_thin''
        @ cap_if (fragmented m) 8 ''sample_fragmented_or_below_65_percent''
      else
        cap_if (\<not> sample_to_target m) 6 ''target_not_connected''
        @ cap_if (sample_to_needle m) 6 ''needle_still_connected''
        @ cap_if (sample_to_source m) 4 ''source_still_connected''
        @ cap_if (\<not> needle_safely_retracted m) 10 ''unsafe_needle_retraction''
        @ cap_if (fragmented m) 6 ''sample_fragmented_or_below_65_percent''
        @ cap_if (fmul 3 (position_um tol) < sample_position_error_um m) 10
            ''target_position_beyond_three_tolerances'')"

fun min_list1 :: "rat \<Rightarrow> rat list \<Rightarrow> rat" where
  "min_list1 x [] = x"
| "min_list1 x (y # ys) = min_list1 (min x y) ys"

definition caps :: "string \<Rightarrow> rat \<Rightarrow> StepEvidence \<Rightarrow> AdaptiveTolerances \<Rightarrow> ScoreCap" where
  "caps sid tot evidence tol =
     (if \<not> trusted evidence then
        \<lparr>cap_maximum = 0, reasons = [''missing_or_untrusted_checkpoint'']\<rparr>
      else case applicable_caps sid (geometry evidence) tol of
        [] \<Rightarrow> \<lparr>cap_maximum = tot, reasons = []\<rparr>
      | (c, r) # rest \<Rightarrow>
          \<lparr>cap_maximum = min_list1 c (map fst rest),
           reasons = sort (r # map snd rest)\<rparr>)"

definition step_criteria ::
  "string \<Rightarrow> StepEvidence \<Rightarrow> AdaptiveTolerances \<Rightarrow> (string, CriterionScore) dict" where
  \<comment> \<open>the dispatch through \<^verbatim>\<open>scorers[step_id]\<close>\<close>
  "step_criteria sid evidence tol =
     (if sid = ''step_1'' then step_1 evidence
      else if sid = ''step_2'' then step_2 evidence tol
      else if sid = ''step_3'' then step_3 evidence tol
      else step_4 evidence tol)"

definition score_step ::
  "string \<Rightarrow> StepEvidence \<Rightarrow> AdaptiveTolerances \<Rightarrow> string + StepBreakdown" where
  "score_step sid evidence tol =
     (case map_of STEP_TOTALS sid of
        None \<Rightarrow> Inl ''step rubric identity mismatch''
      | Some tot \<Rightarrow>
          if step_id evidence \<noteq> sid then Inl ''step rubric identity mismatch''
          else let cs = step_criteria sid evidence tol;
                   raw = rounded (fsum (map (points \<circ> snd) cs));
                   c = caps sid tot evidence tol
               in Inr \<lparr>b_step_id = sid, raw_score = raw,
                       final_score = rounded (min raw (cap_maximum c)),
                       b_maximum_points = tot, criteria = sorted_items cs, cap = c\<rparr>)"

section \<open>Bounds\<close>

lemma clamp01_bounds [simp]: "0 \<le> clamp01 x" "clamp01 x \<le> 1"
  by (simp_all add: clamp01_def)

lemma clamp01_mono: "x \<le> y \<Longrightarrow> clamp01 x \<le> clamp01 y"
  by (auto simp: clamp01_def)

lemma clamp01_id [simp]: "0 \<le> x \<Longrightarrow> x \<le> 1 \<Longrightarrow> clamp01 x = x"
  by (simp add: clamp01_def)

lemma clamp01_full: "1 \<le> x \<Longrightarrow> clamp01 x = 1"
  by (simp add: clamp01_def)

lemma criterion_points_bounds:
  assumes "0 \<le> m" and "m \<le> 2 ^ 53"
  shows "0 \<le> points (criterion cid f (of_int m) ms)"
    and "points (criterion cid f (of_int m) ms) \<le> of_int m"
  using fmul_unit [of "clamp01 f" m] assms
  by (simp_all add: criterion_def rounded_def round6.rnd_nonneg round6.rnd_le_int)

lemma shape_criterion_points_bounds:
  assumes "0 \<le> m" and "m \<le> 2 ^ 53"
  shows "0 \<le> points (shape_criterion cid e n (of_int m))"
    and "points (shape_criterion cid e n (of_int m)) \<le> of_int m"
  using criterion_points_bounds [OF assms]
  by (simp_all add: shape_criterion_def split: option.split)

definition step_maxima :: "string \<Rightarrow> int list" where
  "step_maxima sid =
     (if sid = ''step_1'' then [6, 4, 3, 3, 2, 2]
      else if sid = ''step_2'' then [5, 5, 5, 5, 3, 2]
      else if sid = ''step_3'' then [4, 5, 5, 5, 4, 2]
      else [4, 4, 4, 4, 2, 2])"

lemmas criteria_defs = step_1_def step_2_def step_3_def step_4_def Let_def

lemma numeral_points_bounds:
  "numeral k \<le> (2 :: int) ^ 53 \<Longrightarrow> 0 \<le> points (criterion cid f (numeral k) ms)"
  "numeral k \<le> (2 :: int) ^ 53 \<Longrightarrow> points (criterion cid f (numeral k) ms) \<le> numeral k"
  "numeral k \<le> (2 :: int) ^ 53 \<Longrightarrow> 0 \<le> points (shape_criterion cid e n (numeral k))"
  "numeral k \<le> (2 :: int) ^ 53 \<Longrightarrow> points (shape_criterion cid e n (numeral k)) \<le> numeral k"
  using criterion_points_bounds [of "numeral k"] shape_criterion_points_bounds [of "numeral k"]
  by simp_all

lemma step_criteria_points:
  "list_all2 (\<lambda>x m. 0 \<le> x \<and> x \<le> of_int m)
     (map (points \<circ> snd) (step_criteria sid e tol)) (step_maxima sid)"
  by (simp add: step_criteria_def criteria_defs step_maxima_def numeral_points_bounds)

lemma step_maxima_total:
  "map_of STEP_TOTALS sid = Some t \<Longrightarrow> of_int (sum_list (step_maxima sid)) = t"
  by (auto simp: STEP_TOTALS_def step_maxima_def split: if_splits)

lemma raw_points_bounds:
  assumes "map_of STEP_TOTALS sid = Some t"
  shows "0 \<le> fsum (map (points \<circ> snd) (step_criteria sid e tol))"
    and "fsum (map (points \<circ> snd) (step_criteria sid e tol)) \<le> t"
proof -
  have "\<forall>m \<in> set (step_maxima sid). 0 \<le> m" "sum_list (step_maxima sid) \<le> 2 ^ 53"
    by (simp_all add: step_maxima_def)
  from fsum_bounds [OF step_criteria_points this]
  show "0 \<le> fsum (map (points \<circ> snd) (step_criteria sid e tol))"
    "fsum (map (points \<circ> snd) (step_criteria sid e tol)) \<le> t"
    by (simp_all add: step_maxima_total [OF assms])
qed

lemma STEP_TOTALS_int: "map_of STEP_TOTALS sid = Some t \<Longrightarrow> t = 20 \<or> t = 25"
  by (auto simp: STEP_TOTALS_def split: if_splits)

lemma cap_if_set [simp]: "set (cap_if b m r) = (if b then {(m, r)} else {})"
  by (simp add: cap_if_def)

lemma min_list1_le: "min_list1 x ys \<le> x" "y \<in> set ys \<Longrightarrow> min_list1 x ys \<le> y"
proof (induction ys arbitrary: x)
  case (Cons z zs)
  { case 1 show ?case using Cons.IH(1) [of "min x z"] by simp }
  { case 2 then show ?case
      using Cons.IH(1) [of "min x z"] Cons.IH(2) [of "min x z"] by auto }
qed simp_all

lemma min_list1_in: "min_list1 x ys \<in> insert x (set ys)"
proof (induction ys arbitrary: x)
  case (Cons z zs)
  show ?case using Cons.IH [of "min x z"] by (auto simp: min_def split: if_splits)
qed simp

lemma applicable_caps_range:
  "(c, r) \<in> set (applicable_caps sid m tol) \<Longrightarrow> c \<in> {4, 5, 6, 8, 10, 12}"
  by (auto simp: applicable_caps_def split: if_splits)

lemma cap_maximum_range:
  "cap_maximum (caps sid t e tol) \<in> {0, 4, 5, 6, 8, 10, 12, t}"
proof (cases "applicable_caps sid (geometry e) tol")
  case Nil
  then show ?thesis by (simp add: caps_def)
next
  case (Cons p rest)
  obtain c r where p: "p = (c, r)" by (cases p)
  have "min_list1 c (map fst rest) \<in> fst ` set (p # rest)"
    using min_list1_in [of c "map fst rest"] by (simp add: p)
  then obtain q where q: "q \<in> set (p # rest)" and eq: "min_list1 c (map fst rest) = fst q"
    by (elim imageE) simp
  have "fst q \<in> {4, 5, 6, 8, 10, 12}"
    using q by (intro applicable_caps_range [of "fst q" "snd q" sid "geometry e" tol])
      (simp only: Cons prod.collapse)
  then have "min_list1 c (map fst rest) \<in> {4, 5, 6, 8, 10, 12}"
    by (simp only: eq)
  then show ?thesis by (auto simp: caps_def Cons p)
qed

lemma cap_below_total:
  assumes "map_of STEP_TOTALS sid = Some t"
  shows "0 \<le> cap_maximum (caps sid t e tol)" and "cap_maximum (caps sid t e tol) \<le> t"
    and "rounded (cap_maximum (caps sid t e tol)) = cap_maximum (caps sid t e tol)"
  using cap_maximum_range [of sid t e tol] STEP_TOTALS_int [OF assms]
  by (auto simp: rounded_def)

lemma caps_full_iff:
  assumes "map_of STEP_TOTALS sid = Some t"
  shows "cap_maximum (caps sid t e tol) = t \<longleftrightarrow>
         trusted e \<and> applicable_caps sid (geometry e) tol = []"
proof (cases "applicable_caps sid (geometry e) tol")
  case Nil
  then show ?thesis using STEP_TOTALS_int [OF assms] by (auto simp: caps_def)
next
  case (Cons p rest)
  obtain c r where p: "p = (c, r)" by (cases p)
  have "c \<in> {4, 5, 6, 8, 10, 12}"
    using applicable_caps_range [of c r sid "geometry e" tol] by (simp add: Cons p)
  moreover have "min_list1 c (map fst rest) \<le> c" by (rule min_list1_le)
  ultimately show ?thesis
    using STEP_TOTALS_int [OF assms] by (auto simp: caps_def Cons p)
qed

lemma score_step_Inr:
  "score_step sid e tol = Inr b \<longleftrightarrow>
     (\<exists>t. map_of STEP_TOTALS sid = Some t \<and> step_id e = sid \<and>
        b = \<lparr>b_step_id = sid,
             raw_score = rounded (fsum (map (points \<circ> snd) (step_criteria sid e tol))),
             final_score = rounded (min (rounded (fsum (map (points \<circ> snd) (step_criteria sid e tol))))
                                        (cap_maximum (caps sid t e tol))),
             b_maximum_points = t, criteria = sorted_items (step_criteria sid e tol),
             cap = caps sid t e tol\<rparr>)"
  by (auto simp: score_step_def Let_def split: option.split)

lemma score_step_bounds_lemma:
  assumes "score_step sid e tol = Inr b"
  shows "0 \<le> final_score b" and "final_score b \<le> cap_maximum (cap b)"
    and "cap_maximum (cap b) \<le> b_maximum_points b" and "b_maximum_points b \<in> {20, 25}"
    and "0 \<le> raw_score b" and "raw_score b \<le> b_maximum_points b"
proof -
  obtain t where t: "map_of STEP_TOTALS sid = Some t"
    and b: "raw_score b = rounded (fsum (map (points \<circ> snd) (step_criteria sid e tol)))"
      "final_score b = rounded (min (raw_score b) (cap_maximum (cap b)))"
      "b_maximum_points b = t" "cap b = caps sid t e tol"
    using assms by (auto simp: score_step_Inr)
  note raw = raw_points_bounds [OF t, of e tol] and cb = cap_below_total [OF t, of e tol]
  show r0: "0 \<le> raw_score b" using raw(1) by (simp add: b rounded_def round6.rnd_nonneg)
  show "raw_score b \<le> b_maximum_points b"
    using round6.rnd_mono [OF raw(2)] STEP_TOTALS_int [OF t] by (auto simp: b rounded_def)
  show "0 \<le> final_score b" using r0 cb(1) by (simp add: b(2) b(4) rounded_def round6.rnd_nonneg)
  have "final_score b \<le> rounded (cap_maximum (cap b))"
    unfolding b(2) rounded_def by (rule round6.rnd_mono) simp
  then show "final_score b \<le> cap_maximum (cap b)" using cb(3) by (simp add: b(4))
  show "cap_maximum (cap b) \<le> b_maximum_points b" using cb(2) by (simp add: b)
  show "b_maximum_points b \<in> {20, 25}" using STEP_TOTALS_int [OF t] by (simp add: b)
qed

section \<open>Full scores and monotonicity: the lemmas\<close>

lemma cap_if_Nil [simp]: "cap_if b m r = [] \<longleftrightarrow> \<not> b"
  by (simp add: cap_if_def)

lemma full_score_no_cap:
  assumes "score_step sid e tol = Inr b" and "final_score b = b_maximum_points b"
  shows "trusted e" and "applicable_caps sid (geometry e) tol = []"
proof -
  obtain t where t: "map_of STEP_TOTALS sid = Some t"
    and b: "b_maximum_points b = t" "cap b = caps sid t e tol"
    using assms(1) by (auto simp: score_step_Inr)
  have "cap_maximum (caps sid t e tol) = t"
    using score_step_bounds_lemma(2,3) [OF assms(1)] assms(2) by (simp add: b)
  then show "trusted e" "applicable_caps sid (geometry e) tol = []"
    by (simp_all add: caps_full_iff [OF t])
qed

lemma fdiv_ge_1: "0 < y \<Longrightarrow> y \<le> x \<Longrightarrow> 1 \<le> fdiv x y"
  using fl.rnd_mono [of 1 "x / y"] by (simp add: fdiv_def)

lemma criterion_full: "1 \<le> f \<Longrightarrow> numeral k \<le> (2 :: int) ^ 53 \<Longrightarrow>
  points (criterion cid f (numeral k) ms) = numeral k"
  by (simp add: criterion_def clamp01_full rounded_def fmul_def)

definition shape_full :: "StepEvidence \<Rightarrow> string \<Rightarrow> bool" where
  "shape_full e n = (case map_of (shapes e) n of None \<Rightarrow> False | Some v \<Rightarrow> 1 \<le> shape_score v)"

lemma shape_criterion_full: "shape_full e n \<Longrightarrow> numeral k \<le> (2 :: int) ^ 53 \<Longrightarrow>
  points (shape_criterion cid e n (numeral k)) = numeral k"
  by (simp add: shape_criterion_def shape_full_def criterion_full split: option.splits)

lemma shape_fraction_full: "shape_full e n \<Longrightarrow> shape_fraction e n = 1"
  by (simp add: shape_fraction_def shape_full_def clamp01_full split: option.splits)

lemma fl_three_halves [simp]: "fl (3 / 2) = 3 / 2"
  by code_simp

lemma pose_weights: "fadd (fmul (fl (12 / 10)) 1) (fmul (fl (8 / 10)) 1) = 2"
  by code_simp

definition tolerances_ok :: "AdaptiveTolerances \<Rightarrow> bool" where
  \<comment> \<open>positive tolerances, and the position tolerance is a float\<close>
  "tolerances_ok tol \<longleftrightarrow>
     0 < joint_scale_um tol \<and> 0 < position_um tol \<and> 0 < orientation_degrees tol \<and>
     fl (position_um tol) = position_um tol"

lemma fl_fifth_pos: "0 < fl (2 / 10)" "fl (2 / 10) \<le> 1"
  by code_simp+

lemma from_dimensions_ok: "from_dimensions c d = Inr tol \<Longrightarrow> tolerances_ok tol"
  using fl_fifth_pos
  by (auto simp: from_dimensions_def Let_def tolerances_ok_def fmul_def less_max_iff_disj
      split: prod.splits if_splits)

definition perfect_metrics :: "string \<Rightarrow> GeometryMetrics \<Rightarrow> AdaptiveTolerances \<Rightarrow> bool" where
  "perfect_metrics sid m tol \<longleftrightarrow>
     \<not> collision m \<and> simulator_idle m \<and> changes_within_work_envelopes m \<and>
     sample_component_count m = 1 \<and> fl (75 / 100) \<le> retained_sample_fraction m \<and>
     (if sid = ''step_1'' then
        sample_to_source m \<and> \<not> sample_to_needle m \<and> \<not> sample_to_target m
      else if sid = ''step_2'' then
        \<not> sample_to_source m \<and> sample_to_needle m \<and> \<not> sample_to_target m \<and>
        joint_scale_um tol \<le> needle_joint_section_um m
      else
        \<not> sample_to_source m \<and> sample_to_target m \<and>
        sample_position_error_um m \<le> position_um tol \<and>
        sample_orientation_error_degrees m \<le> orientation_degrees tol \<and>
        joint_scale_um tol \<le> target_joint_section_um m \<and>
        (if sid = ''step_3'' then
           sample_to_needle m \<and> joint_scale_um tol \<le> needle_joint_section_um m
         else \<not> sample_to_needle m \<and> needle_safely_retracted m))"

definition required_shapes :: "string \<Rightarrow> string list" where
  "required_shapes sid =
     (if sid = ''step_1'' then [''sample'', ''cut'', ''protection'', ''source_bridge'']
      else if sid = ''step_2'' then [''sample'', ''source_separation'', ''needle_joint'']
      else if sid = ''step_3'' then [''sample'', ''target_joint'', ''target_interface'']
      else [''sample'', ''needle_separation'', ''target_joint''])"

lemma common_fraction_full:
  "\<not> collision m \<Longrightarrow> simulator_idle m \<Longrightarrow> changes_within_work_envelopes m \<Longrightarrow> common_fraction m = 1"
  by (simp add: common_fraction_def fadd_def)

lemma step_totals_cases:
  "map_of STEP_TOTALS sid = Some t \<longleftrightarrow>
     (sid = ''step_1'' \<and> t = 20) \<or> (sid = ''step_2'' \<and> t = 25) \<or>
     (sid = ''step_3'' \<and> t = 25) \<or> (sid = ''step_4'' \<and> t = 20)"
  by (auto simp: STEP_TOTALS_def split: if_splits)

lemmas full_simps = criterion_full shape_criterion_full shape_fraction_full common_fraction_full
  fdiv_ge_1 clamp01_full threshold_fraction_def pose_fraction_def bool_sum_def fadd_def fmul_def

lemma threshold_gap: "\<not> fl (75 / 100) \<le> fl (65 / 100)"
  by code_simp

lemma perfect_points:
  assumes "map_of STEP_TOTALS sid = Some t" and "perfect_metrics sid (geometry e) tol"
    and "tolerances_ok tol"
    and "list_all (shape_full e) (required_shapes sid)" and "co_motion_score e = 1"
  shows "map (points \<circ> snd) (step_criteria sid e tol) = map of_int (step_maxima sid)"
proof -
  have gap: "\<not> r \<le> fl (65 / 100)" if "fl (75 / 100) \<le> r" for r
    using that threshold_gap by linarith
  show ?thesis
    using assms gap pose_weights
    by (auto simp: step_totals_cases step_criteria_def criteria_defs step_maxima_def
        perfect_metrics_def required_shapes_def tolerances_ok_def full_simps)
qed

lemma three_tolerances: "tolerances_ok tol \<Longrightarrow> x \<le> position_um tol \<Longrightarrow> x \<le> fmul 3 (position_um tol)"
  using fl_mono [of "position_um tol" "3 * position_um tol"]
  by (simp add: tolerances_ok_def fmul_def)

lemma perfect_no_cap:
  assumes "map_of STEP_TOTALS sid = Some t" and "perfect_metrics sid (geometry e) tol"
    and "tolerances_ok tol"
  shows "applicable_caps sid (geometry e) tol = []"
proof -
  have "\<not> retained_sample_fraction (geometry e) < fl (65 / 100)"
    using assms(2) threshold_gap by (auto simp: perfect_metrics_def)
  then show ?thesis
    using assms three_tolerances [OF assms(3)]
    by (auto simp: step_totals_cases applicable_caps_def fragmented_def perfect_metrics_def not_less)
qed

lemma fsum_step_maxima:
  "map_of STEP_TOTALS sid = Some t \<Longrightarrow> fsum (map of_int (step_maxima sid)) = t"
  using fsum_ints [of "step_maxima sid" 0]
  by (auto simp: fsum_def step_totals_cases step_maxima_def)

definition shapes_le :: "StepEvidence \<Rightarrow> StepEvidence \<Rightarrow> bool" where
  \<comment> \<open>the same evidence except that shapes are added or agree at least as well\<close>
  "shapes_le e e' \<longleftrightarrow>
     step_id e' = step_id e \<and> geometry e' = geometry e \<and> co_motion_score e' = co_motion_score e \<and>
     trusted e' = trusted e \<and>
     (\<forall>n v. map_of (shapes e) n = Some v \<longrightarrow>
        (\<exists>v'. map_of (shapes e') n = Some v' \<and> shape_score v \<le> shape_score v'))"

lemma criterion_mono: "0 \<le> m \<Longrightarrow> f \<le> f' \<Longrightarrow> points (criterion c f m ms) \<le> points (criterion c f' m ms')"
  by (simp add: criterion_def rounded_def fmul_def round6.rnd_mono fl_mono mult_right_mono clamp01_mono)

lemma criterion_nonneg: "0 \<le> m \<Longrightarrow> 0 \<le> points (criterion c f m ms)"
  by (simp add: criterion_def rounded_def fmul_def round6.rnd_nonneg fl.rnd_nonneg)

lemma criterion_zero: "points (criterion c 0 m ms) = 0"
  by (simp add: criterion_def rounded_def fmul_def)

lemma shapes_le_cases:
  assumes "shapes_le e e'"
  obtains "map_of (shapes e) n = None"
    | v v' where "map_of (shapes e) n = Some v" "map_of (shapes e') n = Some v'"
        "shape_score v \<le> shape_score v'"
proof (cases "map_of (shapes e) n")
  case (Some v)
  with assms obtain v' where "map_of (shapes e') n = Some v'" "shape_score v \<le> shape_score v'"
    unfolding shapes_le_def by blast
  with Some show ?thesis by (rule that(2))
qed (rule that(1))

lemma shape_criterion_mono:
  assumes "shapes_le e e'" and "0 \<le> m"
  shows "points (shape_criterion c e n m) \<le> points (shape_criterion c e' n m)"
  using assms(1)
proof (cases rule: shapes_le_cases [where n = n])
  case 1
  then show ?thesis
    using assms(2) by (auto simp: shape_criterion_def criterion_zero criterion_nonneg split: option.split)
next
  case 2
  then show ?thesis using assms(2) by (simp add: shape_criterion_def criterion_mono)
qed

lemma shape_fraction_mono: "shapes_le e e' \<Longrightarrow> shape_fraction e n \<le> shape_fraction e' n"
  by (erule shapes_le_cases [where n = n])
    (auto simp: shape_fraction_def clamp01_mono split: option.split)

lemma step_criteria_mono:
  assumes "shapes_le e e'"
  shows "list_all2 (\<le>) (map (points \<circ> snd) (step_criteria sid e tol))
           (map (points \<circ> snd) (step_criteria sid e' tol))"
proof -
  have same: "geometry e' = geometry e" "co_motion_score e' = co_motion_score e"
    using assms by (simp_all add: shapes_le_def)
  have "fdiv (fadd (shape_fraction e n) x) 2 \<le> fdiv (fadd (shape_fraction e' n) x) 2" for n x
    using shape_fraction_mono [OF assms]
    by (simp add: fdiv_def fadd_def fl_mono divide_right_mono)
  then show ?thesis
    by (simp add: step_criteria_def criteria_defs same shape_criterion_mono [OF assms] criterion_mono)
qed

lemma perfect_evidence_lemma:
  assumes "map_of STEP_TOTALS sid = Some t" and "step_id e = sid" and "trusted e"
    and "perfect_metrics sid (geometry e) tol" and "tolerances_ok tol"
    and "list_all (shape_full e) (required_shapes sid)" and "co_motion_score e = 1"
  shows "\<exists>b. score_step sid e tol = Inr b \<and> final_score b = t \<and> reasons (cap b) = []"
proof -
  have "fsum (map (points \<circ> snd) (step_criteria sid e tol)) = t"
    by (simp only: perfect_points [OF assms(1,4,5,6,7)] fsum_step_maxima [OF assms(1)])
  moreover have "caps sid t e tol = \<lparr>cap_maximum = t, reasons = []\<rparr>"
    using perfect_no_cap [OF assms(1,4,5)] assms(3) by (simp add: caps_def)
  ultimately show ?thesis
    using assms(1,2) STEP_TOTALS_int [OF assms(1)] by (auto simp: score_step_def Let_def rounded_def)
qed

lemma score_step_defined:
  "map_of STEP_TOTALS sid = Some t \<Longrightarrow> step_id e = sid \<Longrightarrow> \<exists>b. score_step sid e tol = Inr b"
  by (simp add: score_step_def Let_def)

section \<open>A concrete checkpoint\<close>

text \<open>A faultless first checkpoint, used to show that the hypotheses below can be met.\<close>

definition example_shape :: ShapeComparison where
  "example_shape = \<lparr>candidate_volume_um3 = 1, reference_volume_um3 = 1, volume_similarity = 1,
     voxel_iou = 1, symmetric_surface_distance_um = 0, hausdorff_distance_um = 0, asd_score = 1,
     hausdorff_score = 1, shape_score = 1, voxel_size_um = 1 / 2, surface_sample_count = 2048,
     candidate_geometry_sha256 = [], reference_geometry_sha256 = []\<rparr>"

definition example_metrics :: GeometryMetrics where
  "example_metrics = \<lparr>sample_to_source = True, sample_to_needle = False, sample_to_target = False,
     needle_joint_section_um = 0, target_joint_section_um = 0, sample_component_count = 1,
     total_sample_fraction = 1, retained_sample_fraction = 1, sample_position_error_um = 0,
     sample_orientation_error_degrees = 0, sample_integrity_step_1 = True,
     sample_integrity_final = False, changes_within_work_envelopes = True,
     envelope_violations = [], needle_retraction_distance_um = 0, needle_safely_retracted = True,
     collision = False, simulator_idle = True, canonical_geometry_hash = []\<rparr>"

definition example_tolerances :: AdaptiveTolerances where
  "example_tolerances = \<lparr>characteristic_length_um = 10, position_um = 1, joint_scale_um = 1 / 4,
     orientation_degrees = 5, safe_retraction_um = 5\<rparr>"

definition example_evidence :: StepEvidence where
  "example_evidence = \<lparr>step_id = ''step_1'', geometry = example_metrics,
     shapes = [(''sample'', example_shape), (''cut'', example_shape),
               (''protection'', example_shape), (''source_bridge'', example_shape)],
     co_motion_score = 1, trusted = True\<rparr>"

lemma example_facts:
  "step_id example_evidence = ''step_1''" "trusted example_evidence"
  "co_motion_score example_evidence = 1" "tolerances_ok example_tolerances"
  "perfect_metrics ''step_1'' (geometry example_evidence) example_tolerances"
  "list_all (shape_full example_evidence) (required_shapes ''step_1'')"
  using fl.rnd_le_1 [of "75 / 100"]
  by (simp_all add: example_evidence_def example_metrics_def example_tolerances_def
      example_shape_def tolerances_ok_def perfect_metrics_def shape_full_def required_shapes_def)

lemma example_scored:
  obtains b where "score_step ''step_1'' example_evidence example_tolerances = Inr b"
    and "final_score b = 20" and "b_maximum_points b = 20"
proof -
  obtain b where b: "score_step ''step_1'' example_evidence example_tolerances = Inr b"
      "final_score b = 20"
    using perfect_evidence_lemma [of "''step_1''" 20 example_evidence example_tolerances] example_facts
    by (auto simp: STEP_TOTALS_def)
  then show ?thesis using that [of b] by (auto simp: score_step_Inr STEP_TOTALS_def)
qed

section \<open>Properties\<close>

text \<open>
  C2. A step earns its full points only if its checkpoint is trusted and every topology fact the
  step stands for holds in the trusted geometry: no candidate can reach the maximum of a step
  while the sample is fragmented, has lost more than 35 percent, or has a wrong connection.
\<close>

theorem full_score_requires_topology:
  assumes "score_step sid e tol = Inr b" and "final_score b = b_maximum_points b"
  shows "trusted e \<and> \<not> fragmented (geometry e) \<and>
    (sid = ''step_1'' \<longrightarrow>
       sample_to_source (geometry e) \<and> \<not> sample_to_needle (geometry e) \<and>
       \<not> sample_to_target (geometry e) \<and> \<not> collision (geometry e) \<and>
       changes_within_work_envelopes (geometry e)) \<and>
    (sid = ''step_2'' \<longrightarrow>
       \<not> sample_to_source (geometry e) \<and> sample_to_needle (geometry e) \<and>
       \<not> sample_to_target (geometry e) \<and>
       joint_scale_um tol \<le> needle_joint_section_um (geometry e)) \<and>
    (sid = ''step_3'' \<longrightarrow>
       \<not> sample_to_source (geometry e) \<and> sample_to_needle (geometry e) \<and>
       sample_to_target (geometry e) \<and>
       joint_scale_um tol \<le> target_joint_section_um (geometry e) \<and>
       sample_position_error_um (geometry e) \<le> fmul 3 (position_um tol)) \<and>
    (sid = ''step_4'' \<longrightarrow>
       \<not> sample_to_source (geometry e) \<and> \<not> sample_to_needle (geometry e) \<and>
       sample_to_target (geometry e) \<and> needle_safely_retracted (geometry e) \<and>
       sample_position_error_um (geometry e) \<le> fmul 3 (position_um tol))"
  using full_score_no_cap [OF assms]
  by (auto simp: applicable_caps_def not_less split: if_splits)

theorem full_score_requires_topology_witness:
  "\<exists>b. score_step ''step_1'' example_evidence example_tolerances = Inr b \<and>
       final_score b = b_maximum_points b \<and> sample_to_source (geometry example_evidence)"
proof -
  obtain b where b: "score_step ''step_1'' example_evidence example_tolerances = Inr b"
      "final_score b = b_maximum_points b"
    by (rule example_scored) simp
  then show ?thesis using full_score_requires_topology [OF b] by blast
qed


text \<open>
  Perfect evidence earns full points, rounding included: when the geometry meets the step's
  requirements, all shapes the rubric asks for agree fully and the sample moved with the needle,
  the final score is exactly the step's maximum and no cap is recorded.
\<close>

theorem perfect_evidence_full_score:
  assumes "map_of STEP_TOTALS sid = Some t" and "step_id e = sid" and "trusted e"
    and "perfect_metrics sid (geometry e) tol" and "tolerances_ok tol"
    and "list_all (shape_full e) (required_shapes sid)" and "co_motion_score e = 1"
  shows "\<exists>b. score_step sid e tol = Inr b \<and> final_score b = t \<and> reasons (cap b) = []"
  using assms by (rule perfect_evidence_lemma)

theorem perfect_evidence_full_score_witness:
  "\<exists>b. score_step ''step_1'' example_evidence example_tolerances = Inr b \<and> final_score b = 20 \<and>
       reasons (cap b) = []"
  by (rule perfect_evidence_full_score) (simp_all add: example_facts STEP_TOTALS_def)

text \<open>
  Scoring is monotone in the shape evidence: with the same geometry, adding a shape
  comparison or raising a shape score never lowers the final score of the step, although
  every intermediate value is rounded.
\<close>

theorem score_step_mono_shapes:
  assumes "score_step sid e tol = Inr b" and "shapes_le e e'"
  shows "\<exists>b'. score_step sid e' tol = Inr b' \<and> final_score b \<le> final_score b'"
proof -
  obtain t where t: "map_of STEP_TOTALS sid = Some t" "step_id e = sid"
    and f: "final_score b = rounded (min (rounded (fsum (map (points \<circ> snd) (step_criteria sid e tol))))
                                         (cap_maximum (caps sid t e tol)))"
    using assms(1) by (auto simp: score_step_Inr)
  have caps: "caps sid t e' tol = caps sid t e tol"
    using assms(2) by (simp add: caps_def shapes_le_def)
  have "fsum (map (points \<circ> snd) (step_criteria sid e tol))
      \<le> fsum (map (points \<circ> snd) (step_criteria sid e' tol))"
    by (rule fsum_mono [OF step_criteria_mono [OF assms(2)]])
  then have "final_score b \<le>
      rounded (min (rounded (fsum (map (points \<circ> snd) (step_criteria sid e' tol))))
                   (cap_maximum (caps sid t e' tol)))"
    unfolding f caps rounded_def by (intro round6.rnd_mono min.mono) simp_all
  moreover have "step_id e' = sid" using assms(2) t(2) by (simp add: shapes_le_def)
  ultimately show ?thesis using t(1) by (auto simp: score_step_def Let_def)
qed

theorem score_step_mono_shapes_witness:
  "\<exists>b b'. score_step ''step_1'' (example_evidence\<lparr>shapes := []\<rparr>) example_tolerances = Inr b \<and>
     score_step ''step_1'' example_evidence example_tolerances = Inr b' \<and>
     final_score b \<le> final_score b'"
proof -
  obtain b where b: "score_step ''step_1'' (example_evidence\<lparr>shapes := []\<rparr>) example_tolerances = Inr b"
    using score_step_defined [of "''step_1''" 20 "example_evidence\<lparr>shapes := []\<rparr>"]
    by (auto simp: STEP_TOTALS_def example_evidence_def)
  have "shapes_le (example_evidence\<lparr>shapes := []\<rparr>) example_evidence"
    by (simp add: shapes_le_def)
  from score_step_mono_shapes [OF b this] b show ?thesis by blast
qed


text \<open>
  The adaptive tolerances are always usable: whatever the sample dimensions and whatever the
  platform's cube root returns, the tolerances are positive (so no rubric fraction divides by
  zero) and stay inside the documented clamps.
\<close>

lemma from_dimensions_bounds:
  assumes "from_dimensions cube_root dims = Inr tol"
  shows "tolerances_ok tol \<and> 1 / 2 \<le> position_um tol \<and> position_um tol \<le> 2 \<and>
         fl (2 / 10) \<le> joint_scale_um tol \<and> joint_scale_um tol \<le> 1 \<and>
         5 \<le> safe_retraction_um tol \<and> safe_retraction_um tol \<le> 20"
  using from_dimensions_ok [OF assms] assms fl_fifth_pos(2)
  by (auto simp: from_dimensions_def Let_def split: prod.splits if_splits)

end
