(* ===== verification/Py_Text.thy ===== *)
theory Py_Text
  imports Float64 Json_Text
begin

text \<open>
  The string, number and float operations of the language that the instrument simulation and the
  oracle use. Text decoded from ASCII and byte strings are both \<open>char list\<close>. The replacement
  character that \<^verbatim>\<open>decode("ascii", errors="replace")\<close> inserts is outside this type; \<open>ascii_replace\<close>
  stands it in by the character 255, which like it is no white space and equals no ASCII character.
  \<open>pyfloat\<close> arithmetic extends the rounding of theory \<open>Float64\<close> by the infinities and NaN.
\<close>

section \<open>Characters and strings\<close>

definition code_of :: "char \<Rightarrow> int" where
  "code_of c = of_char c"

definition is_ascii :: "string \<Rightarrow> bool" where
  "is_ascii s = list_all (\<lambda>c. code_of c < 128) s"

definition ascii_replace :: "string \<Rightarrow> string" where
  "ascii_replace s = map (\<lambda>c. if code_of c < 128 then c else CHR 0xFF) s"

definition ascii_ignore :: "string \<Rightarrow> string" where
  "ascii_ignore s = filter (\<lambda>c. code_of c < 128) s"

definition is_space :: "char \<Rightarrow> bool" where
  \<comment> \<open>\<^verbatim>\<open>str.isspace\<close>\<close>
  "is_space c = (let n = code_of c in (9 \<le> n \<and> n \<le> 13) \<or> (28 \<le> n \<and> n \<le> 32) \<or> n = 133 \<or> n = 160)"

definition is_byte_space :: "char \<Rightarrow> bool" where
  "is_byte_space c = (let n = code_of c in (9 \<le> n \<and> n \<le> 13) \<or> n = 32)"

definition strip_by :: "(char \<Rightarrow> bool) \<Rightarrow> string \<Rightarrow> string" where
  "strip_by p s = rev (dropWhile p (rev (dropWhile p s)))"

definition strip :: "string \<Rightarrow> string" where "strip s = strip_by is_space s"
definition bytes_strip :: "string \<Rightarrow> string" where "bytes_strip s = strip_by is_byte_space s"

definition upper_char :: "char \<Rightarrow> char" where
  "upper_char c = (if 97 \<le> code_of c \<and> code_of c \<le> 122 then char_of (code_of c - 32) else c)"

definition upper :: "string \<Rightarrow> string" where
  "upper s = map upper_char s"

definition starts_with :: "string \<Rightarrow> string \<Rightarrow> bool" where
  \<comment> \<open>\<^verbatim>\<open>s.startswith(pat)\<close>\<close>
  "starts_with pat s = (take (length pat) s = pat)"

definition ends_with :: "string \<Rightarrow> string \<Rightarrow> bool" where
  "ends_with pat s = starts_with (rev pat) (rev s)"

fun contains :: "string \<Rightarrow> string \<Rightarrow> bool" where
  \<comment> \<open>\<^verbatim>\<open>pat in text\<close>\<close>
  "contains pat [] = (pat = [])"
| "contains pat (c # cs) = (take (length pat) (c # cs) = pat \<or> contains pat cs)"

definition second_word :: "string \<Rightarrow> string option" where
  \<comment> \<open>\<^verbatim>\<open>text.split(None, 1)[1]\<close>; \<^verbatim>\<open>None\<close> where it raises\<close>
  "second_word s =
     (let rest = dropWhile is_space (dropWhile (\<lambda>c. \<not> is_space c) (dropWhile is_space s)) in
      if rest = [] then None else Some rest)"

definition split_once :: "char \<Rightarrow> string \<Rightarrow> (string \<times> string) option" where
  \<comment> \<open>\<^verbatim>\<open>a, b = s.split(c, 1)\<close>; \<^verbatim>\<open>None\<close> where the unpacking raises\<close>
  "split_once c s =
     (case dropWhile (\<lambda>x. x \<noteq> c) s of [] \<Rightarrow> None | _ # rest \<Rightarrow> Some (takeWhile (\<lambda>x. x \<noteq> c) s, rest))"

fun split_on :: "char \<Rightarrow> string \<Rightarrow> string list" where
  "split_on c [] = [[]]"
| "split_on c (x # xs) =
     (if x = c then [] # split_on c xs
      else case split_on c xs of [] \<Rightarrow> [[x]] | w # ws \<Rightarrow> (x # w) # ws)"

fun join :: "string \<Rightarrow> string list \<Rightarrow> string" where
  "join sep [] = []"
| "join sep [s] = s"
| "join sep (s # t # ss) = s @ sep @ join sep (t # ss)"

definition is_decimal :: "char \<Rightarrow> bool" where
  "is_decimal c = (48 \<le> code_of c \<and> code_of c \<le> 57)"

definition is_digit_str :: "string \<Rightarrow> bool" where
  \<comment> \<open>\<^verbatim>\<open>s.isdigit()\<close>: the superscripts count as digits\<close>
  "is_digit_str s = (s \<noteq> [] \<and> list_all (\<lambda>c. is_decimal c \<or> code_of c \<in> {178, 179, 185}) s)"

section \<open>Numbers in text\<close>

fun digits_value :: "int \<Rightarrow> string \<Rightarrow> int" where
  "digits_value acc [] = acc"
| "digits_value acc (c # cs) = digits_value (10 * acc + (code_of c - 48)) cs"

fun digit_part :: "string \<Rightarrow> string option" where
  \<comment> \<open>digits with single underscores between them; the digits alone\<close>
  "digit_part [] = None"
| "digit_part [c] = (if is_decimal c then Some [c] else None)"
| "digit_part (c # d # cs) =
     (if \<not> is_decimal c then None
      else if d = CHR ''_'' then map_option (Cons c) (digit_part cs)
      else map_option (Cons c) (digit_part (d # cs)))"

definition split_sign :: "string \<Rightarrow> int \<times> string" where
  "split_sign s = (case s of
     c # cs \<Rightarrow> if c = CHR ''-'' then (- 1, cs) else if c = CHR ''+'' then (1, cs) else (1, s)
   | [] \<Rightarrow> (1, []))"

definition MAX_STR_DIGITS :: nat where
  \<comment> \<open>the interpreter's limit for the conversion of decimal text\<close>
  "MAX_STR_DIGITS = 4300"

definition parse_int :: "string \<Rightarrow> int option" where
  \<comment> \<open>\<^verbatim>\<open>int(s)\<close>; \<^verbatim>\<open>None\<close> is \<^verbatim>\<open>ValueError\<close>\<close>
  "parse_int s =
     (case split_sign (strip s) of (sign, body) \<Rightarrow>
        (case digit_part body of None \<Rightarrow> None
         | Some ds \<Rightarrow> if MAX_STR_DIGITS < length ds then None else Some (sign * digits_value 0 ds)))"

definition ten_pow :: "int \<Rightarrow> rat" where
  "ten_pow e = (if 0 \<le> e then 10 ^ nat e else 1 / 10 ^ nat (- e))"

definition to_float :: "rat \<Rightarrow> pyfloat" where
  \<comment> \<open>the float nearest to a number, infinite from \<open>2 ^ 1024\<close> on\<close>
  "to_float q =
     (let r = fl q in
      if r \<noteq> 0 \<and> 1024 \<le> ilog2 \<bar>r\<bar> then (if 0 < r then PosInf else NegInf) else Fin r)"

definition mantissa :: "string \<Rightarrow> (int \<times> int) option" where
  \<comment> \<open>digits and the number of them behind the point\<close>
  "mantissa s =
     (let whole = takeWhile (\<lambda>c. c \<noteq> CHR ''.'') s; rest = dropWhile (\<lambda>c. c \<noteq> CHR ''.'') s in
      case rest of
        [] \<Rightarrow> map_option (\<lambda>ds. (digits_value 0 ds, 0)) (digit_part whole)
      | _ # tail \<Rightarrow>
          if whole = [] \<and> tail = [] then None
          else (case (if whole = [] then Some [] else digit_part whole,
                      if tail = [] then Some [] else digit_part tail) of
                  (Some a, Some b) \<Rightarrow> Some (digits_value 0 (a @ b), int (length b))
                | _ \<Rightarrow> None))"

definition exponent :: "string \<Rightarrow> int option" where
  "exponent rest =
     (case rest of [] \<Rightarrow> Some 0
      | _ # ex \<Rightarrow> (case split_sign ex of (es, eb) \<Rightarrow>
          map_option (\<lambda>ds. es * digits_value 0 ds) (digit_part eb)))"

definition parse_float :: "string \<Rightarrow> pyfloat option" where
  \<comment> \<open>\<^verbatim>\<open>float(s)\<close>\<close>
  "parse_float s =
     (case split_sign (strip s) of (sign, body) \<Rightarrow>
        if upper body \<in> {''INF'', ''INFINITY''} then Some (if sign = 1 then PosInf else NegInf)
        else if upper body = ''NAN'' then Some NaN
        else
          let m = takeWhile (\<lambda>c. c \<notin> set ''eE'') body; rest = dropWhile (\<lambda>c. c \<notin> set ''eE'') body in
          (case (mantissa m, exponent rest) of
             (Some (n, k), Some e) \<Rightarrow> Some (to_float (of_int (sign * n) * ten_pow (e - k)))
           | _ \<Rightarrow> None))"

fun pad_zeros :: "nat \<Rightarrow> string \<Rightarrow> string" where
  \<comment> \<open>\<^verbatim>\<open>s.zfill(n)\<close> of a digit string\<close>
  "pad_zeros n s = replicate (n - length s) (CHR ''0'') @ s"

definition format_fixed :: "bool \<Rightarrow> nat \<Rightarrow> rat \<Rightarrow> string" where
  \<comment> \<open>\<^verbatim>\<open>f"{q:.nf}"\<close>, with a plus sign for \<^verbatim>\<open>f"{q:+.nf}"\<close>; the sign of a negative value that
      rounds to zero stays, as in the language\<close>
  "format_fixed signed n q =
     (let scaled = round_half_even (\<bar>q\<bar> * 10 ^ n);
          whole = show_int (scaled div 10 ^ n);
          tail = pad_zeros n (show_int (scaled mod 10 ^ n))
      in (if q < 0 then ''-'' else if signed then ''+'' else '''') @ whole @ ''.'' @ tail)"

definition ilog10 :: "rat \<Rightarrow> int" where
  \<comment> \<open>the largest \<open>e\<close> with \<open>10 ^ e \<le> q\<close>, for positive \<open>q\<close>\<close>
  "ilog10 q = (if 1 \<le> q then int (length (show_int \<lfloor>q\<rfloor>)) - 1
     else - int (length (show_int (\<lceil>1 / q\<rceil> - 1))))"

definition format_sci :: "nat \<Rightarrow> rat \<Rightarrow> string" where
  \<comment> \<open>\<^verbatim>\<open>f"{q:+.nE}"\<close>\<close>
  "format_sci n q =
     (let e0 = (if q = 0 then 0 else ilog10 \<bar>q\<bar>);
          m0 = round_half_even (\<bar>q\<bar> / ten_pow e0 * 10 ^ n);
          over = 10 * 10 ^ n \<le> m0;
          e = (if over then e0 + 1 else e0);
          m = (if over then 10 ^ n else m0)
      in (if q < 0 then ''-'' else ''+'') @ show_int (m div 10 ^ n) @ ''.'' @ pad_zeros n (show_int (m mod 10 ^ n)) @
         ''E'' @ (if e < 0 then ''-'' else ''+'') @ pad_zeros 2 (show_int \<bar>e\<bar>))"

definition non_finite_text :: "bool \<Rightarrow> bool \<Rightarrow> pyfloat \<Rightarrow> string" where
  \<comment> \<open>infinities and NaN under a format specification; upper case for the presentation \<^verbatim>\<open>E\<close>\<close>
  "non_finite_text signed capital x =
     (let t = (case x of NaN \<Rightarrow> (if signed then ''+nan'' else ''nan'') | NegInf \<Rightarrow> ''-inf''
               | _ \<Rightarrow> (if signed then ''+inf'' else ''inf'')) in
      if capital then upper t else t)"

definition format_pf :: "bool \<Rightarrow> nat \<Rightarrow> pyfloat \<Rightarrow> string" where
  "format_pf signed n x = (case x of Fin q \<Rightarrow> format_fixed signed n q | _ \<Rightarrow> non_finite_text signed False x)"

definition format_pf_sci :: "nat \<Rightarrow> pyfloat \<Rightarrow> string" where
  "format_pf_sci n x = (case x of Fin q \<Rightarrow> format_sci n q | _ \<Rightarrow> non_finite_text True True x)"

definition repr_char :: "char \<Rightarrow> char \<Rightarrow> string" where
  "repr_char quote c =
     (if c = quote \<or> c = CHR 0x5C then [CHR 0x5C, c]
      else if c = CHR 0x0A then [CHR 0x5C, CHR ''n'']
      else if c = CHR 0x0D then [CHR 0x5C, CHR ''r'']
      else if c = CHR 0x09 then [CHR 0x5C, CHR ''t'']
      else if code_of c < 32 \<or> (127 \<le> code_of c \<and> code_of c \<le> 160) \<or> code_of c = 173
        then [CHR 0x5C, CHR ''x'', hex_digit (of_char c div 16), hex_digit (of_char c mod 16)]
      else [c])"

definition py_repr :: "string \<Rightarrow> string" where
  \<comment> \<open>\<^verbatim>\<open>repr(s)\<close>\<close>
  "py_repr s =
     (let quote = (if CHR 0x27 \<in> set s \<and> CHR 0x22 \<notin> set s then CHR 0x22 else CHR 0x27) in
      quote # concat (map (repr_char quote) s) @ [quote])"

definition int_error :: "string \<Rightarrow> string" where
  \<comment> \<open>the message of the \<^verbatim>\<open>ValueError\<close> of \<^verbatim>\<open>int(s)\<close>\<close>
  "int_error s =
     (case digit_part (snd (split_sign (strip s))) of
        Some ds \<Rightarrow> ''Exceeds the limit (4300 digits) for integer string conversion: value has '' @
          show_int (int (length ds)) @ '' digits; use sys.set_int_max_str_digits() to increase the limit''
      | None \<Rightarrow> ''invalid literal for int() with base 10: '' @ py_repr s)"

definition float_error :: "string \<Rightarrow> string" where
  "float_error s = ''could not convert string to float: '' @ py_repr s"

section \<open>Floats with infinities and NaN\<close>

definition pf_neg :: "pyfloat \<Rightarrow> pyfloat" where
  "pf_neg x = (case x of Fin a \<Rightarrow> Fin (- a) | PosInf \<Rightarrow> NegInf | NegInf \<Rightarrow> PosInf | NaN \<Rightarrow> NaN)"

fun pf_add :: "pyfloat \<Rightarrow> pyfloat \<Rightarrow> pyfloat" where
  "pf_add (Fin a) (Fin b) = to_float (a + b)"
| "pf_add NaN y = NaN"
| "pf_add x NaN = NaN"
| "pf_add PosInf NegInf = NaN"
| "pf_add NegInf PosInf = NaN"
| "pf_add PosInf y = PosInf"
| "pf_add NegInf y = NegInf"
| "pf_add x PosInf = PosInf"
| "pf_add x NegInf = NegInf"

definition pf_sub :: "pyfloat \<Rightarrow> pyfloat \<Rightarrow> pyfloat" where
  "pf_sub x y = pf_add x (pf_neg y)"

definition pf_sign :: "pyfloat \<Rightarrow> rat" where
  "pf_sign x = (case x of Fin a \<Rightarrow> sgn a | PosInf \<Rightarrow> 1 | NegInf \<Rightarrow> - 1 | NaN \<Rightarrow> 0)"

definition pf_mul :: "pyfloat \<Rightarrow> pyfloat \<Rightarrow> pyfloat" where
  "pf_mul x y = (case (x, y) of
     (Fin a, Fin b) \<Rightarrow> to_float (a * b)
   | _ \<Rightarrow> if x = NaN \<or> y = NaN \<or> pf_sign x * pf_sign y = 0 then NaN
         else if 0 < pf_sign x * pf_sign y then PosInf else NegInf)"

fun pf_le :: "pyfloat \<Rightarrow> pyfloat \<Rightarrow> bool" where
  "pf_le (Fin a) (Fin b) = (a \<le> b)"
| "pf_le NaN y = False"
| "pf_le x NaN = False"
| "pf_le NegInf y = True"
| "pf_le x PosInf = True"
| "pf_le PosInf y = False"
| "pf_le x NegInf = False"

definition pf_less :: "pyfloat \<Rightarrow> pyfloat \<Rightarrow> bool" where
  "pf_less x y = (pf_le x y \<and> \<not> pf_le y x)"

lemma to_float_bounded: "\<bar>q\<bar> \<le> 2 ^ 53 \<Longrightarrow> to_float q = Fin (fl q)"
proof -
  assume "\<bar>q\<bar> \<le> 2 ^ 53"
  then have "fl q \<le> of_int (2 ^ 53)" "of_int (- (2 ^ 53)) \<le> fl q"
    by (intro fl.rnd_le_int fl.rnd_ge_int; simp add: abs_le_iff)+
  then have "\<bar>fl q\<bar> \<le> pow2 53" by (simp add: abs_le_iff pow2_def)
  also have "\<dots> < pow2 1024" by (rule pow2_strict_mono) simp
  finally have "fl q \<noteq> 0 \<Longrightarrow> ilog2 \<bar>fl q\<bar> < 1024" by (intro ilog2_le) simp_all
  then show ?thesis by (auto simp: to_float_def Let_def)
qed

lemma pf_le_Fin [simp]: "pf_le (Fin a) x \<and> pf_le x (Fin b) \<longleftrightarrow> (\<exists>q. x = Fin q \<and> a \<le> q \<and> q \<le> b)"
  by (cases x) auto

section \<open>Printing and reading numbers\<close>

lemma code_of_char_of: "code_of (char_of (n :: nat)) = int (n mod 256)"
  unfolding code_of_def by (metis of_char_of of_nat_of_char)

lemma code_of_char_of_int: "code_of (char_of (n :: int)) = n mod 256"
  by (simp add: code_of_def)

lemma code_of_range: "0 \<le> code_of c" "code_of c < 256"
  using of_nat_of_char [of c, where 'a = int, symmetric] by (simp_all add: code_of_def)

lemma char_of_code [simp]: "char_of (code_of c) = c"
  by (simp add: code_of_def)

lemma code_of_digit: "0 \<le> d \<Longrightarrow> d < 10 \<Longrightarrow> code_of (char_of (48 + nat d)) = 48 + d"
  by (simp add: code_of_char_of)

lemma show_pos_step: "0 < n \<Longrightarrow> show_pos n = show_pos (n div 10) @ [char_of (48 + nat (n mod 10))]"
  by (subst show_pos.simps) simp

lemma show_pos_decimal: "list_all is_decimal (show_pos n)"
proof (induction n rule: show_pos.induct)
  case (1 n)
  have "0 \<le> n mod 10" "n mod 10 < 10" by simp_all
  then have "is_decimal (char_of (48 + nat (n mod 10)))"
    by (simp add: is_decimal_def code_of_digit)
  with 1 show ?case by (subst show_pos.simps) simp
qed

lemma digits_value_append: "digits_value a (xs @ ys) = digits_value (digits_value a xs) ys"
  by (induction xs arbitrary: a) simp_all

lemma digits_value_show_pos: "0 \<le> n \<Longrightarrow> digits_value 0 (show_pos n) = n"
proof (induction n rule: show_pos.induct)
  case (1 n)
  show ?case
  proof (cases "n = 0")
    case False
    with 1 have "0 < n" by simp
    have d: "0 \<le> n mod 10" "n mod 10 < 10" by simp_all
    have "digits_value 0 (show_pos n) = 10 * (n div 10) + n mod 10"
      using 1 \<open>0 < n\<close> code_of_digit [OF d] by (simp add: show_pos_step digits_value_append)
    then show ?thesis by simp
  qed (simp add: show_pos.simps)
qed

lemma show_pos_length: "n < 10 ^ k \<Longrightarrow> length (show_pos n) \<le> k"
proof (induction k arbitrary: n)
  case 0
  then show ?case by (subst show_pos.simps) simp
next
  case (Suc k)
  have "n div 10 < 10 ^ k" using Suc.prems by auto
  from Suc.IH [OF this] show ?case by (cases "0 < n") (simp_all add: show_pos_step show_pos.simps)
qed

lemma show_nonneg:
  assumes "0 \<le> n"
  shows "list_all is_decimal (show_int n)" "show_int n \<noteq> []" "digits_value 0 (show_int n) = n"
    "n < 10 ^ k \<Longrightarrow> 0 < k \<Longrightarrow> length (show_int n) \<le> k"
  using assms show_pos_decimal [of n] digits_value_show_pos [of n] show_pos_length [of n k]
  by (auto simp: show_int_def is_decimal_def code_of_def show_pos_step)

lemma decimal_facts:
  assumes "is_decimal c"
  shows "\<not> is_space c" "\<not> is_byte_space c" "c \<noteq> CHR ''_''" "c \<noteq> CHR ''-''" "c \<noteq> CHR ''+''" "code_of c < 128"
proof -
  have n: "48 \<le> code_of c" "code_of c \<le> 57" using assms by (simp_all add: is_decimal_def)
  show "\<not> is_space c" "\<not> is_byte_space c" "code_of c < 128"
    using n by (simp_all add: is_space_def is_byte_space_def Let_def)
  have "code_of (CHR ''_'') = 95" "code_of (CHR ''-'') = 45" "code_of (CHR ''+'') = 43"
    by code_simp+
  with n show "c \<noteq> CHR ''_''" "c \<noteq> CHR ''-''" "c \<noteq> CHR ''+''" by auto
qed

lemma digit_part_decimal: "s \<noteq> [] \<Longrightarrow> list_all is_decimal s \<Longrightarrow> digit_part s = Some s"
proof (induction s rule: digit_part.induct)
  case (3 c d cs)
  then have "is_decimal c" "d \<noteq> CHR ''_''" by (simp_all add: decimal_facts(3))
  with 3 show ?case by simp
qed simp_all

lemma strip_by_id: "list_all (\<lambda>c. \<not> p c) s \<Longrightarrow> strip_by p s = s"
proof (cases "s = []")
  case False
  assume "list_all (\<lambda>c. \<not> p c) s"
  with False have "dropWhile p s = s" "dropWhile p (rev s) = rev s"
    by (simp_all add: list_all_iff dropWhile_eq_self_iff hd_rev)
  then show ?thesis by (simp add: strip_by_def)
qed (simp add: strip_by_def)

lemma split_sign_decimal: "list_all is_decimal s \<Longrightarrow> split_sign s = (1, s)"
  by (cases s) (simp_all add: split_sign_def decimal_facts(4,5))

lemma pad_zeros_facts:
  assumes "list_all is_decimal s" "s \<noteq> []"
  shows "list_all is_decimal (pad_zeros k s)" "pad_zeros k s \<noteq> []"
    "digits_value 0 (pad_zeros k s) = digits_value 0 s" "length (pad_zeros k s) = max k (length s)"
proof -
  have z: "digits_value 0 (replicate m (CHR ''0'')) = 0" for m
    by (induction m) (simp_all add: code_of_def)
  show "list_all is_decimal (pad_zeros k s)" "pad_zeros k s \<noteq> []"
    "digits_value 0 (pad_zeros k s) = digits_value 0 s" "length (pad_zeros k s) = max k (length s)"
    using assms by (auto simp: digits_value_append z list_all_iff is_decimal_def code_of_def)
qed

end
