(* ===== verification/Fibsem_Scoring.thy ===== *)
theory Fibsem_Scoring
  imports Fibsem_Journal Step_Rubric Py_Text
begin

text \<open>
  Grading of one lift-out world and of the ten-world suite
  (\<^verbatim>\<open>sources/openfibsem/fibsem_liftout_v1/scoring.py\<close>). \<open>journal_markers\<close> extracts the sequence
  numbers of the semantic milestones from the trusted journal, \<open>grade_world\<close> combines them with
  the rubric of theory \<open>Step_Rubric\<close>, the terminal state and the runtime evidence into gates and a
  score, \<open>aggregate_worlds\<close> decides the suite. The measurements against the packaged reference
  meshes (STL parsing, voxel and surface comparison, scoring of the artifact files) enter through
  the record \<open>ReferenceBundle\<close>: what \<^verbatim>\<open>compare_shapes\<close> and \<^verbatim>\<open>score_checkpoint_artifacts\<close> return for
  the files under a checkpoint's artifact root.
\<close>

section \<open>Evidence\<close>

definition STEPS :: "string list" where
  "STEPS = [''step_1'', ''step_2'', ''step_3'', ''step_4'']"

definition STEP_POINTS :: "(string, rat) dict" where
  "STEP_POINTS = [(''step_1'', 20), (''step_2'', 25), (''step_3'', 25), (''step_4'', 20)]"

definition FIXED_WORLDS :: "string list" where
  "FIXED_WORLDS = [''nominal'', ''small'', ''large'', ''needle_offset'', ''target_pose'']"

record CheckpointEvidence =
  c_step_id :: string
  c_geometry :: GeometryMetrics
  artifact_complete :: bool
  artifact_digest :: string
  artifact_root :: "string option"
  artifact_evidence :: "obj option"

record TerminalEvidence =
  safe :: bool
  t_simulator_idle :: bool
  t_collision :: bool
  cleanup_error :: "string option"

definition is_safe :: "TerminalEvidence \<Rightarrow> bool" where
  "is_safe t = (safe t \<and> t_simulator_idle t \<and> \<not> t_collision t \<and> cleanup_error t = None)"

record RuntimeEvidence =
  candidate_exit_code :: "int option"
  timed_out :: bool
  forbidden_access :: bool
  infrastructure_failure :: bool
  candidate_uid :: int
  simulator_uid :: int
  isolation_verified :: bool

definition candidate_completed :: "RuntimeEvidence \<Rightarrow> bool" where
  "candidate_completed r = (candidate_exit_code r = Some 0 \<and> \<not> timed_out r)"

definition identities_valid :: "RuntimeEvidence \<Rightarrow> bool" where
  "identities_valid r = (candidate_uid r = 10001 \<and> simulator_uid r = 11001)"

record ScenarioSpec =
  scenario_id :: string
  tolerances :: AdaptiveTolerances
  scenario_bytes :: string

record FibsemWorldReport =
  w_world_id :: string
  category :: string
  score :: "rat option"
  strict_pass :: bool
  retry_eligible :: bool
  step_scores :: "(string, rat) dict"
  artifact_score :: rat
  step_breakdowns :: "(string, StepBreakdown) dict"
  reference :: "obj option"
  strict_gates :: "(string, bool) dict"
  checkpoints :: "(string, CheckpointEvidence) dict"
  partial_order :: "(string, int option) dict"
  terminal :: TerminalEvidence
  runtime_evidence :: RuntimeEvidence
  evidence_confidence :: rat

definition digest_text :: "string \<Rightarrow> bool" where
  \<comment> \<open>\<^verbatim>\<open>_is_digest\<close> of a string\<close>
  "digest_text s = is_digest (JStr s) id"

definition checkpoint_evidence_init :: "CheckpointEvidence \<Rightarrow> string + CheckpointEvidence" where
  "checkpoint_evidence_init c =
     bind_res (require (c_step_id c \<in> set STEPS) ''checkpoint evidence step is invalid'') (\<lambda>_.
     bind_res (require (artifact_complete c \<longrightarrow> digest_text (artifact_digest c))
       ''checkpoint artifact digest is invalid'') (\<lambda>_.
     bind_res (require (case artifact_root c of None \<Rightarrow> True | Some path \<Rightarrow> take 1 path = ''/'')
       ''checkpoint artifact root must be absolute'') (\<lambda>_. Inr c)))"

section \<open>Markers of the journal\<close>

definition set_default :: "'k \<Rightarrow> 'v \<Rightarrow> ('k, 'v) dict \<Rightarrow> ('k, 'v) dict" where
  "set_default k v d = (case map_of d k of None \<Rightarrow> AList.update k v d | Some _ \<Rightarrow> d)"

record operation_entry =
  op_sequence :: int
  op_name :: string
  op_details :: obj
  op_result :: obj

record marker_state =
  m_operations :: "operation_entry list"
  m_checkpoints :: "(string, int) dict"
  m_rejected :: bool
  pattern_by_id :: "(string, string) dict"
  pattern_completion :: "(string, int) dict"

definition get_default :: "obj \<Rightarrow> string \<Rightarrow> string json \<Rightarrow> string json" where
  "get_default d k v = (case map_of d k of None \<Rightarrow> v | Some x \<Rightarrow> x)"

definition forbidden_rejection :: "JournalEvent \<Rightarrow> bool" where
  "forbidden_rejection e =
     ((case str_of (json_get (ev_fields e) ''reason'') of
         Some r \<Rightarrow> contains ''not allowed'' r | None \<Rightarrow> False) \<or>
      (case str_of (json_get (ev_fields e) ''operation'') of
         Some p \<Rightarrow> starts_with ''_'' p | None \<Rightarrow> False))"

definition note_checkpoint :: "JournalEvent \<Rightarrow> marker_state \<Rightarrow> marker_state" where
  "note_checkpoint e s =
     (if kind e = ''checkpoint.exported'' then
        (case str_of (json_get (ev_fields e) ''step_id'') of
           Some step \<Rightarrow> s\<lparr>m_checkpoints := set_default step (sequence e) (m_checkpoints s)\<rparr>
         | None \<Rightarrow> s)
      else s)"

definition note_rejection :: "JournalEvent \<Rightarrow> marker_state \<Rightarrow> marker_state" where
  "note_rejection e s =
     (if kind e = ''rpc.rejected'' then s\<lparr>m_rejected := m_rejected s \<or> forbidden_rejection e\<rparr> else s)"

definition note_pattern :: "operation_entry \<Rightarrow> marker_state \<Rightarrow> marker_state" where
  "note_pattern p s =
     (if op_name p \<in> {''run_cut'', ''run_deposition''} then
        (case (str_of (json_get (op_details p) ''pattern_purpose''),
               str_of (json_get (op_result p) ''operation_id'')) of
           (Some purpose, Some oid) \<Rightarrow>
             let s1 = s\<lparr>pattern_by_id := AList.update oid purpose (pattern_by_id s)\<rparr> in
             if json_get (op_result p) ''status'' = JStr ''completed''
             then s1\<lparr>pattern_completion := set_default purpose (op_sequence p) (pattern_completion s1)\<rparr>
             else s1
         | _ \<Rightarrow> s)
      else if op_name p = ''pattern_status'' \<and> json_get (op_result p) ''status'' = JStr ''completed'' then
        (case str_of (json_get (op_result p) ''operation_id'') of
           Some oid \<Rightarrow>
             (case map_of (pattern_by_id s) oid of
                Some purpose \<Rightarrow>
                  if purpose \<noteq> []
                  then s\<lparr>pattern_completion := set_default purpose (op_sequence p) (pattern_completion s)\<rparr>
                  else s
              | None \<Rightarrow> s)
         | None \<Rightarrow> s)
      else s)"

definition completed_operation :: "JournalEvent \<Rightarrow> operation_entry option" where
  "completed_operation e =
     (if kind e \<noteq> ''rpc.completed'' then None
      else case (json_get (ev_fields e) ''operation'',
                 get_default (ev_fields e) ''details'' (JObj []),
                 get_default (ev_fields e) ''result_details'' (JObj [])) of
        (JStr name, JObj d, JObj r) \<Rightarrow>
          Some \<lparr>op_sequence = sequence e, op_name = name, op_details = d, op_result = r\<rparr>
      | _ \<Rightarrow> None)"

definition mark_event :: "JournalEvent \<Rightarrow> marker_state \<Rightarrow> marker_state" where
  \<comment> \<open>one turn of the loop over \<^verbatim>\<open>journal.events\<close>\<close>
  "mark_event e s =
     (let s1 = note_rejection e (note_checkpoint e s) in
      case completed_operation e of
        None \<Rightarrow> s1
      | Some p \<Rightarrow> note_pattern p (s1\<lparr>m_operations := m_operations s1 @ [p]\<rparr>))"

definition mark_events :: "JournalEvent list \<Rightarrow> marker_state" where
  "mark_events es = foldl (\<lambda>s e. mark_event e s)
     \<lparr>m_operations = [], m_checkpoints = [], m_rejected = False, pattern_by_id = [],
      pattern_completion = []\<rparr> es"

definition operation_sequences :: "operation_entry list \<Rightarrow> string list \<Rightarrow> int list" where
  "operation_sequences ops names = map op_sequence (filter (\<lambda>p. op_name p \<in> set names) ops)"

definition first_of :: "int list \<Rightarrow> int option" where
  "first_of vs = (case vs of [] \<Rightarrow> None | v # _ \<Rightarrow> Some v)"

definition nth_of :: "int list \<Rightarrow> nat \<Rightarrow> int option" where
  "nth_of vs i = (if i < length vs then Some (vs ! i) else None)"

definition beam_sequence :: "operation_entry list \<Rightarrow> string \<Rightarrow> int option" where
  \<comment> \<open>\<^verbatim>\<open>image_by_beam.get(beam)\<close>: the first image of that beam\<close>
  "beam_sequence ops beam =
     first_of (map op_sequence (filter (\<lambda>p. op_name p = ''acquire_image'' \<and>
       json_get (op_details p) ''beam'' = JStr beam) ops))"

definition beams_hashable :: "operation_entry list \<Rightarrow> bool" where
  \<comment> \<open>a list or object as dictionary key raises \<^verbatim>\<open>TypeError\<close>\<close>
  "beams_hashable ops = list_all (\<lambda>p. op_name p = ''acquire_image'' \<longrightarrow>
     (case json_get (op_details p) ''beam'' of JList _ \<Rightarrow> False | JObj _ \<Rightarrow> False | _ \<Rightarrow> True)) ops"

fun minimum_of :: "int list \<Rightarrow> int option" where
  "minimum_of [] = None"
| "minimum_of (v # vs) = (case minimum_of vs of None \<Rightarrow> Some v | Some m \<Rightarrow> Some (min v m))"

fun maximum_of :: "int list \<Rightarrow> int option" where
  "maximum_of [] = None"
| "maximum_of (v # vs) = (case maximum_of vs of None \<Rightarrow> Some v | Some m \<Rightarrow> Some (max v m))"

definition somes :: "'a option list \<Rightarrow> 'a list" where
  "somes xs = map the (filter (\<lambda>x. x \<noteq> None) xs)"

definition between :: "int list \<Rightarrow> int option \<Rightarrow> int option \<Rightarrow> bool \<Rightarrow> int option" where
  "between values lo hi first =
     (case (lo, hi) of
        (Some l, Some u) \<Rightarrow>
          let selected = filter (\<lambda>v. l < v \<and> v < u) values in
          if first then minimum_of selected else maximum_of selected
      | _ \<Rightarrow> None)"

fun strictly_increasing :: "int list \<Rightarrow> bool" where
  "strictly_increasing (x # y # zs) = (x < y \<and> strictly_increasing (y # zs))"
| "strictly_increasing _ = True"

definition ordered :: "(string, int option) dict \<Rightarrow> string list \<Rightarrow> bool" where
  "ordered markers names =
     (let values = map (\<lambda>n. case map_of markers n of Some v \<Rightarrow> v | None \<Rightarrow> None) names in
      list_all (\<lambda>v. v \<noteq> None) values \<and> strictly_increasing (somes values))"

definition required_preflight :: "marker_state \<Rightarrow> int option list" where
  "required_preflight s =
     (let ops = m_operations s; done = pattern_completion s in
      [first_of (operation_sequences ops [''ping'']),
       first_of (operation_sequences ops [''capabilities'']),
       beam_sequence ops ''SEM'', beam_sequence ops ''FIB'',
       nth_of (operation_sequences ops [''move_stage'']) 0,
       nth_of (operation_sequences ops [''move_stage'']) 1,
       first_of (operation_sequences ops [''insert_manipulator'']),
       first_of (operation_sequences ops [''move_manipulator'']),
       first_of (operation_sequences ops [''retract_manipulator'']),
       map_of done ''preflight_cut'', map_of done ''preflight_deposition''])"

definition marker_table :: "marker_state \<Rightarrow> (string, int option) dict" where
  "marker_table s =
     (let ops = m_operations s; done = pattern_completion s; cps = m_checkpoints s;
          req = required_preflight s;
          preflight = list_all (\<lambda>v. v \<noteq> None) req;
          preflight_sequence = (if preflight then maximum_of (somes req) else None);
          destructive = minimum_of (somes (map (map_of done) [''protection'', ''trench'', ''polish'', ''u_cut'']));
          source_cut = map_of done ''source_separation'';
          checkpoint_2 = map_of cps ''step_2'';
          movement = operation_sequences ops [''move_stage'', ''move_manipulator'']
      in [(''preflight'', preflight_sequence),
          (''destructive_roi'', destructive),
          (''step_1'', map_of cps ''step_1''),
          (''needle_joint'', map_of done ''needle_joint''),
          (''source_separation'', source_cut),
          (''carry'', between movement source_cut checkpoint_2 True),
          (''step_2'', checkpoint_2),
          (''transfer'', between movement checkpoint_2 (map_of done ''target_joint'') True),
          (''target_pose'', between movement checkpoint_2 (map_of done ''target_joint'') False),
          (''target_joint'', map_of done ''target_joint''),
          (''step_3'', map_of cps ''step_3''),
          (''needle_separation'', map_of done ''needle_separation''),
          (''needle_retraction'', between (operation_sequences ops [''retract_manipulator''])
             (map_of cps ''step_3'') (map_of cps ''step_4'') True),
          (''step_4'', map_of cps ''step_4'')])"

definition STEP_ORDER :: "(string, string list) dict" where
  "STEP_ORDER =
     [(''step_1'', [''preflight'', ''destructive_roi'', ''step_1'']),
      (''step_2'', [''step_1'', ''needle_joint'', ''source_separation'', ''carry'', ''step_2'']),
      (''step_3'', [''step_2'', ''transfer'', ''target_pose'', ''target_joint'', ''step_3'']),
      (''step_4'', [''step_3'', ''needle_separation'', ''needle_retraction'', ''step_4''])]"

definition journal_markers ::
  "EventJournal \<Rightarrow> string + (string, int option) dict \<times> (string, bool) dict \<times> bool \<times> bool" where
  "journal_markers j =
     (let s = mark_events (events j) in
      bind_res (require (beams_hashable (m_operations s)) ''unhashable beam'') (\<lambda>_.
        let markers = marker_table s in
        Inr (markers, map (\<lambda>(step, names). (step, ordered markers names)) STEP_ORDER,
             list_all (\<lambda>v. v \<noteq> None) (required_preflight s), m_rejected s)))"


section \<open>Grading a world\<close>

record ReferenceBundle =
  identity :: obj
  checkpoint_artifact_points :: "string \<Rightarrow> string \<Rightarrow> string + rat"
    \<comment> \<open>\<^verbatim>\<open>score_checkpoint_artifacts(root, ..., step).points\<close>\<close>
  compare_checkpoint_shape :: "string \<Rightarrow> string \<Rightarrow> string \<Rightarrow> string + ShapeComparison"
    \<comment> \<open>\<^verbatim>\<open>compare_shapes\<close> of the files under a root, for a step and a shape name\<close>

definition STEP_SHAPES :: "(string, string list) dict" where
  "STEP_SHAPES =
     [(''step_1'', [''sample'', ''cut'', ''protection'', ''source_bridge'']),
      (''step_2'', [''sample'', ''source_separation'', ''needle_joint'']),
      (''step_3'', [''sample'', ''target_joint'', ''target_interface'']),
      (''step_4'', [''sample'', ''needle_separation'', ''target_joint''])]"

definition perfect_shape :: "string \<Rightarrow> ShapeComparison" where
  "perfect_shape geometry_hash =
     \<lparr>candidate_volume_um3 = 1, reference_volume_um3 = 1, volume_similarity = 1, voxel_iou = 1,
      symmetric_surface_distance_um = 0, hausdorff_distance_um = 0, asd_score = 1,
      hausdorff_score = 1, shape_score = 1, voxel_size_um = fl (1 / 10),
      surface_sample_count = 2048, candidate_geometry_sha256 = geometry_hash,
      reference_geometry_sha256 = geometry_hash\<rparr>"

definition shape_with_score :: "ShapeComparison \<Rightarrow> rat \<Rightarrow> ShapeComparison" where
  "shape_with_score value s =
     value\<lparr>volume_similarity := s, voxel_iou := s, asd_score := s, hausdorff_score := s,
           shape_score := s\<rparr>"

definition overwrite :: "'k \<Rightarrow> 'v \<Rightarrow> ('k, 'v) dict \<Rightarrow> ('k, 'v) dict" where
  \<comment> \<open>\<^verbatim>\<open>if k in d: d[k] = v\<close>\<close>
  "overwrite k v d = (if map_of d k = None then d else AList.update k v d)"

definition synthetic_step_evidence ::
  "string \<Rightarrow> GeometryMetrics \<Rightarrow> AdaptiveTolerances \<Rightarrow> string + StepEvidence" where
  "synthetic_step_evidence step m tol =
     (case map_of STEP_SHAPES step of
        None \<Rightarrow> Inl ''KeyError''
      | Some names \<Rightarrow>
          let shape = perfect_shape (canonical_geometry_hash m);
              shapes0 = map (\<lambda>name. (name, shape)) names;
              needle_score = min 1 (max 0 (fdiv (needle_joint_section_um m) (joint_scale_um tol)));
              shapes1 = (if step \<in> {''step_2'', ''step_3''}
                         then overwrite ''needle_joint'' (shape_with_score shape needle_score) shapes0
                         else shapes0);
              target_score = min 1 (max 0 (fdiv (target_joint_section_um m) (joint_scale_um tol)));
              shapes2 = (if step \<in> {''step_3'', ''step_4''}
                         then overwrite ''target_joint'' (shape_with_score shape target_score) shapes1
                         else shapes1)
          in step_evidence_init
               \<lparr>step_id = step, geometry = m, shapes = shapes2, co_motion_score = 1, trusted = True\<rparr>)"

definition OPENFIBSEM_COMMIT :: string where
  "OPENFIBSEM_COMMIT = ''2ebccb8b9721234ca66bb94de36d0f7cfe047af9''"

definition synthetic_reference_identity :: "runtime \<Rightarrow> ScenarioSpec \<Rightarrow> obj" where
  "synthetic_reference_identity rt spec =
     (let zero_digest = replicate 64 (CHR ''0'') in
      [(''schema_version'', JInt 1), (''source_id'', JStr ''openfibsem''),
       (''evaluator_id'', JStr ''fibsem_liftout_v1''), (''scenario_id'', JStr (scenario_id spec)),
       (''scenario_sha256'', JStr (sha256 rt (scenario_bytes spec))),
       (''openfibsem_commit'', JStr OPENFIBSEM_COMMIT),
       (''evaluator_commit'', JStr (replicate 40 (CHR ''0''))),
       (''generator_tree_sha256'', JStr zero_digest),
       (''reference_solution_sha256'', JStr zero_digest),
       (''mesh_parser_version'', JStr ''canonical-stl-v1''),
       (''algorithm_version'', JStr ''stl-shape-v1''),
       (''parameter_sha256'', JStr zero_digest), (''bundle_sha256'', JStr zero_digest),
       (''file_sha256'', JObj [])])"

definition zero_breakdown :: "string \<Rightarrow> string \<Rightarrow> string + StepBreakdown" where
  "zero_breakdown step reason =
     (case map_of STEP_POINTS step of
        None \<Rightarrow> Inl ''KeyError''
      | Some p \<Rightarrow> Inr \<lparr>b_step_id = step, raw_score = 0, final_score = 0, b_maximum_points = p,
                      criteria = [], cap = \<lparr>cap_maximum = 0, reasons = [reason]\<rparr>\<rparr>)"

definition externally_capped :: "StepBreakdown \<Rightarrow> string \<Rightarrow> StepBreakdown" where
  "externally_capped b reason =
     b\<lparr>final_score := 0,
       cap := \<lparr>cap_maximum = 0, reasons = sort (remdups (reason # reasons (cap b)))\<rparr>\<rparr>"

definition reference_step ::
  "ReferenceBundle \<Rightarrow> string \<times> CheckpointEvidence \<Rightarrow> string + (string \<times> StepEvidence) \<times> (string \<times> rat)" where
  \<comment> \<open>one turn of the loop of \<^verbatim>\<open>_reference_evidence\<close>\<close>
  "reference_step ref item =
     (case item of (step, c) \<Rightarrow>
        (case artifact_root c of
           None \<Rightarrow> Inl (''trusted checkpoint artifact root is missing: '' @ step)
         | Some path \<Rightarrow>
             bind_res (checkpoint_artifact_points ref path step) (\<lambda>pts.
             case map_of STEP_SHAPES step of
               None \<Rightarrow> Inl ''KeyError''
             | Some names \<Rightarrow>
                 bind_res (traverse (\<lambda>name. bind_res (compare_checkpoint_shape ref path step name)
                   (\<lambda>v. Inr (name, v))) names) (\<lambda>shs.
                 let m = c_geometry c;
                     co_motion = (if sample_to_needle m \<and> \<not> sample_to_source m \<and> \<not> sample_to_target m
                                  then 1 else 0)
                 in bind_res (step_evidence_init
                      \<lparr>step_id = step, geometry = m, shapes = shs,
                       co_motion_score = (if step = ''step_2'' then co_motion else 1),
                       trusted = artifact_complete c\<rparr>) (\<lambda>e. Inr ((step, e), (step, pts)))))))"

definition reference_evidence ::
  "ReferenceBundle \<Rightarrow> (string, CheckpointEvidence) dict \<Rightarrow>
     string + (string, StepEvidence) dict \<times> (string, rat) dict" where
  "reference_evidence ref cps =
     bind_res (traverse (reference_step ref) cps) (\<lambda>rows. Inr (map fst rows, map snd rows))"

record grading_input =
  spec :: ScenarioSpec
  journal :: EventJournal
  g_checkpoints :: "(string, CheckpointEvidence) dict"
  g_terminal :: TerminalEvidence
  g_runtime :: RuntimeEvidence
  g_reference :: "ReferenceBundle option"
  step_evidence :: "(string, StepEvidence) dict option"
  artifact_scores :: "(string, rat) dict option"

definition resolve_evidence ::
  "grading_input \<Rightarrow> string + (string, StepEvidence) dict \<times> (string, rat) dict" where
  "resolve_evidence g =
     (case g_reference g of
        Some ref \<Rightarrow> reference_evidence ref (g_checkpoints g)
      | None \<Rightarrow>
          (case step_evidence g of
             Some se \<Rightarrow> Inr (se, case artifact_scores g of None \<Rightarrow> [] | Some a \<Rightarrow> a)
           | None \<Rightarrow>
               if infrastructure_failure (g_runtime g) then Inr ([], [])
               else bind_res (traverse (\<lambda>(step, c).
                      bind_res (synthetic_step_evidence step (c_geometry c) (tolerances (spec g)))
                        (\<lambda>e. Inr (step, e))) (g_checkpoints g)) (\<lambda>se. Inr (se, []))))"

definition grade_step ::
  "(string, StepEvidence) dict \<Rightarrow> AdaptiveTolerances \<Rightarrow> bool \<Rightarrow> string \<Rightarrow> string + StepBreakdown" where
  \<comment> \<open>the body of the loop, once \<^verbatim>\<open>earlier_present\<close> is updated\<close>
  "grade_step se tol earlier_present step =
     (case map_of se step of
        None \<Rightarrow> zero_breakdown step ''missing_or_untrusted_checkpoint''
      | Some e \<Rightarrow> bind_res (score_step step e tol) (\<lambda>b.
          Inr (if earlier_present then b
               else externally_capped b ''missing_predecessor_checkpoint'')))"

definition step_present ::
  "(string, CheckpointEvidence) dict \<Rightarrow> (string, StepEvidence) dict \<Rightarrow> string \<Rightarrow> bool" where
  "step_present cps se step = (map_of cps step \<noteq> None \<and> map_of se step \<noteq> None)"

fun grade_steps ::
  "(string, CheckpointEvidence) dict \<Rightarrow> (string, StepEvidence) dict \<Rightarrow> AdaptiveTolerances \<Rightarrow> bool \<Rightarrow>
     string list \<Rightarrow> string + (string, StepBreakdown) dict" where
  \<comment> \<open>the loop \<^verbatim>\<open>for step in STEPS\<close> with its variable \<^verbatim>\<open>earlier_present\<close>\<close>
  "grade_steps cps se tol earlier [] = Inr []"
| "grade_steps cps se tol earlier (step # rest) =
     (let earlier_present = (earlier \<and> step_present cps se step) in
      bind_res (grade_step se tol earlier_present step) (\<lambda>b.
      bind_res (grade_steps cps se tol earlier_present rest) (\<lambda>bs. Inr ((step, b) # bs))))"

definition artifact_ready :: "(string, CheckpointEvidence) dict \<Rightarrow> string \<Rightarrow> bool" where
  "artifact_ready cps step =
     (case map_of cps step of None \<Rightarrow> False
      | Some c \<Rightarrow> artifact_complete c \<and> digest_text (artifact_digest c))"

definition artifact_count :: "(string, CheckpointEvidence) dict \<Rightarrow> int" where
  "artifact_count cps = int (length (filter (artifact_ready cps) STEPS))"

definition artifact_total :: "(string, rat) dict \<Rightarrow> int \<Rightarrow> rat" where
  "artifact_total arts n_ready =
     (if arts \<noteq> [] then py_round6 (fsum (map snd arts)) else fmul (of_int n_ready) (5 / 2))"

definition checkpoint_keys_valid :: "(string, CheckpointEvidence) dict \<Rightarrow> bool" where
  "checkpoint_keys_valid cps =
     (list_all (\<lambda>(k, c). k \<in> set STEPS) cps \<and> list_all (\<lambda>(k, c). k = c_step_id c) cps)"

definition reference_record :: "runtime \<Rightarrow> grading_input \<Rightarrow> obj option" where
  "reference_record rt g =
     (case g_reference g of
        Some ref \<Rightarrow> Some (identity ref)
      | None \<Rightarrow> if infrastructure_failure (g_runtime g) then None
                else Some (synthetic_reference_identity rt (spec g)))"

definition journal_valid :: "runtime \<Rightarrow> ScenarioSpec \<Rightarrow> EventJournal \<Rightarrow> bool" where
  \<comment> \<open>\<^verbatim>\<open>journal_integrity\<close>: validation did not raise\<close>
  "journal_valid rt sp j =
     (case validate_records rt (records_of j) (run_id j) (scenario_id sp) True of
        Inl _ \<Rightarrow> False | Inr _ \<Rightarrow> True)"

definition world_gates ::
  "grading_input \<Rightarrow> bool \<Rightarrow> bool \<Rightarrow> (string, bool) dict \<Rightarrow> (string, rat) dict \<Rightarrow> bool \<Rightarrow> bool \<Rightarrow> (string, bool) dict" where
  "world_gates g preflight integrity order_by_step scores has_reference forbidden_journal =
     (let r = g_runtime g; cps = g_checkpoints g in
      [(''preflight_complete'', preflight),
       (''journal_integrity'', integrity),
       (''necessary_partial_order'', list_all snd order_by_step),
       (''all_checkpoint_states'', list_all (\<lambda>step. map_of scores step = map_of STEP_POINTS step) STEPS),
       (''trusted_artifacts_complete'', artifact_count cps = 4 \<and> checkpoint_keys_valid cps),
       (''reference_bundle_valid'', has_reference),
       (''safe_terminal_state'', is_safe (g_terminal g)),
       (''no_forbidden_access'', \<not> (forbidden_access r \<or> forbidden_journal)),
       (''runtime_completed'', candidate_completed r),
       (''runtime_isolation'', identities_valid r \<and> isolation_verified r),
       (''no_infrastructure_failure'', \<not> infrastructure_failure r)])"

definition grade_world :: "runtime \<Rightarrow> grading_input \<Rightarrow> string + FibsemWorldReport" where
  "grade_world rt g =
     bind_res (traverse (\<lambda>e. plain (JObj (ev_fields e))) (events (journal g))) (\<lambda>_.
     let integrity = journal_valid rt (spec g) (journal g) in
     bind_res (journal_markers (journal g)) (\<lambda>(markers, order_by_step, preflight, forbidden_journal).
     bind_res (resolve_evidence g) (\<lambda>(se, arts).
     bind_res (grade_steps (g_checkpoints g) se (tolerances (spec g)) True STEPS) (\<lambda>breakdowns.
     let scores = map (\<lambda>(step, b). (step, final_score b)) breakdowns;
         n_ready = artifact_count (g_checkpoints g);
         artifact = artifact_total arts n_ready;
         ref_record = reference_record rt g;
         gates = world_gates g preflight integrity order_by_step scores (ref_record \<noteq> None) forbidden_journal;
         retry = infrastructure_failure (g_runtime g);
         total_score = (if retry then None else Some (fadd (fsum (map snd scores)) artifact))
     in Inr \<lparr>w_world_id = scenario_id (spec g),
             category = (if scenario_id (spec g) \<in> set FIXED_WORLDS then ''fixed'' else ''seeded''),
             score = total_score,
             strict_pass = (total_score = Some 100 \<and> list_all snd gates),
             retry_eligible = retry,
             step_scores = scores,
             artifact_score = artifact,
             step_breakdowns = breakdowns,
             reference = ref_record,
             strict_gates = gates,
             checkpoints = g_checkpoints g,
             partial_order = markers,
             terminal = g_terminal g,
             runtime_evidence = g_runtime g,
             evidence_confidence = (if integrity then fdiv (of_int n_ready) 4 else 0)\<rparr>))))"

section \<open>The suite\<close>

record FibsemEvaluationReport =
  s_score :: "rat option"
  s_strict_pass :: bool
  s_retry_eligible :: bool
  s_strict_gates :: "(string, bool) dict"
  dimension_scores :: "(string, rat) dict"
  s_evidence_confidence :: rat
  worlds :: "FibsemWorldReport list"

definition mean :: "rat list \<Rightarrow> rat \<Rightarrow> rat" where
  "mean values dflt =
     (if values = [] then dflt else fdiv (fsum values) (of_int (int (length values))))"

definition SEEDED_WORLDS :: "string list" where
  "SEEDED_WORLDS = [''seeded_01'', ''seeded_02'', ''seeded_03'', ''seeded_04'', ''seeded_05'']"

definition lookup :: "('k, 'v) dict \<Rightarrow> 'k \<Rightarrow> string + 'v" where
  \<comment> \<open>\<^verbatim>\<open>d[k]\<close>\<close>
  "lookup d k = (case map_of d k of None \<Rightarrow> Inl ''KeyError'' | Some v \<Rightarrow> Inr v)"

definition aggregate_worlds :: "FibsemWorldReport list \<Rightarrow> string + FibsemEvaluationReport" where
  "aggregate_worlds ws =
     (let infrastructure = list_ex retry_eligible ws;
          numeric_scores = somes (map score ws);
          suite_score = (if infrastructure \<or> numeric_scores = [] then None
                         else Some (fdiv (fsum numeric_scores) (of_int (int (length numeric_scores)))));
          fixed = filter (\<lambda>w. category w = ''fixed'') ws;
          seeded = filter (\<lambda>w. category w = ''seeded'') ws;
          exact_ids = (set (map w_world_id fixed) = set FIXED_WORLDS \<and>
                       set (map w_world_id seeded) = set SEEDED_WORLDS)
      in bind_res (all_until (\<lambda>w. lookup (strict_gates w) ''no_forbidden_access'') ws) (\<lambda>no_forbidden.
         let gates =
           [(''exact_ten_world_suite'', length ws = 10 \<and> exact_ids),
            (''all_fixed_worlds_pass'', length fixed = 5 \<and> list_all strict_pass fixed),
            (''at_least_four_seeded_worlds_pass'',
               length seeded = 5 \<and> 4 \<le> length (filter strict_pass seeded)),
            (''no_unsafe_terminal_world'', list_all (\<lambda>w. is_safe (terminal w)) ws),
            (''no_forbidden_access'', no_forbidden),
            (''no_infrastructure_failure'', \<not> infrastructure),
            (''suite_score_at_least_90'', case suite_score of None \<Rightarrow> False | Some s \<Rightarrow> 90 \<le> s)]
         in bind_res (traverse (\<lambda>step.
              bind_res (traverse (\<lambda>w. lookup (step_scores w) step) ws) (\<lambda>vs. Inr (step, mean vs 0))) STEPS)
           (\<lambda>dims.
             Inr \<lparr>s_score = suite_score,
                  s_strict_pass = list_all snd gates,
                  s_retry_eligible = infrastructure,
                  s_strict_gates = gates,
                  dimension_scores = dims @ [(''artifacts'', mean (map artifact_score ws) 0)],
                  s_evidence_confidence = mean (map evidence_confidence ws) 0,
                  worlds = ws\<rparr>)))"

definition step_geometry_valid :: "string \<Rightarrow> GeometryMetrics \<Rightarrow> AdaptiveTolerances \<Rightarrow> bool" where
  "step_geometry_valid step m tol =
     (let common = (\<not> collision m \<and> simulator_idle m \<and> changes_within_work_envelopes m);
          pose = (sample_position_error_um m \<le> position_um tol \<and>
                  sample_orientation_error_degrees m \<le> orientation_degrees tol)
      in if step = ''step_1'' then
           common \<and> sample_to_source m \<and> \<not> sample_to_needle m \<and> \<not> sample_to_target m \<and>
           sample_component_count m = 1 \<and> sample_integrity_step_1 m
         else if step = ''step_2'' then
           common \<and> \<not> sample_to_source m \<and> sample_to_needle m \<and> \<not> sample_to_target m \<and>
           joint_scale_um tol \<le> needle_joint_section_um m \<and>
           fl (75 / 100) \<le> retained_sample_fraction m
         else if step = ''step_3'' then
           common \<and> \<not> sample_to_source m \<and> sample_to_needle m \<and> sample_to_target m \<and>
           joint_scale_um tol \<le> needle_joint_section_um m \<and>
           joint_scale_um tol \<le> target_joint_section_um m \<and> sample_integrity_final m \<and> pose
         else
           common \<and> \<not> sample_to_source m \<and> \<not> sample_to_needle m \<and> sample_to_target m \<and>
           joint_scale_um tol \<le> target_joint_section_um m \<and> sample_integrity_final m \<and>
           needle_safely_retracted m \<and> pose)"

section \<open>Shape of a report\<close>

lemma grade_world_Inr:
  assumes "grade_world rt g = Inr r"
  obtains markers order preflight forbidden se arts bs where
    "journal_markers (journal g) = Inr (markers, order, preflight, forbidden)"
    "resolve_evidence g = Inr (se, arts)"
    "grade_steps (g_checkpoints g) se (tolerances (spec g)) True STEPS = Inr bs"
    "step_scores r = map (\<lambda>(step, b). (step, final_score b)) bs" "step_breakdowns r = bs"
    "artifact_score r = artifact_total arts (artifact_count (g_checkpoints g))"
    "retry_eligible r = infrastructure_failure (g_runtime g)"
    "score r = (if retry_eligible r then None
                else Some (fadd (fsum (map snd (step_scores r))) (artifact_score r)))"
    "strict_gates r = world_gates g preflight (journal_valid rt (spec g) (journal g)) order
       (step_scores r) (reference_record rt g \<noteq> None) forbidden"
    "strict_pass r = (score r = Some 100 \<and> list_all snd (strict_gates r))"
    "partial_order r = markers" "terminal r = g_terminal g"
    "category r = (if scenario_id (spec g) \<in> set FIXED_WORLDS then ''fixed'' else ''seeded'')"
    "w_world_id r = scenario_id (spec g)"
    "evidence_confidence r = (if journal_valid rt (spec g) (journal g)
       then fdiv (of_int (artifact_count (g_checkpoints g))) 4 else 0)"
  using assms unfolding grade_world_def Let_def by (auto simp: bind_res_Inr_iff)

lemma STEP_POINTS_TOTALS: "STEP_POINTS = STEP_TOTALS"
  by (simp add: STEP_POINTS_def STEP_TOTALS_def)

definition step_max :: "string \<Rightarrow> rat" where
  "step_max step = (case map_of STEP_POINTS step of Some p \<Rightarrow> p | None \<Rightarrow> 0)"

lemma score_step_max:
  assumes "score_step step e tol = Inr b"
  shows "0 \<le> final_score b" "final_score b \<le> step_max step" "b_maximum_points b = step_max step"
proof -
  show m: "b_maximum_points b = step_max step"
    using assms by (auto simp: score_step_Inr step_max_def STEP_POINTS_TOTALS)
  show "0 \<le> final_score b" "final_score b \<le> step_max step"
    using score_step_bounds_lemma(1-3) [OF assms] by (simp_all add: m)
qed

lemma externally_capped_zero [simp]: "final_score (externally_capped b r) = 0"
  by (simp add: externally_capped_def)

lemma zero_breakdown_Inr: "zero_breakdown s r = Inr b \<Longrightarrow> final_score b = 0"
  by (auto simp: zero_breakdown_def split: option.splits)

lemma step_max_nonneg [simp]: "0 \<le> step_max s"
  by (auto simp: step_max_def STEP_POINTS_def split: option.splits if_splits)

lemma grade_step_Inr:
  assumes "grade_step se tol ok step = Inr b"
  shows "0 \<le> final_score b" and "final_score b \<le> step_max step"
    and "\<not> ok \<Longrightarrow> final_score b = 0"
    and "0 < final_score b \<Longrightarrow> ok \<and> (\<exists>e. map_of se step = Some e \<and> score_step step e tol = Inr b)"
proof -
  show z: "final_score b = 0" if "\<not> ok"
    using assms that
    by (auto simp: grade_step_def bind_res_Inr_iff dest: zero_breakdown_Inr split: option.splits)
  show "0 \<le> final_score b" "final_score b \<le> step_max step"
    using assms score_step_max
    by (auto simp: grade_step_def bind_res_Inr_iff dest: zero_breakdown_Inr split: option.splits if_splits)
  show "ok \<and> (\<exists>e. map_of se step = Some e \<and> score_step step e tol = Inr b)" if "0 < final_score b"
    using z assms that
    by (cases ok) (auto simp: grade_step_def bind_res_Inr_iff dest: zero_breakdown_Inr split: option.splits)
qed

lemma grade_steps_Cons:
  "grade_steps cps se tol earlier (step # rest) = Inr bs \<longleftrightarrow>
     (\<exists>b bs'. bs = (step, b) # bs' \<and>
        grade_step se tol (earlier \<and> step_present cps se step) step = Inr b \<and>
        grade_steps cps se tol (earlier \<and> step_present cps se step) rest = Inr bs')"
  by (auto simp: Let_def bind_res_Inr_iff)

declare grade_steps.simps(2) [simp del]

lemma grade_steps_bounds:
  "grade_steps cps se tol earlier steps = Inr bs \<Longrightarrow>
   list_all2 (\<lambda>(s, b) step. s = step \<and> 0 \<le> final_score b \<and> final_score b \<le> step_max step) bs steps"
  by (induction steps arbitrary: earlier bs) (auto simp: grade_steps_Cons grade_step_Inr)

lemma grade_steps_after_gap:
  "grade_steps cps se tol False steps = Inr bs \<Longrightarrow> (s, b) \<in> set bs \<Longrightarrow> final_score b = 0"
  by (induction steps arbitrary: bs) (auto simp: grade_steps_Cons grade_step_Inr)

lemma grade_steps_append:
  "grade_steps cps se tol earlier (xs @ ys) = Inr bs \<Longrightarrow>
   \<exists>bx by. bs = bx @ by \<and> grade_steps cps se tol earlier xs = Inr bx \<and>
     grade_steps cps se tol (earlier \<and> list_all (step_present cps se) xs) ys = Inr by"
proof (induction xs arbitrary: earlier bs)
  case (Cons x xs)
  from Cons.prems obtain b bs' where b: "bs = (x, b) # bs'"
    "grade_steps cps se tol (earlier \<and> step_present cps se x) (xs @ ys) = Inr bs'"
    and c: "grade_steps cps se tol earlier (x # (xs @ ys)) = Inr ((x, b) # bs')"
    by (auto simp: grade_steps_Cons)
  from Cons.IH [OF b(2)] obtain bx "by" where
    "bs' = bx @ by" "grade_steps cps se tol (earlier \<and> step_present cps se x) xs = Inr bx"
    "grade_steps cps se tol ((earlier \<and> step_present cps se x) \<and> list_all (step_present cps se) xs) ys = Inr by"
    by blast
  with b c show ?case
    by (intro exI [of _ "(x, b) # bx"] exI [of _ "by"]) (auto simp: grade_steps_Cons)
qed simp

lemma grade_steps_full:
  "grade_steps cps se tol earlier steps = Inr bs \<Longrightarrow> (s, b) \<in> set bs \<Longrightarrow> 0 < final_score b \<Longrightarrow>
   step_present cps se s \<and> (\<exists>e. map_of se s = Some e \<and> score_step s e tol = Inr b)"
  by (induction steps arbitrary: earlier bs) (auto simp: grade_steps_Cons dest: grade_step_Inr(4))


lemma grade_steps_STEPS:
  assumes "grade_steps cps se tol True STEPS = Inr bs"
  obtains b1 b2 b3 b4 where
    "bs = [(''step_1'', b1), (''step_2'', b2), (''step_3'', b3), (''step_4'', b4)]"
    "0 \<le> final_score b1" "final_score b1 \<le> 20" "0 \<le> final_score b2" "final_score b2 \<le> 25"
    "0 \<le> final_score b3" "final_score b3 \<le> 25" "0 \<le> final_score b4" "final_score b4 \<le> 20"
  using grade_steps_bounds [OF assms]
  by (auto simp: STEPS_def list_all2_Cons2 step_max_def STEP_POINTS_def)

section \<open>Bounds of a world score\<close>

definition artifact_points_ok :: "(string, rat) dict \<Rightarrow> bool" where
  \<comment> \<open>at most one entry per step, at most 2.5 points each\<close>
  "artifact_points_ok arts \<longleftrightarrow> length arts \<le> 4 \<and> (\<forall>(s, p) \<in> set arts. 0 \<le> p \<and> p \<le> 5 / 2)"

definition inputs_ok :: "grading_input \<Rightarrow> bool" where
  \<comment> \<open>checkpoints are a dictionary and artifact scores are at most 2.5 points per checkpoint\<close>
  "inputs_ok g \<longleftrightarrow> distinct (map fst (g_checkpoints g)) \<and>
     (case g_reference g of None \<Rightarrow> True
      | Some ref \<Rightarrow> \<forall>path step p. checkpoint_artifact_points ref path step = Inr p \<longrightarrow> 0 \<le> p \<and> p \<le> 5 / 2) \<and>
     (case artifact_scores g of None \<Rightarrow> True | Some a \<Rightarrow> artifact_points_ok a)"

lemma quarter_sums: "fsum (replicate 0 (5 / 2)) \<le> 10" "fsum (replicate 1 (5 / 2)) \<le> 10"
  "fsum (replicate 2 (5 / 2)) \<le> 10" "fsum (replicate 3 (5 / 2)) \<le> 10"
  "fsum (replicate 4 (5 / 2)) \<le> 10"
  by code_simp+

lemma fsum_replicate_zero: "fsum (replicate n 0) = 0"
  by (induction n) (simp_all add: fsum_def fadd_def)

lemma fsum_nonneg: "\<forall>x \<in> set xs. 0 \<le> x \<Longrightarrow> 0 \<le> fsum xs"
  using fsum_mono [of "replicate (length xs) 0" xs]
  by (simp add: fsum_replicate_zero list_all2_conv_all_nth)

lemma artifact_total_bounds:
  assumes "artifact_points_ok arts" and "0 \<le> n" and "n \<le> 4"
  shows "0 \<le> artifact_total arts n" and "artifact_total arts n \<le> 10"
proof -
  have "\<forall>(s, p) \<in> set arts. p \<le> 5 / 2" using assms(1) by (auto simp: artifact_points_ok_def)
  then have "list_all2 (\<le>) (map snd arts) (replicate (length arts) (5 / 2))"
    by (induction arts) auto
  from fsum_mono [OF this] have "fsum (map snd arts) \<le> 10"
    using assms(1) quarter_sums by (auto simp: artifact_points_ok_def le_Suc_eq numeral_eq_Suc)
  moreover have "0 \<le> fsum (map snd arts)"
    using assms(1) by (intro fsum_nonneg) (auto simp: artifact_points_ok_def)
  moreover have "0 \<le> fmul (of_int n) (5 / 2)" "fmul (of_int n) (5 / 2) \<le> fl 10"
    using assms(2,3) unfolding fmul_def by (intro fl.rnd_nonneg fl_mono; simp)+
  ultimately show "0 \<le> artifact_total arts n" "artifact_total arts n \<le> 10"
    using round6.rnd_mono [of "fsum (map snd arts)" 10]
    by (auto simp: artifact_total_def round6.rnd_nonneg)
qed

lemma artifact_count_range: "0 \<le> artifact_count cps" "artifact_count cps \<le> 4"
  using length_filter_le [of "artifact_ready cps" STEPS]
  by (simp_all add: artifact_count_def STEPS_def)

lemma reference_step_Inr:
  "reference_step ref (step, c) = Inr ((s, e), (s', p)) \<Longrightarrow>
   s = step \<and> s' = step \<and> step \<in> set STEPS \<and> step_id e = step \<and> geometry e = c_geometry c \<and>
   trusted e = artifact_complete c \<and> (\<exists>path. checkpoint_artifact_points ref path step = Inr p)"
  by (auto simp: reference_step_def bind_res_Inr_iff Let_def step_evidence_init_def STEP_SHAPES_def
      STEPS_def split: option.splits if_splits)

lemma traverse_reference_keys:
  "traverse (reference_step ref) cps = Inr rows \<Longrightarrow>
   map fst cps = map (fst \<circ> snd) rows \<and> list_all (\<lambda>(k, c). k \<in> set STEPS) cps \<and>
   (\<forall>row \<in> set rows. \<exists>path. checkpoint_artifact_points ref path (fst (snd row)) = Inr (snd (snd row)))"
proof (induction cps arbitrary: rows)
  case (Cons item cps)
  obtain step c where item: "item = (step, c)" by (cases item)
  from Cons.prems obtain s e s' p rows' where r: "rows = ((s, e), (s', p)) # rows'"
    "reference_step ref (step, c) = Inr ((s, e), (s', p))" "traverse (reference_step ref) cps = Inr rows'"
    by (force simp: item bind_res_Inr_iff)
  with Cons.IH [OF r(3)] reference_step_Inr [OF r(2)] show ?case by (auto simp: item)
qed simp

lemma resolve_evidence_artifacts:
  assumes "resolve_evidence g = Inr (se, arts)" and "inputs_ok g"
  shows "artifact_points_ok arts"
proof (cases "g_reference g")
  case None
  with assms show ?thesis
    by (auto simp: resolve_evidence_def inputs_ok_def artifact_points_ok_def bind_res_Inr_iff
        split: option.splits if_splits)
next
  case (Some ref)
  with assms(1) obtain rows where rows: "traverse (reference_step ref) (g_checkpoints g) = Inr rows"
    "arts = map snd rows"
    by (auto simp: resolve_evidence_def reference_evidence_def bind_res_Inr_iff)
  note keys = traverse_reference_keys [OF rows(1)]
  have len: "length (g_checkpoints g) = card (set (map fst (g_checkpoints g)))"
    using assms(2) unfolding inputs_ok_def by (metis distinct_card length_map)
  have "list_all (\<lambda>(k, c). k \<in> set STEPS) (g_checkpoints g)" using keys by blast
  then have "card (set (map fst (g_checkpoints g))) \<le> card (set STEPS)"
    by (intro card_mono) (auto simp: list_all_iff)
  also have "\<dots> \<le> 4" by (rule order_trans [OF card_length]) (simp add: STEPS_def)
  finally have "length arts \<le> 4" using len keys rows(2) by (metis length_map)
  then show ?thesis
    using keys rows(2) assms(2) Some by (fastforce simp: artifact_points_ok_def inputs_ok_def)
qed

lemma grade_world_score_bounds_lemma:
  assumes "grade_world rt g = Inr r" and "inputs_ok g"
  shows "0 \<le> artifact_score r" and "artifact_score r \<le> 10"
    and "score r = Some s \<Longrightarrow> 0 \<le> s \<and> s \<le> 100"
proof -
  obtain se arts bs where r: "resolve_evidence g = Inr (se, arts)"
    "grade_steps (g_checkpoints g) se (tolerances (spec g)) True STEPS = Inr bs"
    "step_scores r = map (\<lambda>(step, b). (step, final_score b)) bs"
    "artifact_score r = artifact_total arts (artifact_count (g_checkpoints g))"
    "score r = (if retry_eligible r then None
                else Some (fadd (fsum (map snd (step_scores r))) (artifact_score r)))"
    using assms(1) by (rule grade_world_Inr)
  show a: "0 \<le> artifact_score r" "artifact_score r \<le> 10"
    using artifact_total_bounds [OF resolve_evidence_artifacts [OF r(1) assms(2)] artifact_count_range]
    by (simp_all add: r(4))
  obtain b1 b2 b3 b4 where
    "bs = [(''step_1'', b1), (''step_2'', b2), (''step_3'', b3), (''step_4'', b4)]" and b:
    "0 \<le> final_score b1" "final_score b1 \<le> 20" "0 \<le> final_score b2" "final_score b2 \<le> 25"
    "0 \<le> final_score b3" "final_score b3 \<le> 25" "0 \<le> final_score b4" "final_score b4 \<le> 20"
    using r(2) by (rule grade_steps_STEPS)
  then have "map snd (step_scores r) = map final_score [b1, b2, b3, b4]" by (simp add: r(3))
  with fsum_bounds [of "map snd (step_scores r)" "[20, 25, 25, 20]"] b
  have "0 \<le> fsum (map snd (step_scores r))" "fsum (map snd (step_scores r)) \<le> 90" by simp_all
  with a have "0 \<le> fadd (fsum (map snd (step_scores r))) (artifact_score r)"
    "fadd (fsum (map snd (step_scores r))) (artifact_score r) \<le> 100"
    using fl.rnd_le_int [of 100 "fsum (map snd (step_scores r)) + artifact_score r"]
    by (simp_all add: fadd_def fl.rnd_nonneg)
  then show "0 \<le> s \<and> s \<le> 100" if "score r = Some s"
    using that r(5) by (auto split: if_splits)
qed


section \<open>Strict passes\<close>

lemma strict_pass_gates:
  assumes "grade_world rt g = Inr r" and "strict_pass r"
  obtains markers order se arts bs where
    "journal_markers (journal g) = Inr (markers, order, True, False)" "list_all snd order"
    "partial_order r = markers" "resolve_evidence g = Inr (se, arts)"
    "grade_steps (g_checkpoints g) se (tolerances (spec g)) True STEPS = Inr bs"
    "\<forall>step \<in> set STEPS. map_of (map (\<lambda>(s, b). (s, final_score b)) bs) step = map_of STEP_POINTS step"
    "score r = Some 100" "journal_valid rt (spec g) (journal g)" "is_safe (g_terminal g)"
    "candidate_completed (g_runtime g)" "identities_valid (g_runtime g)"
    "isolation_verified (g_runtime g)" "\<not> forbidden_access (g_runtime g)"
    "\<not> infrastructure_failure (g_runtime g)" "artifact_count (g_checkpoints g) = 4"
    "checkpoint_keys_valid (g_checkpoints g)" "reference_record rt g \<noteq> None"
proof -
  obtain markers order preflight forbidden se arts bs where r:
    "journal_markers (journal g) = Inr (markers, order, preflight, forbidden)"
    "resolve_evidence g = Inr (se, arts)"
    "grade_steps (g_checkpoints g) se (tolerances (spec g)) True STEPS = Inr bs"
    "step_scores r = map (\<lambda>(step, b). (step, final_score b)) bs"
    "strict_gates r = world_gates g preflight (journal_valid rt (spec g) (journal g)) order
       (step_scores r) (reference_record rt g \<noteq> None) forbidden"
    "strict_pass r = (score r = Some 100 \<and> list_all snd (strict_gates r))"
    "partial_order r = markers"
    using assms(1) by (rule grade_world_Inr)
  show ?thesis
    by (rule that [of markers order se arts bs])
      (use r assms(2) in \<open>simp_all add: world_gates_def Let_def list_all_iff\<close>)
qed

lemma artifact_count_full:
  "artifact_count cps = 4 \<longleftrightarrow> (\<forall>step \<in> set STEPS. artifact_ready cps step)"
  by (auto simp: artifact_count_def STEPS_def)

lemma map_of_final_score:
  "map_of (map (\<lambda>(s, b). (s, final_score b)) bs) step = map_option final_score (map_of bs step)"
  by (simp add: map_of_map)

lemma strict_pass_step:
  assumes "grade_steps cps se tol True STEPS = Inr bs" and "step \<in> set STEPS"
    and "map_of (map (\<lambda>(s, b). (s, final_score b)) bs) step = map_of STEP_POINTS step"
  shows "\<exists>e. map_of se step = Some e \<and> trusted e \<and> step_id e = step \<and>
             applicable_caps step (geometry e) tol = []"
proof -
  obtain p where p: "map_of STEP_POINTS step = Some p" "0 < p"
    using assms(2) by (auto simp: STEPS_def STEP_POINTS_def)
  with assms(3) obtain b where b: "map_of bs step = Some b" "final_score b = p"
    by (auto simp: map_of_final_score)
  from grade_steps_full [OF assms(1) map_of_SomeD [OF b(1)]] p(2) b(2)
  obtain e where e: "map_of se step = Some e" "score_step step e tol = Inr b" by auto
  have "final_score b = b_maximum_points b"
    using score_step_max(3) [OF e(2)] p(1) b(2) by (simp add: step_max_def)
  with full_score_no_cap [OF e(2)] e show ?thesis by (auto simp: score_step_Inr)
qed

definition perfect_checkpoints :: "ReferenceBundle \<Rightarrow> grading_input \<Rightarrow> bool" where
  \<comment> \<open>what a perfect candidate leaves: four complete exports with perfect metrics whose files earn all artifact points
    and whose shapes agree fully with the reference bundle\<close>
  "perfect_checkpoints ref g \<longleftrightarrow>
     distinct (map fst (g_checkpoints g)) \<and> set (map fst (g_checkpoints g)) = set STEPS \<and>
     tolerances_ok (tolerances (spec g)) \<and>
     (\<forall>(step, c) \<in> set (g_checkpoints g). c_step_id c = step \<and> artifact_complete c \<and> digest_text (artifact_digest c) \<and>
        perfect_metrics step (c_geometry c) (tolerances (spec g)) \<and>
        (\<exists>path. artifact_root c = Some path \<and> checkpoint_artifact_points ref path step = Inr (5 / 2) \<and>
           (\<forall>name \<in> set (required_shapes step). \<exists>v. compare_checkpoint_shape ref path step name = Inr v \<and> shape_score v = 1)))"

lemma compared_shapes:
  assumes "\<forall>name \<in> set names. \<exists>v. f name = Inr v \<and> shape_score v = 1"
  shows "\<exists>shs. traverse (\<lambda>name. bind_res (f name) (\<lambda>v. Inr (name, v))) names = Inr shs \<and>
    (\<forall>name \<in> set names. \<exists>v. map_of shs name = Some v \<and> shape_score v = 1)"
  using assms
proof (induction names)
  case (Cons name names)
  then obtain v shs where "f name = Inr v" "shape_score v = 1" "traverse (\<lambda>name. bind_res (f name) (\<lambda>v. Inr (name, v))) names = Inr shs"
    "\<forall>name \<in> set names. \<exists>v. map_of shs name = Some v \<and> shape_score v = 1" by auto
  then show ?case by auto
qed simp

lemma step_shapes_required: "step \<in> set STEPS \<Longrightarrow> map_of STEP_SHAPES step = Some (required_shapes step)"
  by (auto simp: STEPS_def STEP_SHAPES_def required_shapes_def)

lemma reference_full:
  assumes "step \<in> set STEPS" and "perfect_metrics step (c_geometry c) tol" and "artifact_complete c"
    and "artifact_root c = Some path" and "checkpoint_artifact_points ref path step = Inr p"
    and "\<forall>name \<in> set (required_shapes step). \<exists>v. compare_checkpoint_shape ref path step name = Inr v \<and> shape_score v = 1"
  shows "\<exists>e. reference_step ref (step, c) = Inr ((step, e), (step, p)) \<and> step_id e = step \<and> trusted e \<and>
    geometry e = c_geometry c \<and> co_motion_score e = 1 \<and> list_all (shape_full e) (required_shapes step)"
proof -
  obtain shs where s: "traverse (\<lambda>name. bind_res (compare_checkpoint_shape ref path step name) (\<lambda>v. Inr (name, v))) (required_shapes step) = Inr shs"
    "\<forall>name \<in> set (required_shapes step). \<exists>v. map_of shs name = Some v \<and> shape_score v = 1"
    using compared_shapes [OF assms(6)] by blast
  let ?e = "\<lparr>step_id = step, geometry = c_geometry c, shapes = shs, co_motion_score = 1, trusted = True\<rparr>"
  have m: "sample_to_needle (c_geometry c) \<and> \<not> sample_to_source (c_geometry c) \<and> \<not> sample_to_target (c_geometry c)"
    if "step = ''step_2''"
    using that assms(2) by (simp add: perfect_metrics_def)
  have "step_evidence_init ?e = Inr ?e" using assms(1) by (auto simp: step_evidence_init_def STEPS_def STEP_TOTALS_def)
  moreover have "(if step = ''step_2'' then if sample_to_needle (c_geometry c) \<and> \<not> sample_to_source (c_geometry c) \<and>
      \<not> sample_to_target (c_geometry c) then 1 else 0 else 1) = (1 :: rat)" using m by simp
  ultimately have "reference_step ref (step, c) = Inr ((step, ?e), (step, p))"
    unfolding reference_step_def Let_def using assms(3-5) s(1) by (simp only: step_shapes_required [OF assms(1)] bind_res_simps prod.case option.case if_True)
  moreover have "list_all (shape_full ?e) (required_shapes step)"
    using s(2) by (fastforce simp: list_all_iff shape_full_def)
  ultimately show ?thesis by auto
qed

lemma traverse_reference:
  assumes "\<forall>(k, c) \<in> set cps. \<exists>e. reference_step ref (k, c) = Inr ((k, e), (k, p)) \<and> P k c e"
  shows "\<exists>se. reference_evidence ref cps = Inr (se, map (\<lambda>(k, _). (k, p)) cps) \<and>
    (\<forall>k c. map_of cps k = Some c \<longrightarrow> (\<exists>e. P k c e \<and> map_of se k = Some e))"
  using assms
proof (induction cps)
  case (Cons item cps)
  obtain k c where p: "item = (k, c)" by (cases item)
  with Cons obtain e se where "reference_step ref (k, c) = Inr ((k, e), (k, p))" "P k c e"
    "reference_evidence ref cps = Inr (se, map (\<lambda>(k, _). (k, p)) cps)"
    "\<forall>k c. map_of cps k = Some c \<longrightarrow> (\<exists>e. P k c e \<and> map_of se k = Some e)"
    by auto
  then show ?case by (auto simp: p reference_evidence_def bind_res_Inr_iff)
qed (simp add: reference_evidence_def)

lemma perfect_grade_step:
  assumes "step \<in> set STEPS" and "step_id e = step" "trusted e" "co_motion_score e = 1"
    "list_all (shape_full e) (required_shapes step)"
    and "perfect_metrics step (geometry e) tol" and "tolerances_ok tol" and "map_of se step = Some e"
  shows "\<exists>b. grade_step se tol True step = Inr b \<and> final_score b = step_max step"
proof -
  obtain t where "map_of STEP_TOTALS step = Some t" "step_max step = t"
    using assms(1) by (auto simp: STEPS_def STEP_TOTALS_def step_max_def STEP_POINTS_def)
  with perfect_evidence_lemma [of step t e tol] assms show ?thesis by (auto simp: grade_step_def)
qed

lemma perfect_steps:
  assumes "\<forall>step \<in> set steps. step_present cps se step \<and>
     (\<exists>b. grade_step se tol True step = Inr b \<and> final_score b = step_max step)"
  shows "\<exists>bs. grade_steps cps se tol True steps = Inr bs \<and>
    map (\<lambda>(s, b). (s, final_score b)) bs = map (\<lambda>s. (s, step_max s)) steps"
  using assms by (induction steps) (auto simp: grade_steps_Cons)

lemma perfect_checkpoints_graded:
  assumes "perfect_checkpoints ref g" and "g_reference g = Some ref"
  shows "\<exists>se arts bs. resolve_evidence g = Inr (se, arts) \<and> arts \<noteq> [] \<and> map snd arts = replicate 4 (5 / 2) \<and>
    grade_steps (g_checkpoints g) se (tolerances (spec g)) True STEPS = Inr bs \<and>
    map (\<lambda>(s, b). (s, final_score b)) bs = STEP_POINTS"
proof -
  let ?tol = "tolerances (spec g)" and ?cps = "g_checkpoints g"
  let ?P = "\<lambda>k c e. step_id e = k \<and> trusted e \<and> geometry e = c_geometry c \<and> co_motion_score e = 1 \<and>
    list_all (shape_full e) (required_shapes k)"
  note p = assms(1) [unfolded perfect_checkpoints_def]
  have steps: "k \<in> set STEPS" if "(k, c) \<in> set ?cps" for k c using that p by force
  have "\<forall>(k, c) \<in> set ?cps. \<exists>e. reference_step ref (k, c) = Inr ((k, e), (k, 5 / 2)) \<and> ?P k c e"
  proof (intro ballI, clarify)
    fix k c assume m: "(k, c) \<in> set ?cps"
    with p obtain path where "perfect_metrics k (c_geometry c) ?tol" "artifact_complete c" "artifact_root c = Some path"
      "checkpoint_artifact_points ref path k = Inr (5 / 2)"
      "\<forall>name \<in> set (required_shapes k). \<exists>v. compare_checkpoint_shape ref path k name = Inr v \<and> shape_score v = 1"
      by fast
    then show "\<exists>e. reference_step ref (k, c) = Inr ((k, e), (k, 5 / 2)) \<and> ?P k c e"
      by (rule reference_full [OF steps [OF m]])
  qed
  from traverse_reference [OF this] obtain se where
    se: "reference_evidence ref ?cps = Inr (se, map (\<lambda>(k, _). (k, 5 / 2)) ?cps)"
    and look: "\<And>k c. map_of ?cps k = Some c \<Longrightarrow> \<exists>e. ?P k c e \<and> map_of se k = Some e" by auto
  have len: "length ?cps = 4"
  proof -
    have "length ?cps = card (set (map fst ?cps))" using p by (metis distinct_card length_map)
    then show ?thesis using p by (simp add: STEPS_def)
  qed
  have "map snd (map (\<lambda>(k, _). (k, 5 / 2 :: rat)) ?cps) = replicate 4 (5 / 2)"
    using len by (intro nth_equalityI) (simp_all add: case_prod_beta)
  moreover have "step_present ?cps se step \<and> (\<exists>b. grade_step se ?tol True step = Inr b \<and> final_score b = step_max step)"
    if "step \<in> set STEPS" for step
  proof -
    have "map_of ?cps step \<noteq> None" using that p by (simp add: map_of_eq_None_iff)
    then obtain c where c: "map_of ?cps step = Some c" by blast
    obtain e where e: "?P step c e" "map_of se step = Some e" using look [OF c] by blast
    have "perfect_metrics step (geometry e) ?tol" "tolerances_ok ?tol"
      using map_of_SomeD [OF c] p e(1) by auto
    with perfect_grade_step [OF that, of e ?tol se] e c show ?thesis by (simp add: step_present_def)
  qed
  moreover have "map (\<lambda>s. (s, step_max s)) STEPS = STEP_POINTS"
    by (simp add: STEPS_def STEP_POINTS_def step_max_def)
  moreover have "resolve_evidence g = Inr (se, map (\<lambda>(k, _). (k, 5 / 2)) ?cps)"
    using se assms(2) by (simp add: resolve_evidence_def)
  ultimately show ?thesis using perfect_steps [of STEPS ?cps se ?tol] len by fastforce
qed

lemma traverse_plain:
  "list_all (\<lambda>e. finite_json (JObj (ev_fields e))) es \<Longrightarrow>
   traverse (\<lambda>e. plain (JObj (ev_fields e))) es = Inr (map (\<lambda>e. JObj (ev_fields e)) es)"
  by (induction es) (simp_all add: plain_def)

lemma perfect_world_lemma:
  assumes "perfect_checkpoints ref g" and "g_reference g = Some ref"
    and "list_all (\<lambda>e. finite_json (JObj (ev_fields e))) (events (journal g))"
    and "journal_valid rt (spec g) (journal g)"
    and "journal_markers (journal g) = Inr (markers, order, True, False)" and "list_all snd order"
    and "is_safe (g_terminal g)" "candidate_completed (g_runtime g)"
    and "identities_valid (g_runtime g)" "isolation_verified (g_runtime g)"
    and "\<not> forbidden_access (g_runtime g)" "\<not> infrastructure_failure (g_runtime g)"
  shows "\<exists>r. grade_world rt g = Inr r \<and> strict_pass r \<and> score r = Some 100 \<and> artifact_score r = 10 \<and>
    evidence_confidence r = 1 \<and> reference r = Some (identity ref)"
proof -
  obtain se arts bs where g: "resolve_evidence g = Inr (se, arts)" "arts \<noteq> []" "map snd arts = replicate 4 (5 / 2)"
    "grade_steps (g_checkpoints g) se (tolerances (spec g)) True STEPS = Inr bs"
    "map (\<lambda>(s, b). (s, final_score b)) bs = STEP_POINTS"
    using perfect_checkpoints_graded [OF assms(1,2)] by blast
  note p = assms(1) [unfolded perfect_checkpoints_def]
  have fin: "traverse (\<lambda>e. plain (JObj (ev_fields e))) (events (journal g)) =
      Inr (map (\<lambda>e. JObj (ev_fields e)) (events (journal g)))"
    using assms(3) by (rule traverse_plain)
  have ref: "reference_record rt g = Some (identity ref)" using assms(2) by (simp add: reference_record_def)
  have ready: "artifact_ready (g_checkpoints g) step" if "step \<in> set STEPS" for step
  proof -
    obtain c where c: "map_of (g_checkpoints g) step = Some c"
      using \<open>step \<in> set STEPS\<close> p by (metis map_of_eq_None_iff not_None_eq set_map)
    with map_of_SomeD [OF c] p show ?thesis by (auto simp: artifact_ready_def)
  qed
  then have n_ready: "artifact_count (g_checkpoints g) = 4" by (simp add: artifact_count_full)
  have "\<forall>x \<in> set (g_checkpoints g). fst x \<in> set STEPS \<and> fst x = c_step_id (snd x)"
  proof
    fix x assume x: "x \<in> set (g_checkpoints g)"
    then have "fst x \<in> set (map fst (g_checkpoints g))" by simp
    then have "fst x \<in> set STEPS" using p by simp
    moreover have "c_step_id (snd x) = fst x" using bspec [OF p [THEN conjunct2, THEN conjunct2, THEN conjunct2] x] by (cases x) simp
    ultimately show "fst x \<in> set STEPS \<and> fst x = c_step_id (snd x)" by simp
  qed
  then have keys: "checkpoint_keys_valid (g_checkpoints g)"
    unfolding checkpoint_keys_valid_def list_all_iff case_prod_beta by blast
  have art: "artifact_total arts 4 = 10"
  proof -
    have "py_round6 (fsum (replicate 4 (5 / 2))) = 10" by code_simp
    then show ?thesis using g(2,3) by (simp add: artifact_total_def)
  qed
  have total: "fadd (fsum (map snd STEP_POINTS)) 10 = 100" by code_simp
  have pts: "list_all (\<lambda>step. map_of STEP_POINTS step = map_of STEP_POINTS step) STEPS"
    by (simp add: list_all_iff)
  have c: "fdiv 4 4 = 1" by (simp add: fdiv_def)
  show ?thesis
    unfolding grade_world_def fin
    using assms(4-12) g(1,4,5) ref n_ready keys total pts art c by (simp add: Let_def world_gates_def del: map_map)
qed


section \<open>Where the markers come from\<close>

definition exported_at :: "JournalEvent list \<Rightarrow> string \<Rightarrow> int \<Rightarrow> bool" where
  "exported_at es step n \<longleftrightarrow> (\<exists>e \<in> set es. kind e = ''checkpoint.exported'' \<and> sequence e = n \<and>
     json_get (ev_fields e) ''step_id'' = JStr step)"

definition completed_at :: "JournalEvent list \<Rightarrow> int \<Rightarrow> bool" where
  "completed_at es n \<longleftrightarrow> (\<exists>e \<in> set es. kind e = ''rpc.completed'' \<and> sequence e = n)"

definition marker_inv :: "JournalEvent list \<Rightarrow> marker_state \<Rightarrow> bool" where
  "marker_inv es s \<longleftrightarrow>
     (\<forall>step n. map_of (m_checkpoints s) step = Some n \<longrightarrow> exported_at es step n) \<and>
     (\<forall>p \<in> set (m_operations s). completed_at es (op_sequence p)) \<and>
     (\<forall>purpose n. map_of (pattern_completion s) purpose = Some n \<longrightarrow> completed_at es n) \<and>
     (m_rejected s \<longleftrightarrow> (\<exists>e \<in> set es. kind e = ''rpc.rejected'' \<and> forbidden_rejection e))"

lemma exported_at_mono: "exported_at es step n \<Longrightarrow> exported_at (es @ [e]) step n"
  by (auto simp: exported_at_def)

lemma completed_at_mono: "completed_at es n \<Longrightarrow> completed_at (es @ [e]) n"
  by (auto simp: completed_at_def)

lemma set_default_lookup:
  "map_of (set_default k v d) k' = (if k' = k \<and> map_of d k = None then Some v else map_of d k')"
  by (auto simp: set_default_def update_conv' split: option.splits)

lemma str_of_Some: "str_of v = Some s \<longleftrightarrow> v = JStr s"
  by (simp add: str_of_def split: json.split)

lemma marker_inv_extend:
  assumes "marker_inv es s"
  shows "marker_inv (es @ [e]) (note_rejection e (note_checkpoint e s))"
proof -
  have "exported_at (es @ [e]) step (sequence e)"
    if "kind e = ''checkpoint.exported''" "str_of (json_get (ev_fields e) ''step_id'') = Some step" for step
    using that by (auto simp: exported_at_def str_of_Some)
  with assms show ?thesis
    by (auto simp: marker_inv_def note_rejection_def note_checkpoint_def set_default_lookup
        exported_at_mono completed_at_mono split: option.splits if_splits)
qed

lemma note_pattern_fields [simp]:
  "m_checkpoints (note_pattern p s) = m_checkpoints s" "m_operations (note_pattern p s) = m_operations s"
  "m_rejected (note_pattern p s) = m_rejected s"
  by (simp_all add: note_pattern_def Let_def split: option.split)

lemma note_pattern_completion:
  "map_of (pattern_completion (note_pattern p s)) purpose = Some n \<Longrightarrow>
   n = op_sequence p \<or> map_of (pattern_completion s) purpose = Some n"
  by (auto simp: note_pattern_def Let_def set_default_lookup split: option.splits if_splits)

lemma marker_inv_step:
  assumes "marker_inv es s"
  shows "marker_inv (es @ [e]) (mark_event e s)"
proof -
  let ?s = "note_rejection e (note_checkpoint e s)"
  note ext = marker_inv_extend [OF assms, of e]
  show ?thesis
  proof (cases "completed_operation e")
    case None
    with ext show ?thesis by (simp add: mark_event_def)
  next
    case (Some p)
    then have "completed_at (es @ [e]) (op_sequence p)"
      by (auto simp: completed_operation_def completed_at_def split: if_splits json.splits)
    with ext show ?thesis
      by (auto simp: Some mark_event_def Let_def marker_inv_def dest!: note_pattern_completion)
  qed
qed

lemma mark_events_inv: "marker_inv es (mark_events es)"
proof (induction es rule: rev_induct)
  case Nil
  show ?case by (simp add: marker_inv_def mark_events_def)
next
  case (snoc e es)
  then show ?case using marker_inv_step [of es "mark_events es" e] by (simp add: mark_events_def)
qed

lemma minimum_of_in: "minimum_of vs = Some m \<Longrightarrow> m \<in> set vs"
  by (induction vs arbitrary: m) (auto simp: min_def split: option.splits if_splits)

lemma maximum_of_in: "maximum_of vs = Some m \<Longrightarrow> m \<in> set vs"
  by (induction vs arbitrary: m) (auto simp: max_def split: option.splits if_splits)

lemma somes_in: "x \<in> set (somes xs) \<longleftrightarrow> Some x \<in> set xs"
  by (force simp: somes_def)

lemma between_in: "between vs l u first = Some n \<Longrightarrow> n \<in> set vs"
  by (auto simp: between_def Let_def dest!: minimum_of_in maximum_of_in split: option.splits if_splits)

lemma first_of_in: "first_of vs = Some n \<Longrightarrow> n \<in> set vs"
  by (auto simp: first_of_def split: list.splits)

lemma nth_of_in: "nth_of vs i = Some n \<Longrightarrow> n \<in> set vs"
  by (auto simp: nth_of_def split: if_splits)

lemma operation_sequences_in:
  "n \<in> set (operation_sequences ops names) \<Longrightarrow> \<exists>p \<in> set ops. op_sequence p = n"
  by (auto simp: operation_sequences_def)

lemma beam_sequence_in: "beam_sequence ops beam = Some n \<Longrightarrow> \<exists>p \<in> set ops. op_sequence p = n"
  by (auto simp: beam_sequence_def dest!: first_of_in)

lemma required_preflight_in:
  assumes "marker_inv es s" and "Some n \<in> set (required_preflight s)"
  shows "completed_at es n"
  using assms
  by (auto simp: required_preflight_def Let_def marker_inv_def
      dest!: first_of_in nth_of_in operation_sequences_in beam_sequence_in
      dest: sym [of "Some n"])


lemma marker_table_checkpoint:
  "step \<in> set STEPS \<Longrightarrow> map_of (marker_table s) step = Some (map_of (m_checkpoints s) step)"
proof -
  assume "step \<in> set STEPS"
  then consider "step = ''step_1''" | "step = ''step_2''" | "step = ''step_3''" | "step = ''step_4''"
    by (auto simp: STEPS_def)
  then show ?thesis by cases (simp_all add: marker_table_def Let_def)
qed

lemma marker_table_other:
  assumes "marker_inv es s" and "map_of (marker_table s) name = Some (Some n)" and "name \<notin> set STEPS"
  shows "completed_at es n"
proof -
  have ops: "completed_at es m" if "m \<in> set (operation_sequences (m_operations s) names)" for m names
    using operation_sequences_in [OF that] assms(1) by (auto simp: marker_inv_def)
  have pats: "completed_at es m" if "map_of (pattern_completion s) p = Some m" for m p
    using assms(1) that by (auto simp: marker_inv_def)
  have mins: "completed_at es m" if "minimum_of (somes [map_of (pattern_completion s) a, map_of (pattern_completion s) b,
      map_of (pattern_completion s) c, map_of (pattern_completion s) d]) = Some m" for m a b c d
    using minimum_of_in [OF that] pats by (auto simp: somes_in dest: sym)
  have pre: "completed_at es m" if "maximum_of (somes (required_preflight s)) = Some m" for m
    using maximum_of_in [OF that] required_preflight_in [OF assms(1)] by (auto simp: somes_in)
  show ?thesis
    using assms(2,3) unfolding marker_table_def Let_def STEPS_def
    by (auto dest: pats mins pre ops between_in split: if_splits)
qed

lemma journal_markers_Inr:
  "journal_markers j = Inr (markers, order, preflight, forbidden) \<Longrightarrow>
   markers = marker_table (mark_events (events j)) \<and>
   order = map (\<lambda>(step, names). (step, ordered markers names)) STEP_ORDER \<and>
   forbidden = m_rejected (mark_events (events j))"
  by (auto simp: journal_markers_def Let_def bind_res_Inr_iff)

definition MILESTONES :: "string list" where
  \<comment> \<open>the four step orders joined at the checkpoints\<close>
  "MILESTONES = [''preflight'', ''destructive_roi'', ''step_1'', ''needle_joint'',
     ''source_separation'', ''carry'', ''step_2'', ''transfer'', ''target_pose'', ''target_joint'',
     ''step_3'', ''needle_separation'', ''needle_retraction'', ''step_4'']"

lemma ordered_join:
  assumes "ordered markers (xs @ [y])" and "ordered markers (y # zs)"
  shows "ordered markers (xs @ y # zs)"
proof -
  have join: "strictly_increasing (as @ b # cs)"
    if "strictly_increasing (as @ [b])" "strictly_increasing (b # cs)" for as b cs
    using that by (induction as rule: strictly_increasing.induct) auto
  show ?thesis
    using assms join by (auto simp: ordered_def Let_def somes_def)
qed

lemma milestones_ordered:
  assumes "order = map (\<lambda>(step, names). (step, ordered markers names)) STEP_ORDER"
    and "list_all snd order"
  shows "ordered markers MILESTONES"
proof -
  have o: "ordered markers [''preflight'', ''destructive_roi'', ''step_1'']"
    "ordered markers [''step_1'', ''needle_joint'', ''source_separation'', ''carry'', ''step_2'']"
    "ordered markers [''step_2'', ''transfer'', ''target_pose'', ''target_joint'', ''step_3'']"
    "ordered markers [''step_3'', ''needle_separation'', ''needle_retraction'', ''step_4'']"
    using assms by (simp_all add: STEP_ORDER_def)
  from ordered_join [of markers "[''step_2'', ''transfer'', ''target_pose'', ''target_joint'']"] o(3,4)
  have "ordered markers [''step_2'', ''transfer'', ''target_pose'', ''target_joint'', ''step_3'',
      ''needle_separation'', ''needle_retraction'', ''step_4'']" by simp
  with ordered_join [of markers "[''step_1'', ''needle_joint'', ''source_separation'', ''carry'']"] o(2)
  have "ordered markers [''step_1'', ''needle_joint'', ''source_separation'', ''carry'', ''step_2'',
      ''transfer'', ''target_pose'', ''target_joint'', ''step_3'', ''needle_separation'',
      ''needle_retraction'', ''step_4'']" by simp
  with ordered_join [of markers "[''preflight'', ''destructive_roi'']"] o(1)
  show ?thesis by (simp add: MILESTONES_def)
qed

section \<open>A concrete world\<close>

definition op_event :: "string \<Rightarrow> obj \<Rightarrow> obj \<Rightarrow> string \<times> obj" where
  "op_event name details result = (''rpc.completed'',
     [(''operation'', JStr name), (''details'', JObj details), (''result_details'', JObj result)])"

definition pattern_event :: "string \<Rightarrow> string \<Rightarrow> string \<times> obj" where
  "pattern_event name purpose = op_event name [(''pattern_purpose'', JStr purpose)]
     [(''operation_id'', JStr purpose), (''status'', JStr ''completed'')]"

definition export_event :: "string \<Rightarrow> string \<times> obj" where
  "export_event step = (''checkpoint.exported'', [(''step_id'', JStr step)])"

definition example_script :: "(string \<times> obj) list" where
  "example_script =
     [op_event ''ping'' [] [], op_event ''capabilities'' [] [],
      op_event ''acquire_image'' [(''beam'', JStr ''SEM'')] [],
      op_event ''acquire_image'' [(''beam'', JStr ''FIB'')] [],
      op_event ''move_stage'' [] [], op_event ''move_stage'' [] [],
      op_event ''insert_manipulator'' [] [], op_event ''move_manipulator'' [] [],
      op_event ''retract_manipulator'' [] [],
      pattern_event ''run_cut'' ''preflight_cut'', pattern_event ''run_deposition'' ''preflight_deposition'',
      pattern_event ''run_deposition'' ''protection'', export_event ''step_1'',
      pattern_event ''run_deposition'' ''needle_joint'', pattern_event ''run_cut'' ''source_separation'',
      op_event ''move_stage'' [] [], export_event ''step_2'',
      op_event ''move_stage'' [] [], op_event ''move_manipulator'' [] [],
      pattern_event ''run_deposition'' ''target_joint'', export_event ''step_3'',
      pattern_event ''run_cut'' ''needle_separation'', op_event ''retract_manipulator'' [] [],
      export_event ''step_4'', (''run.terminal'', [])]"

definition ones :: string where "ones = replicate 64 (CHR ''1'')"

fun events_from :: "string \<Rightarrow> int \<Rightarrow> string \<Rightarrow> (string \<times> obj) list \<Rightarrow> JournalEvent list" where
  "events_from wid n previous [] = []"
| "events_from wid n previous ((k, fs) # es) =
     \<lparr>sequence = n, ev_run_id = ''r'', ev_world_id = wid, recorded_ns = n, kind = k,
      ev_fields = fs, previous_hash = previous, event_hash = ones\<rparr> # events_from wid (n + 1) ones es"

definition example_cp :: "string \<Rightarrow> bool \<Rightarrow> bool \<Rightarrow> bool \<Rightarrow> string \<times> CheckpointEvidence" where
  "example_cp step source needle target =
     (step, \<lparr>c_step_id = step,
       c_geometry = example_metrics\<lparr>sample_to_source := source, sample_to_needle := needle,
         sample_to_target := target, needle_joint_section_um := 1, target_joint_section_um := 1,
         sample_integrity_final := True\<rparr>,
       artifact_complete = True, artifact_digest = ones, artifact_root = Some (''/artifacts/'' @ step),
       artifact_evidence = None\<rparr>)"

definition example_reference :: ReferenceBundle where
  "example_reference = \<lparr>identity = [(''schema_version'', JInt 1)], checkpoint_artifact_points = (\<lambda>path step. Inr (5 / 2)),
     compare_checkpoint_shape = (\<lambda>path step name. Inr (perfect_shape ones))\<rparr>"

definition example_grading :: "string \<Rightarrow> grading_input" where
  "example_grading wid =
     \<lparr>spec = \<lparr>scenario_id = wid, tolerances = example_tolerances, scenario_bytes = ''{}''\<rparr>,
      journal = \<lparr>run_id = ''r'', world_id = wid,
                 events = events_from wid 1 GENESIS_HASH example_script\<rparr>,
      g_checkpoints = [example_cp ''step_1'' True False False, example_cp ''step_2'' False True False,
                       example_cp ''step_3'' False True True, example_cp ''step_4'' False False True],
      g_terminal = \<lparr>safe = True, t_simulator_idle = True, t_collision = False, cleanup_error = None\<rparr>,
      g_runtime = \<lparr>candidate_exit_code = Some 0, timed_out = False, forbidden_access = False,
        infrastructure_failure = False, candidate_uid = 10001, simulator_uid = 11001,
        isolation_verified = True\<rparr>,
      g_reference = Some example_reference, step_evidence = None, artifact_scores = None\<rparr>"

lemma example_markers:
  "\<exists>markers order. journal_markers (journal (example_grading wid)) = Inr (markers, order, True, False) \<and>
     list_all snd order"
proof -
  have "case journal_markers (journal (example_grading wid)) of Inl _ \<Rightarrow> False
    | Inr (m, ord, p, f) \<Rightarrow> list_all snd ord \<and> p \<and> \<not> f"
    by code_simp
  then show ?thesis by (auto split: sum.splits)
qed


lemma digest_text_simps [simp]: "digest_text ones" "digest_text GENESIS_HASH"
  by (simp_all add: digest_text_def is_digest_def ones_def GENESIS_HASH_def list_all_iff)

lemma events_from_valid:
  assumes "list_all (\<lambda>e. canonical_digest rt (JObj (unsigned_record e)) = Inr ones \<and> kind e \<noteq> [] \<and>
      finite_json (JObj (ev_fields e))) (events_from wid n previous script)"
    and "0 < n" and "ts \<le> n" and "digest_text previous"
  shows "\<exists>h ts'. validate_from rt ''r'' wid n previous ts
    (map (JObj \<circ> to_dict) (events_from wid n previous script)) = Inr (h, ts')"
  using assms
proof (induction wid n previous script arbitrary: ts rule: events_from.induct)
  case (2 wid n previous k fs es)
  let ?e = "hd (events_from wid n previous ((k, fs) # es))"
  have "validate_record rt ''r'' wid n previous ts (JObj (to_dict ?e)) = Inr (event_hash ?e, recorded_ns ?e)"
    using "2.prems" by (intro validate_own_record) (simp_all add: digest_text_def [symmetric])
  with 2 show ?case by simp
qed simp

lemma canonical_digest_small:
  assumes "finite_json v" and "text_bound (float_repr rt) v \<le> MAX_CANONICAL_BYTES"
  shows "canonical_digest rt v = Inr (sha256 rt (dumps (float_repr rt) v))"
  using assms length_dumps [of "float_repr rt" v]
  by (simp add: canonical_digest_def canonical_bytes_def plain_def Let_def)

definition SUITE :: "string list" where
  "SUITE = FIXED_WORLDS @ SEEDED_WORLDS"

lemma example_records:
  "list_all (\<lambda>wid. list_all (\<lambda>e.
      text_bound (float_repr example_runtime) (JObj (unsigned_record e)) \<le> MAX_CANONICAL_BYTES \<and>
      kind e \<noteq> [] \<and> finite_json (JObj (ev_fields e)) \<and> finite_json (JObj (unsigned_record e)))
      (events (journal (example_grading wid)))) SUITE"
  by code_simp

lemma example_digests:
  assumes "wid \<in> set SUITE"
  shows "list_all (\<lambda>e. canonical_digest example_runtime (JObj (unsigned_record e)) = Inr ones \<and> kind e \<noteq> [] \<and>
      finite_json (JObj (ev_fields e))) (events (journal (example_grading wid)))"
proof -
  have "list_all (\<lambda>e.
      text_bound (float_repr example_runtime) (JObj (unsigned_record e)) \<le> MAX_CANONICAL_BYTES \<and>
      kind e \<noteq> [] \<and> finite_json (JObj (ev_fields e)) \<and> finite_json (JObj (unsigned_record e)))
      (events (journal (example_grading wid)))"
    using example_records assms unfolding list_all_iff by blast
  then show ?thesis
    by (rule list.pred_mono_strong) (simp add: canonical_digest_small example_runtime_def ones_def)
qed

lemma example_world_journal:
  assumes "wid \<in> set SUITE"
  shows "journal_valid example_runtime (spec (example_grading wid)) (journal (example_grading wid))"
proof -
  have "ends_terminal (records_of (journal (example_grading wid)))" by code_simp
  moreover obtain h ts' where "validate_from example_runtime ''r'' wid 1 GENESIS_HASH 0
      (records_of (journal (example_grading wid))) = Inr (h, ts')"
    using events_from_valid [of example_runtime wid 1 GENESIS_HASH example_script 0] example_digests [OF assms]
    by (auto simp: example_grading_def records_of_def)
  ultimately show ?thesis
    by (simp add: journal_valid_def validate_records_def example_grading_def)
qed

end
