(* ===== verification/Fibsem_Grading.thy ===== *)
theory Fibsem_Grading
  imports Fibsem_Scoring
begin

text \<open>
  What the grading of theory \<open>Fibsem_Scoring\<close> guarantees: soundness of a strict pass of a world and
  of the suite, attainability of a strict pass, bounds of the scores, the effect of a missing
  checkpoint, and where the milestones of the journal come from. A concrete run of the ten
  worlds shows that the hypotheses can be met.
\<close>

section \<open>The suite: lemmas\<close>

lemma example_referenced: "g_reference (example_grading wid) = Some example_reference"
  by (simp add: example_grading_def)

lemma example_perfect: "perfect_checkpoints example_reference (example_grading wid)"
proof -
  have "fl (75 / 100) \<le> 1" by (rule fl.rnd_le_1) simp
  then show ?thesis
    using example_facts(4)
    by (simp add: perfect_checkpoints_def example_grading_def example_reference_def example_cp_def STEPS_def
        perfect_shape_def perfect_metrics_def example_metrics_def example_tolerances_def)
qed

lemma example_graded:
  assumes "wid \<in> set SUITE"
  shows "\<exists>r. grade_world example_runtime (example_grading wid) = Inr r \<and> strict_pass r \<and> score r = Some 100 \<and>
             evidence_confidence r = 1"
proof -
  obtain markers order where
    "journal_markers (journal (example_grading wid)) = Inr (markers, order, True, False)" "list_all snd order"
    using example_markers by blast
  then have "\<exists>r. grade_world example_runtime (example_grading wid) = Inr r \<and> strict_pass r \<and> score r = Some 100 \<and>
      artifact_score r = 10 \<and> evidence_confidence r = 1 \<and> reference r = Some (identity example_reference)"
    using example_digests [OF assms]
    by (intro perfect_world_lemma [OF example_perfect example_referenced _ example_world_journal [OF assms]])
      (simp_all add: list_all_iff example_grading_def is_safe_def candidate_completed_def identities_valid_def)
  then show ?thesis by blast
qed

lemma grade_world_strict:
  assumes "grade_world rt g = Inr r" and "strict_pass r"
  shows "score r = Some 100" "\<not> retry_eligible r" "is_safe (terminal r)"
    "lookup (strict_gates r) ''no_forbidden_access'' = Inr True"
    "w_world_id r \<in> set FIXED_WORLDS \<longleftrightarrow> category r = ''fixed''"
    "w_world_id r \<notin> set FIXED_WORLDS \<longleftrightarrow> category r = ''seeded''"
    "\<forall>step \<in> set STEPS. \<exists>v. lookup (step_scores r) step = Inr v"
proof -
  obtain markers order preflight forbidden se arts bs where r:
    "grade_steps (g_checkpoints g) se (tolerances (spec g)) True STEPS = Inr bs"
    "step_scores r = map (\<lambda>(step, b). (step, final_score b)) bs"
    "retry_eligible r = infrastructure_failure (g_runtime g)"
    "strict_gates r = world_gates g preflight (journal_valid rt (spec g) (journal g)) order
       (step_scores r) (reference_record rt g \<noteq> None) forbidden"
    "strict_pass r = (score r = Some 100 \<and> list_all snd (strict_gates r))"
    "terminal r = g_terminal g"
    "category r = (if scenario_id (spec g) \<in> set FIXED_WORLDS then ''fixed'' else ''seeded'')"
    "w_world_id r = scenario_id (spec g)"
    using assms(1) by (rule grade_world_Inr)
  show "score r = Some 100" "\<not> retry_eligible r" "is_safe (terminal r)"
    "lookup (strict_gates r) ''no_forbidden_access'' = Inr True"
    using assms(2) r by (simp_all add: world_gates_def Let_def lookup_def)
  show "w_world_id r \<in> set FIXED_WORLDS \<longleftrightarrow> category r = ''fixed''"
    "w_world_id r \<notin> set FIXED_WORLDS \<longleftrightarrow> category r = ''seeded''"
    using r by simp_all
  show "\<forall>step \<in> set STEPS. \<exists>v. lookup (step_scores r) step = Inr v"
    by (rule grade_steps_STEPS [OF r(1)]) (simp add: r(2) lookup_def STEPS_def)
qed

lemma traverse_defined: "\<forall>x \<in> set xs. \<exists>y. f x = Inr y \<Longrightarrow> \<exists>ys. traverse f xs = Inr ys"
  by (induction xs) auto

lemma aggregate_worlds_Inr:
  assumes "aggregate_worlds ws = Inr s"
  shows "s_retry_eligible s = list_ex retry_eligible ws"
    and "s_score s = (if list_ex retry_eligible ws \<or> somes (map score ws) = [] then None
           else Some (fdiv (fsum (somes (map score ws))) (of_int (int (length (somes (map score ws)))))))"
    and "s_strict_pass s \<longleftrightarrow> length ws = 10 \<and>
      (let fixed = filter (\<lambda>w. category w = ''fixed'') ws; seeded = filter (\<lambda>w. category w = ''seeded'') ws in
       set (map w_world_id fixed) = set FIXED_WORLDS \<and> set (map w_world_id seeded) = set SEEDED_WORLDS \<and>
       length fixed = 5 \<and> list_all strict_pass fixed \<and> length seeded = 5 \<and>
       4 \<le> length (filter strict_pass seeded)) \<and>
      list_all (\<lambda>w. is_safe (terminal w)) ws \<and>
      all_until (\<lambda>w. lookup (strict_gates w) ''no_forbidden_access'') ws = Inr True \<and>
      \<not> list_ex retry_eligible ws \<and> (\<exists>v. s_score s = Some v \<and> 90 \<le> v)"
  using assms
  by (auto simp: aggregate_worlds_def Let_def bind_res_Inr_iff simp del: set_map filter_filter
      split: option.splits)

lemma suite_distinct: "distinct SUITE" "card (set FIXED_WORLDS) = 5" "card (set SEEDED_WORLDS) = 5"
  "set FIXED_WORLDS \<inter> set SEEDED_WORLDS = {}"
  by (simp_all add: SUITE_def FIXED_WORLDS_def SEEDED_WORLDS_def)

lemma seeded_passes:
  assumes "set (map w_world_id seeded) = set SEEDED_WORLDS" and "length seeded = 5"
    and "4 \<le> length (filter strict_pass seeded)"
  shows "4 \<le> card {wid \<in> set SEEDED_WORLDS. \<exists>w \<in> set seeded. w_world_id w = wid \<and> strict_pass w}"
proof -
  have "distinct (map w_world_id seeded)"
    using assms(1,2) suite_distinct(3) by (metis card_distinct length_map)
  then have "distinct (map w_world_id (filter strict_pass seeded))"
    by (simp add: distinct_map_filter)
  then have "length (filter strict_pass seeded) = card (w_world_id ` set (filter strict_pass seeded))"
    by (metis distinct_card length_map set_map)
  also have "\<dots> \<le> card {wid \<in> set SEEDED_WORLDS. \<exists>w \<in> set seeded. w_world_id w = wid \<and> strict_pass w}"
    using assms(1) by (intro card_mono) auto
  finally show ?thesis using assms(3) by simp
qed

lemma map_somes: "map Some (somes xs) = filter (\<lambda>x. x \<noteq> None) xs"
  by (induction xs) (auto simp: somes_def)

lemma exact_suite:
  assumes "length ws = 10" and "set (map w_world_id (filter (\<lambda>w. category w = ''fixed'') ws)) = set FIXED_WORLDS"
    and "set (map w_world_id (filter (\<lambda>w. category w = ''seeded'') ws)) = set SEEDED_WORLDS"
    and "length (filter (\<lambda>w. category w = ''fixed'') ws) = 5" and "length (filter (\<lambda>w. category w = ''seeded'') ws) = 5"
  shows "mset (map w_world_id ws) = mset SUITE"
proof -
  let ?fixed = "filter (\<lambda>w. category w = ''fixed'') ws" and ?seeded = "filter (\<lambda>w. category w = ''seeded'') ws"
  let ?rest = "filter (\<lambda>w. category w \<noteq> ''fixed'') ws"
  have once: "mset (map w_world_id xs) = mset ids"
    if "set (map w_world_id xs) = set ids" "length xs = 5" "card (set ids) = 5" "distinct ids" for xs ids
  proof -
    have "distinct (map w_world_id xs)" using that(1-3) by (metis card_distinct length_map)
    with that(1,4) show ?thesis using set_eq_iff_mset_eq_distinct by blast
  qed
  have d: "distinct FIXED_WORLDS" "distinct SEEDED_WORLDS" by (simp_all add: FIXED_WORLDS_def SEEDED_WORLDS_def)
  have seeded: "?seeded = filter (\<lambda>w. category w = ''seeded'') ?rest" unfolding filter_filter by (rule filter_cong) auto
  have "length ?fixed + length ?rest = 10" using assms(1) sum_length_filter_compl [of "\<lambda>w. category w = ''fixed''" ws] by simp
  then have "length ?rest = length (filter (\<lambda>w. category w = ''seeded'') ?rest)" using assms(4,5) seeded by simp
  then have "\<forall>w \<in> set ?rest. category w = ''seeded''" using length_filter_less [of _ ?rest "\<lambda>w. category w = ''seeded''"] by fastforce
  then have "filter (\<lambda>w. category w = ''seeded'') ?rest = ?rest" unfolding filter_id_conv .
  then have "?rest = ?seeded" unfolding seeded by (rule sym)
  moreover have "mset ws = mset ?fixed + mset ?rest" by (simp add: multiset_partition)
  then have "image_mset w_world_id (mset ws) = image_mset w_world_id (mset ?fixed) + image_mset w_world_id (mset ?rest)"
    by (simp only: image_mset_union [symmetric])
  ultimately have "mset (map w_world_id ws) = mset (map w_world_id ?fixed) + mset (map w_world_id ?seeded)"
    unfolding mset_map by (simp only:)
  then show ?thesis
    using once [OF assms(2,4) suite_distinct(2) d(1)] once [OF assms(3,5) suite_distinct(3) d(2)] by (simp add: SUITE_def)
qed

lemma fsum_hundreds: "fdiv (fsum (replicate 10 100)) 10 = 100"
  by code_simp

lemma suite_categories:
  assumes "\<forall>w \<in> set ws. \<exists>rt g. grade_world rt g = Inr w \<and> strict_pass w"
    and "mset (map w_world_id ws) = mset SUITE"
  shows "mset (map w_world_id (filter (\<lambda>w. category w = ''fixed'') ws)) = mset FIXED_WORLDS"
    and "mset (map w_world_id (filter (\<lambda>w. category w = ''seeded'') ws)) = mset SEEDED_WORLDS"
proof -
  have c: "category w = ''fixed'' \<longleftrightarrow> w_world_id w \<in> set FIXED_WORLDS"
    "category w = ''seeded'' \<longleftrightarrow> w_world_id w \<notin> set FIXED_WORLDS" if "w \<in> set ws" for w
    using assms(1) grade_world_strict(5,6) that by metis+
  have f: "map w_world_id (filter (\<lambda>w. category w = ''fixed'') ws) =
      filter (\<lambda>i. i \<in> set FIXED_WORLDS) (map w_world_id ws)"
    using c(1) by (simp add: filter_map comp_def cong: filter_cong)
  have s: "map w_world_id (filter (\<lambda>w. category w = ''seeded'') ws) =
      filter (\<lambda>i. i \<notin> set FIXED_WORLDS) (map w_world_id ws)"
    using c(2) by (simp add: filter_map comp_def cong: filter_cong)
  show "mset (map w_world_id (filter (\<lambda>w. category w = ''fixed'') ws)) = mset FIXED_WORLDS"
    unfolding f mset_filter assms(2) unfolding mset_filter [symmetric]
    by (simp add: SUITE_def FIXED_WORLDS_def SEEDED_WORLDS_def)
  show "mset (map w_world_id (filter (\<lambda>w. category w = ''seeded'') ws)) = mset SEEDED_WORLDS"
    unfolding s mset_filter assms(2) unfolding mset_filter [symmetric]
    by (simp add: SUITE_def FIXED_WORLDS_def SEEDED_WORLDS_def)
qed

lemma suite_all_strict:
  assumes "\<forall>w \<in> set ws. \<exists>rt g. grade_world rt g = Inr w \<and> strict_pass w"
    and "mset (map w_world_id ws) = mset SUITE"
  shows "\<exists>s. aggregate_worlds ws = Inr s \<and> s_strict_pass s \<and> s_score s = Some 100"
proof -
  have w: "score w = Some 100" "\<not> retry_eligible w" "is_safe (terminal w)" "strict_pass w"
    "lookup (strict_gates w) ''no_forbidden_access'' = Inr True"
    "\<forall>step \<in> set STEPS. \<exists>v. lookup (step_scores w) step = Inr v" if "w \<in> set ws" for w
    using assms(1) grade_world_strict(1-4,7) that by metis+
  have len: "length ws = 10"
    using arg_cong [OF assms(2), of size] by (simp add: SUITE_def FIXED_WORLDS_def SEEDED_WORLDS_def)
  note cat = suite_categories [OF assms]
  have sets: "set (map w_world_id (filter (\<lambda>w. category w = ''fixed'') ws)) = set FIXED_WORLDS"
    "set (map w_world_id (filter (\<lambda>w. category w = ''seeded'') ws)) = set SEEDED_WORLDS"
    using mset_eq_setD [OF cat(1)] mset_eq_setD [OF cat(2)] by blast+
  have lens: "length (filter (\<lambda>w. category w = ''fixed'') ws) = 5"
    "length (filter (\<lambda>w. category w = ''seeded'') ws) = 5"
    using mset_eq_length [OF cat(1)] mset_eq_length [OF cat(2)]
    by (simp_all add: FIXED_WORLDS_def SEEDED_WORLDS_def)
  have "\<exists>dims. traverse (\<lambda>step. bind_res (traverse (\<lambda>w. lookup (step_scores w) step) ws)
      (\<lambda>vs. Inr (step, mean vs 0))) STEPS = Inr dims"
  proof (rule traverse_defined, rule)
    fix step assume "step \<in> set STEPS"
    then obtain vs where "traverse (\<lambda>w. lookup (step_scores w) step) ws = Inr vs"
      using traverse_defined [of ws "\<lambda>w. lookup (step_scores w) step"] w(6) by blast
    then show "\<exists>y. bind_res (traverse (\<lambda>w. lookup (step_scores w) step) ws)
      (\<lambda>vs. Inr (step, mean vs 0)) = Inr y" by simp
  qed
  then obtain s where s: "aggregate_worlds ws = Inr s"
    using all_until_Inr [of ws "\<lambda>w. lookup (strict_gates w) ''no_forbidden_access''"] w(5)
    by (auto simp: aggregate_worlds_def Let_def)
  have ne: "\<not> list_ex retry_eligible ws" using w(2) by (auto simp: list_ex_iff)
  have "map score ws = replicate 10 (Some 100)"
    using w(1) len by (intro nth_equalityI) simp_all
  then have hundreds: "somes (map score ws) = replicate 10 100" by (simp add: somes_def)
  have score: "s_score s = Some 100"
    unfolding aggregate_worlds_Inr(2) [OF s] hundreds using ne fsum_hundreds
    by (simp add: numeral_eq_Suc)
  have "filter strict_pass (filter (\<lambda>w. category w = ''seeded'') ws) = filter (\<lambda>w. category w = ''seeded'') ws"
    using w(4) by (simp add: filter_id_conv del: filter_filter)
  then have "s_strict_pass s"
    supply filter_filter [simp del]
    unfolding aggregate_worlds_Inr(3) [OF s] Let_def
    using sets lens len ne score w all_until_Inr [of ws "\<lambda>w. lookup (strict_gates w) ''no_forbidden_access''"]
    by (simp add: list_all_iff)
  with s score show ?thesis by blast
qed

lemma distinct_STEPS: "distinct STEPS"
  by (simp add: STEPS_def)

lemma example_suite:
  "\<exists>ws. (\<forall>w \<in> set ws. \<exists>rt g. grade_world rt g = Inr w \<and> strict_pass w) \<and>
     mset (map w_world_id ws) = mset SUITE"
proof -
  have "\<forall>wid \<in> set SUITE. \<exists>r. grade_world example_runtime (example_grading wid) = Inr r \<and>
      strict_pass r \<and> w_world_id r = wid"
  proof
    fix wid assume "wid \<in> set SUITE"
    then obtain r where r: "grade_world example_runtime (example_grading wid) = Inr r" "strict_pass r"
      using example_graded by blast
    from r(1) have "w_world_id r = scenario_id (spec (example_grading wid))" by (rule grade_world_Inr)
    with r show "\<exists>r. grade_world example_runtime (example_grading wid) = Inr r \<and>
        strict_pass r \<and> w_world_id r = wid" by (auto simp: example_grading_def)
  qed
  from bchoice [OF this] obtain f where f: "\<forall>wid \<in> set SUITE. grade_world example_runtime (example_grading wid) = Inr (f wid) \<and>
      strict_pass (f wid) \<and> w_world_id (f wid) = wid" by blast
  then have "map w_world_id (map f SUITE) = SUITE" by (simp add: map_idI)
  with f show ?thesis by (intro exI [of _ "map f SUITE"]) auto
qed

section \<open>Properties\<close>

text \<open>
  C1. A strict pass of a world is sound: the score is 100, the journal validates with its terminal
  event under the scenario's identity, the candidate finished normally under the isolated
  identities, nothing forbidden was accessed, the terminal state is safe, and for every step there
  is a checkpoint under its own id with a complete digested artifact, and trusted evidence to which
  no cap of the rubric applies.
\<close>

theorem strict_pass_sound:
  assumes "grade_world rt g = Inr r" and "strict_pass r"
  shows "score r = Some 100 \<and>
    (\<exists>h. validate_records rt (records_of (journal g)) (run_id (journal g)) (scenario_id (spec g)) True = Inr h) \<and>
    is_safe (g_terminal g) \<and> candidate_completed (g_runtime g) \<and> identities_valid (g_runtime g) \<and>
    isolation_verified (g_runtime g) \<and> \<not> forbidden_access (g_runtime g) \<and>
    \<not> infrastructure_failure (g_runtime g) \<and>
    (\<exists>se arts. resolve_evidence g = Inr (se, arts) \<and>
      (\<forall>step \<in> set STEPS. \<exists>c e. map_of (g_checkpoints g) step = Some c \<and> c_step_id c = step \<and>
         artifact_complete c \<and> digest_text (artifact_digest c) \<and> map_of se step = Some e \<and>
         trusted e \<and> step_id e = step \<and> applicable_caps step (geometry e) (tolerances (spec g)) = []))"
proof -
  obtain markers order se arts bs where g: "resolve_evidence g = Inr (se, arts)"
    "grade_steps (g_checkpoints g) se (tolerances (spec g)) True STEPS = Inr bs"
    "\<forall>step \<in> set STEPS. map_of (map (\<lambda>(s, b). (s, final_score b)) bs) step = map_of STEP_POINTS step"
    "score r = Some 100" "journal_valid rt (spec g) (journal g)" "is_safe (g_terminal g)"
    "candidate_completed (g_runtime g)" "identities_valid (g_runtime g)"
    "isolation_verified (g_runtime g)" "\<not> forbidden_access (g_runtime g)"
    "\<not> infrastructure_failure (g_runtime g)" "artifact_count (g_checkpoints g) = 4"
    "checkpoint_keys_valid (g_checkpoints g)"
    using assms by (rule strict_pass_gates)
  have "\<exists>c. map_of (g_checkpoints g) step = Some c \<and> c_step_id c = step \<and> artifact_complete c \<and>
      digest_text (artifact_digest c)" if "step \<in> set STEPS" for step
  proof -
    obtain c where c: "map_of (g_checkpoints g) step = Some c" "artifact_complete c"
      "digest_text (artifact_digest c)"
      using bspec [OF g(12) [unfolded artifact_count_full] \<open>step \<in> set STEPS\<close>]
      by (auto simp: artifact_ready_def split: option.splits)
    moreover have "c_step_id c = step"
      using g(13) map_of_SomeD [OF c(1)] by (auto simp: checkpoint_keys_valid_def list_all_iff)
    ultimately show ?thesis by blast
  qed
  then show ?thesis
    using g strict_pass_step [OF g(2)] by (fastforce simp: journal_valid_def split: sum.splits)
qed

theorem strict_pass_sound_witness:
  "\<exists>r. grade_world example_runtime (example_grading ''nominal'') = Inr r \<and> strict_pass r \<and>
     (\<exists>se arts. resolve_evidence (example_grading ''nominal'') = Inr (se, arts) \<and>
        (\<forall>step \<in> set STEPS. \<exists>e. map_of se step = Some e \<and> trusted e))"
proof -
  obtain r where r: "grade_world example_runtime (example_grading ''nominal'') = Inr r" "strict_pass r"
    using example_graded [of "''nominal''"] by (auto simp: SUITE_def FIXED_WORLDS_def)
  from strict_pass_sound [OF r] r show ?thesis by blast
qed

text \<open>
  C22. A strict pass proves the order of the work: the fourteen milestones, from preflight over the
  four checkpoints to the final retraction, are all present with strictly increasing journal
  sequence numbers, each checkpoint milestone is a \<^verbatim>\<open>checkpoint.exported\<close> event of that step in the
  journal, every other one is a completed operation, and no forbidden operation was rejected.
\<close>

theorem strict_pass_milestones:
  assumes "grade_world rt g = Inr r" and "strict_pass r"
  shows "ordered (partial_order r) MILESTONES \<and>
    (\<forall>name n. map_of (partial_order r) name = Some (Some n) \<longrightarrow>
       (if name \<in> set STEPS then exported_at (events (journal g)) name n
        else completed_at (events (journal g)) n)) \<and>
    (\<forall>e \<in> set (events (journal g)). kind e = ''rpc.rejected'' \<longrightarrow> \<not> forbidden_rejection e)"
proof -
  obtain markers order where m: "journal_markers (journal g) = Inr (markers, order, True, False)"
    "list_all snd order" "partial_order r = markers"
    using assms by (rule strict_pass_gates)
  let ?s = "mark_events (events (journal g))"
  have t: "markers = marker_table ?s"
    "order = map (\<lambda>(step, names). (step, ordered markers names)) STEP_ORDER" "\<not> m_rejected ?s"
    using journal_markers_Inr [OF m(1)] by blast+
  note inv = mark_events_inv [of "events (journal g)"]
  have "if name \<in> set STEPS then exported_at (events (journal g)) name n
        else completed_at (events (journal g)) n" if "map_of markers name = Some (Some n)" for name n
    using that inv marker_table_checkpoint [of name ?s] marker_table_other [OF inv, of name n]
    by (auto simp: t(1) marker_inv_def)
  moreover have "\<not> forbidden_rejection e" if "e \<in> set (events (journal g))" "kind e = ''rpc.rejected''" for e
    using inv t(3) that by (auto simp: marker_inv_def)
  ultimately show ?thesis
    using milestones_ordered [OF t(2) m(2)] m(3) by blast
qed

theorem strict_pass_milestones_witness:
  "\<exists>r. grade_world example_runtime (example_grading ''nominal'') = Inr r \<and> strict_pass r \<and>
     ordered (partial_order r) MILESTONES"
proof -
  obtain r where r: "grade_world example_runtime (example_grading ''nominal'') = Inr r" "strict_pass r"
    using example_graded [of "''nominal''"] by (auto simp: SUITE_def FIXED_WORLDS_def)
  from strict_pass_milestones [OF r] r show ?thesis by blast
qed

text \<open>
  C24. Strict passes are attainable on the path the evaluator takes, where every world is graded against its
  reference bundle: a world with perfect checkpoints - complete trusted exports of all four steps with
  perfect metrics, whose files earn all artifact points and whose shapes agree fully with the bundle -
  a valid journal with all milestones in order, a safe terminal state and clean runtime evidence is
  graded without error, passes strictly, scores exactly 100 of which 10 for the artifacts, has full evidence
  confidence and names the bundle it was compared with.
\<close>

theorem perfect_world_passes:
  assumes "perfect_checkpoints ref g" and "g_reference g = Some ref"
    and "list_all (\<lambda>e. finite_json (JObj (ev_fields e))) (events (journal g))"
    and "journal_valid rt (spec g) (journal g)"
    and "journal_markers (journal g) = Inr (markers, order, True, False)" and "list_all snd order"
    and "is_safe (g_terminal g)" "candidate_completed (g_runtime g)"
    and "identities_valid (g_runtime g)" "isolation_verified (g_runtime g)"
    and "\<not> forbidden_access (g_runtime g)" "\<not> infrastructure_failure (g_runtime g)"
  shows "\<exists>r. grade_world rt g = Inr r \<and> strict_pass r \<and> score r = Some 100 \<and> artifact_score r = 10 \<and>
    evidence_confidence r = 1 \<and> reference r = Some (identity ref)"
  using assms by (rule perfect_world_lemma)

theorem perfect_world_passes_witness:
  "\<exists>r. grade_world example_runtime (example_grading ''small'') = Inr r \<and> strict_pass r \<and>
     score r = Some 100 \<and> artifact_score r = 10 \<and> evidence_confidence r = 1 \<and>
     reference r = Some (identity example_reference)"
proof -
  obtain markers order where
    "journal_markers (journal (example_grading ''small'')) = Inr (markers, order, True, False)"
    "list_all snd order"
    using example_markers by blast
  moreover have s: "''small'' \<in> set SUITE" by (simp add: SUITE_def FIXED_WORLDS_def)
  ultimately show ?thesis
    using example_digests [OF s]
    by (intro perfect_world_passes [OF example_perfect example_referenced _ example_world_journal [OF s]])
      (simp_all add: list_all_iff example_grading_def is_safe_def candidate_completed_def identities_valid_def)
qed

text \<open>
  C36. World scores are bounded and an infrastructure failure is never scored: the artifact score
  is between 0 and 10, a score is between 0 and 100, the report has no score exactly when the
  world is eligible for a retry, which is exactly when the infrastructure failed, and then it is no
  strict pass.
\<close>

theorem grade_world_score_bounds:
  assumes "grade_world rt g = Inr r" and "inputs_ok g"
  shows "0 \<le> artifact_score r \<and> artifact_score r \<le> 10 \<and>
    (\<forall>s. score r = Some s \<longrightarrow> 0 \<le> s \<and> s \<le> 100) \<and>
    (score r = None \<longleftrightarrow> infrastructure_failure (g_runtime g)) \<and>
    (retry_eligible r \<longleftrightarrow> infrastructure_failure (g_runtime g)) \<and>
    (infrastructure_failure (g_runtime g) \<longrightarrow> \<not> strict_pass r)"
proof -
  have "retry_eligible r = infrastructure_failure (g_runtime g)"
    "score r = None \<longleftrightarrow> retry_eligible r" "strict_pass r \<Longrightarrow> score r \<noteq> None"
    using assms(1) by (auto elim!: grade_world_Inr)
  then show ?thesis using grade_world_score_bounds_lemma [OF assms] by blast
qed

theorem grade_world_score_bounds_witness:
  "\<exists>r. grade_world example_runtime (example_grading ''nominal'') = Inr r \<and>
     artifact_score r \<le> 10 \<and> score r \<noteq> None"
proof -
  obtain r where r: "grade_world example_runtime (example_grading ''nominal'') = Inr r"
    using example_graded [of "''nominal''"] by (auto simp: SUITE_def FIXED_WORLDS_def)
  have "inputs_ok (example_grading ''nominal'')"
    by (simp add: inputs_ok_def example_grading_def example_reference_def example_cp_def)
  from grade_world_score_bounds [OF r this] r show ?thesis by (auto simp: example_grading_def)
qed

text \<open>
  A missing checkpoint ends the scoring: when a step has no checkpoint or no trusted
  evidence, that step and every later step score exactly zero, whatever evidence the later
  steps have.
\<close>

theorem missing_checkpoint_zeroes_later:
  assumes "grade_world rt g = Inr r" and "STEPS = before @ step # after"
    and "map_of (g_checkpoints g) step = None" and "later \<in> set (step # after)"
  shows "map_of (step_scores r) later = Some 0"
proof -
  obtain se arts bs where
    bs: "grade_steps (g_checkpoints g) se (tolerances (spec g)) True STEPS = Inr bs"
    and r: "step_scores r = map (\<lambda>(step, b). (step, final_score b)) bs"
    using assms(1) by (rule grade_world_Inr)
  let ?ok = "True \<and> list_all (step_present (g_checkpoints g) se) before"
  obtain bx bz where b: "bs = bx @ bz"
    "grade_steps (g_checkpoints g) se (tolerances (spec g)) True before = Inr bx"
    "grade_steps (g_checkpoints g) se (tolerances (spec g)) ?ok (step # after) = Inr bz"
    using grade_steps_append [of "g_checkpoints g" se "tolerances (spec g)" True before "step # after" bs]
      bs assms(2) by auto
  have "\<not> step_present (g_checkpoints g) se step" using assms(3) by (simp add: step_present_def)
  with b(3) have zero: "final_score x = 0" if "(s, x) \<in> set bz" for s x
    using that grade_steps_after_gap [of "g_checkpoints g" se "tolerances (spec g)" after]
    by (auto simp: grade_steps_Cons grade_step_Inr)
  have keys: "map fst bs' = steps"
    if "grade_steps cps se tol ok steps = Inr bs'" for cps se tol ok steps bs'
    using grade_steps_bounds [OF that] by (induction rule: list_all2_induct) auto
  have "later \<notin> set (map fst bx)"
    using assms(4) keys [OF b(2)] distinct_STEPS unfolding assms(2) by auto
  then have "map_of bx later = None" by (simp add: map_of_eq_None_iff)
  moreover obtain x where "map_of bz later = Some x"
    using assms(4) keys [OF b(3)] by (metis map_of_eq_None_iff not_None_eq set_map)
  moreover from this have "final_score x = 0" using zero [of later x] map_of_SomeD [of bz later x] by simp
  ultimately show ?thesis unfolding r map_of_final_score b(1) map_of_append by (simp add: map_add_def)
qed

theorem missing_checkpoint_zeroes_later_witness:
  "\<exists>r. grade_world example_runtime (example_grading ''nominal''\<lparr>g_checkpoints := []\<rparr>) = Inr r \<and>
     map_of (step_scores r) ''step_3'' = Some 0"
proof -
  let ?g = "example_grading ''nominal''\<lparr>g_checkpoints := []\<rparr>"
  obtain markers order where m:
    "journal_markers (journal ?g) = Inr (markers, order, True, False)"
    using example_markers [of "''nominal''"] by auto
  have "traverse (\<lambda>e. plain (JObj (ev_fields e))) (events (journal ?g)) =
      Inr (map (\<lambda>e. JObj (ev_fields e)) (events (journal ?g)))"
    using example_digests [of "''nominal''"]
    by (intro traverse_plain) (auto simp: list_all_iff SUITE_def FIXED_WORLDS_def)
  moreover have "resolve_evidence ?g = Inr ([], [])"
    by (simp add: resolve_evidence_def example_grading_def reference_evidence_def)
  moreover have "\<exists>bs. grade_steps (g_checkpoints ?g) [] (tolerances (spec ?g)) True STEPS = Inr bs"
    by (simp add: STEPS_def grade_steps.simps(2) grade_step_def zero_breakdown_def STEP_POINTS_def)
  ultimately have "\<exists>r. grade_world example_runtime ?g = Inr r"
    using m unfolding grade_world_def Let_def by auto
  then obtain r where r: "grade_world example_runtime ?g = Inr r" by blast
  have "STEPS = [''step_1''] @ ''step_2'' # [''step_3'', ''step_4'']" by (simp add: STEPS_def)
  from missing_checkpoint_zeroes_later [OF r this, of "''step_3''"] r show ?thesis by simp
qed

text \<open>
  C23. A suite passes strictly only if its worlds are exactly the ten of the suite, each once, all five fixed
  worlds and at least four of the five seeded worlds pass strictly, every world ended safely and without
  forbidden access, no world is up for a retry, and the suite score, the floating-point mean of the world
  scores, is at least 90.
\<close>

theorem suite_pass_sound:
  assumes "aggregate_worlds ws = Inr s" and "s_strict_pass s"
  shows "mset (map w_world_id ws) = mset [''nominal'', ''small'', ''large'', ''needle_offset'', ''target_pose'',
       ''seeded_01'', ''seeded_02'', ''seeded_03'', ''seeded_04'', ''seeded_05''] \<and>
    (\<forall>wid \<in> set FIXED_WORLDS. \<exists>w \<in> set ws. w_world_id w = wid \<and> strict_pass w) \<and>
    4 \<le> card {wid \<in> set SEEDED_WORLDS. \<exists>w \<in> set ws. w_world_id w = wid \<and> strict_pass w} \<and>
    (\<forall>w \<in> set ws. is_safe (terminal w) \<and> \<not> retry_eligible w \<and>
       map_of (strict_gates w) ''no_forbidden_access'' = Some True) \<and>
    (\<exists>v vs. s_score s = Some v \<and> 90 \<le> v \<and> map Some vs = filter (\<lambda>x. x \<noteq> None) (map score ws) \<and> vs \<noteq> [] \<and>
       v = fdiv (fsum vs) (of_int (int (length vs))))"
proof -
  let ?fixed = "filter (\<lambda>w. category w = ''fixed'') ws"
  let ?seeded = "filter (\<lambda>w. category w = ''seeded'') ws"
  have g: "length ws = 10" "set (map w_world_id ?fixed) = set FIXED_WORLDS"
    "set (map w_world_id ?seeded) = set SEEDED_WORLDS" "list_all strict_pass ?fixed"
    "length ?fixed = 5" "length ?seeded = 5" "4 \<le> length (filter strict_pass ?seeded)"
    "list_all (\<lambda>w. is_safe (terminal w)) ws" "\<not> list_ex retry_eligible ws"
    "all_until (\<lambda>w. lookup (strict_gates w) ''no_forbidden_access'') ws = Inr True"
    "\<exists>v. s_score s = Some v \<and> 90 \<le> v"
    using assms(2) unfolding aggregate_worlds_Inr(3) [OF assms(1)] Let_def by blast+
  have "\<exists>w \<in> set ws. w_world_id w = wid \<and> strict_pass w" if "wid \<in> set FIXED_WORLDS" for wid
  proof -
    from that obtain w where "w \<in> set ?fixed" "w_world_id w = wid" unfolding g(2) [symmetric] by auto
    with g(4) show ?thesis by (auto simp: list_all_iff)
  qed
  moreover have "4 \<le> card {wid \<in> set SEEDED_WORLDS. \<exists>w \<in> set ws. w_world_id w = wid \<and> strict_pass w}"
    by (rule order_trans [OF seeded_passes [OF g(3,6,7)]], rule card_mono) auto
  moreover have "map_of (strict_gates w) ''no_forbidden_access'' = Some True" if "w \<in> set ws" for w
    using all_until_True [OF g(10) that] by (simp add: lookup_def split: option.splits)
  moreover have "mset (map w_world_id ws) = mset [''nominal'', ''small'', ''large'', ''needle_offset'', ''target_pose'',
      ''seeded_01'', ''seeded_02'', ''seeded_03'', ''seeded_04'', ''seeded_05'']"
    using exact_suite [OF g(1,2,3,5,6)] by (simp add: SUITE_def FIXED_WORLDS_def SEEDED_WORLDS_def)
  moreover have "\<exists>v vs. s_score s = Some v \<and> 90 \<le> v \<and> map Some vs = filter (\<lambda>x. x \<noteq> None) (map score ws) \<and> vs \<noteq> [] \<and>
      v = fdiv (fsum vs) (of_int (int (length vs)))"
    using aggregate_worlds_Inr(2) [OF assms(1)] g(11) map_somes [of "map score ws"]
    by (auto split: if_splits)
  moreover have "\<forall>w \<in> set ws. is_safe (terminal w) \<and> \<not> retry_eligible w"
    using g(8,9) by (auto simp: list_all_iff list_ex_iff)
  ultimately show ?thesis by (intro conjI ballI) simp_all
qed

theorem suite_pass_sound_witness:
  "\<exists>ws s. aggregate_worlds ws = Inr s \<and> s_strict_pass s \<and> ''seeded_05'' \<in># mset (map w_world_id ws) \<and> s_score s \<noteq> None"
proof -
  obtain ws s where s: "aggregate_worlds ws = Inr s" "s_strict_pass s"
    using example_suite suite_all_strict by blast
  from suite_pass_sound [OF s] have "''seeded_05'' \<in># mset (map w_world_id ws)" "s_score s \<noteq> None" by auto
  with s show ?thesis by blast
qed

text \<open>
  Ten graded worlds that all pass strictly and carry the ten identities of the suite aggregate
  to a strict pass with the score 100.
\<close>

theorem suite_of_strict_worlds:
  assumes "\<forall>w \<in> set ws. \<exists>rt g. grade_world rt g = Inr w \<and> strict_pass w"
    and "mset (map w_world_id ws) = mset SUITE"
  shows "\<exists>s. aggregate_worlds ws = Inr s \<and> s_strict_pass s \<and> s_score s = Some 100"
  using assms by (rule suite_all_strict)

theorem suite_of_strict_worlds_witness:
  "\<exists>ws s. mset (map w_world_id ws) = mset SUITE \<and> aggregate_worlds ws = Inr s \<and> s_strict_pass s \<and>
     s_score s = Some 100"
proof -
  obtain ws where ws: "\<forall>w \<in> set ws. \<exists>rt g. grade_world rt g = Inr w \<and> strict_pass w"
    "mset (map w_world_id ws) = mset SUITE"
    using example_suite by blast
  from suite_of_strict_worlds [OF ws] ws(2) show ?thesis by blast
qed

end
