(* ===== verification/Dut_World.thy ===== *)
theory Dut_World
  imports Py_Text
begin

text \<open>
  The hidden physical world of the PyVISA evaluator, version 1
  (\<^verbatim>\<open>sources/pyvisa/pyvisa_dut_validation_v1/dut_world.py\<close>, \<^verbatim>\<open>models.py\<close>): switch routes, power supply,
  stimulus, the clock, and the two measurements of the device under test. An action is its kind
  and a dictionary of arguments; every handler checks its arguments before it changes the state,
  so a raised error is a value and leaves the world as it was. The noise of a sample is the
  digest-derived value of the source, so measurements are reproducible. The lemmas show the
  interlocks of the world (reachable states, what a measurement requires, when routes can close) and
  that a sample differs from the ideal value by at most the noise amplitude of its world.
\<close>

section \<open>Specification and state\<close>

record SemanticAction =
  action_kind :: string
  arguments :: "(string \<times> string json) list"

record WorldSpec =
  spec_world_id :: string
  seed :: int
  gain :: rat
  offset_v :: rat
  dmm_noise_v :: rat
  scope_noise_v :: rat
  settle_ms :: int
  supply_voltage_v :: rat
  required_routes :: "string set"
  gain_min :: rat
  gain_max :: rat
  cross_error_max_v :: rat
  dmm_format :: string
  binary_length_digits :: nat
  initial_psu_output :: bool
  initial_awg_output :: bool
  initial_closed_routes :: "string set"
  resource_map :: "(string \<times> string) list"
  distractors :: "(string \<times> string) list"
  transient_error_role :: "string option"
  transient_error_command :: "string option"
  transient_error_count :: int

definition nominal :: "int \<Rightarrow> WorldSpec" where
  "nominal sd =
     \<lparr>spec_world_id = ''nominal'', seed = sd, gain = 2, offset_v = 0, dmm_noise_v = fl (1 / 1000),
      scope_noise_v = fl (2 / 1000), settle_ms = 250, supply_voltage_v = 5,
      required_routes = {''1101'', ''1102''}, gain_min = fl (197 / 100), gain_max = fl (203 / 100),
      cross_error_max_v = fl (2 / 100), dmm_format = ''decimal'', binary_length_digits = 2,
      initial_psu_output = False, initial_awg_output = False, initial_closed_routes = {},
      resource_map =
        [(''psu'', ''TCPIP0::192.0.2.10::inst0::INSTR''), (''switch'', ''GPIB0::9::INSTR''),
         (''awg'', ''USB0::0x0957::0x2C07::MY000001::0::INSTR''),
         (''scope'', ''TCPIP0::192.0.2.20::inst0::INSTR''),
         (''dmm'', ''USB0::0x05E6::0x7510::MY000002::0::INSTR'')],
      distractors = [], transient_error_role = None, transient_error_command = None,
      transient_error_count = 0\<rparr>"

record WorldSnapshot =
  snap_clock_ms :: int
  snap_closed_routes :: "string list"
  snap_psu_voltage_v :: pyfloat
  snap_psu_output :: bool
  snap_awg_waveform_name :: "string option"
  snap_awg_points :: "pyfloat list"
  snap_awg_amplitude_vpp :: pyfloat
  snap_awg_output :: bool
  snap_stimulus_started_ms :: "int option"
  snap_safe :: bool

datatype world_error =
    ValueError string
  | WorldStateError string
  | KeyError string
  | TypeError string
  | OverflowError string

record DUTWorld =
  clock_ms :: int
  closed_routes :: "string set"
  psu_voltage_v :: pyfloat
  psu_output :: bool
  awg_waveform_name :: "string option"
  awg_points :: "pyfloat list"
  awg_amplitude_vpp :: pyfloat
  awg_output :: bool
  stimulus_started_ms :: "int option"
  session_reopens :: "(string, int) dict"

definition new_world :: "WorldSpec \<Rightarrow> DUTWorld" where
  "new_world sp =
     \<lparr>clock_ms = 0, closed_routes = initial_closed_routes sp, psu_voltage_v = Fin 0,
      psu_output = initial_psu_output sp, awg_waveform_name = None, awg_points = [],
      awg_amplitude_vpp = Fin 0, awg_output = initial_awg_output sp,
      stimulus_started_ms = (if initial_awg_output sp then Some 0 else None), session_reopens = []\<rparr>"

section \<open>Operations\<close>

definition advance_ms :: "int \<Rightarrow> DUTWorld \<Rightarrow> world_error + DUTWorld" where
  "advance_ms milliseconds w =
     (if milliseconds < 0 then Inl (ValueError ''milliseconds must be a non-negative integer'')
      else Inr (w\<lparr>clock_ms := clock_ms w + milliseconds\<rparr>))"

definition note_session_reopen :: "string \<Rightarrow> DUTWorld \<Rightarrow> DUTWorld" where
  "note_session_reopen role w =
     w\<lparr>session_reopens := AList.update role
        (1 + (case map_of (session_reopens w) role of None \<Rightarrow> 0 | Some n \<Rightarrow> n)) (session_reopens w)\<rparr>"

definition route_text :: "string json \<Rightarrow> string" where
  \<comment> \<open>\<^verbatim>\<open>str(route)\<close>: only a string or an integer can give digits, any other value does not\<close>
  "route_text v = (case v of JStr s \<Rightarrow> s | JInt n \<Rightarrow> show_int n | _ \<Rightarrow> ''?'')"

definition routes_of :: "(string \<times> string json) list \<Rightarrow> world_error + string list" where
  "routes_of args =
     bind_res (as_list (json_get args ''routes'') (ValueError ''routes must be a non-empty sequence'')) (\<lambda>vs.
     bind_res (require (vs \<noteq> []) (ValueError ''routes must be a non-empty sequence'')) (\<lambda>_.
     let normalized = map route_text vs in
     bind_res (require (list_all is_digit_str normalized)
       (ValueError ''route identifiers must contain only digits'')) (\<lambda>_. Inr normalized)))"

definition close_routes :: "(string \<times> string json) list \<Rightarrow> DUTWorld \<Rightarrow> world_error + DUTWorld" where
  "close_routes args w =
     bind_res (require (\<not> psu_output w \<and> \<not> awg_output w)
       (WorldStateError ''source outputs must be disabled before closing routes'')) (\<lambda>_.
     bind_res (routes_of args) (\<lambda>rs. Inr (w\<lparr>closed_routes := closed_routes w \<union> set rs\<rparr>)))"

definition open_routes :: "(string \<times> string json) list \<Rightarrow> DUTWorld \<Rightarrow> world_error + DUTWorld" where
  "open_routes args w =
     bind_res (routes_of args) (\<lambda>rs. Inr (w\<lparr>closed_routes := closed_routes w - set rs\<rparr>))"

definition open_all :: "(string \<times> string json) list \<Rightarrow> DUTWorld \<Rightarrow> world_error + DUTWorld" where
  "open_all args w =
     bind_res (require (args = []) (ValueError ''switch.open_all takes no arguments'')) (\<lambda>_.
       Inr (w\<lparr>closed_routes := {}\<rparr>))"

definition py_float :: "string json \<Rightarrow> world_error + pyfloat" where
  \<comment> \<open>\<^verbatim>\<open>float(v)\<close>\<close>
  "py_float v = (case v of
     JInt n \<Rightarrow> (case to_float (of_int n) of
         Fin q \<Rightarrow> Inr (Fin q) | _ \<Rightarrow> Inl (OverflowError ''int too large to convert to float''))
   | JFloat x \<Rightarrow> Inr x
   | JBool b \<Rightarrow> Inr (Fin (if b then 1 else 0))
   | JStr s \<Rightarrow> (case parse_float s of None \<Rightarrow> Inl (ValueError ''could not convert string to float'')
               | Some x \<Rightarrow> Inr x)
   | _ \<Rightarrow> Inl (TypeError ''float() argument must be a string or a real number''))"

definition arg_bool :: "(string \<times> string json) list \<Rightarrow> world_error + bool" where
  "arg_bool args = (case json_get args ''enabled'' of
     JBool b \<Rightarrow> Inr b | _ \<Rightarrow> Inl (ValueError ''enabled must be boolean''))"

definition configure_psu :: "(string \<times> string json) list \<Rightarrow> DUTWorld \<Rightarrow> world_error + DUTWorld" where
  "configure_psu args w =
     bind_res (case map_of args ''voltage_v'' of None \<Rightarrow> Inl (KeyError ''voltage_v'') | Some v \<Rightarrow> Inr v) (\<lambda>v.
     bind_res (py_float v) (\<lambda>voltage.
     bind_res (require (pf_le (Fin 0) voltage \<and> pf_le voltage (Fin 6))
       (ValueError ''PSU voltage must be between 0 and 6 V'')) (\<lambda>_.
       Inr (w\<lparr>psu_voltage_v := voltage\<rparr>))))"

definition set_psu_output :: "(string \<times> string json) list \<Rightarrow> DUTWorld \<Rightarrow> world_error + DUTWorld" where
  "set_psu_output args w =
     bind_res (arg_bool args) (\<lambda>enabled.
     bind_res (require (\<not> (enabled \<and> pf_le (psu_voltage_v w) (Fin 0)))
       (WorldStateError ''power cannot be enabled before voltage configuration'')) (\<lambda>_.
       Inr (w\<lparr>psu_output := enabled\<rparr>)))"

definition set_awg_waveform :: "(string \<times> string json) list \<Rightarrow> DUTWorld \<Rightarrow> world_error + DUTWorld" where
  "set_awg_waveform args w =
     bind_res (py_float (case map_of args ''amplitude_vpp'' of None \<Rightarrow> JFloat (Fin 0) | Some v \<Rightarrow> v)) (\<lambda>amplitude.
     bind_res (as_str (json_get args ''name'') (ValueError ''waveform name is required'')) (\<lambda>name.
     bind_res (require (name \<noteq> []) (ValueError ''waveform name is required'')) (\<lambda>_.
     bind_res (as_list (json_get args ''points'')
       (ValueError ''waveform points must contain at least two values'')) (\<lambda>pts.
     bind_res (require (2 \<le> length pts)
       (ValueError ''waveform points must contain at least two values'')) (\<lambda>_.
     bind_res (traverse py_float pts) (\<lambda>normalized.
     bind_res (require (\<not> pf_le amplitude (Fin 0)) (ValueError ''amplitude_vpp must be positive'')) (\<lambda>_.
       Inr (w\<lparr>awg_waveform_name := Some name, awg_points := normalized,
             awg_amplitude_vpp := amplitude\<rparr>))))))))"

definition set_awg_output :: "(string \<times> string json) list \<Rightarrow> DUTWorld \<Rightarrow> world_error + DUTWorld" where
  "set_awg_output args w =
     bind_res (arg_bool args) (\<lambda>enabled.
     bind_res (require (\<not> (enabled \<and> awg_points w = []))
       (WorldStateError ''stimulus waveform must be configured first'')) (\<lambda>_.
       Inr (w\<lparr>awg_output := enabled,
             stimulus_started_ms := (if enabled then Some (clock_ms w) else None)\<rparr>)))"

definition apply_action :: "SemanticAction \<Rightarrow> DUTWorld \<Rightarrow> world_error + DUTWorld" where
  "apply_action action w =
     (let k = action_kind action; args = arguments action in
      if k = ''switch.close'' then close_routes args w
      else if k = ''switch.open'' then open_routes args w
      else if k = ''switch.open_all'' then open_all args w
      else if k = ''psu.configure'' then configure_psu args w
      else if k = ''psu.output'' then set_psu_output args w
      else if k = ''awg.waveform'' then set_awg_waveform args w
      else if k = ''awg.output'' then set_awg_output args w
      else Inl (ValueError (''unsupported semantic action '' @ k)))"

definition require_ready :: "WorldSpec \<Rightarrow> DUTWorld \<Rightarrow> world_error + unit" where
  "require_ready sp w =
     bind_res (require (required_routes sp \<subseteq> closed_routes w)
       (WorldStateError ''required DUT route is open'')) (\<lambda>_.
     bind_res (require (psu_output w) (WorldStateError ''DUT power is disabled'')) (\<lambda>_.
     bind_res (require (awg_output w \<and> awg_points w \<noteq> []) (WorldStateError ''stimulus is disabled'')) (\<lambda>_.
     require (case stimulus_started_ms w of None \<Rightarrow> False
              | Some t \<Rightarrow> settle_ms sp \<le> clock_ms w - t)
       (WorldStateError ''DUT has not settled''))))"

definition hex_value :: "char \<Rightarrow> int" where
  "hex_value c = (if code_of c < 58 then code_of c - 48 else code_of c - 87)"

definition noise :: "runtime \<Rightarrow> WorldSpec \<Rightarrow> string \<Rightarrow> nat \<Rightarrow> rat \<Rightarrow> rat" where
  \<comment> \<open>\<^verbatim>\<open>digest()[:8]\<close> read big-endian is the value of the first 16 hexadecimal digits\<close>
  "noise rt sp channel index amplitude =
     (if amplitude = 0 then 0
      else let material = show_int (seed sp) @ '':'' @ channel @ '':'' @ show_int (int index);
               raw = foldl (\<lambda>n c. 16 * n + hex_value c) 0 (take 16 (sha256 rt material));
               unit = fdiv (of_int raw) (2 ^ 64 - 1)
           in fmul (fsub (fmul 2 unit) 1) amplitude)"

definition ideal_samples :: "WorldSpec \<Rightarrow> DUTWorld \<Rightarrow> pyfloat list" where
  "ideal_samples sp w = map (\<lambda>p. pf_add (Fin (offset_v sp)) (pf_mul (Fin (gain sp)) p)) (awg_points w)"

definition noisy :: "runtime \<Rightarrow> WorldSpec \<Rightarrow> string \<Rightarrow> rat \<Rightarrow> DUTWorld \<Rightarrow> pyfloat list" where
  "noisy rt sp channel amplitude w =
     map (\<lambda>(index, value). pf_add value (Fin (noise rt sp channel index amplitude)))
       (enumerate 0 (ideal_samples sp w))"

definition dmm_samples :: "runtime \<Rightarrow> WorldSpec \<Rightarrow> DUTWorld \<Rightarrow> world_error + pyfloat list" where
  "dmm_samples rt sp w = bind_res (require_ready sp w) (\<lambda>_. Inr (noisy rt sp ''dmm'' (dmm_noise_v sp) w))"

definition scope_samples :: "runtime \<Rightarrow> WorldSpec \<Rightarrow> DUTWorld \<Rightarrow> world_error + pyfloat list" where
  "scope_samples rt sp w =
     bind_res (require_ready sp w) (\<lambda>_. Inr (noisy rt sp ''scope'' (scope_noise_v sp) w))"

definition snapshot :: "DUTWorld \<Rightarrow> WorldSnapshot" where
  "snapshot w =
     \<lparr>snap_clock_ms = clock_ms w, snap_closed_routes = sorted_list_of_set (closed_routes w),
      snap_psu_voltage_v = psu_voltage_v w, snap_psu_output = psu_output w,
      snap_awg_waveform_name = awg_waveform_name w, snap_awg_points = awg_points w,
      snap_awg_amplitude_vpp = awg_amplitude_vpp w, snap_awg_output = awg_output w,
      snap_stimulus_started_ms = stimulus_started_ms w,
      snap_safe = (\<not> awg_output w \<and> \<not> psu_output w \<and> closed_routes w = {})\<rparr>"

section \<open>Reachable worlds\<close>

inductive world_run :: "WorldSpec \<Rightarrow> DUTWorld \<Rightarrow> bool" for sp :: WorldSpec where
  start: "world_run sp (new_world sp)"
| tick: "world_run sp w \<Longrightarrow> advance_ms n w = Inr w' \<Longrightarrow> world_run sp w'"
| act: "world_run sp w \<Longrightarrow> apply_action a w = Inr w' \<Longrightarrow> world_run sp w'"
| reopen: "world_run sp w \<Longrightarrow> world_run sp (note_session_reopen role w)"

inductive_cases world_runE: "world_run sp w"

definition world_inv :: "WorldSpec \<Rightarrow> DUTWorld \<Rightarrow> bool" where
  "world_inv sp w \<longleftrightarrow>
     0 \<le> clock_ms w \<and> (awg_output w \<longleftrightarrow> stimulus_started_ms w \<noteq> None) \<and>
     (\<forall>t. stimulus_started_ms w = Some t \<longrightarrow> 0 \<le> t \<and> t \<le> clock_ms w) \<and>
     (\<exists>v. psu_voltage_v w = Fin v \<and> 0 \<le> v \<and> v \<le> 6) \<and>
     (awg_points w \<noteq> [] \<longrightarrow> 2 \<le> length (awg_points w) \<and> awg_waveform_name w \<noteq> None) \<and>
     (awg_output w \<longrightarrow> initial_awg_output sp \<or> awg_points w \<noteq> [])"

lemma close_routes_Inr:
  "close_routes args w = Inr w' \<Longrightarrow>
   \<not> psu_output w \<and> \<not> awg_output w \<and> (\<exists>rs. w' = w\<lparr>closed_routes := closed_routes w \<union> set rs\<rparr>)"
  by (auto simp: close_routes_def bind_res_Inr_iff)

lemma open_routes_Inr:
  "open_routes args w = Inr w' \<Longrightarrow> \<exists>rs. w' = w\<lparr>closed_routes := closed_routes w - set rs\<rparr>"
  by (auto simp: open_routes_def bind_res_Inr_iff)

lemma open_all_Inr: "open_all args w = Inr w' \<Longrightarrow> w' = w\<lparr>closed_routes := {}\<rparr>"
  by (auto simp: open_all_def bind_res_Inr_iff)

lemma configure_psu_Inr:
  "configure_psu args w = Inr w' \<Longrightarrow> \<exists>v. 0 \<le> v \<and> v \<le> 6 \<and> w' = w\<lparr>psu_voltage_v := Fin v\<rparr>"
  by (auto simp: configure_psu_def bind_res_Inr_iff)

lemma set_psu_output_Inr:
  "set_psu_output args w = Inr w' \<Longrightarrow>
   \<exists>b. (b \<longrightarrow> \<not> pf_le (psu_voltage_v w) (Fin 0)) \<and> w' = w\<lparr>psu_output := b\<rparr>"
  by (auto simp: set_psu_output_def bind_res_Inr_iff)

lemma set_awg_waveform_Inr:
  "set_awg_waveform args w = Inr w' \<Longrightarrow>
   \<exists>n ps amp. n \<noteq> [] \<and> 2 \<le> length ps \<and>
     w' = w\<lparr>awg_waveform_name := Some n, awg_points := ps, awg_amplitude_vpp := amp\<rparr>"
proof -
  assume "set_awg_waveform args w = Inr w'"
  then obtain amp n vs ps where "n \<noteq> []" "2 \<le> length vs" "traverse py_float vs = Inr ps"
    "w' = w\<lparr>awg_waveform_name := Some n, awg_points := ps, awg_amplitude_vpp := amp\<rparr>"
    by (auto simp: set_awg_waveform_def bind_res_Inr_iff)
  moreover from this have "2 \<le> length ps" using traverse_Inr_length [of py_float vs ps] by simp
  ultimately show ?thesis by blast
qed

lemma set_awg_output_Inr:
  "set_awg_output args w = Inr w' \<Longrightarrow>
   \<exists>b. (b \<longrightarrow> awg_points w \<noteq> []) \<and>
     w' = w\<lparr>awg_output := b, stimulus_started_ms := (if b then Some (clock_ms w) else None)\<rparr>"
proof -
  assume "set_awg_output args w = Inr w'"
  then obtain b where "arg_bool args = Inr b" "b \<longrightarrow> awg_points w \<noteq> []"
    "w' = w\<lparr>awg_output := b, stimulus_started_ms := (if b then Some (clock_ms w) else None)\<rparr>"
    unfolding set_awg_output_def bind_res_Inr_iff require_simps by blast
  then show ?thesis by blast
qed

lemma apply_action_kind:
  "apply_action a w = Inr w' \<Longrightarrow>
     action_kind a = ''switch.close'' \<and> close_routes (arguments a) w = Inr w' \<or>
     action_kind a = ''switch.open'' \<and> open_routes (arguments a) w = Inr w' \<or>
     action_kind a = ''switch.open_all'' \<and> open_all (arguments a) w = Inr w' \<or>
     action_kind a = ''psu.configure'' \<and> configure_psu (arguments a) w = Inr w' \<or>
     action_kind a = ''psu.output'' \<and> set_psu_output (arguments a) w = Inr w' \<or>
     action_kind a = ''awg.waveform'' \<and> set_awg_waveform (arguments a) w = Inr w' \<or>
     action_kind a = ''awg.output'' \<and> set_awg_output (arguments a) w = Inr w'"
  by (simp add: apply_action_def Let_def split: if_splits)

text \<open>What an accepted action can do, by kind.\<close>

lemma apply_action_cases:
  assumes "apply_action a w = Inr w'"
  obtains (close) rs where "action_kind a = ''switch.close''" "\<not> psu_output w" "\<not> awg_output w"
      "w' = w\<lparr>closed_routes := closed_routes w \<union> set rs\<rparr>"
  | (opened) rs where "action_kind a = ''switch.open''" "w' = w\<lparr>closed_routes := closed_routes w - set rs\<rparr>"
  | (open_all) "action_kind a = ''switch.open_all''" "w' = w\<lparr>closed_routes := {}\<rparr>"
  | (psu_configure) v where "action_kind a = ''psu.configure''" "0 \<le> v" "v \<le> 6"
      "w' = w\<lparr>psu_voltage_v := Fin v\<rparr>"
  | (psu_output) b where "action_kind a = ''psu.output''" "b \<Longrightarrow> \<not> pf_le (psu_voltage_v w) (Fin 0)"
      "w' = w\<lparr>psu_output := b\<rparr>"
  | (awg_waveform) n ps amp where "action_kind a = ''awg.waveform''" "n \<noteq> []" "2 \<le> length ps"
      "w' = w\<lparr>awg_waveform_name := Some n, awg_points := ps, awg_amplitude_vpp := amp\<rparr>"
  | (awg_output) b where "action_kind a = ''awg.output''" "b \<Longrightarrow> awg_points w \<noteq> []"
      "w' = w\<lparr>awg_output := b, stimulus_started_ms := (if b then Some (clock_ms w) else None)\<rparr>"
  using apply_action_kind [OF assms]
proof (elim disjE conjE)
  assume k: "action_kind a = ''switch.close''" and h: "close_routes (arguments a) w = Inr w'"
  show thesis using close_routes_Inr [OF h] close [OF k] by blast
next
  assume k: "action_kind a = ''switch.open''" and h: "open_routes (arguments a) w = Inr w'"
  show thesis using open_routes_Inr [OF h] opened [OF k] by blast
next
  assume k: "action_kind a = ''switch.open_all''" and h: "open_all (arguments a) w = Inr w'"
  show thesis using open_all_Inr [OF h] open_all [OF k] by blast
next
  assume k: "action_kind a = ''psu.configure''" and h: "configure_psu (arguments a) w = Inr w'"
  show thesis using configure_psu_Inr [OF h] psu_configure [OF k] by blast
next
  assume k: "action_kind a = ''psu.output''" and h: "set_psu_output (arguments a) w = Inr w'"
  show thesis using set_psu_output_Inr [OF h] psu_output [OF k] by blast
next
  assume k: "action_kind a = ''awg.waveform''" and h: "set_awg_waveform (arguments a) w = Inr w'"
  show thesis using set_awg_waveform_Inr [OF h] awg_waveform [OF k] by blast
next
  assume k: "action_kind a = ''awg.output''" and h: "set_awg_output (arguments a) w = Inr w'"
  show thesis using set_awg_output_Inr [OF h] awg_output [OF k] by blast
qed

lemma world_inv_start: "world_inv sp (new_world sp)"
  by (auto simp: world_inv_def new_world_def)

lemma world_inv_act: "world_inv sp w \<Longrightarrow> apply_action a w = Inr w' \<Longrightarrow> world_inv sp w'"
  by (erule apply_action_cases) (auto simp: world_inv_def)

lemma world_inv_tick: "world_inv sp w \<Longrightarrow> advance_ms n w = Inr w' \<Longrightarrow> world_inv sp w'"
  by (auto simp: world_inv_def advance_ms_def split: if_splits)

lemma world_inv_reopen: "world_inv sp w \<Longrightarrow> world_inv sp (note_session_reopen role w)"
  by (auto simp: world_inv_def note_session_reopen_def)

lemma world_run_inv: "world_run sp w \<Longrightarrow> world_inv sp w"
  by (induction rule: world_run.induct)
    (blast intro: world_inv_start world_inv_act world_inv_tick world_inv_reopen)+

lemma require_ready_iff:
  "require_ready sp w = Inr u \<longleftrightarrow>
     required_routes sp \<subseteq> closed_routes w \<and> psu_output w \<and> awg_output w \<and> awg_points w \<noteq> [] \<and>
     (\<exists>t. stimulus_started_ms w = Some t \<and> t + settle_ms sp \<le> clock_ms w)"
  by (auto simp: require_ready_def res_simps split: option.splits)

section \<open>Noise\<close>

lemma hex_foldl_bounds:
  assumes "\<forall>c \<in> set cs. 0 \<le> hex_value c \<and> hex_value c \<le> 15" and "0 \<le> n"
  shows "0 \<le> foldl (\<lambda>n c. 16 * n + hex_value c) n cs \<and>
         foldl (\<lambda>n c. 16 * n + hex_value c) n cs < (n + 1) * 16 ^ length cs"
  using assms
proof (induction cs arbitrary: n)
  case (Cons c cs)
  let ?n = "16 * n + hex_value c"
  have le: "?n + 1 \<le> (n + 1) * 16" and n: "0 \<le> ?n" using Cons.prems by simp_all
  have "foldl (\<lambda>n c. 16 * n + hex_value c) ?n cs < (?n + 1) * 16 ^ length cs"
    using Cons.IH [of ?n] Cons.prems n by simp
  also have "\<dots> \<le> (n + 1) * 16 * 16 ^ length cs" using le by (rule mult_right_mono) simp
  finally have "foldl (\<lambda>n c. 16 * n + hex_value c) ?n cs < (n + 1) * 16 ^ length (c # cs)"
    by (simp add: algebra_simps)
  then show ?case using Cons.IH [of ?n] Cons.prems n by simp
qed simp

lemma hex_chars: "c \<in> set ''0123456789abcdef'' \<Longrightarrow> 0 \<le> hex_value c \<and> hex_value c \<le> 15"
  by (auto simp: hex_value_def code_of_def)

lemma noise_raw_bounds:
  assumes "is_digest (JStr d) id"
  shows "0 \<le> foldl (\<lambda>n c. 16 * n + hex_value c) 0 (take 16 d)"
    and "foldl (\<lambda>n c. 16 * n + hex_value c) 0 (take 16 d) \<le> 2 ^ 64 - 1"
proof -
  have d: "length d = 64" "\<forall>c \<in> set d. c \<in> set ''0123456789abcdef''"
    using assms by (auto simp: is_digest_def list_all_iff)
  then have "\<forall>c \<in> set (take 16 d). 0 \<le> hex_value c \<and> hex_value c \<le> 15"
    using hex_chars set_take_subset [of 16 d] by blast
  from hex_foldl_bounds [OF this, of 0] d(1)
  show "0 \<le> foldl (\<lambda>n c. 16 * n + hex_value c) 0 (take 16 d)"
    "foldl (\<lambda>n c. 16 * n + hex_value c) 0 (take 16 d) \<le> 2 ^ 64 - 1" by simp_all
qed

lemma noise_bounds:
  assumes "\<forall>s. is_digest (JStr (sha256 rt s)) id" and "0 \<le> a" and "fl a = a"
  shows "- a \<le> noise rt sp ch i a" and "noise rt sp ch i a \<le> a"
proof -
  let ?m = "show_int (seed sp) @ '':'' @ ch @ '':'' @ show_int (int i)"
  let ?raw = "foldl (\<lambda>n c. 16 * n + hex_value c) 0 (take 16 (sha256 rt ?m))"
  let ?unit = "fdiv (of_int ?raw) (2 ^ 64 - 1)"
  have raw: "0 \<le> ?raw" "?raw \<le> 2 ^ 64 - 1" using noise_raw_bounds assms(1) by blast+
  then have "(of_int ?raw :: rat) \<le> of_int (2 ^ 64 - 1)" by (simp only: of_int_le_iff)
  then have u: "0 \<le> ?unit" "?unit \<le> 1" using raw fdiv_unit [of "of_int ?raw" "2 ^ 64 - 1"] by simp_all
  have "0 \<le> fmul 2 ?unit" "fmul 2 ?unit \<le> 2"
    using u fl.rnd_nonneg [of "2 * ?unit"] fl.rnd_le_int [of 2 "2 * ?unit"] by (simp_all add: fmul_def)
  then have s: "- 1 \<le> fsub (fmul 2 ?unit) 1" "fsub (fmul 2 ?unit) 1 \<le> 1"
    using fl.rnd_ge_int [of "- 1" "fmul 2 ?unit - 1"] fl.rnd_le_1 [of "fmul 2 ?unit - 1"]
    by (simp_all add: fsub_def)
  have "fl (- a) = - a" using assms(3) by (simp add: fl_neg)
  moreover have "fl (- a) \<le> fl (fsub (fmul 2 ?unit) 1 * a)" "fl (fsub (fmul 2 ?unit) 1 * a) \<le> fl a"
    using s mult_right_mono [OF s(1) assms(2)] mult_right_mono [OF s(2) assms(2)]
    by (auto intro!: fl_mono)
  ultimately show "- a \<le> noise rt sp ch i a" "noise rt sp ch i a \<le> a"
    using assms(2,3) by (simp_all add: noise_def Let_def fmul_def)
qed

lemma to_float_Fin: "to_float q = Fin x \<Longrightarrow> x = fl q"
  by (auto simp: to_float_def Let_def split: if_splits)

lemma noisy_nth:
  "i < length (awg_points w) \<Longrightarrow>
   noisy rt sp ch a w ! i = pf_add (ideal_samples sp w ! i) (Fin (noise rt sp ch i a))"
  by (simp add: noisy_def ideal_samples_def nth_enumerate_eq)

section \<open>A concrete world\<close>

definition act_routes :: SemanticAction where
  "act_routes = \<lparr>action_kind = ''switch.close'', arguments = [(''routes'', JList [JStr ''1101'', JStr ''1102''])]\<rparr>"
definition act_voltage :: SemanticAction where
  "act_voltage = \<lparr>action_kind = ''psu.configure'', arguments = [(''voltage_v'', JInt 5)]\<rparr>"
definition act_power :: "bool \<Rightarrow> SemanticAction" where
  "act_power b = \<lparr>action_kind = ''psu.output'', arguments = [(''enabled'', JBool b)]\<rparr>"
definition act_waveform :: SemanticAction where
  "act_waveform = \<lparr>action_kind = ''awg.waveform'', arguments =
     [(''name'', JStr ''W''), (''points'', JList [JInt 0, JInt 1]), (''amplitude_vpp'', JInt 1)]\<rparr>"
definition act_stimulus :: "bool \<Rightarrow> SemanticAction" where
  "act_stimulus b = \<lparr>action_kind = ''awg.output'', arguments = [(''enabled'', JBool b)]\<rparr>"

fun apply_all :: "SemanticAction list \<Rightarrow> DUTWorld \<Rightarrow> world_error + DUTWorld" where
  "apply_all [] w = Inr w"
| "apply_all (a # as) w = bind_res (apply_action a w) (apply_all as)"

lemma world_run_all: "world_run sp w \<Longrightarrow> apply_all as w = Inr w' \<Longrightarrow> world_run sp w'"
  by (induction as arbitrary: w) (auto simp: bind_res_Inr_iff intro: world_run.act)

definition example_rt :: runtime where
  "example_rt = \<lparr>float_repr = (\<lambda>_. ''0.0''), sha256 = (\<lambda>s. replicate 64 (CHR ''1''))\<rparr>"

definition example_world :: DUTWorld where
  "example_world =
     \<lparr>clock_ms = 300, closed_routes = {''1101'', ''1102''}, psu_voltage_v = Fin 5, psu_output = True,
      awg_waveform_name = Some ''W'', awg_points = [Fin 0, Fin 1], awg_amplitude_vpp = Fin 1,
      awg_output = True, stimulus_started_ms = Some 0, session_reopens = []\<rparr>"

lemmas action_simps = apply_action_def close_routes_def routes_of_def route_text_def is_digit_str_def
  is_decimal_def code_of_def configure_psu_def py_float_def set_psu_output_def arg_bool_def
  set_awg_waveform_def set_awg_output_def

lemma to_float_small [simp]: "to_float 0 = Fin 0" "to_float 1 = Fin 1" "to_float 5 = Fin 5"
  by (simp_all add: to_float_bounded)

lemma example_world_run: "world_run (nominal 1) example_world"
proof -
  have "apply_all [act_routes, act_voltage, act_power True, act_waveform, act_stimulus True]
      (new_world (nominal 1)) = Inr (example_world\<lparr>clock_ms := 0\<rparr>)"
    by (simp add: act_routes_def act_voltage_def act_power_def act_waveform_def act_stimulus_def
        action_simps new_world_def nominal_def example_world_def Let_def)
  then have "world_run (nominal 1) (example_world\<lparr>clock_ms := 0\<rparr>)"
    by (rule world_run_all [OF world_run.start])
  then show ?thesis
    by (rule world_run.tick [of _ _ 300]) (simp add: advance_ms_def example_world_def)
qed

lemma example_ready: "require_ready (nominal 1) example_world = Inr ()"
  by (simp add: require_ready_iff nominal_def example_world_def)

section \<open>Properties\<close>

text \<open>
  C32. In every reachable world the clock is not negative, the stimulus is marked as started exactly
  while the generator output is on and never in the future, the programmed supply voltage is a
  finite number between 0 and 6 volts, and the generator is only on with a waveform of at least two
  points (unless the world started with it on).
\<close>

theorem world_run_invariant:
  assumes "world_run sp w"
  shows "0 \<le> clock_ms w \<and> (awg_output w \<longleftrightarrow> stimulus_started_ms w \<noteq> None) \<and>
    (\<forall>t. stimulus_started_ms w = Some t \<longrightarrow> 0 \<le> t \<and> t \<le> clock_ms w) \<and>
    (\<exists>v. psu_voltage_v w = Fin v \<and> 0 \<le> v \<and> v \<le> 6) \<and>
    (awg_output w \<longrightarrow> initial_awg_output sp \<or> 2 \<le> length (awg_points w))"
  using world_run_inv [OF assms] by (auto simp: world_inv_def)

theorem world_run_invariant_witness:
  "\<exists>v. psu_voltage_v example_world = Fin v \<and> 0 \<le> v \<and> v \<le> 6"
  using world_run_invariant [OF example_world_run] by blast

text \<open>
  C31. No measurement without physics: in a reachable world the multimeter and the oscilloscope
  return samples exactly when all required routes are closed, the supply and the stimulus are on
  and the stimulus has been on for the settling time; then there is one sample per waveform point,
  at least two.
\<close>

theorem measurement_requires_ready:
  assumes "world_run sp w"
  shows "((\<exists>xs. dmm_samples rt sp w = Inr xs) \<longleftrightarrow>
      required_routes sp \<subseteq> closed_routes w \<and> psu_output w \<and> awg_output w \<and> awg_points w \<noteq> [] \<and>
      (\<exists>t. stimulus_started_ms w = Some t \<and> t + settle_ms sp \<le> clock_ms w)) \<and>
    ((\<exists>xs. scope_samples rt sp w = Inr xs) \<longleftrightarrow> (\<exists>xs. dmm_samples rt sp w = Inr xs)) \<and>
    (\<forall>xs. dmm_samples rt sp w = Inr xs \<longrightarrow> length xs = length (awg_points w) \<and> 2 \<le> length xs)"
  using world_run_inv [OF assms]
  by (auto simp: dmm_samples_def scope_samples_def bind_res_Inr_iff require_ready_iff noisy_def
      ideal_samples_def world_inv_def)

theorem measurement_requires_ready_witness:
  "\<exists>xs. dmm_samples example_rt (nominal 1) example_world = Inr xs"
  using measurement_requires_ready [OF example_world_run, of example_rt]
  by (simp add: nominal_def example_world_def)

text \<open>
  Hot switching is impossible: an accepted action adds a closed route only if it is a
  \<^verbatim>\<open>switch.close\<close> action and both sources are off.
\<close>

theorem routes_close_dead:
  assumes "apply_action a w = Inr w'" and "r \<in> closed_routes w'" and "r \<notin> closed_routes w"
  shows "action_kind a = ''switch.close'' \<and> \<not> psu_output w' \<and> \<not> awg_output w'"
  using assms by (cases rule: apply_action_cases [OF assms(1)]) auto

theorem routes_close_dead_witness:
  "\<exists>w'. apply_action act_routes (new_world (nominal 1)) = Inr w' \<and> \<not> psu_output w'"
proof -
  obtain w' where w: "apply_action act_routes (new_world (nominal 1)) = Inr w'"
    and r: "''1101'' \<in> closed_routes w'" "''1101'' \<notin> closed_routes (new_world (nominal 1))"
    by (simp add: act_routes_def action_simps new_world_def nominal_def)
  from routes_close_dead [OF w r] w show ?thesis by blast
qed

text \<open>
  Every measured sample is faithful to the device: it lies between the ideal value (offset plus
  gain times the waveform point) minus and plus the noise amplitude of the world, up to the
  rounding of the final addition.
\<close>

theorem sample_accuracy:
  assumes "dmm_samples rt sp w = Inr xs" and "\<forall>s. is_digest (JStr (sha256 rt s)) id"
    and "0 \<le> dmm_noise_v sp" and "fl (dmm_noise_v sp) = dmm_noise_v sp" and "i < length xs"
    and "ideal_samples sp w ! i = Fin v" and "xs ! i = Fin x"
  shows "fl (v - dmm_noise_v sp) \<le> x \<and> x \<le> fl (v + dmm_noise_v sp)"
proof -
  let ?n = "noise rt sp ''dmm'' i (dmm_noise_v sp)"
  have xs: "xs = noisy rt sp ''dmm'' (dmm_noise_v sp) w"
    using assms(1) by (auto simp: dmm_samples_def bind_res_Inr_iff)
  then have "i < length (awg_points w)" using assms(5) by (simp add: noisy_def ideal_samples_def)
  then have "to_float (v + ?n) = Fin x" using assms(6,7) by (simp add: xs noisy_nth)
  then have "x = fl (v + ?n)" by (rule to_float_Fin)
  moreover have "- dmm_noise_v sp \<le> ?n" "?n \<le> dmm_noise_v sp"
    using noise_bounds [OF assms(2,3,4)] by blast+
  ultimately show ?thesis by (auto intro!: fl_mono)
qed

theorem sample_accuracy_witness:
  "\<exists>xs x. dmm_samples example_rt (nominal 1) example_world = Inr xs \<and> xs ! 1 = Fin x \<and>
     x \<le> fl (2 + fl (1 / 1000))"
proof -
  have nom: "dmm_noise_v (nominal 1) = fl (1 / 1000)" by (simp add: nominal_def)
  have xs: "dmm_samples example_rt (nominal 1) example_world =
      Inr (noisy example_rt (nominal 1) ''dmm'' (fl (1 / 1000)) example_world)"
    by (simp add: dmm_samples_def example_ready nom)
  have hex: "\<forall>s. is_digest (JStr (sha256 example_rt s)) id"
    by (simp add: example_rt_def is_digest_def list_all_iff)
  have ideal: "ideal_samples (nominal 1) example_world ! 1 = Fin 2"
    by (simp add: ideal_samples_def example_world_def nominal_def pf_mul_def to_float_bounded)
  let ?n = "noise example_rt (nominal 1) ''dmm'' 1 (fl (1 / 1000))"
  have "\<bar>?n\<bar> \<le> fl (1 / 1000)" "fl (1 / 1000) \<le> 1"
    using noise_bounds [OF hex, of "fl (1 / 1000)" "nominal 1" "''dmm''" 1] fl.rnd_nonneg [of "1 / 1000"]
      fl.rnd_le_1 [of "1 / 1000"] by (simp_all add: abs_le_iff)
  then have "to_float (2 + ?n) = Fin (fl (2 + ?n))" by (intro to_float_bounded) simp
  then obtain x where x: "noisy example_rt (nominal 1) ''dmm'' (fl (1 / 1000)) example_world ! 1 = Fin x"
    using ideal by (simp add: noisy_nth example_world_def)
  have "0 \<le> fl (1 / 1000)" by (rule fl.rnd_nonneg) simp
  with sample_accuracy [OF xs hex _ _ _ ideal x] xs x show ?thesis
    by (simp add: nom noisy_def ideal_samples_def example_world_def)
qed

end
