(* ===== verification/Evidence.thy ===== *)
theory Evidence
  imports Dut_World
begin

text \<open>
  The evidence journal of the PyVISA gateway, version 1
  (\<^verbatim>\<open>sources/pyvisa/pyvisa_dut_validation_v1/gateway/journal.py\<close>) and the partial-order constraints read
  off it (\<^verbatim>\<open>constraints/partial_order.py\<close>). The fields \<^verbatim>\<open>request_b64\<close> and \<^verbatim>\<open>response_b64\<close> are base64 text
  that every reader decodes; the model keeps the bytes. The dictionaries of the two snapshots are
  kept as the snapshots themselves, with the digest of their JSON text. The lemmas show that
  appending numbers the events consecutively, what a passed constraint says about the
  events of the run, and that the verdicts do not depend on the order in which events are listed.
\<close>

section \<open>Journal\<close>

record EvidenceEvent =
  e_run_id :: string
  e_world_id :: string
  e_sequence :: int
  monotonic_ns :: int
  operation :: string
  session_digest :: "string option"
  resource :: "string option"
  role :: "string option"
  request :: "string option"
  response :: "string option"
  request_sha256 :: string
  response_sha256 :: string
  request_bytes :: int
  response_bytes :: int
  state_before :: WorldSnapshot
  state_after :: WorldSnapshot
  state_before_sha256 :: string
  state_after_sha256 :: string
  e_outcome :: string
  error_code :: "string option"
  cleanup_source :: "string option"
  source_sequence :: "int option"

record EvidenceJournal =
  j_run_id :: string
  j_world_id :: string
  j_events :: "EvidenceEvent list"

definition snapshot_json :: "WorldSnapshot \<Rightarrow> string json" where
  \<comment> \<open>\<^verbatim>\<open>asdict(snapshot)\<close>\<close>
  "snapshot_json s = JObj
     [(''clock_ms'', JInt (snap_clock_ms s)),
      (''closed_routes'', JList (map JStr (snap_closed_routes s))),
      (''psu_voltage_v'', JFloat (snap_psu_voltage_v s)),
      (''psu_output'', JBool (snap_psu_output s)),
      (''awg_waveform_name'', opt_json JStr (snap_awg_waveform_name s)),
      (''awg_points'', JList (map JFloat (snap_awg_points s))),
      (''awg_amplitude_vpp'', JFloat (snap_awg_amplitude_vpp s)),
      (''awg_output'', JBool (snap_awg_output s)),
      (''stimulus_started_ms'', opt_json JInt (snap_stimulus_started_ms s)),
      (''safe'', JBool (snap_safe s))]"

definition state_digest :: "runtime \<Rightarrow> WorldSnapshot \<Rightarrow> string" where
  "state_digest rt s = sha256 rt (dumps (float_repr rt) (snapshot_json s))"

record append_args =
  a_operation :: string
  a_state_before :: WorldSnapshot
  a_state_after :: WorldSnapshot
  a_session :: "string option"
  a_resource :: "string option"
  a_role :: "string option"
  a_request :: "string option"
  a_response :: "string option"
  a_outcome :: string
  a_error_code :: "string option"
  a_cleanup_source :: "string option"

definition or_empty :: "string option \<Rightarrow> string" where
  "or_empty x = (case x of None \<Rightarrow> [] | Some b \<Rightarrow> b)"

definition evidence_append :: "runtime \<Rightarrow> int \<Rightarrow> append_args \<Rightarrow> EvidenceJournal \<Rightarrow> EvidenceJournal" where
  "evidence_append rt now a j =
     j\<lparr>j_events := j_events j @
       [\<lparr>e_run_id = j_run_id j, e_world_id = j_world_id j,
         e_sequence = int (length (j_events j)) + 1, monotonic_ns = now,
         operation = a_operation a, session_digest = map_option (sha256 rt) (a_session a),
         resource = a_resource a, role = a_role a, request = a_request a, response = a_response a,
         request_sha256 = sha256 rt (or_empty (a_request a)),
         response_sha256 = sha256 rt (or_empty (a_response a)),
         request_bytes = int (length (or_empty (a_request a))),
         response_bytes = int (length (or_empty (a_response a))),
         state_before = a_state_before a, state_after = a_state_after a,
         state_before_sha256 = state_digest rt (a_state_before a),
         state_after_sha256 = state_digest rt (a_state_after a),
         e_outcome = a_outcome a, error_code = a_error_code a,
         cleanup_source = a_cleanup_source a, source_sequence = None\<rparr>]\<rparr>"

definition new_evidence :: "string \<Rightarrow> string \<Rightarrow> EvidenceJournal" where
  "new_evidence rid wid = \<lparr>j_run_id = rid, j_world_id = wid, j_events = []\<rparr>"

definition sequences_ok :: "EvidenceEvent list \<Rightarrow> bool" where
  \<comment> \<open>the events are numbered 1, 2, 3, ...\<close>
  "sequences_ok es \<longleftrightarrow> map e_sequence es = map (\<lambda>i. int i + 1) [0..<length es]"

lemma sequences_ok_append:
  "sequences_ok (j_events j) \<Longrightarrow> sequences_ok (j_events (evidence_append rt now a j))"
  by (simp add: sequences_ok_def evidence_append_def)

section \<open>Semantic events\<close>

record SemanticEvent =
  s_sequence :: int
  s_kind :: string
  s_role :: "string option"
  s_session_digest :: "string option"
  s_cleanup_source :: "string option"

record ConstraintResult =
  c_name :: string
  passed :: bool
  c_message :: string
  evidence_sequences :: "int list"

definition starts_with_any :: "string list \<Rightarrow> string \<Rightarrow> bool" where
  "starts_with_any pats s = list_ex (\<lambda>p. starts_with p s) pats"

definition command_kind ::
  "string option \<Rightarrow> string \<Rightarrow> WorldSnapshot \<Rightarrow> string option \<Rightarrow> string option" where
  "command_kind rl command after resp =
     (let up = upper command in
      if up = ''*IDN?'' then Some ''device.identified''
      else if rl = Some ''switch'' \<and> starts_with ''ROUT:CLOS '' up then Some ''switch.routes_closed''
      else if rl = Some ''switch'' \<and> starts_with ''ROUT:OPEN'' up then Some ''switch.routes_opened''
      else if rl = Some ''psu'' \<and> starts_with ''VOLT '' up then Some ''psu.configured''
      else if rl = Some ''psu'' \<and> starts_with ''OUTP '' up then
        Some (if snap_psu_output after then ''psu.output_on'' else ''psu.output_off'')
      else if rl = Some ''awg'' \<and> starts_with ''DATA:ARB '' up then Some ''awg.waveform_uploaded''
      else if rl = Some ''awg'' \<and> starts_with ''FUNC:ARB '' up then Some ''awg.waveform_selected''
      else if rl = Some ''awg'' \<and> starts_with_any [''VOLT '', ''VOLT:OFFS ''] up then Some ''awg.configured''
      else if rl = Some ''awg'' \<and> starts_with ''OUTP '' up then
        Some (if snap_awg_output after then ''awg.output_on'' else ''awg.output_off'')
      else if rl = Some ''awg'' \<and> up \<in> {''STAT:OPER:COND?'', ''*OPC?''} \<and>
              (case resp of None \<Rightarrow> False | Some r \<Rightarrow> bytes_strip r = ''1'') then Some ''dut.settled''
      else if rl = Some ''dmm'' \<and> up \<in> {''READ?'', ''FETC?''} then Some ''dmm.acquired''
      else if rl = Some ''dmm'' \<and>
              starts_with_any [''CONF:VOLT:DC'', ''VOLT:DC:RANG '', ''SAMP:COUN '', ''INIT''] up
        then Some ''dmm.configured''
      else if rl = Some ''scope'' \<and> up = ''CURVE?'' then Some ''scope.acquired''
      else if rl = Some ''scope'' \<and>
              starts_with_any [''DATA:SOURCE '', ''DATA:ENC '', ''DATA:WIDTH ''] up
        then Some ''scope.configured''
      else None)"

definition event_kind :: "EvidenceEvent \<Rightarrow> string option" where
  "event_kind e =
     (if operation e = ''open_resource'' then Some ''resource.opened''
      else if operation e = ''close'' then Some ''resource.closed''
      else case request e of
        Some r \<Rightarrow>
          if operation e = ''write'' \<and> e_outcome e = ''ok''
          then command_kind (role e) (strip (ascii_replace r)) (state_after e) (response e)
          else None
      | None \<Rightarrow> None)"

definition semantic_event :: "EvidenceEvent \<Rightarrow> SemanticEvent option" where
  "semantic_event e =
     map_option (\<lambda>k. \<lparr>s_sequence = e_sequence e, s_kind = k, s_role = role e,
       s_session_digest = session_digest e, s_cleanup_source = cleanup_source e\<rparr>) (event_kind e)"

definition normalize_events :: "EvidenceEvent list \<Rightarrow> SemanticEvent list" where
  "normalize_events records = List.map_filter semantic_event records"

section \<open>Constraints\<close>

definition quoted_list :: "string list \<Rightarrow> string" where
  \<comment> \<open>the text of \<^verbatim>\<open>sorted(kinds)\<close>\<close>
  "quoted_list ks = ''['' @ join '', '' (map (\<lambda>k. [CHR 0x27] @ k @ [CHR 0x27]) (sort ks)) @ '']''"

definition before_constraint ::
  "SemanticEvent list \<Rightarrow> string \<Rightarrow> string list \<Rightarrow> string list \<Rightarrow> bool \<Rightarrow> bool \<Rightarrow> ConstraintResult" where
  \<comment> \<open>\<^verbatim>\<open>_before\<close>\<close>
  "before_constraint events name before_kinds after_kinds require_all_before require_all_after =
     (let before = filter (\<lambda>i. s_kind i \<in> set before_kinds) events;
          after = filter (\<lambda>i. s_kind i \<in> set after_kinds) events;
          complete = (before \<noteq> [] \<and> after \<noteq> [] \<and>
            (require_all_before \<longrightarrow> s_kind ` set before = set before_kinds) \<and>
            (require_all_after \<longrightarrow> s_kind ` set after = set after_kinds));
          ok = (complete \<and> Max (s_sequence ` set before) < Min (s_sequence ` set after))
      in \<lparr>c_name = name, passed = ok,
          c_message = quoted_list before_kinds @ '' must precede '' @ quoted_list after_kinds,
          evidence_sequences = map s_sequence
            ((if before = [] then [] else [last before]) @ take 1 after)\<rparr>)"

definition ROLES :: "string list" where
  "ROLES = [''switch'', ''psu'', ''awg'', ''dmm'', ''scope'']"

definition NEUTRAL_KINDS :: "string list" where
  "NEUTRAL_KINDS = [''resource.opened'', ''device.identified'', ''resource.closed'']"

definition identified_roles :: "SemanticEvent list \<Rightarrow> (string, int) dict" where
  \<comment> \<open>the comprehension keeps the last identification of each role\<close>
  "identified_roles events =
     foldl (\<lambda>d i. case s_role i of
         Some r \<Rightarrow> if s_kind i = ''device.identified'' \<and> r \<in> set ROLES
                  then AList.update r (s_sequence i) d else d
       | None \<Rightarrow> d) [] events"

definition identify_violations :: "(string, int) dict \<Rightarrow> SemanticEvent list \<Rightarrow> int list" where
  "identify_violations identified events =
     map s_sequence (filter (\<lambda>i. case s_role i of
         Some r \<Rightarrow> r \<in> set ROLES \<and> s_kind i \<notin> set NEUTRAL_KINDS \<and>
           (case map_of identified r of None \<Rightarrow> True | Some n \<Rightarrow> s_sequence i \<le> n)
       | None \<Rightarrow> False) events)"

definition identify_constraint :: "SemanticEvent list \<Rightarrow> ConstraintResult" where
  \<comment> \<open>\<^verbatim>\<open>_all_roles_identified_before_specific_actions\<close>\<close>
  "identify_constraint events =
     (let identified = identified_roles events; violations = identify_violations identified events in
      \<lparr>c_name = ''identify_before_device_commands'',
       passed = (set (dict_keys identified) = set ROLES \<and> violations = []),
       c_message = ''every target must be identified before device-specific actions'',
       evidence_sequences = sort (map snd identified) @ violations\<rparr>)"

definition opened_sessions :: "SemanticEvent list \<Rightarrow> string set" where
  "opened_sessions events =
     set (List.map_filter (\<lambda>i. if s_kind i = ''resource.opened'' then s_session_digest i else None) events)"

definition actively_closed :: "SemanticEvent list \<Rightarrow> string set" where
  "actively_closed events =
     set (List.map_filter (\<lambda>i. if s_kind i = ''resource.closed'' \<and> s_cleanup_source i = Some ''candidate''
       then s_session_digest i else None) events)"

definition active_close_all :: "SemanticEvent list \<Rightarrow> ConstraintResult" where
  "active_close_all events =
     \<lparr>c_name = ''active_close_all'',
      passed = (opened_sessions events \<noteq> {} \<and> opened_sessions events = actively_closed events),
      c_message = ''every opened session must be explicitly closed by the candidate'',
      evidence_sequences = map s_sequence
        (filter (\<lambda>i. s_kind i \<in> {''resource.opened'', ''resource.closed''}) events)\<rparr>"

definition evaluate_constraints :: "SemanticEvent list \<Rightarrow> bool \<Rightarrow> ConstraintResult list" where
  "evaluate_constraints events final_state_safe =
     (let ordered = sort_key s_sequence events in
      [identify_constraint ordered,
       before_constraint ordered ''routes_before_sources'' [''switch.routes_closed'']
         [''psu.output_on'', ''awg.output_on''] False False,
       before_constraint ordered ''psu_configured_before_output'' [''psu.configured'']
         [''psu.output_on''] False False,
       before_constraint ordered ''waveform_ready_before_awg_output''
         [''awg.waveform_uploaded'', ''awg.waveform_selected'', ''awg.configured'']
         [''awg.output_on''] True False,
       before_constraint ordered ''settled_before_acquisition'' [''dut.settled'']
         [''dmm.acquired'', ''scope.acquired''] False True,
       before_constraint ordered ''awg_off_before_psu_off'' [''awg.output_off'']
         [''psu.output_off''] False False,
       before_constraint ordered ''sources_off_before_routes_open'' [''awg.output_off'', ''psu.output_off'']
         [''switch.routes_opened''] True False,
       active_close_all ordered,
       \<lparr>c_name = ''safe_final_state'', passed = final_state_safe,
        c_message = (if final_state_safe then ''hidden final state is safe''
                     else ''one or more outputs/routes remain unsafe''),
        evidence_sequences = []\<rparr>])"

section \<open>What the verdicts mean\<close>

definition occurs :: "SemanticEvent list \<Rightarrow> string \<Rightarrow> bool" where
  "occurs es k \<longleftrightarrow> (\<exists>i \<in> set es. s_kind i = k)"

definition precedes :: "SemanticEvent list \<Rightarrow> string list \<Rightarrow> string list \<Rightarrow> bool" where
  \<comment> \<open>every event of the first kinds happens before every event of the second kinds\<close>
  "precedes es ks ks' \<longleftrightarrow>
     (\<forall>b \<in> set es. \<forall>a \<in> set es. s_kind b \<in> set ks \<longrightarrow> s_kind a \<in> set ks' \<longrightarrow> s_sequence b < s_sequence a)"

lemma Max_less_Min_iff:
  "finite A \<Longrightarrow> finite B \<Longrightarrow> A \<noteq> {} \<Longrightarrow> B \<noteq> {} \<Longrightarrow>
   Max A < Min B \<longleftrightarrow> (\<forall>a \<in> A. \<forall>b \<in> B. a < (b :: int))"
  by (auto simp: Max_less_iff Min_gr_iff)

lemma before_passed_iff:
  "passed (before_constraint es name ks ks' ra rb) \<longleftrightarrow>
     (\<exists>k \<in> set ks. occurs es k) \<and> (\<exists>k \<in> set ks'. occurs es k) \<and>
     (ra \<longrightarrow> (\<forall>k \<in> set ks. occurs es k)) \<and> (rb \<longrightarrow> (\<forall>k \<in> set ks'. occurs es k)) \<and>
     precedes es ks ks'"
proof -
  let ?b = "filter (\<lambda>i. s_kind i \<in> set ks) es" and ?a = "filter (\<lambda>i. s_kind i \<in> set ks') es"
  have ne: "?b \<noteq> [] \<longleftrightarrow> (\<exists>k \<in> set ks. occurs es k)" "?a \<noteq> [] \<longleftrightarrow> (\<exists>k \<in> set ks'. occurs es k)"
    by (auto simp: filter_empty_conv occurs_def)
  have all: "s_kind ` set ?b = set ks \<longleftrightarrow> (\<forall>k \<in> set ks. occurs es k)"
    "s_kind ` set ?a = set ks' \<longleftrightarrow> (\<forall>k \<in> set ks'. occurs es k)"
    by (force simp: occurs_def image_iff set_eq_iff)+
  have "Max (s_sequence ` set ?b) < Min (s_sequence ` set ?a) \<longleftrightarrow> precedes es ks ks'"
    if "?b \<noteq> []" "?a \<noteq> []"
    using that by (subst Max_less_Min_iff) (auto simp: precedes_def filter_empty_conv)
  then show ?thesis
    unfolding before_constraint_def Let_def using ne all by auto
qed

definition identifies :: "string \<Rightarrow> SemanticEvent \<Rightarrow> bool" where
  "identifies r i \<longleftrightarrow> s_kind i = ''device.identified'' \<and> s_role i = Some r \<and> r \<in> set ROLES"

lemma identified_roles_snoc:
  "map_of (identified_roles (es @ [i])) r =
     (if identifies r i then Some (s_sequence i) else map_of (identified_roles es) r)"
  by (auto simp: identified_roles_def identifies_def update_conv' split: option.splits)

lemma identified_roles_Nil [simp]: "identified_roles [] = []"
  by (simp add: identified_roles_def)

lemma identified_roles_sorted:
  assumes "sorted (map s_sequence es)"
  shows "map_of (identified_roles es) r =
    (if \<exists>i \<in> set es. identifies r i then Some (Max (s_sequence ` {i \<in> set es. identifies r i})) else None)"
  using assms
proof (induction es rule: rev_induct)
  case Nil
  show ?case by simp
next
  case (snoc i es)
  have le: "\<forall>x \<in> set es. s_sequence x \<le> s_sequence i"
    using snoc.prems by (auto simp: sorted_append)
  show ?case
  proof (cases "identifies r i")
    case True
    have "Max (s_sequence ` {x \<in> set (es @ [i]). identifies r x}) = s_sequence i"
      using True le by (intro Max_eqI) auto
    with True show ?thesis by (auto simp: identified_roles_snoc)
  next
    case False
    then have "{x \<in> set (es @ [i]). identifies r x} = {x \<in> set es. identifies r x}" by auto
    with False snoc show ?thesis by (auto simp: identified_roles_snoc sorted_append)
  qed
qed

definition specific :: "string \<Rightarrow> SemanticEvent \<Rightarrow> bool" where
  \<comment> \<open>a device-specific action of a role\<close>
  "specific r i \<longleftrightarrow> s_role i = Some r \<and> s_kind i \<notin> set NEUTRAL_KINDS"

lemma dict_keys_lookup: "k \<in> set (dict_keys d) \<longleftrightarrow> map_of d k \<noteq> None"
  by (simp add: dict_keys_def map_of_eq_None_iff)

lemma identified_keys: "set (dict_keys (identified_roles es)) \<subseteq> set ROLES"
proof -
  have "map_of (identified_roles es) r \<noteq> None \<Longrightarrow> r \<in> set ROLES" for r
    by (induction es rule: rev_induct)
      (auto simp: identified_roles_snoc identifies_def split: if_splits)
  then show ?thesis by (auto simp: dict_keys_lookup)
qed

lemma identify_passed_iff:
  assumes "sorted (map s_sequence es)"
  shows "passed (identify_constraint es) \<longleftrightarrow>
    (\<forall>r \<in> set ROLES. (\<exists>i \<in> set es. identifies r i) \<and>
       (\<forall>i \<in> set es. \<forall>j \<in> set es. identifies r i \<longrightarrow> specific r j \<longrightarrow> s_sequence i < s_sequence j))"
    (is "?lhs \<longleftrightarrow> ?rhs")
proof -
  let ?d = "identified_roles es"
  note look = identified_roles_sorted [OF assms]
  have "r \<in> set (dict_keys ?d) \<longleftrightarrow> (\<exists>i \<in> set es. identifies r i)" for r
    by (simp add: dict_keys_lookup look)
  then have keys: "set (dict_keys ?d) = set ROLES \<longleftrightarrow> (\<forall>r \<in> set ROLES. \<exists>i \<in> set es. identifies r i)"
    using identified_keys [of es] by blast
  have max: "Max (s_sequence ` {i \<in> set es. identifies r i}) < n \<longleftrightarrow>
      (\<forall>i \<in> set es. identifies r i \<longrightarrow> s_sequence i < n)" if "\<exists>i \<in> set es. identifies r i" for r n
    using that by (subst Max_less_iff) auto
  have point: "(\<exists>n. map_of ?d r = Some n \<and> n < m) \<longleftrightarrow> (\<exists>i \<in> set es. identifies r i) \<and>
      (\<forall>i \<in> set es. identifies r i \<longrightarrow> s_sequence i < m)" for r m
    using max by (auto simp: look)
  have violates: "(case s_role i of
         Some r \<Rightarrow> r \<in> set ROLES \<and> s_kind i \<notin> set NEUTRAL_KINDS \<and>
           (case map_of d r of None \<Rightarrow> True | Some n \<Rightarrow> s_sequence i \<le> n)
       | None \<Rightarrow> False) \<longleftrightarrow>
      (\<exists>r \<in> set ROLES. specific r i \<and> \<not> (\<exists>n. map_of d r = Some n \<and> n < s_sequence i))" for i d
    by (cases "s_role i") (auto simp: specific_def not_less split: option.splits)
  have "identify_violations ?d es = [] \<longleftrightarrow>
      (\<forall>j \<in> set es. \<forall>r \<in> set ROLES. specific r j \<longrightarrow> (\<exists>n. map_of ?d r = Some n \<and> n < s_sequence j))"
    unfolding identify_violations_def map_is_Nil_conv filter_empty_conv violates by blast
  also have "\<dots> \<longleftrightarrow> (\<forall>j \<in> set es. \<forall>r \<in> set ROLES. specific r j \<longrightarrow> (\<exists>i \<in> set es. identifies r i) \<and>
      (\<forall>i \<in> set es. identifies r i \<longrightarrow> s_sequence i < s_sequence j))"
    unfolding point by (rule refl)
  finally show ?thesis
    unfolding identify_constraint_def Let_def using keys by auto
qed

lemma map_filter_member: "y \<in> set (List.map_filter f xs) \<longleftrightarrow> (\<exists>x \<in> set xs. f x = Some y)"
  by (force simp: List.map_filter_def)

lemma opened_sessions_iff:
  "d \<in> opened_sessions es \<longleftrightarrow>
     (\<exists>i \<in> set es. s_kind i = ''resource.opened'' \<and> s_session_digest i = Some d)"
  unfolding opened_sessions_def map_filter_member by (simp split: if_splits) blast

lemma actively_closed_iff:
  "d \<in> actively_closed es \<longleftrightarrow>
     (\<exists>i \<in> set es. s_kind i = ''resource.closed'' \<and> s_cleanup_source i = Some ''candidate'' \<and>
        s_session_digest i = Some d)"
  unfolding actively_closed_def map_filter_member by (simp split: if_splits) blast

definition identified_first :: "SemanticEvent list \<Rightarrow> bool" where
  \<comment> \<open>what the constraint is named for: every role was identified before its first specific command\<close>
  "identified_first es \<longleftrightarrow>
     (\<forall>r \<in> set ROLES. \<exists>i \<in> set es. identifies r i \<and> (\<forall>j \<in> set es. specific r j \<longrightarrow> s_sequence i < s_sequence j))"

definition identified_late :: "SemanticEvent list \<Rightarrow> bool" where
  \<comment> \<open>some role was identified again after, or with, a specific command of its own\<close>
  "identified_late es \<longleftrightarrow>
     (\<exists>r \<in> set ROLES. \<exists>i \<in> set es. \<exists>j \<in> set es. identifies r i \<and> specific r j \<and> s_sequence j \<le> s_sequence i)"

lemma identify_passed_first:
  assumes "sorted (map s_sequence es)"
  shows "passed (identify_constraint es) \<longleftrightarrow> identified_first es \<and> \<not> identified_late es"
  unfolding identify_passed_iff [OF assms] identified_first_def identified_late_def not_less [symmetric] by blast

definition lifecycle_ok :: "SemanticEvent list \<Rightarrow> bool \<Rightarrow> bool" where
  \<comment> \<open>the order of work the constraints stand for\<close>
  "lifecycle_ok es safe_end \<longleftrightarrow> identified_first es \<and>
     list_all (occurs es) [''switch.routes_closed'', ''psu.configured'', ''psu.output_on'',
       ''awg.waveform_uploaded'', ''awg.waveform_selected'', ''awg.configured'', ''awg.output_on'',
       ''dut.settled'', ''dmm.acquired'', ''scope.acquired'', ''awg.output_off'', ''psu.output_off'',
       ''switch.routes_opened''] \<and>
     precedes es [''switch.routes_closed''] [''psu.output_on'', ''awg.output_on''] \<and>
     precedes es [''psu.configured''] [''psu.output_on''] \<and>
     precedes es [''awg.waveform_uploaded'', ''awg.waveform_selected'', ''awg.configured''] [''awg.output_on''] \<and>
     precedes es [''dut.settled''] [''dmm.acquired'', ''scope.acquired''] \<and>
     precedes es [''awg.output_off''] [''psu.output_off''] \<and>
     precedes es [''awg.output_off'', ''psu.output_off''] [''switch.routes_opened''] \<and>
     opened_sessions es \<noteq> {} \<and> opened_sessions es = actively_closed es \<and> safe_end"

lemma sorted_set_facts:
  "occurs (sort_key s_sequence es) = occurs es"
  "precedes (sort_key s_sequence es) = precedes es"
  "opened_sessions (sort_key s_sequence es) = opened_sessions es"
  "actively_closed (sort_key s_sequence es) = actively_closed es"
  "identified_first (sort_key s_sequence es) = identified_first es"
  "identified_late (sort_key s_sequence es) = identified_late es"
  by (auto simp: identified_first_def identified_late_def occurs_def precedes_def opened_sessions_iff actively_closed_iff fun_eq_iff)

definition example_semantic :: "SemanticEvent list" where
  "example_semantic =
     map (\<lambda>(n, r, k). \<lparr>s_sequence = n, s_kind = k, s_role = Some r, s_session_digest = Some r,
            s_cleanup_source = (if k = ''resource.closed'' then Some ''candidate'' else None)\<rparr>)
       [(1, ''switch'', ''resource.opened''), (2, ''psu'', ''resource.opened''),
        (3, ''awg'', ''resource.opened''), (4, ''dmm'', ''resource.opened''), (5, ''scope'', ''resource.opened''),
        (6, ''switch'', ''device.identified''), (7, ''psu'', ''device.identified''),
        (8, ''awg'', ''device.identified''), (9, ''dmm'', ''device.identified''),
        (10, ''scope'', ''device.identified''), (11, ''switch'', ''switch.routes_closed''),
        (12, ''psu'', ''psu.configured''), (13, ''psu'', ''psu.output_on''),
        (14, ''awg'', ''awg.waveform_uploaded''), (15, ''awg'', ''awg.waveform_selected''),
        (16, ''awg'', ''awg.configured''), (17, ''awg'', ''awg.output_on''), (18, ''awg'', ''dut.settled''),
        (19, ''dmm'', ''dmm.acquired''), (20, ''scope'', ''scope.acquired''),
        (21, ''awg'', ''awg.output_off''), (22, ''psu'', ''psu.output_off''),
        (23, ''switch'', ''switch.routes_opened''), (24, ''switch'', ''resource.closed''),
        (25, ''psu'', ''resource.closed''), (26, ''awg'', ''resource.closed''),
        (27, ''dmm'', ''resource.closed''), (28, ''scope'', ''resource.closed'')]"

section \<open>Properties\<close>

text \<open>
  C19. What the nine verdicts mean, and where the first goes beyond its name. All of them pass exactly when
  the order of work is right - every role was identified before its first specific command, routes
  were closed before any source, the supply configured before its output, the waveform ready before
  the generator output, the device settled before both acquisitions, the sources switched off in
  order and before the routes were opened, every opened session was closed by the candidate, and
  the final state is safe - and no role was identified again after a specific command of its own: the
  code compares the last identification of a role with its commands, not the first.
\<close>

theorem constraints_meaning:
  "list_all passed (evaluate_constraints es safe_end) \<longleftrightarrow> lifecycle_ok es safe_end \<and> \<not> identified_late es"
proof -
  have "sorted (map s_sequence (sort_key s_sequence es))" by simp
  note id = identify_passed_first [OF this]
  have act: "passed (active_close_all xs) \<longleftrightarrow>
      opened_sessions xs \<noteq> {} \<and> opened_sessions xs = actively_closed xs" for xs
    by (simp add: active_close_all_def)
  show ?thesis
    unfolding evaluate_constraints_def Let_def lifecycle_ok_def list.pred_inject id
      before_passed_iff act sorted_set_facts
    by (simp, blast)
qed

text \<open>
  The verdicts depend only on the sequence numbers: listing the same semantic events in any
  order gives the same nine verdicts.
\<close>

theorem constraints_order_invariant:
  assumes "mset es = mset es'"
  shows "map passed (evaluate_constraints es safe_end) = map passed (evaluate_constraints es' safe_end)"
proof -
  have eq: "set es = set es'" using assms by (rule mset_eq_setD)
  have so: "sorted (map s_sequence (sort_key s_sequence xs))" for xs :: "SemanticEvent list" by simp
  have "passed (before_constraint (sort_key s_sequence es) n ks ks' a b) =
      passed (before_constraint (sort_key s_sequence es') n ks ks' a b)" for n ks ks' a b
    unfolding before_passed_iff sorted_set_facts by (simp add: occurs_def precedes_def eq)
  moreover have "passed (identify_constraint (sort_key s_sequence es)) =
      passed (identify_constraint (sort_key s_sequence es'))"
    unfolding identify_passed_iff [OF so] by (simp add: eq)
  moreover have "opened_sessions es = opened_sessions es'" "actively_closed es = actively_closed es'"
    by (auto simp: opened_sessions_iff actively_closed_iff eq)
  ultimately show ?thesis
    by (simp add: evaluate_constraints_def Let_def active_close_all_def sorted_set_facts)
qed

theorem constraints_order_invariant_witness:
  "map passed (evaluate_constraints (rev example_semantic) True) =
     map passed (evaluate_constraints example_semantic True)"
  by (rule constraints_order_invariant) simp

text \<open>
  Identification is judged by the last \<^verbatim>\<open>*IDN?\<close> of a role: an additional identification after the
  first specific command of that role makes the verdict fail, although the role was identified
  before.
\<close>

theorem late_identification_fails:
  assumes "i \<in> set es" "identifies r i" and "j \<in> set es" "specific r j" and "s_sequence j \<le> s_sequence i"
  shows "\<not> list_all passed (evaluate_constraints es safe_end)"
proof -
  have "sorted (map s_sequence (sort_key s_sequence es))" by simp
  moreover have "r \<in> set ROLES" using assms(2) by (simp add: identifies_def)
  ultimately have "\<not> passed (identify_constraint (sort_key s_sequence es))"
    using assms by (auto simp: identify_passed_iff not_less dest!: bspec [of _ _ r] bspec [of _ _ i] bspec [of _ _ j])
  then show ?thesis by (simp add: evaluate_constraints_def Let_def)
qed

theorem late_identification_fails_witness:
  "\<not> list_all passed (evaluate_constraints (example_semantic @
     [\<lparr>s_sequence = 29, s_kind = ''device.identified'', s_role = Some ''psu'',
       s_session_digest = Some ''psu'', s_cleanup_source = None\<rparr>]) True)"
proof (rule late_identification_fails [of _ _ "''psu''" "\<lparr>s_sequence = 12, s_kind = ''psu.configured'',
    s_role = Some ''psu'', s_session_digest = Some ''psu'', s_cleanup_source = None\<rparr>"])
  show "\<lparr>s_sequence = 29, s_kind = ''device.identified'', s_role = Some ''psu'',
       s_session_digest = Some ''psu'', s_cleanup_source = None\<rparr> \<in> set (example_semantic @
     [\<lparr>s_sequence = 29, s_kind = ''device.identified'', s_role = Some ''psu'',
       s_session_digest = Some ''psu'', s_cleanup_source = None\<rparr>])" by simp
qed (simp_all add: identifies_def specific_def ROLES_def NEUTRAL_KINDS_def example_semantic_def)

end
