(* ===== verification/Instruments.thy ===== *)
theory Instruments
  imports Evidence
begin

text \<open>
  The simulated instruments of the PyVISA evaluator, version 1
  (\<^verbatim>\<open>sources/pyvisa/pyvisa_dut_validation_v1/instruments.py\<close>): the command interpreter every instrument
  shares, the power supply, switch, generator, multimeter and oscilloscope over one DUT world, and
  the rack that dispatches on the resource. A command returns the new state together with its
  answer or exception, because a rejected command may have stored a value before it was rejected.
  The third-party resource manager is only asked for the list of its resources, an argument of
  \<open>new_rack\<close>.
\<close>

section \<open>Exceptions and command text\<close>

datatype instr_error =
    CommandError string
  | Rejected world_error
    \<comment> \<open>exceptions of the world and of the number conversions\<close>
  | Unhandled string
    \<comment> \<open>any other exception\<close>

type_synonym 'a reply = "instr_error + 'a"

definition argument_of :: "string \<Rightarrow> string reply" where
  \<comment> \<open>\<^verbatim>\<open>text.split(None, 1)[1]\<close>\<close>
  "argument_of text = (case second_word text of None \<Rightarrow> Inl (Unhandled ''IndexError'') | Some x \<Rightarrow> Inr x)"

definition to_int :: "string \<Rightarrow> int reply" where
  "to_int s = (case parse_int s of None \<Rightarrow> Inl (Rejected (ValueError (int_error s))) | Some n \<Rightarrow> Inr n)"

definition to_pyfloat :: "string \<Rightarrow> pyfloat reply" where
  "to_pyfloat s = (case parse_float s of None \<Rightarrow> Inl (Rejected (ValueError (float_error s))) | Some x \<Rightarrow> Inr x)"

definition parse_bool :: "string \<Rightarrow> bool reply" where
  "parse_bool value =
     (let normalized = upper (strip value) in
      if normalized \<in> {''1'', ''ON''} then Inr True
      else if normalized \<in> {''0'', ''OFF''} then Inr False
      else Inl (CommandError (''invalid boolean '' @ py_repr value)))"

definition route_char :: "char \<Rightarrow> bool" where
  "route_char c = (is_decimal c \<or> c = CHR '','' \<or> is_space c)"

fun search_routes :: "string \<Rightarrow> string option" where
  \<comment> \<open>the group of the first match of \<^verbatim>\<open>\(@([0-9,\s]+)\)\<close>\<close>
  "search_routes [] = None"
| "search_routes (c # cs) =
     (let body = takeWhile route_char (drop 1 cs) in
      if c = CHR ''('' \<and> take 1 cs = ''@'' \<and> body \<noteq> [] \<and> take 1 (dropWhile route_char (drop 1 cs)) = '')''
      then Some body else search_routes cs)"

definition parse_routes :: "string \<Rightarrow> string list reply" where
  "parse_routes text =
     (case search_routes text of
        None \<Rightarrow> Inl (CommandError ''route list must use (@channel,...) syntax'')
      | Some body \<Rightarrow>
          let routes = map strip (split_on (CHR '','') body) in
          if list_all is_digit_str routes then Inr routes
          else Inl (CommandError ''route values must be numeric''))"

definition resize :: "'a list \<Rightarrow> int \<Rightarrow> 'a list" where
  "resize values n =
     (if values = [] then [] else map (\<lambda>i. values ! (nat i mod length values)) [0..n - 1])"

definition newline :: string where "newline = [CHR 0x0A]"

definition undefined_header :: "string \<Rightarrow> instr_error" where
  "undefined_header text = CommandError (''undefined header: '' @ text)"

section \<open>The shared interpreter\<close>

record 'm instrument =
  identity :: string
  errors :: "(int \<times> string) list"
  model :: 'm

type_synonym 'm step = "'m \<Rightarrow> DUTWorld \<Rightarrow> 'm \<times> DUTWorld \<times> string option reply"

definition error_text :: "world_error \<Rightarrow> string" where
  \<comment> \<open>\<^verbatim>\<open>str(exc)\<close>\<close>
  "error_text e = (case e of ValueError m \<Rightarrow> m | WorldStateError m \<Rightarrow> m | KeyError m \<Rightarrow> py_repr m
     | TypeError m \<Rightarrow> m | OverflowError m \<Rightarrow> m)"

definition as_command_error :: "instr_error \<Rightarrow> string option" where
  \<comment> \<open>the message of the exceptions that \<^verbatim>\<open>exchange\<close> turns into a \<^verbatim>\<open>CommandError\<close>\<close>
  "as_command_error e = (case e of
     CommandError m \<Rightarrow> Some m
   | Rejected (ValueError m) \<Rightarrow> Some m
   | Rejected (WorldStateError m) \<Rightarrow> Some m
   | _ \<Rightarrow> None)"

definition exchange ::
  "(string \<Rightarrow> 'm step) \<Rightarrow> ('m \<Rightarrow> DUTWorld \<Rightarrow> 'm \<times> DUTWorld) \<Rightarrow> string \<Rightarrow> 'm instrument \<Rightarrow> DUTWorld \<Rightarrow>
     'm instrument \<times> DUTWorld \<times> string option reply" where
  "exchange handle reset command ins w =
     (if \<not> is_ascii command then
        (ins\<lparr>errors := errors ins @ [(- 101, ''Invalid character'')]\<rparr>, w, Inl (CommandError ''command must be ASCII''))
      else
        let text = strip command; up = upper text in
        if up = ''*IDN?'' then (ins, w, Inr (Some (identity ins @ newline)))
        else if up = ''*CLS'' then (ins\<lparr>errors := []\<rparr>, w, Inr None)
        else if up = ''*RST'' then
          (case reset (model ins) w of (m, w') \<Rightarrow> (ins\<lparr>model := m\<rparr>, w', Inr None))
        else if up = ''SYST:ERR?'' then
          (case errors ins of
             [] \<Rightarrow> (ins, w, Inr (Some (''0,'' @ [CHR 0x22] @ ''No error'' @ [CHR 0x22] @ newline)))
           | (code, message) # rest \<Rightarrow>
               (ins\<lparr>errors := rest\<rparr>, w,
                Inr (Some (show_int code @ '','' @ [CHR 0x22] @ message @ [CHR 0x22] @ newline))))
        else
          (case handle text (model ins) w of
             (m, w', Inr answer) \<Rightarrow> (ins\<lparr>model := m\<rparr>, w', Inr answer)
           | (m, w', Inl e) \<Rightarrow>
               (case as_command_error e of
                  None \<Rightarrow> (ins\<lparr>model := m\<rparr>, w', Inl e)
                | Some msg \<Rightarrow> (ins\<lparr>model := m, errors := errors ins @ [(- 113, msg)]\<rparr>, w', Inl (CommandError msg)))))"

definition world_step :: "SemanticAction \<Rightarrow> DUTWorld \<Rightarrow> DUTWorld reply" where
  \<comment> \<open>\<^verbatim>\<open>self.world.apply(action)\<close>\<close>
  "world_step a w = (case apply_action a w of Inl e \<Rightarrow> Inl (Rejected e) | Inr w' \<Rightarrow> Inr w')"

definition world_or_same :: "SemanticAction \<Rightarrow> DUTWorld \<Rightarrow> DUTWorld" where
  \<comment> \<open>an action that cannot be refused; see \<open>safe_actions\<close>\<close>
  "world_or_same a w = (case apply_action a w of Inl _ \<Rightarrow> w | Inr w' \<Rightarrow> w')"

definition act :: "string \<Rightarrow> (string \<times> string json) list \<Rightarrow> SemanticAction" where
  "act k args = \<lparr>action_kind = k, arguments = args\<rparr>"

definition enabled_action :: "string \<Rightarrow> bool \<Rightarrow> SemanticAction" where
  "enabled_action k b = act k [(''enabled'', JBool b)]"

section \<open>Power supply\<close>

record PSUModel =
  channel :: int
  voltage :: pyfloat
  psu_on :: bool

definition psu_init :: PSUModel where
  "psu_init = \<lparr>channel = 1, voltage = Fin 0, psu_on = False\<rparr>"

definition psu_reset :: "PSUModel \<Rightarrow> DUTWorld \<Rightarrow> PSUModel \<times> DUTWorld" where
  "psu_reset m w =
     (let w1 = (if psu_output w then world_or_same (enabled_action ''psu.output'' False) w else w) in
      (psu_init, world_or_same (act ''psu.configure'' [(''voltage_v'', JFloat (Fin 0))]) w1))"

definition psu_handle :: "string \<Rightarrow> PSUModel step" where
  "psu_handle text m w =
     (let up = upper text in
      if starts_with ''INST:NSEL '' up then
        (case bind_res (argument_of text) to_int of
           Inl e \<Rightarrow> (m, w, Inl e)
         | Inr n \<Rightarrow> if n \<noteq> 1 then (m, w, Inl (CommandError ''only DUT supply channel 1 is available''))
                    else (m\<lparr>channel := n\<rparr>, w, Inr None))
      else if starts_with ''VOLT '' up then
        (case bind_res (argument_of text) to_pyfloat of
           Inl e \<Rightarrow> (m, w, Inl e)
         | Inr v \<Rightarrow>
             (case world_step (act ''psu.configure'' [(''voltage_v'', JFloat v)]) w of
                Inl e \<Rightarrow> (m\<lparr>voltage := v\<rparr>, w, Inl e)
              | Inr w' \<Rightarrow> (m\<lparr>voltage := v\<rparr>, w', Inr None)))
      else if up \<in> {''VOLT?'', ''MEAS:VOLT?''} then (m, w, Inr (Some (format_pf False 6 (voltage m) @ newline)))
      else if starts_with ''OUTP '' up then
        (case bind_res (argument_of text) parse_bool of
           Inl e \<Rightarrow> (m, w, Inl e)
         | Inr b \<Rightarrow>
             (case world_step (enabled_action ''psu.output'' b) w of
                Inl e \<Rightarrow> (m, w, Inl e)
              | Inr w' \<Rightarrow> (m\<lparr>psu_on := b\<rparr>, w', Inr None)))
      else if up = ''OUTP?'' then (m, w, Inr (Some ((if psu_on m then ''1'' else ''0'') @ newline)))
      else (m, w, Inl (undefined_header text)))"

section \<open>Switch\<close>

definition switch_reset :: "unit \<Rightarrow> DUTWorld \<Rightarrow> unit \<times> DUTWorld" where
  "switch_reset m w = (m, world_or_same (act ''switch.open_all'' []) w)"

definition routes_action :: "string \<Rightarrow> string list \<Rightarrow> SemanticAction" where
  "routes_action k rs = act k [(''routes'', JList (map JStr rs))]"

definition switch_world :: "unit \<Rightarrow> DUTWorld \<Rightarrow> DUTWorld reply \<Rightarrow> unit \<times> DUTWorld \<times> string option reply" where
  "switch_world m w r = (case r of Inl e \<Rightarrow> (m, w, Inl e) | Inr w' \<Rightarrow> (m, w', Inr None))"

definition switch_handle :: "string \<Rightarrow> unit step" where
  "switch_handle text m w =
     (let up = upper text in
      if starts_with ''ROUT:CLOS '' up then
        switch_world m w (bind_res (parse_routes text) (\<lambda>rs. world_step (routes_action ''switch.close'' rs) w))
      else if starts_with ''ROUT:OPEN '' up \<and> up \<noteq> ''ROUT:OPEN:ALL'' then
        switch_world m w (bind_res (parse_routes text) (\<lambda>rs. world_step (routes_action ''switch.open'' rs) w))
      else if up = ''ROUT:OPEN:ALL'' then switch_world m w (world_step (act ''switch.open_all'' []) w)
      else if up = ''ROUT:CLOS?'' then
        (m, w, Inr (Some (''(@'' @ join '','' (snap_closed_routes (snapshot w)) @ '')'' @ newline)))
      else (m, w, Inl (undefined_header text)))"

section \<open>Generator\<close>

record AWGModel =
  waveforms :: "(string, pyfloat list) dict"
  selected :: "string option"
  amplitude_vpp :: pyfloat
  awg_offset_v :: pyfloat
  awg_on :: bool

definition awg_init :: AWGModel where
  "awg_init = \<lparr>waveforms = [], selected = None, amplitude_vpp = Fin 1, awg_offset_v = Fin 0, awg_on = False\<rparr>"

definition awg_reset :: "AWGModel \<Rightarrow> DUTWorld \<Rightarrow> AWGModel \<times> DUTWorld" where
  "awg_reset m w =
     (awg_init, if awg_output w then world_or_same (enabled_action ''awg.output'' False) w else w)"

definition upload_points :: "string \<Rightarrow> (string \<times> pyfloat list) reply" where
  "upload_points text =
     bind_res (argument_of text) (\<lambda>body.
     case split_once (CHR '','') body of
       None \<Rightarrow> Inl (Rejected (ValueError ''not enough values to unpack (expected 2, got 1)''))
     | Some (name, raw) \<Rightarrow>
         bind_res (traverse to_pyfloat (split_on (CHR '','') raw)) (\<lambda>points.
         if length points < 2 then Inl (CommandError ''arbitrary waveform needs at least two points'')
         else Inr (upper name, points)))"

definition awg_enable :: "AWGModel \<Rightarrow> DUTWorld \<Rightarrow> bool \<Rightarrow> AWGModel \<times> DUTWorld \<times> string option reply" where
  \<comment> \<open>the branch of \<^verbatim>\<open>OUTP\<close> after the boolean was read\<close>
  "awg_enable m w enabled =
     (let configured =
        (if \<not> enabled then Inr w
         else case selected m of
           None \<Rightarrow> Inl (CommandError ''waveform must be selected before output'')
         | Some name \<Rightarrow>
             (case map_of (waveforms m) name of
                None \<Rightarrow> Inl (Rejected (KeyError name))
              | Some ps \<Rightarrow> world_step (act ''awg.waveform'' [(''name'', JStr name),
                  (''points'', JList (map JFloat ps)), (''amplitude_vpp'', JFloat (amplitude_vpp m))]) w)) in
      case configured of
        Inl e \<Rightarrow> (m, w, Inl e)
      | Inr w1 \<Rightarrow>
          (case world_step (enabled_action ''awg.output'' enabled) w1 of
             Inl e \<Rightarrow> (m, w1, Inl e)
           | Inr w2 \<Rightarrow> (m\<lparr>awg_on := enabled\<rparr>, w2, Inr None)))"

definition awg_settled :: "WorldSpec \<Rightarrow> AWGModel \<Rightarrow> DUTWorld \<Rightarrow> bool" where
  "awg_settled sp m w =
     (awg_on m \<and> (case snap_stimulus_started_ms (snapshot w) of None \<Rightarrow> False
        | Some started \<Rightarrow> settle_ms sp \<le> snap_clock_ms (snapshot w) - started))"

definition awg_handle :: "WorldSpec \<Rightarrow> string \<Rightarrow> AWGModel step" where
  "awg_handle sp text m w =
     (let up = upper text in
      if starts_with ''DATA:ARB '' up then
        (case upload_points text of
           Inl e \<Rightarrow> (m, w, Inl e)
         | Inr (name, ps) \<Rightarrow> (m\<lparr>waveforms := AList.update name ps (waveforms m)\<rparr>, w, Inr None))
      else if starts_with ''FUNC:ARB '' up then
        (case argument_of text of
           Inl e \<Rightarrow> (m, w, Inl e)
         | Inr x \<Rightarrow>
             if map_of (waveforms m) (upper x) = None
             then (m, w, Inl (CommandError ''waveform has not been uploaded''))
             else (m\<lparr>selected := Some (upper x)\<rparr>, w, Inr None))
      else if starts_with ''VOLT:OFFS '' up then
        (case bind_res (argument_of text) to_pyfloat of
           Inl e \<Rightarrow> (m, w, Inl e)
         | Inr v \<Rightarrow> (m\<lparr>awg_offset_v := v\<rparr>, w, Inr None))
      else if starts_with ''VOLT '' up then
        (case bind_res (argument_of text) to_pyfloat of
           Inl e \<Rightarrow> (m, w, Inl e)
         | Inr v \<Rightarrow>
             (m\<lparr>amplitude_vpp := v\<rparr>, w,
              if pf_le v (Fin 0) then Inl (CommandError ''amplitude must be positive'') else Inr None))
      else if starts_with ''OUTP '' up then
        (case bind_res (argument_of text) parse_bool of
           Inl e \<Rightarrow> (m, w, Inl e)
         | Inr b \<Rightarrow> awg_enable m w b)
      else if up = ''OUTP?'' then (m, w, Inr (Some ((if awg_on m then ''1'' else ''0'') @ newline)))
      else if up = ''FUNC:ARB?'' then
        (m, w, Inr (Some ((case selected m of None \<Rightarrow> [] | Some n \<Rightarrow> n) @ newline)))
      else if up \<in> {''STAT:OPER:COND?'', ''*OPC?''} then
        (m, w, Inr (Some ((if awg_settled sp m w then ''1'' else ''0'') @ newline)))
      else (m, w, Inl (undefined_header text)))"

section \<open>Multimeter\<close>

record DMMModel =
  configured :: bool
  range_v :: pyfloat
  sample_count :: int
  initiated :: bool

definition dmm_init :: DMMModel where
  "dmm_init = \<lparr>configured = False, range_v = Fin 10, sample_count = 1, initiated = False\<rparr>"

definition dmm_reset :: "DMMModel \<Rightarrow> DUTWorld \<Rightarrow> DMMModel \<times> DUTWorld" where
  "dmm_reset m w = (dmm_init, w)"

definition dmm_text :: "WorldSpec \<Rightarrow> pyfloat list \<Rightarrow> string" where
  "dmm_text sp values =
     join '','' (map (if dmm_format sp = ''scientific'' then format_pf_sci 8 else format_pf True 8) values) @ newline"

definition dmm_handle :: "runtime \<Rightarrow> WorldSpec \<Rightarrow> string \<Rightarrow> DMMModel step" where
  "dmm_handle rt sp text m w =
     (let up = upper text in
      if up \<in> {''CONF:VOLT:DC'', ''CONF:VOLT:DC AUTO''} then (m\<lparr>configured := True\<rparr>, w, Inr None)
      else if starts_with ''VOLT:DC:RANG '' up then
        (case bind_res (argument_of text) to_pyfloat of
           Inl e \<Rightarrow> (m, w, Inl e)
         | Inr v \<Rightarrow> (m\<lparr>range_v := v\<rparr>, w, Inr None))
      else if starts_with ''SAMP:COUN '' up then
        (case bind_res (argument_of text) to_int of
           Inl e \<Rightarrow> (m, w, Inl e)
         | Inr n \<Rightarrow>
             (m\<lparr>sample_count := n\<rparr>, w,
              if n < 1 then Inl (CommandError ''sample count must be positive'') else Inr None))
      else if up = ''INIT'' then
        (if \<not> configured m then (m, w, Inl (CommandError ''DMM function is not configured''))
         else (m\<lparr>initiated := True\<rparr>, w, Inr None))
      else if up \<in> {''READ?'', ''FETC?''} then
        (if \<not> initiated m then (m, w, Inl (CommandError ''DMM acquisition has not been initiated''))
         else case dmm_samples rt sp w of
           Inl e \<Rightarrow> (m, w, Inl (Rejected e))
         | Inr samples \<Rightarrow>
             (m\<lparr>initiated := False\<rparr>, w, Inr (Some (dmm_text sp (resize samples (sample_count m))))))
      else (m, w, Inl (undefined_header text)))"

section \<open>Oscilloscope\<close>

record ScopeModel =
  scope_source_ch :: string
  encoding :: string
  width :: int

definition scope_init :: ScopeModel where
  "scope_init = \<lparr>scope_source_ch = ''CH1'', encoding = ''RIBINARY'', width = 1\<rparr>"

definition scope_reset :: "ScopeModel \<Rightarrow> DUTWorld \<Rightarrow> ScopeModel \<times> DUTWorld" where
  "scope_reset m w = (scope_init, w)"

definition SCOPE_YMULT :: rat where "SCOPE_YMULT = fl (2 / 100)"

definition pf_quot :: "pyfloat \<Rightarrow> rat \<Rightarrow> pyfloat" where
  \<comment> \<open>\<^verbatim>\<open>x / c\<close> for a positive float\<close>
  "pf_quot x c = (case x of Fin a \<Rightarrow> to_float (a / c) | _ \<Rightarrow> x)"

definition round_pf :: "pyfloat \<Rightarrow> int reply" where
  \<comment> \<open>\<^verbatim>\<open>round(x)\<close>\<close>
  "round_pf x = (case x of
     Fin q \<Rightarrow> Inr (round_half_even q)
   | NaN \<Rightarrow> Inl (Rejected (ValueError ''cannot convert float NaN to integer''))
   | _ \<Rightarrow> Inl (Rejected (OverflowError ''cannot convert float infinity to integer'')))"

definition scope_code :: "pyfloat \<Rightarrow> int reply" where
  "scope_code value =
     bind_res (round_pf (pf_add (pf_quot (pf_sub value (Fin 0)) SCOPE_YMULT) (Fin 0))) (\<lambda>r.
     Inr (max (- 128) (min 127 r)))"

definition pack_byte :: "int \<Rightarrow> char" where
  \<comment> \<open>\<^verbatim>\<open>struct.pack("b", code)\<close>\<close>
  "pack_byte n = char_of (n mod 256)"

definition encode_block :: "WorldSpec \<Rightarrow> int list \<Rightarrow> string" where
  "encode_block sp codes =
     (let payload = map pack_byte codes; text = show_int (int (length payload));
          digits = max (binary_length_digits sp) (int (length text))
      in ''#'' @ show_int digits @ pad_zeros (nat digits) text @ payload)"

definition scope_handle :: "runtime \<Rightarrow> WorldSpec \<Rightarrow> string \<Rightarrow> ScopeModel step" where
  "scope_handle rt sp text m w =
     (let up = upper text in
      if starts_with ''DATA:SOURCE '' up then
        (case argument_of text of
           Inl e \<Rightarrow> (m, w, Inl e)
         | Inr x \<Rightarrow> if upper x \<noteq> ''CH1'' then (m, w, Inl (CommandError ''only CH1 observes the DUT''))
                    else (m\<lparr>scope_source_ch := upper x\<rparr>, w, Inr None))
      else if starts_with ''DATA:ENC '' up then
        (case argument_of text of
           Inl e \<Rightarrow> (m, w, Inl e)
         | Inr x \<Rightarrow> if upper x \<noteq> ''RIBINARY'' then (m, w, Inl (CommandError ''RIBINARY encoding is required''))
                    else (m\<lparr>encoding := upper x\<rparr>, w, Inr None))
      else if starts_with ''DATA:WIDTH '' up then
        (case bind_res (argument_of text) to_int of
           Inl e \<Rightarrow> (m, w, Inl e)
         | Inr n \<Rightarrow> if n \<noteq> 1 then (m, w, Inl (CommandError ''only one-byte samples are supported''))
                    else (m\<lparr>width := n\<rparr>, w, Inr None))
      else if up = ''WFMOUTPRE:YMULT?'' then (m, w, Inr (Some (''0.02'' @ newline)))
      else if up = ''WFMOUTPRE:YOFF?'' then (m, w, Inr (Some (''0.0'' @ newline)))
      else if up = ''WFMOUTPRE:YZERO?'' then (m, w, Inr (Some (''0.0'' @ newline)))
      else if up = ''WFMOUTPRE:NR_PT?'' then
        (m, w, case scope_samples rt sp w of
           Inl e \<Rightarrow> Inl (Rejected e)
         | Inr xs \<Rightarrow> Inr (Some (show_int (int (length xs)) @ newline)))
      else if up = ''CURVE?'' then
        (m, w, case scope_samples rt sp w of
           Inl e \<Rightarrow> Inl (Rejected e)
         | Inr xs \<Rightarrow> bind_res (traverse scope_code xs) (\<lambda>codes. Inr (Some (encode_block sp codes))))
      else (m, w, Inl (undefined_header text)))"

section \<open>Rack\<close>

definition RESOURCE_ROLES :: "(string, string) dict" where
  "RESOURCE_ROLES =
     [(''TCPIP0::192.0.2.10::inst0::INSTR'', ''psu''), (''GPIB0::9::INSTR'', ''switch''),
      (''USB0::0x0957::0x2C07::MY000001::0::INSTR'', ''awg''),
      (''TCPIP0::192.0.2.20::inst0::INSTR'', ''scope''),
      (''USB0::0x05E6::0x7510::MY000002::0::INSTR'', ''dmm'')]"

record InstrumentRack =
  rack_world :: DUTWorld
  rack_resources :: "string list"
  rack_roles :: "(string, string) dict"
  psu_ins :: "PSUModel instrument"
  switch_ins :: "unit instrument"
  awg_ins :: "AWGModel instrument"
  dmm_ins :: "DMMModel instrument"
  scope_ins :: "ScopeModel instrument"
  distractor_ins :: "(string, unit instrument) dict"
  transient_errors_remaining :: int

definition new_instrument :: "string \<Rightarrow> 'm \<Rightarrow> 'm instrument" where
  "new_instrument ident m = \<lparr>identity = ident, errors = [], model = m\<rparr>"

definition dict_of :: "('k \<times> 'v) list \<Rightarrow> ('k, 'v) dict" where
  \<comment> \<open>\<^verbatim>\<open>dict(pairs)\<close>: a repeated key keeps its place and takes the last value\<close>
  "dict_of kvs = foldl (\<lambda>d (k, v). AList.update k v d) [] kvs"

definition role_resources :: "WorldSpec \<Rightarrow> (string, string) dict" where
  "role_resources sp =
     (let d = dict_of (resource_map sp) in
      if d = [] then dict_of (map (\<lambda>(res, rl). (rl, res)) RESOURCE_ROLES) else d)"

definition new_rack :: "string list \<Rightarrow> bool \<Rightarrow> WorldSpec \<Rightarrow> instr_error + InstrumentRack" where
  "new_rack listed reversed sp =
     (if set listed \<noteq> set (dict_keys RESOURCE_ROLES)
      then Inl (Unhandled ''pyvisa-sim resources do not match semantic rack'')
      else
        let targets = (if resource_map sp = [] then dict_keys RESOURCE_ROLES else map snd (resource_map sp));
            resources = targets @ map fst (distractors sp) in
        if \<not> list_all (\<lambda>(rl, res). rl \<in> set ROLES) (role_resources sp) then Inl (Unhandled ''KeyError'')
        else Inr
          \<lparr>rack_world = new_world sp,
           rack_resources = (if reversed then rev resources else resources),
           rack_roles = dict_of (map (\<lambda>(rl, res). (res, rl)) (role_resources sp) @
             map (\<lambda>(res, ident). (res, ''distractor'')) (distractors sp)),
           psu_ins = new_instrument ''IAB,Virtual-E36312A,PSU001,1.0'' psu_init,
           switch_ins = new_instrument ''IAB,Virtual-34980A,SW001,1.0'' (),
           awg_ins = new_instrument ''IAB,Virtual-33512B,AWG001,1.0'' awg_init,
           dmm_ins = new_instrument ''IAB,Virtual-DMM7510,DMM001,1.0'' dmm_init,
           scope_ins = new_instrument ''IAB,Virtual-MSO44,SCOPE001,1.0'' scope_init,
           distractor_ins = dict_of (map (\<lambda>(res, ident). (res, new_instrument ident ())) (distractors sp)),
           transient_errors_remaining = transient_error_count sp\<rparr>)"

definition role_for :: "InstrumentRack \<Rightarrow> string \<Rightarrow> instr_error + string" where
  "role_for rk res = (case map_of (rack_roles rk) res of
     None \<Rightarrow> Inl (Rejected (KeyError (''unknown resource '' @ py_repr res))) | Some rl \<Rightarrow> Inr rl)"

definition undefined_handle :: "string \<Rightarrow> unit step" where
  \<comment> \<open>\<^verbatim>\<open>InstrumentModel.handle\<close>, all that a distractor has\<close>
  "undefined_handle text m w = (m, w, Inl (undefined_header text))"

definition model_exchange ::
  "runtime \<Rightarrow> WorldSpec \<Rightarrow> string \<Rightarrow> string \<Rightarrow> string \<Rightarrow> InstrumentRack \<Rightarrow> InstrumentRack \<times> string option reply" where
  \<comment> \<open>\<^verbatim>\<open>self._models[resource].exchange(payload)\<close>\<close>
  "model_exchange rt sp rl res payload rk =
     (let w = rack_world rk in
      if rl = ''psu'' then
        (case exchange psu_handle psu_reset payload (psu_ins rk) w of
           (i, w', r) \<Rightarrow> (rk\<lparr>psu_ins := i, rack_world := w'\<rparr>, r))
      else if rl = ''switch'' then
        (case exchange switch_handle switch_reset payload (switch_ins rk) w of
           (i, w', r) \<Rightarrow> (rk\<lparr>switch_ins := i, rack_world := w'\<rparr>, r))
      else if rl = ''awg'' then
        (case exchange (awg_handle sp) awg_reset payload (awg_ins rk) w of
           (i, w', r) \<Rightarrow> (rk\<lparr>awg_ins := i, rack_world := w'\<rparr>, r))
      else if rl = ''dmm'' then
        (case exchange (dmm_handle rt sp) dmm_reset payload (dmm_ins rk) w of
           (i, w', r) \<Rightarrow> (rk\<lparr>dmm_ins := i, rack_world := w'\<rparr>, r))
      else if rl = ''scope'' then
        (case exchange (scope_handle rt sp) scope_reset payload (scope_ins rk) w of
           (i, w', r) \<Rightarrow> (rk\<lparr>scope_ins := i, rack_world := w'\<rparr>, r))
      else
        (case map_of (distractor_ins rk) res of
           None \<Rightarrow> (rk, Inl (Rejected (KeyError (''unknown resource '' @ py_repr res))))
         | Some d \<Rightarrow>
             (case exchange undefined_handle (\<lambda>m w. (m, w)) payload d w of
                (i, w', r) \<Rightarrow> (rk\<lparr>distractor_ins := AList.update res i (distractor_ins rk), rack_world := w'\<rparr>, r))))"

definition transient_hit :: "WorldSpec \<Rightarrow> string \<Rightarrow> string \<Rightarrow> InstrumentRack \<Rightarrow> bool" where
  "transient_hit sp rl payload rk =
     (0 < transient_errors_remaining rk \<and> transient_error_role sp = Some rl \<and>
      (case transient_error_command sp of None \<Rightarrow> False
       | Some c \<Rightarrow> upper (strip (ascii_ignore payload)) = upper c))"

definition rack_write ::
  "runtime \<Rightarrow> WorldSpec \<Rightarrow> string \<Rightarrow> string \<Rightarrow> InstrumentRack \<Rightarrow> InstrumentRack \<times> string option reply" where
  "rack_write rt sp res payload rk =
     (case role_for rk res of
        Inl e \<Rightarrow> (rk, Inl e)
      | Inr rl \<Rightarrow>
          if transient_hit sp rl payload rk
          then (rk\<lparr>transient_errors_remaining := transient_errors_remaining rk - 1\<rparr>,
                Inl (CommandError ''transient communication error''))
          else model_exchange rt sp rl res payload rk)"

definition force_safe :: "InstrumentRack \<Rightarrow> InstrumentRack" where
  "force_safe rk =
     (let w = rack_world rk; snap = snapshot w;
          w1 = (if snap_awg_output snap then world_or_same (enabled_action ''awg.output'' False) w else w);
          w2 = (if snap_psu_output snap then world_or_same (enabled_action ''psu.output'' False) w1 else w1);
          w3 = (if snap_closed_routes (snapshot w2) \<noteq> [] then world_or_same (act ''switch.open_all'' []) w2 else w2)
      in rk\<lparr>rack_world := w3\<rparr>)"

section \<open>Lemmas: the world behind the instruments\<close>

lemma world_step_Inr [res_simps]: "world_step a w = Inr w' \<longleftrightarrow> apply_action a w = Inr w'"
  by (auto simp: world_step_def split: sum.splits)

lemma world_or_same_run: "world_run sp w \<Longrightarrow> world_run sp (world_or_same a w)"
  by (auto simp: world_or_same_def split: sum.splits intro: world_run.intros)

lemma world_step_run: "world_run sp w \<Longrightarrow> world_step a w = Inr w' \<Longrightarrow> world_run sp w'"
  by (auto simp: res_simps intro: world_run.intros)

lemma safe_actions:
  "apply_action (enabled_action ''psu.output'' False) w = Inr (w\<lparr>psu_output := False\<rparr>)"
  "apply_action (enabled_action ''awg.output'' False) w = Inr (w\<lparr>awg_output := False, stimulus_started_ms := None\<rparr>)"
  "apply_action (act ''switch.open_all'' []) w = Inr (w\<lparr>closed_routes := {}\<rparr>)"
  "apply_action (act ''psu.configure'' [(''voltage_v'', JFloat (Fin 0))]) w = Inr (w\<lparr>psu_voltage_v := Fin 0\<rparr>)"
  by (simp_all add: apply_action_def enabled_action_def act_def set_psu_output_def set_awg_output_def
      open_all_def configure_psu_def arg_bool_def py_float_def)

lemma world_or_same_safe [simp]:
  "world_or_same (enabled_action ''psu.output'' False) w = w\<lparr>psu_output := False\<rparr>"
  "world_or_same (enabled_action ''awg.output'' False) w = w\<lparr>awg_output := False, stimulus_started_ms := None\<rparr>"
  "world_or_same (act ''switch.open_all'' []) w = w\<lparr>closed_routes := {}\<rparr>"
  "world_or_same (act ''psu.configure'' [(''voltage_v'', JFloat (Fin 0))]) w = w\<lparr>psu_voltage_v := Fin 0\<rparr>"
  by (simp_all add: world_or_same_def safe_actions)

lemma action_frame:
  assumes "apply_action a w = Inr w'"
  shows "action_kind a \<noteq> ''psu.output'' \<Longrightarrow> psu_output w' = psu_output w"
    and "action_kind a \<noteq> ''awg.output'' \<Longrightarrow> awg_output w' = awg_output w"
  using assms by (cases rule: apply_action_cases [OF assms]; simp)+

lemma output_actions:
  "apply_action (enabled_action ''psu.output'' b) w = Inr w' \<Longrightarrow> psu_output w' = b"
  "apply_action (enabled_action ''awg.output'' b) w = Inr w' \<Longrightarrow> awg_output w' = b"
  by (auto simp: apply_action_def enabled_action_def act_def set_psu_output_def set_awg_output_def
      arg_bool_def bind_res_Inr_iff)

lemma action_kinds [simp]:
  "action_kind (act k args) = k" "action_kind (enabled_action k b) = k" "action_kind (routes_action k rs) = k"
  by (simp_all add: act_def enabled_action_def routes_action_def)

text \<open>
  The contract of an instrument: a predicate on its own state and the world that every command
  and the reset keep. The interpreter shared by all instruments then keeps it too, and a rejected
  command leaves exactly one entry in the error queue.
\<close>

definition holds :: "('m \<Rightarrow> DUTWorld \<Rightarrow> bool) \<Rightarrow> 'm \<times> DUTWorld \<times> 'r \<Rightarrow> bool" where
  "holds I t = I (fst t) (fst (snd t))"

lemma holds_intros:
  "I m w \<Longrightarrow> holds I (m, w, r)"
  "holds I a \<Longrightarrow> holds I b \<Longrightarrow> holds I (if c then a else b)"
  "(\<And>e. x = Inl e \<Longrightarrow> holds I (f e)) \<Longrightarrow> (\<And>y. x = Inr y \<Longrightarrow> holds I (g y)) \<Longrightarrow>
     holds I (case x of Inl e \<Rightarrow> f e | Inr y \<Rightarrow> g y)"
  "(\<And>a b. p = (a, b) \<Longrightarrow> holds I (h a b)) \<Longrightarrow> holds I (case p of (a, b) \<Rightarrow> h a b)"
  by (auto simp: holds_def split: sum.splits prod.splits)

locale instrument_class =
  fixes handle :: "string \<Rightarrow> 'm step"
    and reset :: "'m \<Rightarrow> DUTWorld \<Rightarrow> 'm \<times> DUTWorld"
    and inv :: "'m \<Rightarrow> DUTWorld \<Rightarrow> bool"
  assumes handle_keeps: "inv m w \<Longrightarrow> holds inv (handle text m w)"
    and reset_keeps: "inv m w \<Longrightarrow> inv (fst (reset m w)) (snd (reset m w))"
begin

lemma exchange_keeps:
  assumes "inv (model i) w" and "exchange handle reset c i w = (i', w', r)"
  shows "inv (model i') w'"
proof -
  have h: "inv m' w''" if "handle t (model i) w = (m', w'', q)" for t m' w'' q
    using handle_keeps [OF assms(1), of t] that by (simp add: holds_def)
  have r: "inv m' w''" if "reset (model i) w = (m', w'')" for m' w''
    using reset_keeps [OF assms(1)] that by simp
  show ?thesis
    using assms unfolding exchange_def Let_def
    by (auto split: if_splits list.splits prod.splits sum.splits option.splits dest: h r)
qed

end

lemma exchange_error:
  assumes "exchange handle reset c i w = (i', w', Inl (CommandError msg))"
  shows "\<exists>code text. errors i' = errors i @ [(code, text)] \<and> code \<in> {- 101, - 113} \<and> identity i' = identity i"
  using assms unfolding exchange_def Let_def
  by (auto split: if_splits list.splits prod.splits sum.splits option.splits simp: as_command_error_def
      split: instr_error.splits world_error.splits)

section \<open>Instances of the contract\<close>

definition psu_inv :: "WorldSpec \<Rightarrow> bool \<Rightarrow> PSUModel \<Rightarrow> DUTWorld \<Rightarrow> bool" where
  "psu_inv sp awg m w \<longleftrightarrow> world_run sp w \<and> awg_output w = awg \<and>
     (\<not> initial_psu_output sp \<longrightarrow> psu_on m = psu_output w)"

definition awg_inv :: "WorldSpec \<Rightarrow> bool \<Rightarrow> AWGModel \<Rightarrow> DUTWorld \<Rightarrow> bool" where
  "awg_inv sp psu m w \<longleftrightarrow> world_run sp w \<and> psu_output w = psu \<and>
     (\<not> initial_awg_output sp \<longrightarrow> awg_on m = awg_output w) \<and>
     (\<forall>n. selected m = Some n \<longrightarrow> map_of (waveforms m) n \<noteq> None)"

definition passive_inv :: "WorldSpec \<Rightarrow> bool \<Rightarrow> bool \<Rightarrow> 'm \<Rightarrow> DUTWorld \<Rightarrow> bool" where
  "passive_inv sp psu awg m w \<longleftrightarrow> world_run sp w \<and> psu_output w = psu \<and> awg_output w = awg"

interpretation psu: instrument_class psu_handle psu_reset "psu_inv sp awg"
proof
  fix m w t assume I: "psu_inv sp awg m w"
  show "holds (psu_inv sp awg) (psu_handle t m w)"
    unfolding psu_handle_def Let_def
    by (intro holds_intros)
      (use I in \<open>auto simp: psu_inv_def res_simps action_frame output_actions intro: world_step_run world_run.act\<close>)
  show "psu_inv sp awg (fst (psu_reset m w)) (snd (psu_reset m w))"
    using I world_run.act [of sp w _ "w\<lparr>psu_output := False\<rparr>", OF _ safe_actions(1)] safe_actions(4)
    by (auto simp: psu_inv_def psu_reset_def psu_init_def Let_def intro: world_run.act)
qed

lemma passive_same: "passive_inv sp p a m w \<Longrightarrow> passive_inv sp p a m' w"
  by (simp add: passive_inv_def)

interpretation switch: instrument_class switch_handle switch_reset "passive_inv sp psu awg"
proof
  fix m :: unit and w t assume I: "passive_inv sp psu awg m w"
  have step: "passive_inv sp psu awg m' w'"
    if "apply_action a w = Inr w'" "action_kind a \<notin> {''psu.output'', ''awg.output''}" for a w' m'
    using I that action_frame [OF that(1)] by (auto simp: passive_inv_def intro: world_run.act)
  have sw: "holds (passive_inv sp psu awg) (switch_world m w r)"
    if "\<And>w'. r = Inr w' \<Longrightarrow> passive_inv sp psu awg m w'" for r
    using that I by (auto simp: switch_world_def holds_def split: sum.splits)
  show "holds (passive_inv sp psu awg) (switch_handle t m w)"
    unfolding switch_handle_def Let_def
    by (intro holds_intros(1,2) sw) (use I in \<open>auto simp: res_simps intro: step\<close>)
  show "passive_inv sp psu awg (fst (switch_reset m w)) (snd (switch_reset m w))"
    using step [OF safe_actions(3)] by (simp add: switch_reset_def)
qed

interpretation dmm: instrument_class "dmm_handle rt sp" dmm_reset "passive_inv sp' psu awg"
proof
  fix m w t assume I: "passive_inv sp' psu awg (m :: DMMModel) w"
  show "holds (passive_inv sp' psu awg) (dmm_handle rt sp t m w)"
    unfolding dmm_handle_def Let_def by (intro holds_intros passive_same [OF I])
  show "passive_inv sp' psu awg (fst (dmm_reset m w)) (snd (dmm_reset m w))"
    using passive_same [OF I] by (simp add: dmm_reset_def)
qed

interpretation scope: instrument_class "scope_handle rt sp" scope_reset "passive_inv sp' psu awg"
proof
  fix m w t assume I: "passive_inv sp' psu awg (m :: ScopeModel) w"
  show "holds (passive_inv sp' psu awg) (scope_handle rt sp t m w)"
    unfolding scope_handle_def Let_def by (intro holds_intros passive_same [OF I])
  show "passive_inv sp' psu awg (fst (scope_reset m w)) (snd (scope_reset m w))"
    using passive_same [OF I] by (simp add: scope_reset_def)
qed

interpretation distractor: instrument_class undefined_handle "\<lambda>m w. (m, w)" "passive_inv sp psu awg"
  by unfold_locales (simp_all add: undefined_handle_def holds_def)

lemma awg_inv_keep:
  "awg_inv sp psu m w \<Longrightarrow> selected m' = selected m \<Longrightarrow> waveforms m' = waveforms m \<Longrightarrow> awg_on m' = awg_on m \<Longrightarrow>
     awg_inv sp psu m' w"
  by (simp add: awg_inv_def)

lemma awg_enable_keeps:
  assumes "awg_inv sp psu m w"
  shows "holds (awg_inv sp psu) (awg_enable m w b)"
proof -
  define cfg where "cfg = (if \<not> b then Inr w
         else case selected m of
           None \<Rightarrow> Inl (CommandError ''waveform must be selected before output'')
         | Some name \<Rightarrow>
             (case map_of (waveforms m) name of
                None \<Rightarrow> Inl (Rejected (KeyError name))
              | Some ps \<Rightarrow> world_step (act ''awg.waveform'' [(''name'', JStr name),
                  (''points'', JList (map JFloat ps)), (''amplitude_vpp'', JFloat (amplitude_vpp m))]) w))"
  have w1: "awg_inv sp psu m w1" if c: "cfg = Inr w1" for w1
  proof (cases b)
    case True
    then obtain a where a: "apply_action a w = Inr w1" "action_kind a = ''awg.waveform''"
      using c unfolding cfg_def by (auto simp: res_simps split: option.splits)
    then show ?thesis using assms action_frame [OF a(1)] by (auto simp: awg_inv_def intro: world_run.act)
  qed (use c assms in \<open>simp add: cfg_def\<close>)
  have w2: "awg_inv sp psu (m\<lparr>awg_on := b\<rparr>) w2"
    if "cfg = Inr w1" "world_step (enabled_action ''awg.output'' b) w1 = Inr w2" for w1 w2
    using w1 [OF that(1)] that(2) action_frame(1) output_actions(2)
    by (auto simp: awg_inv_def res_simps intro: world_run.act)
  show ?thesis
    unfolding awg_enable_def Let_def cfg_def [symmetric]
    by (intro holds_intros) (auto intro: w1 w2 assms)
qed

interpretation awg: instrument_class "awg_handle sp'" awg_reset "awg_inv sp psu"
proof
  fix m w t assume I: "awg_inv sp psu m w"
  have sel: "holds (awg_inv sp psu) (if map_of (waveforms m) n = None then (m, w, r) else (m\<lparr>selected := Some n\<rparr>, w, q))"
    for n r q using I by (simp add: holds_def awg_inv_def)
  show "holds (awg_inv sp psu) (awg_handle sp' t m w)"
    unfolding awg_handle_def Let_def
    by (intro sel awg_enable_keeps I holds_intros)
      (use I in \<open>auto intro: awg_inv_keep simp: awg_inv_def update_conv'\<close>)
  show "awg_inv sp psu (fst (awg_reset m w)) (snd (awg_reset m w))"
    using I safe_actions(2) by (auto simp: awg_inv_def awg_reset_def awg_init_def intro: world_run.act)
qed

section \<open>The rack\<close>

definition rack_inv :: "WorldSpec \<Rightarrow> InstrumentRack \<Rightarrow> bool" where
  "rack_inv sp rk \<longleftrightarrow>
     psu_inv sp (awg_output (rack_world rk)) (model (psu_ins rk)) (rack_world rk) \<and>
     awg_inv sp (psu_output (rack_world rk)) (model (awg_ins rk)) (rack_world rk)"

lemma rack_inv_start:
  assumes "new_rack listed b sp = Inr rk"
  shows "rack_inv sp rk"
proof -
  have "rack_world rk = new_world sp \<and> model (psu_ins rk) = psu_init \<and> model (awg_ins rk) = awg_init"
    using assms unfolding new_rack_def Let_def new_instrument_def by (elim if_eqE) (simp, simp, clarsimp)
  then show ?thesis
    by (simp add: rack_inv_def psu_inv_def awg_inv_def psu_init_def awg_init_def world_run.start)
      (simp add: new_world_def)
qed

lemma rack_inv_passive:
  "rack_inv sp rk \<Longrightarrow> passive_inv sp (psu_output (rack_world rk)) (awg_output (rack_world rk)) m w \<Longrightarrow>
     psu_ins rk' = psu_ins rk \<Longrightarrow> awg_ins rk' = awg_ins rk \<Longrightarrow> rack_world rk' = w \<Longrightarrow> rack_inv sp rk'"
  by (simp add: rack_inv_def psu_inv_def awg_inv_def passive_inv_def)

lemma rack_passive: "rack_inv sp rk \<Longrightarrow>
    passive_inv sp (psu_output (rack_world rk)) (awg_output (rack_world rk)) m (rack_world rk)"
  by (simp add: rack_inv_def psu_inv_def passive_inv_def)

lemma rack_inv_exchange:
  assumes "rack_inv sp rk" and "model_exchange rt sp' rl res payload rk = (rk', r)"
  shows "rack_inv sp rk'"
proof -
  note P = rack_passive [OF assms(1)] and R = rack_inv_passive [OF assms(1)]
  have psu: "rack_inv sp (rk\<lparr>psu_ins := i, rack_world := w\<rparr>)"
    if "exchange psu_handle psu_reset payload (psu_ins rk) (rack_world rk) = (i, w, q)" for i w q
    using psu.exchange_keeps [OF _ that, of sp "awg_output (rack_world rk)"] assms(1)
    by (auto simp: rack_inv_def psu_inv_def awg_inv_def)
  have awg: "rack_inv sp (rk\<lparr>awg_ins := i, rack_world := w\<rparr>)"
    if "exchange (awg_handle sp') awg_reset payload (awg_ins rk) (rack_world rk) = (i, w, q)" for i w q
    using awg.exchange_keeps [OF _ that, of sp "psu_output (rack_world rk)"] assms(1)
    by (auto simp: rack_inv_def psu_inv_def awg_inv_def)
  have sw: "rack_inv sp (rk\<lparr>switch_ins := i, rack_world := w\<rparr>)"
    if "exchange switch_handle switch_reset payload (switch_ins rk) (rack_world rk) = (i, w, q)" for i w q
    using R [OF switch.exchange_keeps [OF P that]] by simp
  have dmm: "rack_inv sp (rk\<lparr>dmm_ins := i, rack_world := w\<rparr>)"
    if "exchange (dmm_handle rt sp') dmm_reset payload (dmm_ins rk) (rack_world rk) = (i, w, q)" for i w q
    using R [OF dmm.exchange_keeps [OF P that]] by simp
  have sc: "rack_inv sp (rk\<lparr>scope_ins := i, rack_world := w\<rparr>)"
    if "exchange (scope_handle rt sp') scope_reset payload (scope_ins rk) (rack_world rk) = (i, w, q)" for i w q
    using R [OF scope.exchange_keeps [OF P that]] by simp
  have di: "rack_inv sp (rk\<lparr>distractor_ins := d, rack_world := w\<rparr>)"
    if "exchange undefined_handle (\<lambda>m w. (m, w)) payload i0 (rack_world rk) = (i, w, q)" for d i0 i w q
    using R [OF distractor.exchange_keeps [OF P that]] by simp
  show ?thesis
    using assms unfolding model_exchange_def Let_def
    by (elim if_eqE) (auto split: prod.splits option.splits intro: psu awg sw dmm sc di)
qed

lemma rack_inv_write:
  assumes "rack_inv sp rk" and "rack_write rt sp' res payload rk = (rk', r)"
  shows "rack_inv sp rk'"
proof -
  have "rack_inv sp (rk\<lparr>transient_errors_remaining := n\<rparr>)" for n
    using assms(1) by (simp add: rack_inv_def)
  then show ?thesis
    using assms unfolding rack_write_def by (auto split: sum.splits if_splits intro: rack_inv_exchange)
qed

lemma rack_write_same:
  assumes "rack_write rt sp res payload rk = (rk', r)"
  shows "rack_roles rk' = rack_roles rk" "rack_resources rk' = rack_resources rk"
proof -
  have e: "rack_roles rk1 = rack_roles rk \<and> rack_resources rk1 = rack_resources rk"
    if "model_exchange rt sp rl res payload rk = (rk1, q)" for rl rk1 q
    using that unfolding model_exchange_def Let_def
    by (elim if_eqE) (auto split: prod.splits option.splits)
  show "rack_roles rk' = rack_roles rk" "rack_resources rk' = rack_resources rk"
    using assms unfolding rack_write_def by (auto split: sum.splits if_splits dest: e)
qed

end
