(* ===== verification/Base64.thy ===== *)
theory Base64
  imports Py_Text
begin

text \<open>
  The byte encodings both PyVISA evaluators use: base64 as \<^verbatim>\<open>base64.b64encode\<close> writes it and
  \<^verbatim>\<open>base64.b64decode(..., validate=True)\<close> reads it, and unsigned big-endian integers of a fixed width
  (\<^verbatim>\<open>int.to_bytes(k, "big")\<close> and \<^verbatim>\<open>int.from_bytes(b, "big")\<close>), with their round trips.
\<close>

section \<open>Base64\<close>

definition b64_value :: "char \<Rightarrow> int option" where
  "b64_value c =
     (let n = code_of c in
      if 65 \<le> n \<and> n \<le> 90 then Some (n - 65)
      else if 97 \<le> n \<and> n \<le> 122 then Some (n - 71)
      else if 48 \<le> n \<and> n \<le> 57 then Some (n + 4)
      else if n = 43 then Some 62 else if n = 47 then Some 63 else None)"

definition b64_char :: "int \<Rightarrow> char" where
  "b64_char v = char_of (if v < 26 then v + 65 else if v < 52 then v + 71 else if v < 62 then v - 4
     else if v = 62 then 43 else 47)"

fun b64_encode :: "string \<Rightarrow> string" where
  "b64_encode [] = []"
| "b64_encode [a] = [b64_char (code_of a div 4), b64_char (code_of a mod 4 * 16), CHR ''='', CHR ''='']"
| "b64_encode [a, b] =
     [b64_char (code_of a div 4), b64_char (code_of a mod 4 * 16 + code_of b div 16),
      b64_char (code_of b mod 16 * 4), CHR ''='']"
| "b64_encode (a # b # c # rest) =
     [b64_char (code_of a div 4), b64_char (code_of a mod 4 * 16 + code_of b div 16),
      b64_char (code_of b mod 16 * 4 + code_of c div 64), b64_char (code_of c mod 64)] @ b64_encode rest"

fun b64_decode :: "string \<Rightarrow> string option" where
  \<comment> \<open>\<^verbatim>\<open>base64.b64decode(s, validate=True)\<close>; \<^verbatim>\<open>None\<close> is \<^verbatim>\<open>ValueError\<close>\<close>
  "b64_decode [] = Some []"
| "b64_decode (a # b # c # d # rest) =
     (case (b64_value a, b64_value b) of
        (Some x, Some y) \<Rightarrow>
          if d = CHR ''='' then
            (if rest \<noteq> [] then None
             else if c = CHR ''='' then Some [char_of (x * 4 + y div 16)]
             else case b64_value c of None \<Rightarrow> None
                | Some z \<Rightarrow> Some [char_of (x * 4 + y div 16), char_of (y mod 16 * 16 + z div 4)])
          else (case (b64_value c, b64_value d, b64_decode rest) of
                  (Some z, Some u, Some bytes) \<Rightarrow>
                    Some ([char_of (x * 4 + y div 16), char_of (y mod 16 * 16 + z div 4),
                           char_of (z mod 4 * 64 + u)] @ bytes)
                | _ \<Rightarrow> None)
      | _ \<Rightarrow> None)"
| "b64_decode _ = None"

lemma b64_value_char: "0 \<le> v \<Longrightarrow> v < 64 \<Longrightarrow> b64_value (b64_char v) = Some v"
  by (auto simp: b64_value_def b64_char_def code_of_char_of_int Let_def)

lemma b64_char_no_pad: "0 \<le> v \<Longrightarrow> v < 64 \<Longrightarrow> b64_char v \<noteq> CHR ''=''"
proof
  assume "0 \<le> v" "v < 64" and eq: "b64_char v = CHR ''=''"
  have "b64_value (CHR ''='') = None" by code_simp
  with b64_value_char [OF \<open>0 \<le> v\<close> \<open>v < 64\<close>] eq show False by simp
qed

lemma b64_sextets:
  "0 \<le> code_of a div 4" "code_of a div 4 < 64"
  "0 \<le> code_of a mod 4 * 16" "code_of a mod 4 * 16 < 64"
  "0 \<le> code_of a mod 4 * 16 + code_of b div 16" "code_of a mod 4 * 16 + code_of b div 16 < 64"
  "0 \<le> code_of b mod 16 * 4" "code_of b mod 16 * 4 < 64"
  "0 \<le> code_of b mod 16 * 4 + code_of c div 64" "code_of b mod 16 * 4 + code_of c div 64 < 64"
  "0 \<le> code_of c mod 64" "code_of c mod 64 < 64"
  using code_of_range [of a] code_of_range [of b] code_of_range [of c] by linarith+

lemma b64_bytes:
  "code_of b div 16 div 16 = 0" "code_of b div 16 mod 16 = code_of b div 16"
  "code_of b div 64 div 4 = 0" "code_of b div 64 mod 4 = code_of b div 64"
proof -
  have "0 \<le> code_of b div 16" "code_of b div 16 < 16" "0 \<le> code_of b div 64" "code_of b div 64 < 4"
    using code_of_range [of b] by linarith+
  then show "code_of b div 16 div 16 = 0" "code_of b div 16 mod 16 = code_of b div 16"
    "code_of b div 64 div 4 = 0" "code_of b div 64 mod 4 = code_of b div 64"
    by (simp_all only: div_pos_pos_trivial mod_pos_pos_trivial)
qed

lemma b64_round_trip: "b64_decode (b64_encode bytes) = Some bytes"
  by (induction bytes rule: b64_encode.induct)
    (simp_all add: b64_value_char b64_char_no_pad b64_sextets b64_bytes)

section \<open>Big-endian integers\<close>

fun big_endian :: "nat \<Rightarrow> int \<Rightarrow> string" where
  "big_endian 0 n = []"
| "big_endian (Suc k) n = char_of (n div 256 ^ k mod 256) # big_endian k n"

fun from_big_endian :: "int \<Rightarrow> string \<Rightarrow> int" where
  "from_big_endian acc [] = acc"
| "from_big_endian acc (c # cs) = from_big_endian (256 * acc + code_of c) cs"

lemma big_endian_length [simp]: "length (big_endian k n) = k"
  by (induction k) simp_all

lemma from_big_endian_acc: "from_big_endian a (big_endian k n) = a * 256 ^ k + n mod 256 ^ k"
proof (induction k arbitrary: a)
  case (Suc k)
  have "n mod (256 ^ k * 256) = 256 ^ k * (n div 256 ^ k mod 256) + n mod 256 ^ k"
    by (rule zmod_zmult2_eq) simp
  with Suc show ?case by (simp add: code_of_char_of_int algebra_simps)
qed simp

lemma big_endian_round_trip: "0 \<le> n \<Longrightarrow> n < 256 ^ k \<Longrightarrow> from_big_endian 0 (big_endian k n) = n"
  by (simp add: from_big_endian_acc)

end
