(* ===== verification/Gateway.thy ===== *)
theory Gateway
  imports Instruments Base64
begin

text \<open>
  The gateway of the PyVISA evaluator, version 1
  (\<^verbatim>\<open>sources/pyvisa/pyvisa_dut_validation_v1/gateway/server.py\<close> and \<^verbatim>\<open>protocol.py\<close>): request validation, the
  session table, every operation with its journal entry, the response of a client and the forced
  cleanup when a client disconnects. One dispatched operation is one step; requests of several
  clients interleave as sequences of such steps. A request arrives as the JSON object
  \<^verbatim>\<open>recv_frame\<close> parsed. The clock readings and the random tokens an operation draws are its argument
  \<open>draw\<close>.
\<close>

section \<open>Protocol\<close>

definition PROTOCOL_VERSION :: int where "PROTOCOL_VERSION = 1"
definition MAX_FRAME_BYTES :: int where "MAX_FRAME_BYTES = 1048576"

datatype gateway_error =
    ProtocolError string
  | OperationError string string
  | InstrumentError instr_error
    \<comment> \<open>\<^verbatim>\<open>CommandError\<close>, \<^verbatim>\<open>KeyError\<close> and what no handler catches\<close>

definition validate_request ::
  "(string \<times> string json) list \<Rightarrow> gateway_error + string \<times> string \<times> (string \<times> string json) list" where
  "validate_request value =
     bind_res (require (eq_int (json_get value ''version'') PROTOCOL_VERSION)
       (ProtocolError ''unsupported_version'')) (\<lambda>_.
     bind_res (as_str (json_get value ''request_id'') (ProtocolError ''invalid_request_id'')) (\<lambda>rid.
     bind_res (require (rid \<noteq> []) (ProtocolError ''invalid_request_id'')) (\<lambda>_.
     bind_res (as_str (json_get value ''operation'') (ProtocolError ''invalid_operation'')) (\<lambda>op.
     bind_res (require (op \<noteq> []) (ProtocolError ''invalid_operation'')) (\<lambda>_.
     bind_res (as_obj (json_get_or value ''arguments'' (JObj [])) (ProtocolError ''invalid_arguments'')) (\<lambda>args.
     Inr (rid, op, args)))))))"

definition send_frame :: "runtime \<Rightarrow> string json \<Rightarrow> string option" where
  \<comment> \<open>the bytes sent, \<^verbatim>\<open>None\<close> where it raises\<close>
  "send_frame rt value =
     (let payload = dumps (float_repr rt) value in
      if MAX_FRAME_BYTES < int (length payload) then None
      else Some (big_endian 4 (int (length payload)) @ payload))"

section \<open>Sessions and the server\<close>

record GatewaySession =
  owner :: string
  g_resource :: string
  timeout_ms :: int
  read_termination :: "string option"
  write_termination :: "string option"
  pending :: "string option"

record GatewayServer =
  rack :: InstrumentRack
  journal :: EvidenceJournal
  sessions :: "(string, GatewaySession) dict"
  last_clock_sync_ns :: int

record draw =
  sync_ns :: int
  journal_ns :: int
  token :: string

definition new_gateway :: "InstrumentRack \<Rightarrow> EvidenceJournal \<Rightarrow> int \<Rightarrow> GatewayServer" where
  "new_gateway rk j now = \<lparr>rack = rk, journal = j, sessions = [], last_clock_sync_ns = now\<rparr>"

definition gw_snapshot :: "GatewayServer \<Rightarrow> WorldSnapshot" where
  "gw_snapshot g = snapshot (rack_world (rack g))"

definition sync_clock :: "int \<Rightarrow> GatewayServer \<Rightarrow> GatewayServer" where
  "sync_clock now g =
     (let elapsed = (now - last_clock_sync_ns g) div 1000000 in
      if 0 < elapsed then
        (case advance_ms elapsed (rack_world (rack g)) of
           Inl _ \<Rightarrow> g
         | Inr w \<Rightarrow> g\<lparr>rack := (rack g)\<lparr>rack_world := w\<rparr>,
                     last_clock_sync_ns := last_clock_sync_ns g + elapsed * 1000000\<rparr>)
      else g)"

definition required_str :: "(string \<times> string json) list \<Rightarrow> string \<Rightarrow> gateway_error + string" where
  "required_str args key =
     (let e = OperationError ''invalid_argument'' (key @ '' is required'') in
      bind_res (as_str (json_get args key) e) (\<lambda>s. bind_res (require (s \<noteq> []) e) (\<lambda>_. Inr s)))"

definition owned_session :: "GatewayServer \<Rightarrow> string \<Rightarrow> string \<Rightarrow> gateway_error + GatewaySession" where
  "owned_session g own sid =
     (case map_of (sessions g) sid of
        Some s \<Rightarrow> if owner s = own then Inr s
                  else Inl (OperationError ''invalid_session'' ''invalid or foreign session'')
      | None \<Rightarrow> Inl (OperationError ''invalid_session'' ''invalid or foreign session''))"

definition termination_of :: "(string \<times> string json) list \<Rightarrow> gateway_error + string option" where
  "termination_of args =
     (let lf = [CHR 0x0A]; cr = [CHR 0x0D] in
      case json_get args ''termination'' of
        JNull \<Rightarrow> Inr None
      | JStr s \<Rightarrow>
          if s = ''LF'' \<or> s = lf then Inr (Some lf)
          else if s = ''CR'' \<or> s = cr then Inr (Some cr)
          else if s = ''CRLF'' \<or> s = cr @ lf then Inr (Some (cr @ lf))
          else Inl (OperationError ''invalid_argument''
            ''termination must be LF, CR, CRLF, newline, carriage return, or both'')
      | JList _ \<Rightarrow> Inl (InstrumentError (Unhandled ''TypeError''))
      | JObj _ \<Rightarrow> Inl (InstrumentError (Unhandled ''TypeError''))
      | _ \<Rightarrow> Inl (OperationError ''invalid_argument''
            ''termination must be LF, CR, CRLF, newline, carriage return, or both''))"

definition decode_payload :: "(string \<times> string json) list \<Rightarrow> gateway_error + string" where
  "decode_payload args =
     bind_res (as_str (json_get args ''payload_b64'')
       (OperationError ''invalid_argument'' ''payload_b64 is required'')) (\<lambda>text.
     case b64_decode text of
       None \<Rightarrow> Inl (OperationError ''invalid_argument'' ''payload_b64 is invalid'')
     | Some payload \<Rightarrow>
         bind_res (require (int (length payload) \<le> 262144)
           (OperationError ''payload_too_large'' ''payload exceeds 262144 bytes'')) (\<lambda>_. Inr payload))"

definition timeout_of :: "(string \<times> string json) list \<Rightarrow> gateway_error + int \<times> string" where
  \<comment> \<open>the value and its text; \<^verbatim>\<open>True\<close> is an int of the language\<close>
  "timeout_of args =
     (let e = OperationError ''invalid_argument'' ''timeout_ms must be between 1 and 120000'' in
      case json_get args ''timeout_ms'' of
        JInt n \<Rightarrow> if n < 1 \<or> 120000 < n then Inl e else Inr (n, show_int n)
      | JBool b \<Rightarrow> if b then Inr (1, ''True'') else Inl e
      | _ \<Rightarrow> Inl e)"

definition log_args :: "string \<Rightarrow> WorldSnapshot \<Rightarrow> WorldSnapshot \<Rightarrow> append_args" where
  "log_args op before after =
     \<lparr>a_operation = op, a_state_before = before, a_state_after = after, a_session = None, a_resource = None,
      a_role = None, a_request = None, a_response = None, a_outcome = ''ok'', a_error_code = None,
      a_cleanup_source = None\<rparr>"

record log_entry =
  \<comment> \<open>the keyword arguments of \<^verbatim>\<open>_record_session\<close>\<close>
  l_request :: "string option"
  l_response :: "string option"
  l_cleanup_source :: "string option"
  l_outcome :: string
  l_error_code :: "string option"

definition plain_entry :: log_entry where
  "plain_entry = \<lparr>l_request = None, l_response = None, l_cleanup_source = None, l_outcome = ''ok'',
     l_error_code = None\<rparr>"

definition record_session ::
  "runtime \<Rightarrow> draw \<Rightarrow> string \<Rightarrow> string \<Rightarrow> GatewaySession \<Rightarrow> WorldSnapshot \<Rightarrow> log_entry \<Rightarrow> GatewayServer \<Rightarrow>
     gateway_error + GatewayServer" where
  "record_session rt d op sid s before l g =
     (case role_for (rack g) (g_resource s) of
        Inl e \<Rightarrow> Inl (InstrumentError e)
      | Inr rl \<Rightarrow>
          Inr (g\<lparr>journal := evidence_append rt (journal_ns d)
            (log_args op before (gw_snapshot g)\<lparr>a_session := Some sid, a_resource := Some (g_resource s),
               a_role := Some rl, a_request := l_request l, a_response := l_response l,
               a_cleanup_source := l_cleanup_source l, a_outcome := l_outcome l,
               a_error_code := l_error_code l\<rparr>) (journal g)\<rparr>))"

section \<open>Operations\<close>

type_synonym 'a outcome = "GatewayServer \<times> (gateway_error + 'a)"

definition journaled :: "GatewayServer \<Rightarrow> gateway_error + GatewayServer \<Rightarrow> 'a \<Rightarrow> 'a outcome" where
  \<comment> \<open>return a value after the journal entry\<close>
  "journaled g r v = (case r of Inl e \<Rightarrow> (g, Inl e) | Inr g' \<Rightarrow> (g', Inr v))"

definition op_list_resources :: "runtime \<Rightarrow> draw \<Rightarrow> GatewayServer \<Rightarrow> string json outcome" where
  "op_list_resources rt d g =
     (let snap = gw_snapshot g; rs = rack_resources (rack g) in
      (g\<lparr>journal := evidence_append rt (journal_ns d)
         (log_args ''list_resources'' snap snap\<lparr>a_response := Some (join newline rs)\<rparr>) (journal g)\<rparr>,
       Inr (JList (map JStr rs))))"

definition op_open ::
  "runtime \<Rightarrow> draw \<Rightarrow> string \<Rightarrow> (string \<times> string json) list \<Rightarrow> GatewayServer \<Rightarrow> string json outcome" where
  "op_open rt d own args g =
     (case required_str args ''resource'' of
        Inl e \<Rightarrow> (g, Inl e)
      | Inr res \<Rightarrow>
          if res \<notin> set (rack_resources (rack g))
          then (g, Inl (OperationError ''resource_not_found'' (''unknown resource '' @ py_repr res)))
          else
            let s = \<lparr>owner = own, g_resource = res, timeout_ms = 5000, read_termination = None,
                     write_termination = None, pending = None\<rparr>;
                g1 = g\<lparr>sessions := AList.update (token d) s (sessions g)\<rparr> in
            case role_for (rack g) res of
              Inl e \<Rightarrow> (g1, Inl (InstrumentError e))
            | Inr rl \<Rightarrow>
                let g2 = g1\<lparr>rack := (rack g1)\<lparr>rack_world := note_session_reopen rl (rack_world (rack g1))\<rparr>\<rparr> in
                journaled g2 (record_session rt d ''open_resource'' (token d) s (gw_snapshot g2)
                  (plain_entry\<lparr>l_request := Some res\<rparr>) g2) (JStr (token d)))"

definition put_session :: "string \<Rightarrow> GatewaySession \<Rightarrow> GatewayServer \<Rightarrow> GatewayServer" where
  \<comment> \<open>an assignment to an attribute of the session object\<close>
  "put_session sid s g = g\<lparr>sessions := AList.update sid s (sessions g)\<rparr>"

definition op_set_timeout ::
  "runtime \<Rightarrow> draw \<Rightarrow> string \<Rightarrow> GatewaySession \<Rightarrow> (string \<times> string json) list \<Rightarrow> GatewayServer \<Rightarrow> string json outcome" where
  "op_set_timeout rt d sid s args g =
     (case timeout_of args of
        Inl e \<Rightarrow> (g, Inl e)
      | Inr (ms, text) \<Rightarrow>
          let s' = s\<lparr>timeout_ms := ms\<rparr>; g1 = put_session sid s' g in
          journaled g1 (record_session rt d ''set_timeout'' sid s' (gw_snapshot g)
            (plain_entry\<lparr>l_request := Some text\<rparr>) g1) (JBool True))"

definition option_text :: "string option \<Rightarrow> string" where
  \<comment> \<open>\<^verbatim>\<open>str(x)\<close> of an optional string\<close>
  "option_text x = (case x of None \<Rightarrow> ''None'' | Some s \<Rightarrow> s)"

definition op_set_termination ::
  "runtime \<Rightarrow> draw \<Rightarrow> bool \<Rightarrow> string \<Rightarrow> GatewaySession \<Rightarrow> (string \<times> string json) list \<Rightarrow> GatewayServer \<Rightarrow>
     string json outcome" where
  "op_set_termination rt d reading sid s args g =
     (case termination_of args of
        Inl e \<Rightarrow> (g, Inl e)
      | Inr t \<Rightarrow>
          let s' = (if reading then s\<lparr>read_termination := t\<rparr> else s\<lparr>write_termination := t\<rparr>);
              g1 = put_session sid s' g in
          journaled g1 (record_session rt d (if reading then ''set_read_termination'' else ''set_write_termination'')
            sid s' (gw_snapshot g) (plain_entry\<lparr>l_request := Some (option_text t)\<rparr>) g1) (JBool True))"

definition terminated_payload :: "GatewaySession \<Rightarrow> string \<Rightarrow> string" where
  "terminated_payload s payload =
     (case write_termination s of
        None \<Rightarrow> payload
      | Some ending \<Rightarrow> if ending \<noteq> [] \<and> \<not> ends_with ending payload then payload @ ending else payload)"

definition handled :: "instr_error \<Rightarrow> bool" where
  \<comment> \<open>\<^verbatim>\<open>except (CommandError, KeyError)\<close>\<close>
  "handled e = (case e of CommandError _ \<Rightarrow> True | Rejected (KeyError _) \<Rightarrow> True | _ \<Rightarrow> False)"

definition op_write ::
  "runtime \<Rightarrow> WorldSpec \<Rightarrow> draw \<Rightarrow> string \<Rightarrow> GatewaySession \<Rightarrow> (string \<times> string json) list \<Rightarrow> GatewayServer \<Rightarrow>
     string json outcome" where
  "op_write rt sp d sid s args g =
     (case decode_payload args of
        Inl e \<Rightarrow> (g, Inl e)
      | Inr raw \<Rightarrow>
          let payload = terminated_payload s raw; before = gw_snapshot g in
          (case rack_write rt sp (g_resource s) payload (rack g) of
             (rk, Inl e) \<Rightarrow>
               let g1 = g\<lparr>rack := rk\<rparr> in
               if handled e then
                 (case record_session rt d ''write'' sid s before (plain_entry\<lparr>l_request := Some payload,
                    l_outcome := ''error'', l_error_code := Some ''instrument_error''\<rparr>) g1 of
                    Inl e' \<Rightarrow> (g1, Inl e')
                  | Inr g2 \<Rightarrow> (g2, Inl (InstrumentError e)))
               else (g1, Inl (InstrumentError e))
           | (rk, Inr answer) \<Rightarrow>
               let g1 = g\<lparr>rack := rk\<rparr> in
               if answer \<noteq> None \<and> pending s \<noteq> None
               then (g1, Inl (OperationError ''pending_response'' ''read the pending response before another query''))
               else
                 let s' = (if answer \<noteq> None then s\<lparr>pending := answer\<rparr> else s); g2 = put_session sid s' g1 in
                 journaled g2 (record_session rt d ''write'' sid s' before
                   (plain_entry\<lparr>l_request := Some payload, l_response := answer\<rparr>) g2)
                   (JObj [(''bytes_written'', JInt (int (length payload)))])))"

definition op_read ::
  "runtime \<Rightarrow> draw \<Rightarrow> string \<Rightarrow> GatewaySession \<Rightarrow> GatewayServer \<Rightarrow> string json outcome" where
  "op_read rt d sid s g =
     (case pending s of
        None \<Rightarrow> (g, Inl (OperationError ''no_pending_response'' ''session has no pending response''))
      | Some payload \<Rightarrow>
          let s' = s\<lparr>pending := None\<rparr>; g1 = put_session sid s' g in
          journaled g1 (record_session rt d ''read'' sid s' (gw_snapshot g)
            (plain_entry\<lparr>l_response := Some payload\<rparr>) g1) (JObj [(''payload_b64'', JStr (b64_encode payload))]))"

definition drop_session :: "string \<Rightarrow> GatewayServer \<Rightarrow> GatewayServer" where
  "drop_session sid g = g\<lparr>sessions := AList.delete sid (sessions g)\<rparr>"

definition op_close ::
  "runtime \<Rightarrow> draw \<Rightarrow> string \<Rightarrow> GatewaySession \<Rightarrow> GatewayServer \<Rightarrow> string json outcome" where
  "op_close rt d sid s g =
     (case record_session rt d ''close'' sid s (gw_snapshot g)
        (plain_entry\<lparr>l_cleanup_source := Some ''candidate''\<rparr>) g of
        Inl e \<Rightarrow> (g, Inl e)
      | Inr g1 \<Rightarrow> (drop_session sid g1, Inr (JBool True)))"

definition session_operation ::
  "runtime \<Rightarrow> WorldSpec \<Rightarrow> draw \<Rightarrow> string \<Rightarrow> string \<Rightarrow> GatewaySession \<Rightarrow> (string \<times> string json) list \<Rightarrow> GatewayServer \<Rightarrow>
     string json outcome" where
  "session_operation rt sp d op sid s args g =
     (if op = ''set_timeout'' then op_set_timeout rt d sid s args g
      else if op = ''set_read_termination'' then op_set_termination rt d True sid s args g
      else if op = ''set_write_termination'' then op_set_termination rt d False sid s args g
      else if op = ''write'' then op_write rt sp d sid s args g
      else if op = ''read'' then op_read rt d sid s g
      else if op = ''close'' then op_close rt d sid s g
      else (g, Inl (OperationError ''unsupported_operation'' (''unsupported operation '' @ py_repr op))))"

definition dispatch ::
  "runtime \<Rightarrow> WorldSpec \<Rightarrow> draw \<Rightarrow> string \<Rightarrow> string \<Rightarrow> (string \<times> string json) list \<Rightarrow> GatewayServer \<Rightarrow> string json outcome" where
  "dispatch rt sp d own op args g0 =
     (let g = sync_clock (sync_ns d) g0 in
      if op = ''protocol_version'' then (g, Inr (JInt PROTOCOL_VERSION))
      else if op = ''list_resources'' then op_list_resources rt d g
      else if op = ''open_resource'' then op_open rt d own args g
      else
        case required_str args ''session'' of
          Inl e \<Rightarrow> (g, Inl e)
        | Inr sid \<Rightarrow>
            (case owned_session g own sid of
               Inl e \<Rightarrow> (g, Inl e)
             | Inr s \<Rightarrow> session_operation rt sp d op sid s args g))"

section \<open>Clients\<close>

fun force_close ::
  "runtime \<Rightarrow> draw \<Rightarrow> (string \<times> GatewaySession) list \<Rightarrow> GatewayServer \<Rightarrow> GatewayServer" where
  \<comment> \<open>stops where the journal entry raises\<close>
  "force_close rt d [] g = g"
| "force_close rt d ((sid, s) # leaked) g =
     (case record_session rt d ''close'' sid s (gw_snapshot g)
        (plain_entry\<lparr>l_cleanup_source := Some ''forced''\<rparr>) g of
        Inl _ \<Rightarrow> g
      | Inr g1 \<Rightarrow> force_close rt d leaked (drop_session sid g1))"

definition force_close_owner :: "runtime \<Rightarrow> draw \<Rightarrow> string \<Rightarrow> GatewayServer \<Rightarrow> GatewayServer" where
  "force_close_owner rt d own g =
     force_close rt d (filter (\<lambda>(sid, s). owner s = own) (sessions g)) g"

fun py_str_json :: "runtime \<Rightarrow> string json \<Rightarrow> string" where
  \<comment> \<open>\<^verbatim>\<open>repr(v)\<close>\<close>
  "py_str_json rt JNull = ''None''"
| "py_str_json rt (JBool b) = (if b then ''True'' else ''False'')"
| "py_str_json rt (JInt n) = show_int n"
| "py_str_json rt (JFloat x) =
     (case x of Fin q \<Rightarrow> float_repr rt q | PosInf \<Rightarrow> ''inf'' | NegInf \<Rightarrow> ''-inf'' | NaN \<Rightarrow> ''nan'')"
| "py_str_json rt (JStr s) = py_repr s"
| "py_str_json rt (JList vs) = ''['' @ join '', '' (map (py_str_json rt) vs) @ '']''"
| "py_str_json rt (JObj kvs) =
     ''{'' @ join '', '' (map (\<lambda>(k, v). py_repr k @ '': '' @ py_str_json rt v) kvs) @ ''}''"

definition request_id_text :: "runtime \<Rightarrow> (string \<times> string json) list \<Rightarrow> string" where
  \<comment> \<open>\<^verbatim>\<open>str(request.get("request_id", "invalid"))\<close>\<close>
  "request_id_text rt req =
     (case json_get_or req ''request_id'' (JStr ''invalid'') of JStr s \<Rightarrow> s | v \<Rightarrow> py_str_json rt v)"

definition error_response :: "string \<Rightarrow> string \<Rightarrow> string \<Rightarrow> string json" where
  "error_response rid code msg = JObj
     [(''version'', JInt PROTOCOL_VERSION), (''request_id'', JStr rid), (''ok'', JBool False),
      (''error'', JObj [(''code'', JStr code), (''message'', JStr msg)])]"

definition instr_text :: "instr_error \<Rightarrow> string" where
  "instr_text e = (case e of CommandError m \<Rightarrow> m | Rejected x \<Rightarrow> error_text x | Unhandled m \<Rightarrow> m)"

definition respond ::
  "runtime \<Rightarrow> (string \<times> string json) list \<Rightarrow> gateway_error + string \<times> string json \<Rightarrow> string json option" where
  \<comment> \<open>the response of one turn of the client loop; \<^verbatim>\<open>None\<close> where an exception ends the thread\<close>
  "respond rt req r =
     (case r of
        Inr (rid, v) \<Rightarrow> Some (JObj [(''version'', JInt PROTOCOL_VERSION), (''request_id'', JStr rid),
          (''ok'', JBool True), (''result'', v)])
      | Inl (ProtocolError code) \<Rightarrow> Some (error_response (request_id_text rt req) code code)
      | Inl (OperationError code msg) \<Rightarrow> Some (error_response (request_id_text rt req) code msg)
      | Inl (InstrumentError e) \<Rightarrow>
          if handled e then Some (error_response (request_id_text rt req) ''instrument_error'' (instr_text e))
          else None)"

definition serve_request ::
  "runtime \<Rightarrow> WorldSpec \<Rightarrow> draw \<Rightarrow> string \<Rightarrow> (string \<times> string json) list \<Rightarrow> GatewayServer \<Rightarrow>
     GatewayServer \<times> string option" where
  \<comment> \<open>the new state and the frame sent; without a frame the connection ends\<close>
  "serve_request rt sp d own req g =
     (case validate_request req of
        Inl e \<Rightarrow> (g, Option.bind (respond rt req (Inl e)) (send_frame rt))
      | Inr (rid, op, args) \<Rightarrow>
          (case dispatch rt sp d own op args g of
             (g', Inl e) \<Rightarrow> (g', Option.bind (respond rt req (Inl e)) (send_frame rt))
           | (g', Inr v) \<Rightarrow> (g', Option.bind (respond rt req (Inr (rid, v))) (send_frame rt))))"

fun serve_client ::
  "runtime \<Rightarrow> WorldSpec \<Rightarrow> string \<Rightarrow> (draw \<times> (string \<times> string json) list) list \<Rightarrow> draw \<Rightarrow> GatewayServer \<Rightarrow>
     string list \<times> GatewayServer" where
  \<comment> \<open>one connection: the frames sent and the state after the cleanup\<close>
  "serve_client rt sp own [] d g = ([], force_close_owner rt d own g)"
| "serve_client rt sp own ((d0, req) # reqs) d g =
     (case serve_request rt sp d0 own req g of
        (g', None) \<Rightarrow> ([], force_close_owner rt d own g')
      | (g', Some frame) \<Rightarrow>
          (case serve_client rt sp own reqs d g' of (frames, g'') \<Rightarrow> (frame # frames, g'')))"

definition stop :: "GatewayServer \<Rightarrow> GatewayServer" where
  \<comment> \<open>after all client threads ended\<close>
  "stop g = g\<lparr>sessions := []\<rparr>"

section \<open>Frames\<close>

lemma send_frame_layout:
  "send_frame rt v = Some bytes \<Longrightarrow> \<exists>payload. payload = dumps (float_repr rt) v \<and>
     int (length payload) \<le> MAX_FRAME_BYTES \<and> bytes = big_endian 4 (int (length payload)) @ payload"
  by (auto simp: send_frame_def Let_def split: if_splits)

end
