(* ===== verification/Worlds.thy ===== *)
theory Worlds
  imports Dut_World
begin

text \<open>
  The worlds of the PyVISA evaluator, version 1
  (\<^verbatim>\<open>sources/pyvisa/pyvisa_dut_validation_v1/worlds/__init__.py\<close>): the validation every specification
  passes and the generator of the repeated worlds. Reading the YAML files is outside. The lemmas
  show that the generator never raises and what a validated specification guarantees.
\<close>

datatype world_config_error = WorldConfigError string | WorldCountError string

definition TARGET_ROLES :: "string list" where
  "TARGET_ROLES = [''psu'', ''switch'', ''awg'', ''scope'', ''dmm'']"

definition validate_spec :: "WorldSpec \<Rightarrow> string \<Rightarrow> world_config_error + unit" where
  "validate_spec sp path =
     (let roles = map fst (resource_map sp); resources = map snd (resource_map sp);
          all_resources = resources @ map fst (distractors sp) in
      bind_res (require (set roles = set TARGET_ROLES \<and> length roles = 5)
        (WorldConfigError (path @ '' resource_map must define five target roles''))) (\<lambda>_.
      bind_res (require (distinct resources) (WorldConfigError (path @ '' target resources must be unique''))) (\<lambda>_.
      bind_res (require (length (distractors sp) \<le> 3)
        (WorldConfigError (path @ '' must contain zero through three distractors''))) (\<lambda>_.
      bind_res (require (distinct all_resources) (WorldConfigError (path @ '' resources must be unique''))) (\<lambda>_.
      bind_res (require (dmm_format sp \<in> {''decimal'', ''scientific''})
        (WorldConfigError (path @ '' has invalid dmm_format''))) (\<lambda>_.
      bind_res (require (1 \<le> binary_length_digits sp \<and> binary_length_digits sp \<le> 3)
        (WorldConfigError (path @ '' has invalid binary_length_digits''))) (\<lambda>_.
      require (1 \<le> settle_ms sp) (WorldConfigError (path @ '' settle_ms must be positive'')))))))))"

definition resources_by_role :: "int \<Rightarrow> int \<Rightarrow> (string, string) dict" where
  "resources_by_role index sd =
     [(''psu'', ''TCPIP0::198.51.100.'' @ show_int (10 + index) @ ''::inst0::INSTR''),
      (''switch'', ''GPIB'' @ show_int (index mod 2) @ ''::'' @ show_int (8 + index) @ ''::INSTR''),
      (''awg'', ''USB0::0x0957::0x2C07::AWG'' @ show_int sd @ ''::0::INSTR''),
      (''scope'', ''TCPIP0::203.0.113.'' @ show_int (20 + index) @ ''::inst0::INSTR''),
      (''dmm'', ''USB0::0x05E6::0x7510::DMM'' @ show_int sd @ ''::0::INSTR'')]"

definition role_order :: "int \<Rightarrow> string list" where
  "role_order index = rotate (nat (index mod 5)) TARGET_ROLES"

definition repeated_spec :: "int \<Rightarrow> int \<Rightarrow> WorldSpec" where
  "repeated_spec base_seed index =
     (let sd = base_seed + index; step = of_int (index mod 3 - 1); flaky = (index mod 4 = 3) in
      (nominal sd)
        \<lparr>spec_world_id := ''repeated_'' @ pad_zeros 3 (show_int index),
         gain := (if index mod 5 = 4 then fl (178 / 100) else fadd 2 (fmul step (fl (5 / 1000)))),
         offset_v := fmul step (fl (2 / 1000)),
         dmm_format := (if index mod 2 \<noteq> 0 then ''scientific'' else ''decimal''),
         binary_length_digits := nat (index mod 3 + 1),
         settle_ms := 200 + index mod 4 * 75,
         resource_map := map (\<lambda>rl. (rl, the (map_of (resources_by_role index sd) rl))) (role_order index),
         distractors := (if index mod 2 \<noteq> 0
           then [(''TCPIP0::192.0.2.'' @ show_int (100 + index) @ ''::inst0::INSTR'',
                  ''IAB,Virtual-Logger,D'' @ show_int sd @ '',1.0'')] else []),
         transient_error_role := (if flaky then Some ''dmm'' else None),
         transient_error_command := (if flaky then Some ''*IDN?'' else None),
         transient_error_count := (if flaky then 1 else 0)\<rparr>)"

definition repeated_specs :: "int \<Rightarrow> int \<Rightarrow> world_config_error + WorldSpec list" where
  "repeated_specs count' base_seed =
     (if count' < 1 then Inl (WorldCountError ''repeated world count must be positive'')
      else traverse (\<lambda>index.
        let sp = repeated_spec base_seed index in
        bind_res (validate_spec sp (''<generated:'' @ show_int index @ ''>'')) (\<lambda>_. Inr sp)) [0..count' - 1])"

section \<open>Lemmas\<close>

lemma validated_spec:
  assumes "validate_spec sp path = Inr u"
  shows "set (map fst (resource_map sp)) = set TARGET_ROLES" "distinct (map fst (resource_map sp))"
    "distinct (map snd (resource_map sp) @ map fst (distractors sp))"
    "1 \<le> binary_length_digits sp" "binary_length_digits sp \<le> 3" "1 \<le> settle_ms sp"
    "dmm_format sp \<in> {''decimal'', ''scientific''}"
proof -
  have v: "set (map fst (resource_map sp)) = set TARGET_ROLES" "length (resource_map sp) = 5"
    "distinct (map snd (resource_map sp) @ map fst (distractors sp))"
    "1 \<le> binary_length_digits sp" "binary_length_digits sp \<le> 3" "1 \<le> settle_ms sp"
    "dmm_format sp \<in> {''decimal'', ''scientific''}"
    using assms unfolding validate_spec_def Let_def bind_res_Inr_iff require_simps by (blast, simp, blast+)
  have "card (set TARGET_ROLES) = 5" by (simp add: TARGET_ROLES_def)
  then show "distinct (map fst (resource_map sp))"
    using v(1,2) by (metis card_distinct length_map)
  show "set (map fst (resource_map sp)) = set TARGET_ROLES"
    "distinct (map snd (resource_map sp) @ map fst (distractors sp))"
    "1 \<le> binary_length_digits sp" "binary_length_digits sp \<le> 3" "1 \<le> settle_ms sp"
    "dmm_format sp \<in> {''decimal'', ''scientific''}" by (fact v)+
qed

lemma role_order_set: "set (role_order index) = set TARGET_ROLES" "length (role_order index) = 5"
    "distinct (role_order index)"
  by (simp_all add: role_order_def TARGET_ROLES_def)

lemma resources_by_role_distinct:
  "distinct (map snd (resources_by_role index sd))"
  "distractor \<in> {''TCPIP0::192.0.2.'' @ t} \<Longrightarrow> distractor \<notin> set (map snd (resources_by_role index sd))"
  by (auto simp: resources_by_role_def)

lemma repeated_spec_valid: "0 \<le> index \<Longrightarrow> validate_spec (repeated_spec base index) path = Inr ()"
proof -
  assume i: "0 \<le> index"
  let ?sp = "repeated_spec base index"
  let ?res = "\<lambda>rl. the (map_of (resources_by_role index (base + index)) rl)"
  have rm: "resource_map ?sp = map (\<lambda>rl. (rl, ?res rl)) (role_order index)"
    by (simp add: repeated_spec_def Let_def)
  have inj: "inj_on ?res (set TARGET_ROLES)"
    by (auto simp: inj_on_def TARGET_ROLES_def resources_by_role_def)
  have d: "distinct (map snd (resource_map ?sp))"
    using inj role_order_set by (simp add: rm comp_def distinct_map)
  have "?res ` set TARGET_ROLES \<inter> fst ` set (distractors ?sp) = {}"
    by (auto simp: repeated_spec_def Let_def TARGET_ROLES_def resources_by_role_def)
  then have dd: "distinct (map snd (resource_map ?sp) @ map fst (distractors ?sp))"
    using d role_order_set(1) by (auto simp: rm repeated_spec_def Let_def comp_def)
  have rest: "map fst (resource_map ?sp) = role_order index" "length (distractors ?sp) \<le> 3"
    "dmm_format ?sp \<in> {''decimal'', ''scientific''}" "1 \<le> binary_length_digits ?sp"
    "binary_length_digits ?sp \<le> 3" "1 \<le> settle_ms ?sp"
    by (simp_all add: repeated_spec_def Let_def comp_def)
  show ?thesis
    unfolding validate_spec_def Let_def
    using d dd rest role_order_set by (simp add: require_def)
qed

lemma traverse_all: "(\<And>x. x \<in> set xs \<Longrightarrow> f x = Inr (g x)) \<Longrightarrow> traverse f xs = Inr (map g xs)"
  by (induction xs) auto

section \<open>Properties\<close>

text \<open>
  C38. The generator of repeated worlds never raises for a positive count: it returns exactly that many
  specifications, in order, and each of them satisfies what the validation demands of every world
  (five distinct roles with distinct resources, at most three further instruments, a format and a block
  header the instruments support, a positive settling time).
\<close>

theorem repeated_specs_total:
  assumes "1 \<le> n"
  shows "\<exists>sps. repeated_specs n base = Inr sps \<and> sps = map (repeated_spec base) [0..n - 1] \<and> length sps = nat n \<and>
    (\<forall>sp \<in> set sps. set (map fst (resource_map sp)) = set TARGET_ROLES \<and> distinct (map fst (resource_map sp)) \<and>
       distinct (map snd (resource_map sp) @ map fst (distractors sp)) \<and>
       binary_length_digits sp \<in> {1..3} \<and> 1 \<le> settle_ms sp)"
proof -
  have "repeated_specs n base = Inr (map (repeated_spec base) [0..n - 1])"
    unfolding repeated_specs_def using assms
    by (simp add: Let_def) (rule traverse_all, simp add: repeated_spec_valid)
  moreover have "set (map fst (resource_map sp)) = set TARGET_ROLES \<and> distinct (map fst (resource_map sp)) \<and>
       distinct (map snd (resource_map sp) @ map fst (distractors sp)) \<and>
       binary_length_digits sp \<in> {1..3} \<and> 1 \<le> settle_ms sp"
    if sp: "sp \<in> set (map (repeated_spec base) [0..n - 1])" for sp
  proof -
    from sp obtain i where "0 \<le> i" "sp = repeated_spec base i" by auto
    then have "validate_spec sp [] = Inr ()" by (simp add: repeated_spec_valid)
    from validated_spec [OF this] show ?thesis by simp
  qed
  ultimately show ?thesis by auto
qed

theorem repeated_specs_total_witness:
  "\<exists>sps. repeated_specs 7 10000 = Inr sps \<and> length sps = 7"
  using repeated_specs_total [of 7 10000] by auto

end
