(* ===== verification/Gateway_Sessions.thy ===== *)
theory Gateway_Sessions
  imports Gateway Worlds
begin

text \<open>
  What the gateway promises about sessions. The abstract specification is a registry: which session
  belongs to which client and instrument, and the log of openings and closings. The table and the
  evidence journal of \<^verbatim>\<open>GatewayServer\<close> are shown to implement it step by step, so that the life of
  every session can be read off the journal the grader sees. Tokens drawn for session ids are assumed
  not to repeat, as \<^verbatim>\<open>secrets.token_urlsafe(24)\<close> documents.
\<close>

declare map_of_eq_Some_iff [simp del]

section \<open>Invariant\<close>

definition rack_known :: "InstrumentRack \<Rightarrow> bool" where
  \<comment> \<open>every listed resource has a role\<close>
  "rack_known rk \<longleftrightarrow> set (rack_resources rk) \<subseteq> set (dict_keys (rack_roles rk))"

definition gw_ok :: "WorldSpec \<Rightarrow> GatewayServer \<Rightarrow> bool" where
  "gw_ok sp g \<longleftrightarrow> distinct (map fst (sessions g)) \<and> rack_inv sp (rack g) \<and> rack_known (rack g) \<and>
     sequences_ok (j_events (journal g)) \<and>
     (\<forall>sid s. map_of (sessions g) sid = Some s \<longrightarrow> g_resource s \<in> set (rack_resources (rack g)))"

lemma dict_of_snoc: "dict_of (kvs @ [(k, v)]) = AList.update k v (dict_of kvs)"
  by (simp add: dict_of_def)

lemma dict_of_keys: "set (dict_keys (dict_of kvs)) = fst ` set kvs"
proof (induction kvs rule: rev_induct)
  case (snoc kv kvs)
  have "fst ` set (AList.update k v d) = insert k (fst ` set d)" for k :: 'a and v :: 'b and d
    using dom_update [of k v d] by simp
  with snoc show ?case by (cases kv) (simp add: dict_of_snoc dict_keys_def)
qed (simp add: dict_of_def)

lemma update_new: "k \<notin> fst ` set al \<Longrightarrow> AList.update k v al = al @ [(k, v)]"
  by (induction al) auto

lemma dict_of_distinct: "distinct (map fst kvs) \<Longrightarrow> dict_of kvs = kvs"
proof (induction kvs rule: rev_induct)
  case Nil
  show ?case by (simp add: dict_of_def)
next
  case (snoc kv kvs)
  then show ?case by (cases kv) (simp add: dict_of_snoc update_new)
qed

lemma new_rack_known:
  assumes "distinct (map fst (resource_map sp))" and "new_rack listed b sp = Inr rk"
  shows "rack_known rk"
proof -
  obtain r k where r: "set (rack_resources rk) = set r" and k: "rack_roles rk = k"
    and d: "r = (if resource_map sp = [] then dict_keys RESOURCE_ROLES else map snd (resource_map sp)) @ map fst (distractors sp)"
      "k = dict_of (map (\<lambda>(rl, res). (res, rl)) (role_resources sp) @
             map (\<lambda>(res, ident). (res, ''distractor'')) (distractors sp))"
  proof
    show "set (rack_resources rk) = set ((if resource_map sp = [] then dict_keys RESOURCE_ROLES
        else map snd (resource_map sp)) @ map fst (distractors sp))"
      using assms(2) unfolding new_rack_def Let_def by (elim if_eqE) (simp, simp, clarsimp simp: Un_commute)
    show "rack_roles rk = dict_of (map (\<lambda>(rl, res). (res, rl)) (role_resources sp) @
             map (\<lambda>(res, ident). (res, ''distractor'')) (distractors sp))"
      using assms(2) unfolding new_rack_def Let_def by (elim if_eqE) (simp, simp, clarsimp)
  qed simp_all
  have "(if resource_map sp = [] then set (dict_keys RESOURCE_ROLES) else snd ` set (resource_map sp))
      = snd ` set (role_resources sp)"
  proof (cases "resource_map sp = []")
    case True
    have "dict_of (map (\<lambda>(res, rl). (rl, res)) RESOURCE_ROLES) = map (\<lambda>(res, rl). (rl, res)) RESOURCE_ROLES"
      by (rule dict_of_distinct) (simp add: RESOURCE_ROLES_def)
    then have "role_resources sp = map (\<lambda>(res, rl). (rl, res)) RESOURCE_ROLES"
      using True by (simp add: role_resources_def dict_of_def)
    with True show ?thesis by (simp add: dict_keys_def image_image case_prod_beta)
  next
    case False
    then show ?thesis using dict_of_distinct [OF assms(1)] by (simp add: role_resources_def)
  qed
  moreover have "set (dict_keys k) = snd ` set (role_resources sp) \<union> fst ` set (distractors sp)"
    unfolding d dict_of_keys by (simp add: image_Un image_image case_prod_beta)
  ultimately show ?thesis
    unfolding rack_known_def r k by (simp add: d(1) split: if_splits)
qed

lemma role_known:
  assumes "rack_known rk" "res \<in> set (rack_resources rk)"
  obtains rl where "role_for rk res = Inr rl"
proof -
  have "res \<in> fst ` set (rack_roles rk)" using assms by (auto simp: rack_known_def dict_keys_def)
  then obtain rl where "map_of (rack_roles rk) res = Some rl" by (metis map_of_eq_None_iff not_None_eq)
  then show ?thesis using that by (simp add: role_for_def)
qed

section \<open>One journal entry\<close>

definition journal_event :: "GatewayServer \<Rightarrow> EvidenceEvent \<Rightarrow> GatewayServer" where
  "journal_event g e = g\<lparr>journal := (journal g)\<lparr>j_events := j_events (journal g) @ [e]\<rparr>\<rparr>"

lemma journal_event_simps [simp]:
  "sessions (journal_event g e) = sessions g" "rack (journal_event g e) = rack g"
  "j_events (journal (journal_event g e)) = j_events (journal g) @ [e]"
  by (simp_all add: journal_event_def)

lemma record_session_known:
  assumes "rack_known (rack g)" "g_resource s \<in> set (rack_resources (rack g))"
  obtains e where "record_session rt d op sid s before l g = Inr (journal_event g e)"
    "operation e = op" "session_digest e = Some (sha256 rt sid)" "cleanup_source e = l_cleanup_source l"
    "e_sequence e = int (length (j_events (journal g))) + 1" "request e = l_request l" "response e = l_response l"
    "e_outcome e = l_outcome l" "resource e = Some (g_resource s)" "role_for (rack g) (g_resource s) = Inr (the (role e))"
    "state_before e = before" "state_after e = gw_snapshot g"
proof -
  obtain rl where "role_for (rack g) (g_resource s) = Inr rl" using role_known [OF assms] by blast
  then have "record_session rt d op sid s before l g = Inr (journal_event g
      (last (j_events (evidence_append rt (journal_ns d)
            (log_args op before (gw_snapshot g)\<lparr>a_session := Some sid, a_resource := Some (g_resource s),
               a_role := Some rl, a_request := l_request l, a_response := l_response l,
               a_cleanup_source := l_cleanup_source l, a_outcome := l_outcome l,
               a_error_code := l_error_code l\<rparr>) (journal g)))))"
    by (simp add: record_session_def evidence_append_def journal_event_def)
  then show ?thesis
    by (rule that) (use \<open>role_for _ _ = Inr rl\<close> in \<open>simp_all add: evidence_append_def log_args_def\<close>)
qed

lemma sequences_ok_event:
  "sequences_ok es \<Longrightarrow> e_sequence e = int (length es) + 1 \<Longrightarrow> sequences_ok (es @ [e])"
  by (simp add: sequences_ok_def)

section \<open>Clock\<close>

lemma sync_clock_same [simp]:
  "sessions (sync_clock now g) = sessions g" "journal (sync_clock now g) = journal g"
  "rack_roles (rack (sync_clock now g)) = rack_roles (rack g)"
  "rack_resources (rack (sync_clock now g)) = rack_resources (rack g)"
  by (simp_all add: sync_clock_def Let_def split: sum.splits)

lemma rack_inv_world:
  "rack_inv sp rk \<Longrightarrow> world_run sp w \<Longrightarrow> psu_output w = psu_output (rack_world rk) \<Longrightarrow>
     awg_output w = awg_output (rack_world rk) \<Longrightarrow> rack_inv sp (rk\<lparr>rack_world := w\<rparr>)"
  by (simp add: rack_inv_def psu_inv_def awg_inv_def)

lemma rack_inv_run: "rack_inv sp rk \<Longrightarrow> world_run sp (rack_world rk)"
  by (simp add: rack_inv_def psu_inv_def)

lemma sync_clock_rack_inv: "rack_inv sp (rack g) \<Longrightarrow> rack_inv sp (rack (sync_clock now g))"
proof -
  assume I: "rack_inv sp (rack g)"
  have "rack_inv sp ((rack g)\<lparr>rack_world := w\<rparr>)" if "advance_ms n (rack_world (rack g)) = Inr w" for n w
    using that by (intro rack_inv_world [OF I] world_run.tick [OF rack_inv_run [OF I] that])
      (auto simp: advance_ms_def split: if_splits)
  with I show ?thesis by (auto simp: sync_clock_def Let_def split: sum.splits)
qed

lemma rack_inv_reopen:
  "rack_inv sp rk \<Longrightarrow> rack_inv sp (rk\<lparr>rack_world := note_session_reopen rl (rack_world rk)\<rparr>)"
  by (rule rack_inv_world [OF _ world_run.reopen [OF rack_inv_run]]) (auto simp: note_session_reopen_def)

lemma gw_ok_sync: "gw_ok sp g \<Longrightarrow> gw_ok sp (sync_clock now g)"
  by (simp add: gw_ok_def sync_clock_rack_inv rack_known_def)

section \<open>The registry\<close>

datatype 'i life_event = Opened 'i | Closed 'i "string option"
  \<comment> \<open>a closing with its source\<close>

record registry =
  live :: "string \<Rightarrow> (string \<times> string) option"
    \<comment> \<open>owner and resource of every open session\<close>
  life_log :: "string life_event list"

fun life_id :: "'i life_event \<Rightarrow> 'i" where
  "life_id (Opened i) = i"
| "life_id (Closed i _) = i"

inductive reg_step :: "string \<Rightarrow> registry \<Rightarrow> registry \<Rightarrow> bool" for own :: string where
  idle: "reg_step own r r"
| opens: "i \<notin> life_id ` set (life_log r) \<Longrightarrow>
    reg_step own r \<lparr>live = (live r)(i \<mapsto> (own, res)), life_log = life_log r @ [Opened i]\<rparr>"
| closes: "live r i = Some (own, res) \<Longrightarrow>
    reg_step own r \<lparr>live = (live r)(i := None), life_log = life_log r @ [Closed i (Some ''candidate'')]\<rparr>"

definition reg_drop :: "string list \<Rightarrow> registry \<Rightarrow> registry" where
  \<comment> \<open>the sessions of a client that went away\<close>
  "reg_drop ids r = \<lparr>live = (\<lambda>i. if i \<in> set ids then None else live r i),
     life_log = life_log r @ map (\<lambda>i. Closed i (Some ''forced'')) ids\<rparr>"

definition life_event_of :: "EvidenceEvent \<Rightarrow> string option life_event option" where
  "life_event_of e =
     (if operation e = ''open_resource'' then Some (Opened (session_digest e))
      else if operation e = ''close'' then Some (Closed (session_digest e) (cleanup_source e))
      else None)"

definition life_of :: "EvidenceEvent list \<Rightarrow> string option life_event list" where
  "life_of es = List.map_filter life_event_of es"

definition table :: "GatewayServer \<Rightarrow> string \<Rightarrow> (string \<times> string) option" where
  "table g i = map_option (\<lambda>s. (owner s, g_resource s)) (map_of (sessions g) i)"

definition implements :: "runtime \<Rightarrow> registry \<Rightarrow> GatewayServer \<Rightarrow> bool" where
  \<comment> \<open>the simulation relation: same table, and the journal holds the log by digests\<close>
  "implements rt r g \<longleftrightarrow> live r = table g \<and>
     map (map_life_event (Some \<circ> sha256 rt)) (life_log r) = life_of (j_events (journal g))"

lemma life_of_snoc:
  "life_of (es @ [e]) = life_of es @ (case life_event_of e of None \<Rightarrow> [] | Some x \<Rightarrow> [x])"
  by (simp add: life_of_def List.map_filter_def split: option.split)

definition quiet :: "GatewayServer \<Rightarrow> GatewayServer \<Rightarrow> bool" where
  \<comment> \<open>a step that neither opens nor closes: it may journal, command the rack and update its session\<close>
  "quiet g g' \<longleftrightarrow> table g' = table g \<and> life_of (j_events (journal g')) = life_of (j_events (journal g))"

lemma quiet_implements: "implements rt r g \<Longrightarrow> quiet g g' \<Longrightarrow> implements rt r g'"
  by (simp add: implements_def quiet_def)

section \<open>Effect of the operations\<close>

definition others_same :: "string \<Rightarrow> GatewayServer \<Rightarrow> GatewayServer \<Rightarrow> bool" where
  \<comment> \<open>no session of another client is touched in any field\<close>
  "others_same own g g' \<longleftrightarrow> (\<forall>i s. owner s \<noteq> own \<longrightarrow>
     (map_of (sessions g') i = Some s \<longleftrightarrow> map_of (sessions g) i = Some s))"

definition good :: "WorldSpec \<Rightarrow> string \<Rightarrow> GatewayServer \<Rightarrow> GatewayServer \<Rightarrow> bool" where
  \<comment> \<open>what every operation of a client keeps\<close>
  "good sp own g g' \<longleftrightarrow> gw_ok sp g' \<and> others_same own g g' \<and>
     rack_resources (rack g') = rack_resources (rack g) \<and> rack_roles (rack g') = rack_roles (rack g)"

lemma good_refl: "gw_ok sp g \<Longrightarrow> good sp own g g"
  by (simp add: good_def others_same_def)

lemma good_trans: "good sp own g g' \<Longrightarrow> good sp own g' g'' \<Longrightarrow> good sp own g g''"
  by (simp add: good_def others_same_def)

lemma good_event:
  "gw_ok sp g \<Longrightarrow> e_sequence e = int (length (j_events (journal g))) + 1 \<Longrightarrow> good sp own g (journal_event g e)"
  by (simp add: good_def others_same_def gw_ok_def sequences_ok_event)

lemma good_sync: "gw_ok sp g \<Longrightarrow> good sp own g (sync_clock now g)"
  by (simp add: good_def others_same_def gw_ok_sync)

lemma good_put:
  assumes "gw_ok sp g" "map_of (sessions g) sid = Some s" "owner s = own" "owner s' = own" "g_resource s' = g_resource s"
  shows "good sp own g (put_session sid s' g)" "quiet g (put_session sid s' g)"
  using assms
  by (auto simp: good_def quiet_def table_def others_same_def gw_ok_def put_session_def distinct_update update_conv'
      fun_eq_iff)

lemma good_rack:
  assumes "gw_ok sp g" "rack_write rt sp' res payload (rack g) = (rk, r)"
  shows "good sp own g (g\<lparr>rack := rk\<rparr>)" "quiet g (g\<lparr>rack := rk\<rparr>)"
  using assms rack_inv_write rack_write_same [OF assms(2)]
  by (auto simp: good_def quiet_def table_def others_same_def gw_ok_def rack_known_def)

lemma good_drop:
  "gw_ok sp g \<Longrightarrow> map_of (sessions g) sid = Some s \<Longrightarrow> owner s = own \<Longrightarrow> good sp own g (drop_session sid g)"
  by (auto simp: good_def others_same_def gw_ok_def drop_session_def distinct_delete delete_conv')

lemma gw_ok_put:
  "gw_ok sp g \<Longrightarrow> g_resource s \<in> set (rack_resources (rack g)) \<Longrightarrow> gw_ok sp (put_session sid s g)"
  by (auto simp: gw_ok_def put_session_def distinct_update update_conv')

text \<open>
  A recorded operation of an existing session: the entry is written, and unless it opens or closes
  the registry does not change.
\<close>

lemma session_resource: "gw_ok sp g \<Longrightarrow> map_of (sessions g) sid = Some s \<Longrightarrow> g_resource s \<in> set (rack_resources (rack g))"
  by (simp add: gw_ok_def)

lemma record_ok:
  assumes "gw_ok sp g" "g_resource s \<in> set (rack_resources (rack g))"
  obtains e where "record_session rt d op sid s before l g = Inr (journal_event g e)"
    "good sp own g (journal_event g e)" "table (journal_event g e) = table g"
    "life_event_of e = (if op = ''open_resource'' then Some (Opened (Some (sha256 rt sid)))
      else if op = ''close'' then Some (Closed (Some (sha256 rt sid)) (l_cleanup_source l)) else None)"
proof -
  have "rack_known (rack g)" using assms(1) by (simp add: gw_ok_def)
  from this assms(2) show ?thesis
  proof (rule record_session_known [where rt = rt and d = d and op = op and sid = sid and before = before and l = l])
    fix e assume e: "record_session rt d op sid s before l g = Inr (journal_event g e)" "operation e = op"
      "session_digest e = Some (sha256 rt sid)" "cleanup_source e = l_cleanup_source l"
      "e_sequence e = int (length (j_events (journal g))) + 1"
    show thesis
      by (rule that [OF e(1) good_event [OF assms(1) e(5)]]) (simp_all add: table_def fun_eq_iff life_event_of_def e(2-4))
  qed
qed

lemma journaled_quiet:
  assumes "gw_ok sp g" "g_resource s \<in> set (rack_resources (rack g))" "op \<noteq> ''open_resource''" "op \<noteq> ''close''"
    and "journaled g (record_session rt d op sid s before l g) v = (g', r)"
  shows "good sp own g g'" "quiet g g'"
proof -
  obtain e where e: "record_session rt d op sid s before l g = Inr (journal_event g e)"
    "good sp own g (journal_event g e)" "table (journal_event g e) = table g" "life_event_of e = None"
    using record_ok [OF assms(1,2), of rt d op sid before l own] assms(3,4) by (metis (no_types, lifting))
  then have "g' = journal_event g e" using assms(5) by (simp add: journaled_def)
  with e show "good sp own g g'" "quiet g g'" by (simp_all add: quiet_def life_of_snoc)
qed

lemma quiet_refl: "quiet g g"
  by (simp add: quiet_def)

lemma quiet_trans: "quiet g g' \<Longrightarrow> quiet g' g'' \<Longrightarrow> quiet g g''"
  by (simp add: quiet_def)

definition calm :: "WorldSpec \<Rightarrow> string \<Rightarrow> GatewayServer \<Rightarrow> GatewayServer \<Rightarrow> bool" where
  "calm sp own g g' \<longleftrightarrow> good sp own g g' \<and> quiet g g'"

lemma calm_refl: "gw_ok sp g \<Longrightarrow> calm sp own g g"
  by (simp add: calm_def good_refl quiet_refl)

lemma calm_trans: "calm sp own g g' \<Longrightarrow> calm sp own g' g'' \<Longrightarrow> calm sp own g g''"
  using good_trans quiet_trans by (auto simp: calm_def)

lemma calm_ok: "calm sp own g g' \<Longrightarrow> gw_ok sp g'"
  by (simp add: calm_def good_def)

lemma calm_put:
  assumes "gw_ok sp g" "map_of (sessions g) sid = Some s" "owner s = own" "owner s' = own" "g_resource s' = g_resource s"
  shows "calm sp own g (put_session sid s' g)"
  using good_put [OF assms] by (simp add: calm_def)

lemma calm_put_journaled:
  assumes "journaled (put_session sid s' g) (record_session rt d op sid s' before l (put_session sid s' g)) v = (g', r)"
    and "gw_ok sp g" "map_of (sessions g) sid = Some s" "owner s = own" "owner s' = own" "g_resource s' = g_resource s"
    and "op \<noteq> ''open_resource''" "op \<noteq> ''close''"
  shows "calm sp own g g'"
proof -
  have c: "calm sp own g (put_session sid s' g)" by (rule calm_put) (rule assms)+
  have "g_resource s' \<in> set (rack_resources (rack (put_session sid s' g)))"
    using session_resource [OF assms(2,3)] assms(6) by (simp add: put_session_def)
  from journaled_quiet [OF calm_ok [OF c] this assms(7,8,1)] have "calm sp own (put_session sid s' g) g'"
    by (simp add: calm_def)
  with c show ?thesis by (rule calm_trans)
qed

lemma op_set_timeout_calm:
  assumes "gw_ok sp g" "map_of (sessions g) sid = Some s" "owner s = own" "op_set_timeout rt d sid s args g = (g', r)"
  shows "calm sp own g g'"
proof (cases "timeout_of args")
  case (Inl e)
  then show ?thesis using assms calm_refl by (simp add: op_set_timeout_def)
next
  case (Inr t)
  then show ?thesis
    using assms(4) unfolding op_set_timeout_def Let_def
    by (cases t) (simp, drule calm_put_journaled [OF _ assms(1-3)], use assms(3) in simp_all)
qed

lemma op_set_termination_calm:
  assumes "gw_ok sp g" "map_of (sessions g) sid = Some s" "owner s = own"
    and "op_set_termination rt d reading sid s args g = (g', r)"
  shows "calm sp own g g'"
proof (cases "termination_of args")
  case (Inl e)
  then show ?thesis using assms calm_refl by (simp add: op_set_termination_def)
next
  case (Inr t)
  define s' where "s' = (if reading then s\<lparr>read_termination := t\<rparr> else s\<lparr>write_termination := t\<rparr>)"
  have "journaled (put_session sid s' g) (record_session rt d (if reading then ''set_read_termination''
      else ''set_write_termination'') sid s' (gw_snapshot g) (plain_entry\<lparr>l_request := Some (option_text t)\<rparr>)
      (put_session sid s' g)) (JBool True) = (g', r)"
    using assms(4) Inr by (simp only: op_set_termination_def Let_def s'_def sum.case)
  from calm_put_journaled [OF this assms(1-3)] assms(3) show ?thesis by (simp add: s'_def)
qed

lemma op_read_calm:
  assumes "gw_ok sp g" "map_of (sessions g) sid = Some s" "owner s = own" "op_read rt d sid s g = (g', r)"
  shows "calm sp own g g'"
proof (cases "pending s")
  case None
  then show ?thesis using assms calm_refl by (simp add: op_read_def)
next
  case (Some p)
  then show ?thesis
    using assms(4) unfolding op_read_def Let_def
    by - (simp, drule calm_put_journaled [OF _ assms(1-3)], use assms(3) in simp_all)
qed

lemma calm_record:
  assumes "gw_ok sp g" "g_resource s \<in> set (rack_resources (rack g))" "op \<noteq> ''open_resource''" "op \<noteq> ''close''"
  obtains e where "record_session rt d op sid s before l g = Inr (journal_event g e)" "calm sp own g (journal_event g e)"
proof -
  obtain e where e: "record_session rt d op sid s before l g = Inr (journal_event g e)"
    "good sp own g (journal_event g e)" "table (journal_event g e) = table g" "life_event_of e = None"
    using record_ok [OF assms(1,2), of rt d op sid before l own] assms(3,4) by (metis (no_types, lifting))
  then show ?thesis using that [OF e(1)] by (simp add: calm_def quiet_def life_of_snoc)
qed

lemma op_write_calm:
  assumes "gw_ok sp g" "map_of (sessions g) sid = Some s" "owner s = own" "op_write rt sp' d sid s args g = (g', r)"
  shows "calm sp own g g'"
proof (cases "decode_payload args")
  case (Inl e)
  then show ?thesis using assms calm_refl by (simp add: op_write_def)
next
  case (Inr raw)
  let ?p = "terminated_payload s raw"
  obtain rk q where w: "rack_write rt sp' (g_resource s) ?p (rack g) = (rk, q)" by fastforce
  let ?g = "g\<lparr>rack := rk\<rparr>"
  have c: "calm sp own g ?g" using good_rack [OF assms(1) w] by (simp add: calm_def)
  have s: "map_of (sessions ?g) sid = Some s" "g_resource s \<in> set (rack_resources (rack ?g))"
    using assms(2) session_resource [OF calm_ok [OF c], of sid s] by simp_all
  show ?thesis
  proof (cases q)
    case (Inl e)
    obtain ev where "record_session rt d ''write'' sid s (gw_snapshot g) (plain_entry\<lparr>l_request := Some ?p,
        l_outcome := ''error'', l_error_code := Some ''instrument_error''\<rparr>) ?g = Inr (journal_event ?g ev)"
      "calm sp own ?g (journal_event ?g ev)"
      by (rule calm_record [OF calm_ok [OF c] s(2), where op = "''write''"]) auto
    then show ?thesis
      using assms(4) Inr w Inl c calm_trans by (auto simp: op_write_def Let_def split: if_splits)
  next
    case (Inr answer)
    let ?s = "if answer \<noteq> None then s\<lparr>pending := answer\<rparr> else s"
    have o: "owner ?s = own" "g_resource ?s = g_resource s" using assms(3) by simp_all
    have "calm sp own ?g g'" if "\<not> (answer \<noteq> None \<and> pending s \<noteq> None)"
    proof (rule calm_put_journaled [OF _ calm_ok [OF c] s(1) assms(3) o])
      show "journaled (put_session sid ?s ?g) (record_session rt d ''write'' sid ?s (gw_snapshot g)
          (plain_entry\<lparr>l_request := Some ?p, l_response := answer\<rparr>) (put_session sid ?s ?g))
          (JObj [(''bytes_written'', JInt (int (length ?p)))]) = (g', r)"
        using assms(4) \<open>decode_payload args = Inr raw\<close> w Inr that unfolding op_write_def Let_def
        by (auto split: if_splits)
    qed simp_all
    then show ?thesis
      using assms(4) \<open>decode_payload args = Inr raw\<close> w Inr c calm_trans
      by (cases "answer \<noteq> None \<and> pending s \<noteq> None") (auto simp: op_write_def Let_def)
  qed
qed

definition opened_by :: "runtime \<Rightarrow> string \<Rightarrow> string \<Rightarrow> GatewayServer \<Rightarrow> GatewayServer \<Rightarrow> bool" where
  "opened_by rt own i g g' \<longleftrightarrow> (\<exists>res. table g' = (table g)(i \<mapsto> (own, res)) \<and>
     life_of (j_events (journal g')) = life_of (j_events (journal g)) @ [Opened (Some (sha256 rt i))])"

definition closed_by :: "runtime \<Rightarrow> string \<Rightarrow> string \<Rightarrow> string \<Rightarrow> GatewayServer \<Rightarrow> GatewayServer \<Rightarrow> bool" where
  "closed_by rt src own i g g' \<longleftrightarrow> (\<exists>res. table g i = Some (own, res) \<and> table g' = (table g)(i := None) \<and>
     life_of (j_events (journal g')) = life_of (j_events (journal g)) @ [Closed (Some (sha256 rt i)) (Some src)])"

lemma table_drop: "table (drop_session i g) = (table g)(i := None)"
  by (auto simp: table_def drop_session_def delete_conv' fun_eq_iff)

lemma drop_session_journal [simp]: "journal (drop_session i g) = journal g"
  by (simp add: drop_session_def)

lemma table_put: "table (put_session i s g) = (table g)(i \<mapsto> (owner s, g_resource s))"
  by (auto simp: table_def put_session_def update_conv' fun_eq_iff)

lemma close_entry:
  assumes "gw_ok sp g" "map_of (sessions g) sid = Some s" "owner s = own" "l_cleanup_source l = Some src"
  obtains e where "record_session rt d ''close'' sid s before l g = Inr (journal_event g e)"
    "good sp own g (drop_session sid (journal_event g e))"
    "closed_by rt src own sid g (drop_session sid (journal_event g e))"
proof -
  obtain e where e: "record_session rt d ''close'' sid s before l g = Inr (journal_event g e)"
    "good sp own g (journal_event g e)" "table (journal_event g e) = table g"
    "life_event_of e = Some (Closed (Some (sha256 rt sid)) (Some src))"
    using record_ok [OF assms(1) session_resource [OF assms(1,2)], of rt d "''close''" sid before l own] assms(4)
    by (auto simp: or_empty_def)
  have "good sp own (journal_event g e) (drop_session sid (journal_event g e))"
    using e(2) assms(2,3) by (intro good_drop) (simp_all add: good_def)
  with e assms(2,3) show ?thesis
    by (intro that [OF e(1)]) (auto intro: good_trans simp: closed_by_def table_drop life_of_snoc
        table_def [of g sid])
qed

lemma op_close_effect:
  assumes "gw_ok sp g" "map_of (sessions g) sid = Some s" "owner s = own" "op_close rt d sid s g = (g', r)"
  shows "good sp own g g' \<and> closed_by rt ''candidate'' own sid g g'"
proof -
  obtain e where "record_session rt d ''close'' sid s (gw_snapshot g) (plain_entry\<lparr>l_cleanup_source := Some ''candidate''\<rparr>) g
      = Inr (journal_event g e)" "good sp own g (drop_session sid (journal_event g e))"
    "closed_by rt ''candidate'' own sid g (drop_session sid (journal_event g e))"
    by (rule close_entry [OF assms(1-3)]) auto
  with assms(4) show ?thesis by (simp add: op_close_def)
qed

lemma op_open_effect:
  assumes "gw_ok sp g" "map_of (sessions g) (token d) = None" "op_open rt d own args g = (g', r)"
  shows "good sp own g g' \<and> (quiet g g' \<or> opened_by rt own (token d) g g')"
proof (cases "\<exists>res. required_str args ''resource'' = Inr res \<and> res \<in> set (rack_resources (rack g))")
  case False
  then have "g' = g" using assms(3) unfolding op_open_def by (auto split: sum.splits if_splits)
  then show ?thesis using assms(1) by (simp add: good_refl quiet_refl)
next
  case True
  then obtain res where res: "required_str args ''resource'' = Inr res" "res \<in> set (rack_resources (rack g))" by blast
  have "rack_known (rack g)" using assms(1) by (simp add: gw_ok_def)
  then obtain rl where rl: "role_for (rack g) res = Inr rl" using res(2) by (rule role_known)
  define s where "s = \<lparr>owner = own, g_resource = res, timeout_ms = 5000, read_termination = None,
                     write_termination = None, pending = None\<rparr>"
  define g1 where "g1 = put_session (token d) s g"
  define g2 where "g2 = g1\<lparr>rack := (rack g1)\<lparr>rack_world := note_session_reopen rl (rack_world (rack g1))\<rparr>\<rparr>"
  have g1: "gw_ok sp g1" unfolding g1_def by (rule gw_ok_put) (use assms(1) res(2) in \<open>simp_all add: s_def\<close>)
  have g2: "gw_ok sp g2"
    using g1 rack_inv_reopen [of sp "rack g1" rl] by (simp add: g2_def gw_ok_def rack_known_def)
  have o: "others_same own g g2" "rack_resources (rack g2) = rack_resources (rack g)" "rack_roles (rack g2) = rack_roles (rack g)"
    using assms(2) by (auto simp: others_same_def g2_def g1_def put_session_def update_conv' s_def)
  have t: "table g2 = (table g)(token d \<mapsto> (own, res))" "journal g2 = journal g"
    by (auto simp: g2_def g1_def table_put [unfolded table_def fun_eq_iff] table_def fun_eq_iff)
      (auto simp: put_session_def update_conv' s_def)
  obtain e where e: "record_session rt d ''open_resource'' (token d) s (gw_snapshot g2)
        (plain_entry\<lparr>l_request := Some res\<rparr>) g2 = Inr (journal_event g2 e)"
    "good sp own g2 (journal_event g2 e)" "table (journal_event g2 e) = table g2"
    "life_event_of e = Some (Opened (Some (sha256 rt (token d))))"
    using record_ok [OF g2, of s rt d "''open_resource''" "token d" _ _ own] res(2) o(2) by (auto simp: s_def)
  have "g' = journal_event g2 e"
    using assms(3) res rl e(1)
    by (simp add: op_open_def Let_def s_def g2_def g1_def put_session_def journaled_def)
  moreover have "good sp own g g2" using g2 o by (simp add: good_def)
  ultimately show ?thesis
    using e(2-4) t good_trans by (auto simp: opened_by_def life_of_snoc)
qed

lemma session_operation_effect:
  assumes "gw_ok sp g" "map_of (sessions g) sid = Some s" "owner s = own"
    and "session_operation rt sp' d op sid s args g = (g', r)"
  shows "good sp own g g' \<and> (quiet g g' \<or> closed_by rt ''candidate'' own sid g g')"
proof -
  have c: ?thesis if "calm sp own g g'" using that by (simp add: calm_def)
  show ?thesis
    using assms(4) unfolding session_operation_def
    apply (elim if_eqE)
          apply (rule c, erule op_set_timeout_calm [OF assms(1-3)])
         apply (rule c, erule op_set_termination_calm [OF assms(1-3)])
        apply (rule c, erule op_set_termination_calm [OF assms(1-3)])
       apply (rule c, erule op_write_calm [OF assms(1-3)])
      apply (rule c, erule op_read_calm [OF assms(1-3)])
     apply (use op_close_effect [OF assms(1-3)] in blast)
    apply (use c calm_refl [OF assms(1)] in simp)
    done
qed

lemma sync_quiet: "quiet g (sync_clock now g)"
  by (simp add: quiet_def table_def fun_eq_iff)

lemma owned_session_Inr: "owned_session g own sid = Inr s \<longleftrightarrow> map_of (sessions g) sid = Some s \<and> owner s = own"
  by (auto simp: owned_session_def split: option.splits)

definition effect :: "runtime \<Rightarrow> string \<Rightarrow> string \<Rightarrow> GatewayServer \<Rightarrow> GatewayServer \<Rightarrow> bool" where
  "effect rt own tok g g' \<longleftrightarrow> quiet g g' \<or> opened_by rt own tok g g' \<or> (\<exists>i. closed_by rt ''candidate'' own i g g')"

lemma effect_quiet: "quiet g g1 \<Longrightarrow> effect rt own tok g1 g' \<Longrightarrow> effect rt own tok g g'"
  by (auto simp: effect_def quiet_def opened_by_def closed_by_def)

lemma dispatch_effect:
  assumes "gw_ok sp g" "map_of (sessions g) (token d) = None" "dispatch rt sp' d own op args g = (g', r)"
  shows "good sp own g g' \<and> effect rt own (token d) g g'"
proof -
  define g1 where "g1 = sync_clock (sync_ns d) g"
  have ok: "gw_ok sp g1" and q: "quiet g g1" and good: "good sp own g g1"
    using assms(1) by (simp_all add: g1_def gw_ok_sync sync_quiet good_sync)
  have tok: "map_of (sessions g1) (token d) = None" using assms(2) by (simp add: g1_def)
  have keep: "good sp own g1 g1 \<and> effect rt own (token d) g1 g1"
    by (simp add: good_refl [OF ok] quiet_refl effect_def)
  have list: "good sp own g1 x \<and> effect rt own (token d) g1 x" if "op_list_resources rt d g1 = (x, y)" for x y
  proof -
    let ?e = "last (j_events (evidence_append rt (journal_ns d) (log_args ''list_resources'' (gw_snapshot g1)
      (gw_snapshot g1)\<lparr>a_response := Some (join newline (rack_resources (rack g1)))\<rparr>) (journal g1)))"
    have "x = journal_event g1 ?e" using that
      by (auto simp: op_list_resources_def Let_def evidence_append_def journal_event_def)
    moreover have "good sp own g1 (journal_event g1 ?e)"
      by (rule good_event [OF ok]) (simp add: evidence_append_def)
    moreover have "quiet g1 (journal_event g1 ?e)"
      by (simp add: quiet_def table_def life_of_snoc life_event_of_def evidence_append_def log_args_def fun_eq_iff)
    ultimately show ?thesis by (simp add: effect_def)
  qed
  have opn: "good sp own g1 x \<and> effect rt own (token d) g1 x" if "op_open rt d own args g1 = (x, y)" for x y
    using op_open_effect [OF ok tok that] by (auto simp: effect_def)
  have sess: "good sp own g1 x \<and> effect rt own (token d) g1 x"
    if "(case required_str args ''session'' of Inl e \<Rightarrow> (g1, Inl e) | Inr sid \<Rightarrow>
            (case owned_session g1 own sid of Inl e \<Rightarrow> (g1, Inl e)
             | Inr s \<Rightarrow> session_operation rt sp' d op sid s args g1)) = (x, y)" for x y
  proof -
    have op: "good sp own g1 x \<and> effect rt own (token d) g1 x"
      if "map_of (sessions g1) sid = Some s" "owner s = own" "session_operation rt sp' d op sid s args g1 = (x, y)" for sid s
      using session_operation_effect [OF ok that] by (auto simp: effect_def)
    show ?thesis
    proof (cases "required_str args ''session''")
      case (Inl e)
      then show ?thesis using that keep by simp
    next
      case req: (Inr sid)
      show ?thesis
      proof (cases "owned_session g1 own sid")
        case (Inl e)
        then show ?thesis using that req keep by simp
      next
        case (Inr s)
        moreover from this that req have "session_operation rt sp' d op sid s args g1 = (x, y)" by simp
        ultimately show ?thesis unfolding owned_session_Inr using op by blast
      qed
    qed
  qed
  have "good sp own g1 g' \<and> effect rt own (token d) g1 g'"
    using assms(3) unfolding dispatch_def Let_def g1_def [symmetric]
    apply (elim if_eqE)
       apply (use keep in simp)
      apply (erule list)
     apply (erule opn)
    apply (erule sess)
    done
  with good q show ?thesis using good_trans effect_quiet by blast
qed

lemma force_close_effect:
  assumes "gw_ok sp g" "distinct (map fst leaked)"
    and "\<forall>(i, s) \<in> set leaked. map_of (sessions g) i = Some s \<and> owner s = own"
  shows "good sp own g (force_close rt d leaked g) \<and>
    table (force_close rt d leaked g) = (\<lambda>i. if i \<in> fst ` set leaked then None else table g i) \<and>
    life_of (j_events (journal (force_close rt d leaked g))) =
      life_of (j_events (journal g)) @ map (\<lambda>i. Closed (Some (sha256 rt i)) (Some ''forced'')) (map fst leaked)"
  using assms
proof (induction leaked arbitrary: g)
  case Nil
  then show ?case by (simp add: good_refl)
next
  case (Cons p leaked)
  obtain i s where p: "p = (i, s)" by fastforce
  with Cons.prems have s: "map_of (sessions g) i = Some s" "owner s = own" by auto
  obtain e where e: "record_session rt d ''close'' i s (gw_snapshot g) (plain_entry\<lparr>l_cleanup_source := Some ''forced''\<rparr>) g
      = Inr (journal_event g e)" "good sp own g (drop_session i (journal_event g e))"
    "closed_by rt ''forced'' own i g (drop_session i (journal_event g e))"
    by (rule close_entry [OF Cons.prems(1) s]) auto
  define g1 where "g1 = drop_session i (journal_event g e)"
  have ok: "gw_ok sp g1" using e(2) by (simp add: g1_def good_def)
  have "\<forall>(j, s) \<in> set leaked. map_of (sessions g1) j = Some s \<and> owner s = own"
  proof safe
    fix j t assume j: "(j, t) \<in> set leaked"
    then have "j \<noteq> i" using Cons.prems(2) p by force
    with j Cons.prems(3) show "map_of (sessions g1) j = Some t" "owner t = own"
      by (auto simp: g1_def drop_session_def delete_conv')
  qed
  note IH = Cons.IH [OF ok _ this]
  have "force_close rt d (p # leaked) g = force_close rt d leaked g1"
    using e(1) by (simp add: p g1_def)
  moreover have "i \<notin> fst ` set leaked" using Cons.prems(2) p by simp
  ultimately show ?case
    using IH Cons.prems(2) e(2,3) good_trans [OF e(2)] p
    by (auto simp: closed_by_def g1_def [symmetric] fun_eq_iff)
qed

definition owned_ids :: "string \<Rightarrow> GatewayServer \<Rightarrow> string list" where
  "owned_ids own g = map fst (filter (\<lambda>(i, s). owner s = own) (sessions g))"

lemma owned_ids_table: "gw_ok sp g \<Longrightarrow> i \<in> set (owned_ids own g) \<longleftrightarrow> (\<exists>res. table g i = Some (own, res))"
  by (force simp: owned_ids_def table_def gw_ok_def map_of_eq_Some_iff)

lemma force_close_owner_effect:
  assumes "gw_ok sp g"
  shows "good sp own g (force_close_owner rt d own g) \<and>
    table (force_close_owner rt d own g) = (\<lambda>i. if i \<in> set (owned_ids own g) then None else table g i) \<and>
    life_of (j_events (journal (force_close_owner rt d own g))) =
      life_of (j_events (journal g)) @ map (\<lambda>i. Closed (Some (sha256 rt i)) (Some ''forced'')) (owned_ids own g)"
proof -
  have d: "distinct (map fst (sessions g))" using assms by (simp add: gw_ok_def)
  then have "distinct (map fst (filter (\<lambda>(i, s). owner s = own) (sessions g)))"
    by (rule distinct_map_filter)
  moreover have "\<forall>(i, s) \<in> set (filter (\<lambda>(i, s). owner s = own) (sessions g)). map_of (sessions g) i = Some s \<and> owner s = own"
    using d by (auto simp: map_of_eq_Some_iff)
  ultimately show ?thesis
    using force_close_effect [OF assms] unfolding force_close_owner_def owned_ids_def set_map by blast
qed

section \<open>Runs\<close>

inductive gateway_run :: "runtime \<Rightarrow> WorldSpec \<Rightarrow> string set \<Rightarrow> GatewayServer \<Rightarrow> bool"
  for rt :: runtime and sp :: WorldSpec where
  start: "validate_spec sp path = Inr () \<Longrightarrow> new_rack listed b sp = Inr rk \<Longrightarrow>
    gateway_run rt sp {} (new_gateway rk (new_evidence rid wid) now)"
| request: "gateway_run rt sp tokens g \<Longrightarrow> token d \<notin> tokens \<Longrightarrow> serve_request rt sp d own req g = (g', frame) \<Longrightarrow>
    gateway_run rt sp (insert (token d) tokens) g'"
| disconnect: "gateway_run rt sp tokens g \<Longrightarrow> gateway_run rt sp tokens (force_close_owner rt d own g)"

inductive reg_run :: "registry \<Rightarrow> bool" where
  start: "reg_run \<lparr>live = (\<lambda>_. None), life_log = []\<rparr>"
| step: "reg_run r \<Longrightarrow> reg_step own r r' \<Longrightarrow> reg_run r'"
| drop: "reg_run r \<Longrightarrow> distinct ids \<Longrightarrow> (\<And>i. i \<in> set ids \<longleftrightarrow> (\<exists>res. live r i = Some (own, res))) \<Longrightarrow>
    reg_run (reg_drop ids r)"

lemma gw_ok_start:
  assumes "validate_spec sp path = Inr ()" "new_rack listed b sp = Inr rk"
  shows "gw_ok sp (new_gateway rk (new_evidence rid wid) now)"
  using new_rack_known [OF validated_spec(2) [OF assms(1)] assms(2)] rack_inv_start [OF assms(2)]
  by (simp add: gw_ok_def new_gateway_def new_evidence_def sequences_ok_def)

lemma serve_request_effect:
  assumes "gw_ok sp g" "map_of (sessions g) (token d) = None" "serve_request rt sp' d own req g = (g', frame)"
  shows "good sp own g g' \<and> effect rt own (token d) g g'"
proof (cases "\<exists>op args r. dispatch rt sp' d own op args g = (g', r)")
  case True
  then show ?thesis using dispatch_effect [OF assms(1,2)] by blast
next
  case False
  then have "g' = g" using assms(3) unfolding serve_request_def by (auto split: sum.splits prod.splits)
  then show ?thesis using assms(1) by (simp add: good_refl effect_def quiet_refl)
qed

definition token_of :: "string set \<Rightarrow> GatewayServer \<Rightarrow> bool" where
  "token_of tokens g \<longleftrightarrow> (\<forall>i. map_of (sessions g) i \<noteq> None \<longrightarrow> i \<in> tokens)"

lemma token_of_table: "token_of tokens g \<longleftrightarrow> (\<forall>i. table g i \<noteq> None \<longrightarrow> i \<in> tokens)"
  by (simp add: token_of_def table_def)

lemma effect_token:
  assumes "effect rt own tok g g'" "token_of tokens g"
  shows "token_of (insert tok tokens) g'"
  using assms unfolding effect_def quiet_def opened_by_def closed_by_def token_of_table
  by (elim disjE exE conjE) (simp_all split: if_splits)

lemma gateway_run_ok: "gateway_run rt sp tokens g \<Longrightarrow> gw_ok sp g \<and> token_of tokens g"
proof (induction rule: gateway_run.induct)
  case (start path listed b rk rid wid now)
  have "token_of {} (new_gateway rk (new_evidence rid wid) now)" by (simp add: token_of_def new_gateway_def)
  with gw_ok_start [OF start] show ?case by blast
next
  case (request tokens g d own req g' frame)
  then have ok: "gw_ok sp g" "token_of tokens g" "map_of (sessions g) (token d) = None" by (auto simp: token_of_def)
  from serve_request_effect [OF ok(1,3) request.hyps(3)] effect_token [OF _ ok(2)] show ?case
    by (auto simp: good_def)
next
  case (disconnect tokens g d own)
  then show ?case using force_close_owner_effect [of sp g own rt d]
    by (auto simp: good_def token_of_table)
qed

lemma effect_simulation:
  assumes "implements rt r g" "effect rt own tok g g'" "tok \<notin> life_id ` set (life_log r)"
  obtains r' where "reg_step own r r'" "implements rt r' g'"
    "life_id ` set (life_log r') \<subseteq> insert tok (life_id ` set (life_log r)) \<union> {i. live r i \<noteq> None}"
proof -
  consider "quiet g g'" | "opened_by rt own tok g g'" | i where "closed_by rt ''candidate'' own i g g'"
    using assms(2) by (auto simp: effect_def)
  then show thesis
  proof cases
    case 1
    then show ?thesis using that [OF reg_step.idle quiet_implements [OF assms(1)]] by blast
  next
    case 2
    then obtain res where "table g' = (table g)(tok \<mapsto> (own, res))"
      "life_of (j_events (journal g')) = life_of (j_events (journal g)) @ [Opened (Some (sha256 rt tok))]"
      by (auto simp: opened_by_def)
    then show ?thesis
      using assms(1) by (intro that [OF reg_step.opens [OF assms(3), of own res]]) (auto simp: implements_def)
  next
    case (3 i)
    then obtain res where c: "table g i = Some (own, res)" "table g' = (table g)(i := None)"
      "life_of (j_events (journal g')) = life_of (j_events (journal g)) @ [Closed (Some (sha256 rt i)) (Some ''candidate'')]"
      by (auto simp: closed_by_def)
    have "live r i = Some (own, res)" using assms(1) c(1) by (simp add: implements_def)
    from reg_step.closes [OF this] c assms(1) show ?thesis
      by (intro that) (auto simp: implements_def)
  qed
qed

lemma disconnect_simulation:
  assumes "gw_ok sp g" "implements rt r g"
  shows "implements rt (reg_drop (owned_ids own g) r) (force_close_owner rt d own g)"
  using force_close_owner_effect [OF assms(1)] assms(2) by (auto simp: implements_def reg_drop_def fun_eq_iff)

lemma owned_ids_distinct: "gw_ok sp g \<Longrightarrow> distinct (owned_ids own g)"
  by (simp add: gw_ok_def owned_ids_def distinct_map_filter)

lemma gateway_run_registry:
  "gateway_run rt sp tokens g \<Longrightarrow> \<exists>r. reg_run r \<and> implements rt r g \<and> life_id ` set (life_log r) \<subseteq> tokens"
proof (induction rule: gateway_run.induct)
  case (start path listed b rk rid wid now)
  show ?case
    by (rule exI [of _ "\<lparr>live = (\<lambda>_. None), life_log = []\<rparr>"])
      (auto simp: reg_run.start implements_def table_def new_gateway_def new_evidence_def life_of_def)
next
  case (request tokens g d own req g' frame)
  then obtain r where r: "reg_run r" "implements rt r g" "life_id ` set (life_log r) \<subseteq> tokens" by blast
  have ok: "gw_ok sp g" "token_of tokens g" using gateway_run_ok [OF request.hyps(1)] by simp_all
  then have tok: "map_of (sessions g) (token d) = None" using request.hyps(2) by (auto simp: token_of_def)
  have live: "{i. live r i \<noteq> None} \<subseteq> tokens" using r(2) ok(2) by (auto simp: implements_def token_of_table)
  have "effect rt own (token d) g g'"
    using serve_request_effect [OF ok(1) tok request.hyps(3)] by blast
  moreover have "token d \<notin> life_id ` set (life_log r)" using r(3) request.hyps(2) by blast
  ultimately obtain r' where r': "reg_step own r r'" "implements rt r' g'"
    "life_id ` set (life_log r') \<subseteq> insert (token d) (life_id ` set (life_log r)) \<union> {i. live r i \<noteq> None}"
    by (rule effect_simulation [OF r(2)])
  have "life_id ` set (life_log r') \<subseteq> insert (token d) tokens" using r'(3) r(3) live by (meson Un_least insert_mono order.trans subset_insertI2)
  with reg_run.step [OF r(1) r'(1)] r'(2) show ?case by blast
next
  case (disconnect tokens g d own)
  then obtain r where r: "reg_run r" "implements rt r g" "life_id ` set (life_log r) \<subseteq> tokens" by blast
  have ok: "gw_ok sp g" "token_of tokens g" using gateway_run_ok [OF disconnect.hyps] by simp_all
  have ids: "i \<in> set (owned_ids own g) \<longleftrightarrow> (\<exists>res. live r i = Some (own, res))" for i
    using owned_ids_table [OF ok(1)] r(2) by (simp add: implements_def)
  have "set (owned_ids own g) \<subseteq> tokens"
    using owned_ids_table [OF ok(1)] ok(2) by (auto simp: token_of_table)
  then have "life_id ` set (life_log (reg_drop (owned_ids own g) r)) \<subseteq> tokens"
    using r(3) by (auto simp: reg_drop_def)
  moreover have "reg_run (reg_drop (owned_ids own g) r)"
    using r(1) owned_ids_distinct [OF ok(1)] ids by (rule reg_run.drop)
  ultimately show ?case using disconnect_simulation [OF ok(1) r(2)] by blast
qed

section \<open>Histories\<close>

definition history :: "'i \<Rightarrow> 'i life_event list \<Rightarrow> 'i life_event list" where
  "history i es = filter (\<lambda>e. life_id e = i) es"

definition once :: "registry \<Rightarrow> string \<Rightarrow> bool" where
  \<comment> \<open>a session is opened once, closed at most once and only after that, and live in between\<close>
  "once r i \<longleftrightarrow> (if live r i = None
     then history i (life_log r) = [] \<or> (\<exists>src \<in> {''candidate'', ''forced''}. history i (life_log r) = [Opened i, Closed i (Some src)])
     else history i (life_log r) = [Opened i])"

lemma history_append: "history i (xs @ ys) = history i xs @ history i ys"
  by (simp add: history_def)

lemma history_single: "history i [e] = (if life_id e = i then [e] else [])"
  by (simp add: history_def)

lemma history_Nil: "i \<notin> life_id ` set es \<Longrightarrow> history i es = []"
  by (auto simp: history_def filter_empty_conv)

lemma history_closed:
  "distinct ids \<Longrightarrow> history i (map (\<lambda>i. Closed i src) ids) = (if i \<in> set ids then [Closed i src] else [])"
  by (induction ids) (auto simp: history_def)

lemma once_step:
  assumes "reg_step own r r'" "\<And>i. once r i"
  shows "once r' j"
  using assms(1)
proof cases
  case (opens i res)
  then show ?thesis
    using assms(2) [of j] by (cases "j = i") (auto simp: once_def history_append history_single history_Nil split: if_splits)
next
  case (closes i res)
  then show ?thesis
    using assms(2) [of j] by (cases "j = i") (auto simp: once_def history_append history_single split: if_splits)
qed (use assms(2) in simp)

lemma reg_run_once: "reg_run r \<Longrightarrow> once r i"
proof (induction arbitrary: i rule: reg_run.induct)
  case start
  show ?case by (simp add: once_def history_def)
next
  case (step r own r')
  show ?case by (rule once_step [OF step.hyps(2) step.IH])
next
  case (drop r ids own j)
  show ?case
    using drop.IH [of j] drop.hyps(2,3)
    by (cases "j \<in> set ids") (auto simp: once_def reg_drop_def history_append history_closed split: if_splits)
qed

section \<open>The verdict on closing\<close>

lemma if_neqI: "a \<noteq> x \<Longrightarrow> b \<noteq> x \<Longrightarrow> (if c then a else b) \<noteq> x"
  by simp

lemma command_kind_lifecycle:
  "command_kind rl c after resp \<noteq> Some ''resource.opened''" "command_kind rl c after resp \<noteq> Some ''resource.closed''"
  unfolding command_kind_def Let_def by (intro if_neqI; simp)+

lemma event_kind_lifecycle:
  "event_kind e = Some ''resource.opened'' \<longleftrightarrow> operation e = ''open_resource''"
  "event_kind e = Some ''resource.closed'' \<longleftrightarrow> operation e = ''close''"
  by (auto simp: event_kind_def command_kind_lifecycle split: option.splits)

lemma semantic_event_iff:
  "(\<exists>i \<in> set (normalize_events es). s_kind i = k \<and> P (s_session_digest i) (s_cleanup_source i)) \<longleftrightarrow>
     (\<exists>e \<in> set es. event_kind e = Some k \<and> P (session_digest e) (cleanup_source e))"
  unfolding normalize_events_def Bex_def map_filter_member by (fastforce simp: semantic_event_def)

lemma life_of_member: "x \<in> set (life_of es) \<longleftrightarrow> (\<exists>e \<in> set es. life_event_of e = Some x)"
  by (simp add: life_of_def map_filter_member)

lemma life_event_of_iff:
  "life_event_of e = Some (Opened dg) \<longleftrightarrow> operation e = ''open_resource'' \<and> session_digest e = dg"
  "life_event_of e = Some (Closed dg src) \<longleftrightarrow> operation e = ''close'' \<and> session_digest e = dg \<and> cleanup_source e = src"
  by (auto simp: life_event_of_def)

lemma sessions_of_journal:
  "opened_sessions (normalize_events es) = {dg. Opened (Some dg) \<in> set (life_of es)}"
  "actively_closed (normalize_events es) = {dg. Closed (Some dg) (Some ''candidate'') \<in> set (life_of es)}"
  using semantic_event_iff [of es "''resource.opened''" "\<lambda>a b. a = Some _"]
    semantic_event_iff [of es "''resource.closed''" "\<lambda>a b. b = Some ''candidate'' \<and> a = Some _"]
  by (auto simp: set_eq_iff opened_sessions_iff actively_closed_iff life_of_member life_event_of_iff event_kind_lifecycle)

lemma registry_journal:
  assumes "implements rt r g"
  shows "Opened dg \<in> set (life_of (j_events (journal g))) \<longleftrightarrow> (\<exists>i. Opened i \<in> set (life_log r) \<and> dg = Some (sha256 rt i))"
    "Closed dg src \<in> set (life_of (j_events (journal g))) \<longleftrightarrow>
       (\<exists>i. Closed i src \<in> set (life_log r) \<and> dg = Some (sha256 rt i))"
proof -
  have eq: "set (life_of (j_events (journal g))) = map_life_event (Some \<circ> sha256 rt) ` set (life_log r)"
    using assms by (metis implements_def list.set_map)
  show "Opened dg \<in> set (life_of (j_events (journal g))) \<longleftrightarrow> (\<exists>i. Opened i \<in> set (life_log r) \<and> dg = Some (sha256 rt i))"
  proof
    assume "Opened dg \<in> set (life_of (j_events (journal g)))"
    then obtain x where "x \<in> set (life_log r)" "Opened dg = map_life_event (Some \<circ> sha256 rt) x" unfolding eq by blast
    then show "\<exists>i. Opened i \<in> set (life_log r) \<and> dg = Some (sha256 rt i)" by (cases x rule: life_event.exhaust) auto
  qed (use eq in force)
  show "Closed dg src \<in> set (life_of (j_events (journal g))) \<longleftrightarrow>
       (\<exists>i. Closed i src \<in> set (life_log r) \<and> dg = Some (sha256 rt i))"
  proof
    assume "Closed dg src \<in> set (life_of (j_events (journal g)))"
    then obtain x where "x \<in> set (life_log r)" "Closed dg src = map_life_event (Some \<circ> sha256 rt) x" unfolding eq by blast
    then show "\<exists>i. Closed i src \<in> set (life_log r) \<and> dg = Some (sha256 rt i)" by (cases x rule: life_event.exhaust) auto
  qed (use eq in force)
qed

lemma history_member: "e \<in> set (history i es) \<longleftrightarrow> e \<in> set es \<and> life_id e = i"
  by (auto simp: history_def)

lemma once_facts:
  assumes "once r i"
  shows "Closed i src \<in> set (life_log r) \<Longrightarrow> Opened i \<in> set (life_log r)"
    and "Opened i \<in> set (life_log r) \<Longrightarrow> live r i = None \<Longrightarrow> Closed i src \<notin> set (life_log r) \<Longrightarrow>
      \<exists>src'. src' \<noteq> src \<and> Closed i src' \<in> set (life_log r)"
    and "Closed i src \<in> set (life_log r) \<Longrightarrow> Closed i src' \<in> set (life_log r) \<Longrightarrow> src' = src"
proof -
  have mem: "Opened i \<in> set (life_log r) \<longleftrightarrow> Opened i \<in> set (history i (life_log r))"
    "Closed i s \<in> set (life_log r) \<longleftrightarrow> Closed i s \<in> set (history i (life_log r))" for s
    by (simp_all add: history_member)
  show "Closed i src \<in> set (life_log r) \<Longrightarrow> Opened i \<in> set (life_log r)"
    "Opened i \<in> set (life_log r) \<Longrightarrow> live r i = None \<Longrightarrow> Closed i src \<notin> set (life_log r) \<Longrightarrow>
      \<exists>src'. src' \<noteq> src \<and> Closed i src' \<in> set (life_log r)"
    "Closed i src \<in> set (life_log r) \<Longrightarrow> Closed i src' \<in> set (life_log r) \<Longrightarrow> src' = src"
    unfolding mem using assms by (auto simp: once_def split: if_splits)
qed

lemma closing_verdict_registry:
  assumes imp: "implements rt r g" and once: "\<And>i. once r i" and none: "\<And>i. live r i = None"
    and inj: "inj_on (sha256 rt) tokens" and ids: "life_id ` set (life_log r) \<subseteq> tokens"
  shows "passed (active_close_all (normalize_events (j_events (journal g)))) \<longleftrightarrow>
    (\<exists>i. Opened i \<in> set (life_log r)) \<and> (\<forall>i src. Closed i src \<in> set (life_log r) \<longrightarrow> src = Some ''candidate'')"
proof -
  define opened where "opened = {i. Opened i \<in> set (life_log r)}"
  define closed where "closed = {i. Closed i (Some ''candidate'') \<in> set (life_log r)}"
  have sub: "closed \<subseteq> opened" "opened \<subseteq> tokens"
    using once_facts(1) [OF once] ids by (force simp: opened_def closed_def)+
  have "opened_sessions (normalize_events (j_events (journal g))) = sha256 rt ` opened"
    "actively_closed (normalize_events (j_events (journal g))) = sha256 rt ` closed"
    using registry_journal [OF imp] by (auto simp: sessions_of_journal opened_def closed_def)
  then have "passed (active_close_all (normalize_events (j_events (journal g)))) \<longleftrightarrow> opened \<noteq> {} \<and> opened = closed"
    using inj_on_image_eq_iff [OF inj, of opened closed] sub by (auto simp: active_close_all_def)
  moreover have "opened \<subseteq> closed \<longleftrightarrow> (\<forall>i src. Closed i src \<in> set (life_log r) \<longrightarrow> src = Some ''candidate'')"
  proof safe
    fix i src assume "opened \<subseteq> closed" "Closed i src \<in> set (life_log r)"
    then show "src = Some ''candidate''"
      using once_facts(1,3) [OF once] unfolding opened_def closed_def by blast
  next
    fix i assume "\<forall>i src. Closed i src \<in> set (life_log r) \<longrightarrow> src = Some ''candidate''" "i \<in> opened"
    then show "i \<in> closed"
      using once_facts(2) [OF once _ none, of i "Some ''candidate''"] unfolding opened_def closed_def by blast
  qed
  ultimately show ?thesis using sub(1) by (auto simp: opened_def)
qed

section \<open>An example run\<close>

definition example_gw_rt :: runtime where
  "example_gw_rt = \<lparr>float_repr = (\<lambda>_. ''0.0''), sha256 = (\<lambda>s. s)\<rparr>"

definition example_gateway :: GatewayServer where
  "example_gateway = new_gateway (projr (new_rack (dict_keys RESOURCE_ROLES) False (nominal 1)))
     (new_evidence ''run'' ''nominal'') 0"

definition example_draw :: "string \<Rightarrow> draw" where
  "example_draw tok = \<lparr>sync_ns = 0, journal_ns = 0, token = tok\<rparr>"

definition example_request :: "string \<Rightarrow> (string \<times> string json) list \<Rightarrow> (string \<times> string json) list" where
  "example_request op args =
     [(''version'', JInt 1), (''request_id'', JStr ''q''), (''operation'', JStr op), (''arguments'', JObj args)]"

definition example_open :: GatewayServer where
  \<comment> \<open>client A has opened the power supply\<close>
  "example_open = fst (serve_request example_gw_rt (nominal 1) (example_draw ''t1'') ''A''
     (example_request ''open_resource'' [(''resource'', JStr ''TCPIP0::192.0.2.10::inst0::INSTR'')]) example_gateway)"

lemma example_gateway_run: "gateway_run example_gw_rt (nominal 1) {} example_gateway"
proof -
  have v: "validate_spec (nominal 1) [] = Inr ()" by code_simp
  have "new_rack (dict_keys RESOURCE_ROLES) False (nominal 1) =
      Inr (projr (new_rack (dict_keys RESOURCE_ROLES) False (nominal 1)))" by code_simp
  then show ?thesis unfolding example_gateway_def by (rule gateway_run.start [OF v])
qed

lemma example_token [simp]: "token (example_draw tok) = tok"
  by (simp add: example_draw_def)

lemma example_open_run: "gateway_run example_gw_rt (nominal 1) {''t1''} example_open"
proof -
  have "gateway_run example_gw_rt (nominal 1) (insert (token (example_draw ''t1'')) {}) example_open"
    unfolding example_open_def
    by (rule gateway_run.request [OF example_gateway_run, where d = "example_draw ''t1''"]) (auto intro: prod.collapse [symmetric])
  then show ?thesis by simp
qed

definition example_session :: GatewaySession where
  "example_session = \<lparr>owner = ''A'', g_resource = ''TCPIP0::192.0.2.10::inst0::INSTR'', timeout_ms = 5000,
     read_termination = None, write_termination = None, pending = None\<rparr>"

lemma example_open_session: "map_of (sessions example_open) ''t1'' = Some example_session"
  by code_simp

definition example_left :: GatewayServer where
  \<comment> \<open>client A went away without closing\<close>
  "example_left = force_close_owner example_gw_rt (example_draw ''t2'') ''A'' example_open"

lemma example_left_run: "gateway_run example_gw_rt (nominal 1) {''t1''} example_left"
  unfolding example_left_def by (rule gateway_run.disconnect [OF example_open_run])

lemma example_owned: "''t1'' \<in> set (owned_ids ''A'' example_open)"
  using owned_ids_table example_open_session gateway_run_ok [OF example_open_run] by (force simp: table_def example_session_def)

lemmas example_left_effect =
  force_close_owner_effect [OF gateway_run_ok [OF example_open_run, THEN conjunct1], of "''A''" example_gw_rt
    "example_draw ''t2''", folded example_left_def]

lemma example_left_empty: "sessions example_left = []"
proof -
  have "token_of {''t1''} example_open" using gateway_run_ok [OF example_open_run] by blast
  then have "table example_left i = None" for i
    using example_left_effect example_owned unfolding token_of_table
    by (cases "i = ''t1''"; cases "table example_open i") auto
  then have "map_of (sessions example_left) i = None" for i by (simp add: table_def)
  then show ?thesis by (metis map_of_eq_None_iff list.set_intros(1) image_eqI neq_Nil_conv)
qed

lemma example_left_forced:
  "\<exists>e \<in> set (j_events (journal example_left)). operation e = ''close'' \<and> cleanup_source e = Some ''forced''"
proof -
  have "Closed (Some ''t1'') (Some ''forced'') \<in> set (life_of (j_events (journal example_left)))"
    using example_left_effect example_owned by (force simp: example_gw_rt_def)
  then show ?thesis by (auto simp: life_of_member life_event_of_iff)
qed

section \<open>Asking an instrument\<close>

lemma dispatch_session:
  assumes "map_of (sessions g) sid = Some s" "owner s = own" "json_get args ''session'' = JStr sid" "sid \<noteq> []"
    and "op \<notin> {''protocol_version'', ''list_resources'', ''open_resource''}"
  shows "dispatch rt sp d own op args g = session_operation rt sp d op sid s args (sync_clock (sync_ns d) g)"
  using assms by (simp add: dispatch_def Let_def required_str_def owned_session_def)

lemma write_answered:
  assumes ok: "gw_ok sp g" and s: "map_of (sessions g) sid = Some s" "owner s = own" "sid \<noteq> []" "pending s = None"
    and args: "json_get args ''session'' = JStr sid" "decode_payload args = Inr raw"
    and w: "rack_write rt sp (g_resource s) (terminated_payload s raw) (rack (sync_clock (sync_ns d) g)) = (rk, Inr (Some answer))"
  obtains g1 where "dispatch rt sp d own ''write'' args g =
      (g1, Inr (JObj [(''bytes_written'', JInt (int (length (terminated_payload s raw))))]))"
    "gw_ok sp g1" "map_of (sessions g1) sid = Some (s\<lparr>pending := Some answer\<rparr>)"
proof -
  let ?g = "put_session sid (s\<lparr>pending := Some answer\<rparr>) ((sync_clock (sync_ns d) g)\<lparr>rack := rk\<rparr>)"
  have c: "calm sp own (sync_clock (sync_ns d) g) ((sync_clock (sync_ns d) g)\<lparr>rack := rk\<rparr>)"
    using good_rack [OF gw_ok_sync [OF ok] w] by (simp add: calm_def)
  have g: "gw_ok sp ?g"
    using calm_ok [OF calm_put [OF calm_ok [OF c], of sid s own "s\<lparr>pending := Some answer\<rparr>"]] s by simp
  have r: "g_resource (s\<lparr>pending := Some answer\<rparr>) \<in> set (rack_resources (rack ?g))"
    using session_resource [OF calm_ok [OF c], of sid s] s(1) by (simp add: put_session_def)
  obtain e where e: "record_session rt d ''write'' sid (s\<lparr>pending := Some answer\<rparr>) (gw_snapshot (sync_clock (sync_ns d) g))
      (plain_entry\<lparr>l_request := Some (terminated_payload s raw), l_response := Some answer\<rparr>) ?g = Inr (journal_event ?g e)"
    "calm sp own ?g (journal_event ?g e)"
    by (rule calm_record [OF g r, where op = "''write''"]) auto
  show ?thesis
  proof (rule that [OF _ calm_ok [OF e(2)]])
    show "dispatch rt sp d own ''write'' args g = (journal_event ?g e,
        Inr (JObj [(''bytes_written'', JInt (int (length (terminated_payload s raw))))]))"
      using w e(1) args s
      by (simp add: dispatch_session [OF s(1,2) args(1) s(3)] session_operation_def op_write_def Let_def journaled_def)
    show "map_of (sessions (journal_event ?g e)) sid = Some (s\<lparr>pending := Some answer\<rparr>)"
      by (simp add: put_session_def update_conv')
  qed
qed

lemma read_pending:
  assumes ok: "gw_ok sp g" and s: "map_of (sessions g) sid = Some s" "owner s = own" "sid \<noteq> []" "pending s = Some answer"
    and args: "json_get args ''session'' = JStr sid"
  obtains g1 where "dispatch rt sp d own ''read'' args g = (g1, Inr (JObj [(''payload_b64'', JStr (b64_encode answer))]))"
    "map_of (sessions g1) sid = Some (s\<lparr>pending := None\<rparr>)"
proof -
  let ?g = "put_session sid (s\<lparr>pending := None\<rparr>) (sync_clock (sync_ns d) g)"
  have g: "gw_ok sp ?g"
    using calm_ok [OF calm_put [OF gw_ok_sync [OF ok], of _ sid s own "s\<lparr>pending := None\<rparr>"]] s by simp
  have r: "g_resource (s\<lparr>pending := None\<rparr>) \<in> set (rack_resources (rack ?g))"
    using session_resource [OF ok, of sid s] s(1) by (simp add: put_session_def)
  obtain e where e: "record_session rt d ''read'' sid (s\<lparr>pending := None\<rparr>) (gw_snapshot (sync_clock (sync_ns d) g))
      (plain_entry\<lparr>l_response := Some answer\<rparr>) ?g = Inr (journal_event ?g e)" "calm sp own ?g (journal_event ?g e)"
    by (rule calm_record [OF g r, where op = "''read''"]) auto
  show ?thesis
  proof (rule that)
    show "dispatch rt sp d own ''read'' args g = (journal_event ?g e, Inr (JObj [(''payload_b64'', JStr (b64_encode answer))]))"
      using e(1) args s
      by (simp add: dispatch_session [OF s(1,2) args(1) s(3)] session_operation_def op_read_def Let_def journaled_def)
    show "map_of (sessions (journal_event ?g e)) sid = Some (s\<lparr>pending := None\<rparr>)"
      by (simp add: put_session_def update_conv')
  qed
qed

definition idn_args :: "(string \<times> string json) list" where
  "idn_args = [(''session'', JStr ''t1''), (''payload_b64'', JStr ''KklETj8='')]"

lemma idn_facts: "decode_payload idn_args = Inr ''*IDN?''" "json_get idn_args ''session'' = JStr ''t1''"
  by code_simp+

lemma idn_answer:
  "\<exists>rk. rack_write example_gw_rt (nominal 1) ''TCPIP0::192.0.2.10::inst0::INSTR'' ''*IDN?''
     (rack (sync_clock (sync_ns (example_draw ''t2'')) example_open)) =
     (rk, Inr (Some (''IAB,Virtual-E36312A,PSU001,1.0'' @ newline)))"
proof -
  have "snd (rack_write example_gw_rt (nominal 1) ''TCPIP0::192.0.2.10::inst0::INSTR'' ''*IDN?''
     (rack (sync_clock (sync_ns (example_draw ''t2'')) example_open))) =
     Inr (Some (''IAB,Virtual-E36312A,PSU001,1.0'' @ newline))" by code_simp
  then show ?thesis by (metis prod.collapse)
qed

section \<open>Properties\<close>

text \<open>
  C13. The session table and the journal of the gateway implement the registry: in every run of any
  number of clients, whatever they send and whenever they disconnect, there is a registry run with
  the same open sessions and the same sequence of openings and closings, and in it every session is
  opened once, closed at most once and only after it was opened, and is in the table exactly in
  between.
\<close>

theorem gateway_refines_registry:
  assumes "gateway_run rt sp tokens g"
  shows "\<exists>r. reg_run r \<and> live r = table g \<and>
    map (map_life_event (Some \<circ> sha256 rt)) (life_log r) = life_of (j_events (journal g)) \<and>
    (\<forall>i. if table g i = None
       then history i (life_log r) = [] \<or> (\<exists>src \<in> {''candidate'', ''forced''}.
              history i (life_log r) = [Opened i, Closed i (Some src)])
       else history i (life_log r) = [Opened i])"
proof -
  obtain r where r: "reg_run r" "implements rt r g" using gateway_run_registry [OF assms] by blast
  then have eq: "live r = table g" "map (map_life_event (Some \<circ> sha256 rt)) (life_log r) = life_of (j_events (journal g))"
    by (simp_all add: implements_def)
  show ?thesis
    by (intro exI [of _ r] conjI allI) (rule r(1), rule eq(1), rule eq(2), rule reg_run_once [OF r(1), unfolded once_def eq(1)])
qed

theorem gateway_refines_registry_witness:
  "\<exists>r :: registry. live r ''t1'' = Some (''A'', ''TCPIP0::192.0.2.10::inst0::INSTR'') \<and> history ''t1'' (life_log r) = [Opened ''t1'']"
proof -
  have t: "table example_open ''t1'' = Some (''A'', ''TCPIP0::192.0.2.10::inst0::INSTR'')"
    by (simp add: table_def example_open_session example_session_def)
  from gateway_refines_registry [OF example_open_run] obtain r :: registry where r: "live r = table example_open"
    "\<forall>i. if table example_open i = None
       then history i (life_log r) = [] \<or> (\<exists>src \<in> {''candidate'', ''forced''}.
              history i (life_log r) = [Opened i, Closed i (Some src)])
       else history i (life_log r) = [Opened i]" by blast
  have "history ''t1'' (life_log r) = [Opened ''t1'']" using spec [OF r(2), of "''t1''"] t by simp
  with r(1) t show ?thesis by (intro exI [of _ r]) simp
qed

text \<open>
  C20. The grader's verdict on closing is right about what happened at the gateway: when all sessions are
  gone and digests do not collide on the drawn tokens, the constraint \<^verbatim>\<open>active_close_all\<close> passes exactly
  if some session was opened and no closing was forced by a disconnect.
\<close>

theorem closing_verdict:
  assumes "gateway_run rt sp tokens g" and "sessions g = []" and "inj_on (sha256 rt) tokens"
  shows "passed (active_close_all (normalize_events (j_events (journal g)))) \<longleftrightarrow>
    (\<exists>e \<in> set (j_events (journal g)). operation e = ''open_resource'') \<and>
    (\<forall>e \<in> set (j_events (journal g)). operation e = ''close'' \<longrightarrow> cleanup_source e = Some ''candidate'')"
proof -
  obtain r where r: "reg_run r" "implements rt r g" "life_id ` set (life_log r) \<subseteq> tokens"
    using gateway_run_registry [OF assms(1)] by blast
  have "live r i = None" for i using r(2) assms(2) by (simp add: implements_def table_def)
  note v = closing_verdict_registry [OF r(2) reg_run_once [OF r(1)] this assms(3) r(3)]
  have o: "(\<exists>i. Opened i \<in> set (life_log r)) \<longleftrightarrow> (\<exists>e \<in> set (j_events (journal g)). operation e = ''open_resource'')"
    using registry_journal(1) [OF r(2)] by (simp add: life_of_member life_event_of_iff) blast
  have c: "(\<exists>i. Closed i src \<in> set (life_log r)) \<longleftrightarrow>
      (\<exists>e \<in> set (j_events (journal g)). operation e = ''close'' \<and> cleanup_source e = src)" for src
    using registry_journal(2) [OF r(2)] by (simp add: life_of_member life_event_of_iff) blast
  have "(\<forall>i src. Closed i src \<in> set (life_log r) \<longrightarrow> src = Some ''candidate'') \<longleftrightarrow>
      (\<forall>src. (\<exists>i. Closed i src \<in> set (life_log r)) \<longrightarrow> src = Some ''candidate'')" by blast
  also have "\<dots> \<longleftrightarrow> (\<forall>e \<in> set (j_events (journal g)). operation e = ''close'' \<longrightarrow> cleanup_source e = Some ''candidate'')"
    unfolding c by blast
  finally show ?thesis unfolding v o by (rule arg_cong)
qed

theorem closing_verdict_witness:
  "\<not> passed (active_close_all (normalize_events (j_events (journal example_left))))"
  using closing_verdict [OF example_left_run example_left_empty] example_left_forced by auto

text \<open>
  C21. Clients are isolated: no request of one client changes any field of another client's session,
  and a request that names a session of another client is answered with \<^verbatim>\<open>invalid_session\<close> and does
  nothing but synchronise the clock.
\<close>

theorem client_isolation:
  assumes "gateway_run rt sp tokens g" and "token d \<notin> tokens" and "serve_request rt sp d own req g = (g', frame)"
    and "owner s \<noteq> own"
  shows "(map_of (sessions g') i = Some s \<longleftrightarrow> map_of (sessions g) i = Some s) \<and>
    (map_of (sessions g) i = Some s \<longrightarrow> json_get args ''session'' = JStr i \<longrightarrow> i \<noteq> [] \<longrightarrow>
       op \<notin> {''protocol_version'', ''list_resources'', ''open_resource''} \<longrightarrow>
       dispatch rt sp d own op args g =
         (sync_clock (sync_ns d) g, Inl (OperationError ''invalid_session'' ''invalid or foreign session'')))"
proof
  have ok: "gw_ok sp g" "map_of (sessions g) (token d) = None"
    using gateway_run_ok [OF assms(1)] assms(2) by (auto simp: token_of_def)
  from serve_request_effect [OF ok assms(3)] assms(4)
  show "map_of (sessions g') i = Some s \<longleftrightarrow> map_of (sessions g) i = Some s" by (simp add: good_def others_same_def)
  show "map_of (sessions g) i = Some s \<longrightarrow> json_get args ''session'' = JStr i \<longrightarrow> i \<noteq> [] \<longrightarrow>
       op \<notin> {''protocol_version'', ''list_resources'', ''open_resource''} \<longrightarrow>
       dispatch rt sp d own op args g =
         (sync_clock (sync_ns d) g, Inl (OperationError ''invalid_session'' ''invalid or foreign session''))"
    using assms(4) by (simp add: dispatch_def Let_def required_str_def owned_session_def)
qed

theorem client_isolation_witness:
  "map_of (sessions (fst (serve_request example_gw_rt (nominal 1) (example_draw ''t2'') ''B''
     (example_request ''close'' [(''session'', JStr ''t1'')]) example_open))) ''t1'' \<noteq> None"
proof -
  obtain g' frame where "serve_request example_gw_rt (nominal 1) (example_draw ''t2'') ''B''
     (example_request ''close'' [(''session'', JStr ''t1'')]) example_open = (g', frame)" by fastforce
  moreover from client_isolation [OF example_open_run _ this, of example_session "''t1''"] example_open_session
  have "map_of (sessions g') ''t1'' \<noteq> None" by (simp add: example_session_def)
  ultimately show ?thesis by simp
qed

text \<open>
  C28. When a client disconnects, every session it still holds is closed: none of its sessions remains,
  the sessions of all other clients are untouched, and for each of them the journal gets exactly one
  closing entry marked \<^verbatim>\<open>forced\<close>.
\<close>

theorem disconnect_closes_all:
  assumes "gateway_run rt sp tokens g" and "g' = force_close_owner rt d own g"
  shows "(\<forall>i s. map_of (sessions g') i = Some s \<longrightarrow> owner s \<noteq> own \<and> map_of (sessions g) i = Some s) \<and>
    (\<forall>i s. map_of (sessions g) i = Some s \<longrightarrow> owner s \<noteq> own \<longrightarrow> map_of (sessions g') i = Some s) \<and>
    life_of (j_events (journal g')) = life_of (j_events (journal g)) @
      map (\<lambda>(i, s). Closed (Some (sha256 rt i)) (Some ''forced'')) (filter (\<lambda>(i, s). owner s = own) (sessions g))"
proof -
  have ok: "gw_ok sp g" using gateway_run_ok [OF assms(1)] by blast
  note e = force_close_owner_effect [OF ok, of own rt d, folded assms(2)]
  have o: "owner s \<noteq> own" if "map_of (sessions g') i = Some s" for i s
  proof
    assume "owner s = own"
    then have "table g' i = Some (own, g_resource s)" using that by (simp add: table_def)
    with e owned_ids_table [OF ok] show False by (auto split: if_splits)
  qed
  with e show ?thesis
    by (auto simp: good_def others_same_def owned_ids_def comp_def case_prod_beta')
qed

theorem disconnect_closes_all_witness:
  "map_of (sessions example_open) ''t1'' = Some example_session \<and> map_of (sessions example_left) ''t1'' = None"
proof -
  have "map_of (sessions example_left) ''t1'' \<noteq> Some s" for s
  proof
    assume "map_of (sessions example_left) ''t1'' = Some s"
    from disconnect_closes_all [OF example_open_run example_left_def, THEN conjunct1, rule_format, OF this]
    have "owner s \<noteq> ''A''" and "map_of (sessions example_open) ''t1'' = Some s" by (rule conjunct1, rule conjunct2)
    then show False unfolding example_open_session by (auto simp: example_session_def)
  qed
  then have "map_of (sessions example_left) ''t1'' = None" by (metis not_None_eq)
  with example_open_session show ?thesis by (rule conjI)
qed

text \<open>
  C29. What an instrument answers is what the client reads: a write of a query the instrument answers,
  on a session with nothing pending, succeeds, and the next read of that session returns exactly
  that answer in base64, after which nothing is pending again.
\<close>

theorem query_read_round_trip:
  assumes "gateway_run rt sp tokens g" and s: "map_of (sessions g) sid = Some s" "owner s = own" "sid \<noteq> []" "pending s = None"
    and args: "json_get wargs ''session'' = JStr sid" "decode_payload wargs = Inr raw" "json_get rargs ''session'' = JStr sid"
    and w: "rack_write rt sp (g_resource s) (terminated_payload s raw) (rack (sync_clock (sync_ns d) g)) = (rk, Inr (Some answer))"
  shows "\<exists>g1 g2 text. dispatch rt sp d own ''write'' wargs g =
      (g1, Inr (JObj [(''bytes_written'', JInt (int (length (terminated_payload s raw))))])) \<and>
    dispatch rt sp d' own ''read'' rargs g1 = (g2, Inr (JObj [(''payload_b64'', JStr text)])) \<and>
    b64_decode text = Some answer \<and> map_of (sessions g2) sid = Some s"
proof -
  have ok: "gw_ok sp g" using gateway_run_ok [OF assms(1)] by blast
  obtain g1 where g1: "dispatch rt sp d own ''write'' wargs g =
      (g1, Inr (JObj [(''bytes_written'', JInt (int (length (terminated_payload s raw))))]))"
    "gw_ok sp g1" "map_of (sessions g1) sid = Some (s\<lparr>pending := Some answer\<rparr>)"
    by (rule write_answered [OF ok s args(1,2) w])
  obtain g2 where g2: "dispatch rt sp d' own ''read'' rargs g1 = (g2, Inr (JObj [(''payload_b64'', JStr (b64_encode answer))]))"
    "map_of (sessions g2) sid = Some (s\<lparr>pending := Some answer, pending := None\<rparr>)"
    using read_pending [OF g1(2,3), of own answer rargs rt d'] s(2,3) args(3) by auto
  have "s\<lparr>pending := None\<rparr> = s" using s(4) by simp
  then have "map_of (sessions g2) sid = Some s" using g2(2) by simp
  then show ?thesis using g1(1) g2(1) b64_round_trip by blast
qed

theorem query_read_round_trip_witness:
  "\<exists>g1 g2 text. dispatch example_gw_rt (nominal 1) (example_draw ''t2'') ''A'' ''write'' idn_args example_open =
      (g1, Inr (JObj [(''bytes_written'', JInt 5)])) \<and>
    dispatch example_gw_rt (nominal 1) (example_draw ''t3'') ''A'' ''read'' [(''session'', JStr ''t1'')] g1 =
      (g2, Inr (JObj [(''payload_b64'', JStr text)])) \<and>
    b64_decode text = Some (''IAB,Virtual-E36312A,PSU001,1.0'' @ newline)"
proof -
  obtain rk where "rack_write example_gw_rt (nominal 1) ''TCPIP0::192.0.2.10::inst0::INSTR'' ''*IDN?''
     (rack (sync_clock (sync_ns (example_draw ''t2'')) example_open)) =
     (rk, Inr (Some (''IAB,Virtual-E36312A,PSU001,1.0'' @ newline)))" using idn_answer by blast
  from query_read_round_trip [OF example_open_run example_open_session, of "''A''" idn_args "''*IDN?''"
      "[(''session'', JStr ''t1'')]" "example_draw ''t2''" rk _ "example_draw ''t3''"] this idn_facts
  show ?thesis by (simp add: terminated_payload_def example_session_def) blast
qed

text \<open>
  C39. A query sent while an answer is still pending is refused only after the instrument has executed
  it: the state of the rack is the one after the command, but the journal has no entry for it, so the
  grader cannot see the command.
\<close>

theorem pending_query_unjournaled:
  assumes s: "map_of (sessions g) sid = Some s" "owner s = own" "sid \<noteq> []" "pending s = Some unread"
    and args: "json_get args ''session'' = JStr sid" "decode_payload args = Inr raw"
    and w: "rack_write rt sp (g_resource s) (terminated_payload s raw) (rack (sync_clock (sync_ns d) g)) = (rk, Inr (Some answer))"
  shows "\<exists>g'. dispatch rt sp d own ''write'' args g =
      (g', Inl (OperationError ''pending_response'' ''read the pending response before another query'')) \<and>
    rack g' = rk \<and> journal g' = journal g \<and> sessions g' = sessions g"
  using s(4) w args(2)
  by (simp add: dispatch_session [OF s(1,2) args(1) s(3)] session_operation_def op_write_def Let_def)

theorem pending_query_unjournaled_witness:
  "\<exists>g'. dispatch example_gw_rt (nominal 1) (example_draw ''t2'') ''A'' ''write'' idn_args
     (put_session ''t1'' (example_session\<lparr>pending := Some ''1''\<rparr>) example_open) =
      (g', Inl (OperationError ''pending_response'' ''read the pending response before another query'')) \<and>
    journal g' = journal (put_session ''t1'' (example_session\<lparr>pending := Some ''1''\<rparr>) example_open)"
proof -
  let ?g = "put_session ''t1'' (example_session\<lparr>pending := Some ''1''\<rparr>) example_open"
  have "rack ?g = rack example_open" "rack (sync_clock n ?g) = rack (sync_clock n example_open)" for n
    by (simp_all add: put_session_def sync_clock_def Let_def split: sum.split)
  moreover obtain rk where "rack_write example_gw_rt (nominal 1) ''TCPIP0::192.0.2.10::inst0::INSTR'' ''*IDN?''
     (rack (sync_clock (sync_ns (example_draw ''t2'')) example_open)) =
     (rk, Inr (Some (''IAB,Virtual-E36312A,PSU001,1.0'' @ newline)))" using idn_answer by blast
  moreover have "map_of (sessions ?g) ''t1'' = Some (example_session\<lparr>pending := Some ''1''\<rparr>)"
    by (simp add: put_session_def update_conv')
  ultimately show ?thesis
    using pending_query_unjournaled [of ?g "''t1''" "example_session\<lparr>pending := Some ''1''\<rparr>" "''A''" "''1''" idn_args
      "''*IDN?''" example_gw_rt "nominal 1" "example_draw ''t2''" rk] idn_facts
    by (simp add: terminated_payload_def example_session_def) blast
qed


end
