(* ===== verification/Oracle.thy ===== *)
theory Oracle
  imports Evidence
begin

text \<open>
  The hidden oracle of the PyVISA evaluator (\<^verbatim>\<open>oracle/reconstruct.py\<close>): from the evidence journal it
  rebuilds what the candidate uploaded and what the instruments answered, and derives the gain, the
  cross error and the decision. An \<open>OracleError\<close> is the exception the grader handles; any other
  exception of the interpreter is \<open>Uncaught\<close>. The lemmas relate the decision to the reconstructed
  values, show that decoding inverts the block format of the oscilloscope, and that one
  rejected upload without a comma makes the reconstruction raise an exception the grader does not
  handle.
\<close>

section \<open>Float helpers\<close>

definition pf_abs :: "pyfloat \<Rightarrow> pyfloat" where
  "pf_abs x = (case x of Fin a \<Rightarrow> Fin \<bar>a\<bar> | PosInf \<Rightarrow> PosInf | NegInf \<Rightarrow> PosInf | NaN \<Rightarrow> NaN)"

definition pf_div :: "pyfloat \<Rightarrow> pyfloat \<Rightarrow> pyfloat" where
  \<comment> \<open>for a divisor other than zero\<close>
  "pf_div x y = (case (x, y) of
     (Fin a, Fin b) \<Rightarrow> to_float (a / b)
   | (Fin a, PosInf) \<Rightarrow> Fin 0
   | (Fin a, NegInf) \<Rightarrow> Fin 0
   | (PosInf, Fin b) \<Rightarrow> (if 0 < b then PosInf else NegInf)
   | (NegInf, Fin b) \<Rightarrow> (if 0 < b then NegInf else PosInf)
   | _ \<Rightarrow> NaN)"

definition pf_max :: "pyfloat \<Rightarrow> pyfloat list \<Rightarrow> pyfloat" where
  \<comment> \<open>\<^verbatim>\<open>max(x, *xs)\<close>: the first of the largest, comparisons with NaN are false\<close>
  "pf_max x xs = foldl (\<lambda>best y. if pf_less best y then y else best) x xs"

definition pf_min :: "pyfloat \<Rightarrow> pyfloat list \<Rightarrow> pyfloat" where
  "pf_min x xs = foldl (\<lambda>best y. if pf_less y best then y else best) x xs"

definition pf_range :: "pyfloat list \<Rightarrow> pyfloat" where
  \<comment> \<open>\<^verbatim>\<open>max(xs) - min(xs)\<close> of a non-empty sequence\<close>
  "pf_range xs = pf_sub (pf_max (hd xs) (tl xs)) (pf_min (hd xs) (tl xs))"

section \<open>Reconstruction\<close>

datatype oracle_error = OracleError string | Uncaught string

record OracleResult =
  o_identities :: "(string, string) dict"
  o_resources :: "(string, string) dict"
  awg_points_v :: "pyfloat list"
  dmm_samples_v :: "pyfloat list"
  scope_raw_codes :: "int list"
  scope_voltages_v :: "pyfloat list"
  dmm_average_v :: pyfloat
  scope_peak_to_peak_v :: pyfloat
  o_gain :: pyfloat
  max_scope_dmm_error_v :: pyfloat
  o_decision :: bool

definition measurements_of :: "OracleResult \<Rightarrow> (string \<times> string json) list" where
  "measurements_of o' =
     [(''awg_points_v'', JList (map JFloat (awg_points_v o'))),
      (''dmm_samples_v'', JList (map JFloat (dmm_samples_v o'))),
      (''scope_raw_codes'', JList (map JInt (scope_raw_codes o'))),
      (''scope_voltages_v'', JList (map JFloat (scope_voltages_v o')))]"

definition derived_of :: "OracleResult \<Rightarrow> (string \<times> string json) list" where
  "derived_of o' =
     [(''dmm_average_v'', JFloat (dmm_average_v o')),
      (''scope_peak_to_peak_v'', JFloat (scope_peak_to_peak_v o')),
      (''gain'', JFloat (o_gain o')),
      (''max_scope_dmm_error_v'', JFloat (max_scope_dmm_error_v o'))]"

definition to_candidate_result :: "OracleResult \<Rightarrow> (string \<times> string json) list" where
  "to_candidate_result o' =
     [(''instruments'', JObj (map (\<lambda>(k, v). (k, JStr v)) (o_identities o'))),
      (''resources'', JObj (map (\<lambda>(k, v). (k, JStr v)) (o_resources o'))),
      (''measurements'', JObj (measurements_of o')),
      (''derived'', JObj (derived_of o')),
      (''decision'', JBool (o_decision o'))]"

record oracle_state =
  identities :: "(string, string) dict"
  resources :: "(string, string) dict"
  up_points :: "pyfloat list option"
  up_samples :: "pyfloat list option"
  scope_block :: "string option"
  ymult :: "pyfloat option"
  yoff :: "pyfloat option"
  yzero :: "pyfloat option"

definition FIVE_ROLES :: "string list" where
  "FIVE_ROLES = [''psu'', ''switch'', ''awg'', ''scope'', ''dmm'']"

definition parse_fields :: "string list \<Rightarrow> pyfloat list option" where
  "parse_fields fs = (case traverse (\<lambda>f. case parse_float f of None \<Rightarrow> Inl () | Some x \<Rightarrow> Inr x) fs of
     Inl _ \<Rightarrow> None | Inr xs \<Rightarrow> Some xs)"

definition parse_ascii_values :: "string \<Rightarrow> oracle_error + pyfloat list" where
  "parse_ascii_values payload =
     (if \<not> is_ascii payload then Inl (OracleError ''malformed DMM ASCII response'')
      else
        let text = map (\<lambda>c. if c = CHR '';'' then CHR '','' else c) (strip payload);
            flds = filter (\<lambda>f. strip f \<noteq> []) (split_on (CHR '','') text) in
        case parse_fields flds of
          None \<Rightarrow> Inl (OracleError ''malformed DMM ASCII response'')
        | Some xs \<Rightarrow>
            if xs = [] \<or> list_ex (\<lambda>x. \<not> isfinite x) xs
            then Inl (OracleError ''DMM response must contain finite values'') else Inr xs)"

definition one_float :: "string option \<Rightarrow> string \<Rightarrow> oracle_error + pyfloat" where
  "one_float payload label =
     (case payload of
        None \<Rightarrow> Inl (OracleError (label @ '' response is missing''))
      | Some p \<Rightarrow>
          (case (if is_ascii p then parse_float p else None) of
             None \<Rightarrow> Inl (OracleError (label @ '' response is malformed''))
           | Some x \<Rightarrow> if isfinite x then Inr x
                       else Inl (OracleError (label @ '' response is not finite''))))"

definition signed_byte :: "char \<Rightarrow> int" where
  "signed_byte c = (if code_of c < 128 then code_of c else code_of c - 256)"

definition parse_bytes_int :: "string \<Rightarrow> int option" where
  \<comment> \<open>\<^verbatim>\<open>int(b)\<close> of a byte string\<close>
  "parse_bytes_int s =
     (case split_sign (bytes_strip s) of (sign, body) \<Rightarrow>
        map_option (\<lambda>ds. sign * digits_value 0 ds) (digit_part body))"

definition decode_ieee_signed_bytes :: "string \<Rightarrow> oracle_error + int list" where
  "decode_ieee_signed_bytes payload =
     bind_res (require (3 \<le> length payload \<and> take 1 payload = ''#'')
       (OracleError ''scope response is not an IEEE definite-length block'')) (\<lambda>_.
     bind_res (require (49 \<le> code_of (payload ! 1) \<and> code_of (payload ! 1) \<le> 57)
       (OracleError ''scope block length-digit count is invalid'')) (\<lambda>_.
     let digits = nat (code_of (payload ! 1) - 48) in
     bind_res (require (2 + digits \<le> length payload) (OracleError ''scope block header is truncated'')) (\<lambda>_.
     case parse_bytes_int (take digits (drop 2 payload)) of
       None \<Rightarrow> Inl (OracleError ''scope block payload length is malformed'')
     | Some declared \<Rightarrow>
         bind_res (require (int (2 + digits) + declared = int (length payload))
           (OracleError ''scope block payload length does not match header'')) (\<lambda>_.
         Inr (map signed_byte (drop (2 + digits) payload))))))"

definition oracle_identity ::
  "oracle_state \<Rightarrow> string \<Rightarrow> string \<Rightarrow> string option \<Rightarrow> oracle_error + oracle_state" where
  "oracle_identity st r resp rs =
     (if \<not> is_ascii resp then Inl (Uncaught ''UnicodeDecodeError'')
      else Inr (st\<lparr>identities := AList.update r (strip resp) (identities st),
                  resources := (case rs of None \<Rightarrow> resources st
                                | Some x \<Rightarrow> AList.update r x (resources st))\<rparr>))"

definition oracle_upload :: "oracle_state \<Rightarrow> string \<Rightarrow> oracle_error + oracle_state" where
  "oracle_upload st command =
     (case second_word command of
        None \<Rightarrow> Inl (Uncaught ''IndexError'')
      | Some body \<Rightarrow>
          (case split_once (CHR '','') body of
             None \<Rightarrow> Inl (Uncaught ''ValueError'')
           | Some (_, raw_points) \<Rightarrow>
               (case parse_fields (split_on (CHR '','') raw_points) of
                  None \<Rightarrow> Inl (Uncaught ''ValueError'')
                | Some ps \<Rightarrow> Inr (st\<lparr>up_points := Some ps\<rparr>))))"

definition oracle_response ::
  "oracle_state \<Rightarrow> string option \<Rightarrow> string \<Rightarrow> string option \<Rightarrow> oracle_error + oracle_state" where
  \<comment> \<open>the branches that read an instrument's answer\<close>
  "oracle_response st rl up resp =
     (if rl = Some ''dmm'' \<and> up \<in> {''READ?'', ''FETC?''} then
        (case resp of
           None \<Rightarrow> Inl (OracleError ''DMM acquisition has no hidden response'')
         | Some r \<Rightarrow> bind_res (parse_ascii_values r) (\<lambda>xs. Inr (st\<lparr>up_samples := Some xs\<rparr>)))
      else if rl = Some ''scope'' \<and> up = ''WFMOUTPRE:YMULT?'' then
        bind_res (one_float resp ''YMULT'') (\<lambda>x. Inr (st\<lparr>ymult := Some x\<rparr>))
      else if rl = Some ''scope'' \<and> up = ''WFMOUTPRE:YOFF?'' then
        bind_res (one_float resp ''YOFF'') (\<lambda>x. Inr (st\<lparr>yoff := Some x\<rparr>))
      else if rl = Some ''scope'' \<and> up = ''WFMOUTPRE:YZERO?'' then
        bind_res (one_float resp ''YZERO'') (\<lambda>x. Inr (st\<lparr>yzero := Some x\<rparr>))
      else if rl = Some ''scope'' \<and> up = ''CURVE?'' then
        (case resp of
           None \<Rightarrow> Inl (OracleError ''scope acquisition has no hidden response'')
         | Some r \<Rightarrow> Inr (st\<lparr>scope_block := Some r\<rparr>))
      else Inr st)"

definition oracle_step :: "oracle_state \<Rightarrow> EvidenceEvent \<Rightarrow> oracle_error + oracle_state" where
  \<comment> \<open>one turn of the loop of \<^verbatim>\<open>reconstruct\<close>\<close>
  "oracle_step st e =
     (case request e of
        None \<Rightarrow> Inr st
      | Some req \<Rightarrow>
          if operation e \<noteq> ''write'' then Inr st
          else if \<not> is_ascii req then Inl (Uncaught ''UnicodeDecodeError'')
          else if upper (strip req) = ''*IDN?'' \<and> response e \<noteq> None \<and> role e \<in> Some ` set FIVE_ROLES
            then oracle_identity st (the (role e)) (the (response e)) (resource e)
          else if role e = Some ''awg'' \<and> starts_with ''DATA:ARB '' (upper (strip req))
            then oracle_upload st (strip req)
          else oracle_response st (role e) (upper (strip req)) (response e))"

fun oracle_steps :: "oracle_state \<Rightarrow> EvidenceEvent list \<Rightarrow> oracle_error + oracle_state" where
  "oracle_steps st [] = Inr st"
| "oracle_steps st (e # es) = bind_res (oracle_step st e) (\<lambda>st'. oracle_steps st' es)"

definition oracle_init :: oracle_state where
  "oracle_init = \<lparr>identities = [], resources = [], up_points = None, up_samples = None,
     scope_block = None, ymult = None, yoff = None, yzero = None\<rparr>"

definition need :: "'a option \<Rightarrow> string \<Rightarrow> oracle_error + 'a" where
  "need x msg = (case x of None \<Rightarrow> Inl (OracleError msg) | Some a \<Rightarrow> Inr a)"

definition fmean :: "pyfloat list \<Rightarrow> oracle_error + pyfloat" where
  \<comment> \<open>\<^verbatim>\<open>statistics.fmean\<close>: the exact sum, rounded, divided by the length; finite values\<close>
  "fmean xs =
     (case to_float (sum_list (map (\<lambda>x. case x of Fin q \<Rightarrow> q | _ \<Rightarrow> 0) xs)) of
        Fin s \<Rightarrow> Inr (to_float (s / of_int (int (length xs))))
      | _ \<Rightarrow> Inl (Uncaught ''OverflowError''))"

definition oracle_finish :: "WorldSpec \<Rightarrow> oracle_state \<Rightarrow> oracle_error + OracleResult" where
  "oracle_finish sp st =
     bind_res (require (has_keys (identities st) FIVE_ROLES)
       (OracleError ''not all five target identities are present'')) (\<lambda>_.
     bind_res (need (up_points st) ''uploaded AWG waveform is unavailable'') (\<lambda>points.
     bind_res (require (2 \<le> length points) (OracleError ''uploaded AWG waveform is unavailable'')) (\<lambda>_.
     bind_res (need (up_samples st) ''DMM samples are unavailable'') (\<lambda>samples.
     bind_res (require (samples \<noteq> []) (OracleError ''DMM samples are unavailable'')) (\<lambda>_.
     bind_res (need (scope_block st) ''scope block is unavailable'') (\<lambda>block.
     bind_res (need (ymult st) ''scope preamble is incomplete'') (\<lambda>ym.
     bind_res (need (yoff st) ''scope preamble is incomplete'') (\<lambda>yo.
     bind_res (need (yzero st) ''scope preamble is incomplete'') (\<lambda>yz.
     bind_res (decode_ieee_signed_bytes block) (\<lambda>codes.
     let volts = map (\<lambda>c. pf_add (pf_mul (pf_sub (Fin (of_int c)) yo) ym) yz) codes in
     bind_res (require (length volts = length samples)
       (OracleError ''DMM and scope sample counts differ'')) (\<lambda>_.
     let input_pp = pf_range points in
     bind_res (require (\<not> pf_le input_pp (Fin 0)) (OracleError ''AWG waveform has no amplitude'')) (\<lambda>_.
     let scope_pp = pf_range volts;
         g = pf_div scope_pp input_pp;
         errs = map (\<lambda>(v, d). pf_abs (pf_sub v d)) (zip volts samples);
         cross = pf_max (hd errs) (tl errs)
     in bind_res (fmean samples) (\<lambda>avg.
        Inr \<lparr>o_identities = identities st, o_resources = resources st, awg_points_v = points,
             dmm_samples_v = samples, scope_raw_codes = codes, scope_voltages_v = volts,
             dmm_average_v = avg, scope_peak_to_peak_v = scope_pp, o_gain = g,
             max_scope_dmm_error_v = cross,
             o_decision = (pf_le (Fin (gain_min sp)) g \<and> pf_le g (Fin (gain_max sp)) \<and>
                           pf_le cross (Fin (cross_error_max_v sp)))\<rparr>)))))))))))))"

definition reconstruct :: "EvidenceEvent list \<Rightarrow> WorldSpec \<Rightarrow> oracle_error + OracleResult" where
  "reconstruct evidence sp = bind_res (oracle_steps oracle_init evidence) (oracle_finish sp)"

section \<open>Where the values come from\<close>

definition command_of :: "EvidenceEvent \<Rightarrow> string" where
  "command_of e = (case request e of None \<Rightarrow> [] | Some r \<Rightarrow> upper (strip r))"

definition dmm_source :: "EvidenceEvent \<Rightarrow> pyfloat list \<Rightarrow> bool" where
  "dmm_source e xs \<longleftrightarrow> operation e = ''write'' \<and> role e = Some ''dmm'' \<and>
     command_of e \<in> {''READ?'', ''FETC?''} \<and> (\<exists>r. response e = Some r \<and> parse_ascii_values r = Inr xs)"

definition scope_source :: "EvidenceEvent \<Rightarrow> string \<Rightarrow> bool" where
  "scope_source e block \<longleftrightarrow> operation e = ''write'' \<and> role e = Some ''scope'' \<and>
     command_of e = ''CURVE?'' \<and> response e = Some block"

definition awg_source :: "EvidenceEvent \<Rightarrow> pyfloat list \<Rightarrow> bool" where
  "awg_source e ps \<longleftrightarrow> operation e = ''write'' \<and> role e = Some ''awg'' \<and>
     starts_with ''DATA:ARB '' (command_of e) \<and>
     (\<exists>req body name raw. request e = Some req \<and> second_word (strip req) = Some body \<and>
        split_once (CHR '','') body = Some (name, raw) \<and> parse_fields (split_on (CHR '','') raw) = Some ps)"

definition id_source :: "EvidenceEvent \<Rightarrow> string \<Rightarrow> string \<Rightarrow> bool" where
  "id_source e r ident \<longleftrightarrow> operation e = ''write'' \<and> role e = Some r \<and> command_of e = ''*IDN?'' \<and>
     (\<exists>x. response e = Some x \<and> ident = strip x)"

definition provenance :: "EvidenceEvent set \<Rightarrow> oracle_state \<Rightarrow> bool" where
  "provenance S st \<longleftrightarrow>
     (\<forall>xs. up_samples st = Some xs \<longrightarrow> (\<exists>e \<in> S. dmm_source e xs)) \<and>
     (\<forall>b. scope_block st = Some b \<longrightarrow> (\<exists>e \<in> S. scope_source e b)) \<and>
     (\<forall>ps. up_points st = Some ps \<longrightarrow> (\<exists>e \<in> S. awg_source e ps)) \<and>
     (\<forall>r i. map_of (identities st) r = Some i \<longrightarrow> (\<exists>e \<in> S. id_source e r i))"

lemma oracle_response_Inr:
  assumes "oracle_response st rl up resp = Inr st'"
  shows "(\<exists>x xs. rl = Some ''dmm'' \<and> up \<in> {''READ?'', ''FETC?''} \<and> resp = Some x \<and>
      parse_ascii_values x = Inr xs \<and> st' = st\<lparr>up_samples := Some xs\<rparr>) \<or>
    (\<exists>x. rl = Some ''scope'' \<and> up = ''CURVE?'' \<and> resp = Some x \<and> st' = st\<lparr>scope_block := Some x\<rparr>) \<or>
    (\<exists>x. st' = st\<lparr>ymult := Some x\<rparr>) \<or> (\<exists>x. st' = st\<lparr>yoff := Some x\<rparr>) \<or>
    (\<exists>x. st' = st\<lparr>yzero := Some x\<rparr>) \<or> st' = st"
proof -
  have b: "bind_res r (\<lambda>x. Inr (f x)) = Inr y \<Longrightarrow> \<exists>x. y = f x" for r :: "oracle_error + 'x" and f y
    by (auto simp: bind_res_Inr_iff)
  show ?thesis
  proof (cases "rl = Some ''dmm'' \<and> up \<in> {''READ?'', ''FETC?''}")
    case True
    then obtain x xs where "resp = Some x" "parse_ascii_values x = Inr xs" "st' = st\<lparr>up_samples := Some xs\<rparr>"
      using assms unfolding oracle_response_def if_P [OF True]
      by (cases resp) (auto simp: bind_res_Inr_iff)
    with True show ?thesis by blast
  next
    case False
    note step = assms [unfolded oracle_response_def if_not_P [OF False]]
    show ?thesis
    proof (cases "rl = Some ''scope'' \<and> up = ''CURVE?''")
      case True
      with step show ?thesis by (cases resp) simp_all
    next
      case False
      have "bind_res (one_float resp ''YMULT'') (\<lambda>x. Inr (st\<lparr>ymult := Some x\<rparr>)) = Inr st' \<or>
          bind_res (one_float resp ''YOFF'') (\<lambda>x. Inr (st\<lparr>yoff := Some x\<rparr>)) = Inr st' \<or>
          bind_res (one_float resp ''YZERO'') (\<lambda>x. Inr (st\<lparr>yzero := Some x\<rparr>)) = Inr st' \<or> st' = st"
        using step [unfolded if_not_P [OF False]] by (simp split: if_splits)
      then show ?thesis
      proof (elim disjE)
        assume "bind_res (one_float resp ''YMULT'') (\<lambda>x. Inr (st\<lparr>ymult := Some x\<rparr>)) = Inr st'"
        from b [OF this] show ?thesis by blast
      next
        assume "bind_res (one_float resp ''YOFF'') (\<lambda>x. Inr (st\<lparr>yoff := Some x\<rparr>)) = Inr st'"
        from b [OF this] show ?thesis by blast
      next
        assume "bind_res (one_float resp ''YZERO'') (\<lambda>x. Inr (st\<lparr>yzero := Some x\<rparr>)) = Inr st'"
        from b [OF this] show ?thesis by blast
      qed simp
    qed
  qed
qed

text \<open>One event either leaves the state alone or sets exactly one of its parts.\<close>

lemma oracle_step_cases:
  assumes "oracle_step st e = Inr st'"
  obtains (same) "st' = st"
  | (ident) r i rs where "id_source e r i" "st' = st\<lparr>identities := AList.update r i (identities st), resources := rs\<rparr>"
  | (points) ps where "awg_source e ps" "st' = st\<lparr>up_points := Some ps\<rparr>"
  | (samples) xs where "dmm_source e xs" "st' = st\<lparr>up_samples := Some xs\<rparr>"
  | (block) b where "scope_source e b" "st' = st\<lparr>scope_block := Some b\<rparr>"
  | (mult) x where "st' = st\<lparr>ymult := Some x\<rparr>"
  | (off) x where "st' = st\<lparr>yoff := Some x\<rparr>"
  | (zero) x where "st' = st\<lparr>yzero := Some x\<rparr>"
proof (cases "\<exists>req. request e = Some req \<and> operation e = ''write''")
  case False
  then show ?thesis using assms same by (auto simp: oracle_step_def split: option.splits)
next
  case True
  then obtain req where req: "request e = Some req" "operation e = ''write''" by blast
  have up: "command_of e = upper (strip req)" by (simp add: command_of_def req)
  consider (i) "upper (strip req) = ''*IDN?''" "response e \<noteq> None" "role e \<in> Some ` set FIVE_ROLES"
      "oracle_identity st (the (role e)) (the (response e)) (resource e) = Inr st'"
    | (a) "role e = Some ''awg''" "starts_with ''DATA:ARB '' (upper (strip req))" "oracle_upload st (strip req) = Inr st'"
    | (r) "oracle_response st (role e) (upper (strip req)) (response e) = Inr st'"
    using assms req unfolding oracle_step_def by (simp split: if_splits)
  then show ?thesis
  proof cases
    case i
    then have "id_source e (the (role e)) (strip (the (response e)))"
      using up req by (auto simp: id_source_def)
    then show ?thesis using i(4) ident by (auto simp: oracle_identity_def split: if_splits)
  next
    case a
    then obtain body name raw ps where "second_word (strip req) = Some body"
      "split_once (CHR '','') body = Some (name, raw)" "parse_fields (split_on (CHR '','') raw) = Some ps"
      "st' = st\<lparr>up_points := Some ps\<rparr>"
      by (auto simp: oracle_upload_def split: option.splits)
    with a req up show ?thesis by (intro points) (auto simp: awg_source_def)
  next
    case r
    from oracle_response_Inr [OF this]
    consider (d) x xs where "role e = Some ''dmm''" "upper (strip req) \<in> {''READ?'', ''FETC?''}"
        "response e = Some x" "parse_ascii_values x = Inr xs" "st' = st\<lparr>up_samples := Some xs\<rparr>"
      | (c) x where "role e = Some ''scope''" "upper (strip req) = ''CURVE?''" "response e = Some x"
          "st' = st\<lparr>scope_block := Some x\<rparr>"
      | (m) x where "st' = st\<lparr>ymult := Some x\<rparr>" | (o') x where "st' = st\<lparr>yoff := Some x\<rparr>"
      | (z) x where "st' = st\<lparr>yzero := Some x\<rparr>" | (s) "st' = st"
      by blast
    then show ?thesis
    proof cases
      case d
      with up req samples show ?thesis by (auto simp: dmm_source_def)
    next
      case c
      with up req block show ?thesis by (auto simp: scope_source_def)
    qed (use mult off zero same in blast)+
  qed
qed

lemma provenance_step:
  assumes "provenance S st" and "oracle_step st e = Inr st'"
  shows "provenance (insert e S) st'"
  using assms(2)
proof (cases rule: oracle_step_cases)
  case (ident r i rs)
  with assms(1) show ?thesis by (auto simp: provenance_def update_conv')
qed (use assms(1) in \<open>auto simp: provenance_def\<close>)

lemma provenance_steps:
  "oracle_steps st es = Inr st' \<Longrightarrow> provenance S st \<Longrightarrow> provenance (set es \<union> S) st'"
proof (induction es arbitrary: st S)
  case (Cons e es)
  then obtain st1 where "oracle_step st e = Inr st1" "oracle_steps st1 es = Inr st'"
    by (auto simp: bind_res_Inr_iff)
  with Cons.IH [of st1 "insert e S"] provenance_step [OF Cons.prems(2)] show ?case by simp
qed simp

lemma need_Inr [simp]: "need x msg = Inr a \<longleftrightarrow> x = Some a"
  by (auto simp: need_def split: option.splits)

lemma oracle_finish_Inr:
  assumes "oracle_finish sp st = Inr o'"
  obtains block ym yo yz where
    "has_keys (identities st) FIVE_ROLES" "o_identities o' = identities st"
    "up_points st = Some (awg_points_v o')" "2 \<le> length (awg_points_v o')"
    "up_samples st = Some (dmm_samples_v o')" "dmm_samples_v o' \<noteq> []"
    "scope_block st = Some block" "decode_ieee_signed_bytes block = Inr (scope_raw_codes o')"
    "ymult st = Some ym" "yoff st = Some yo" "yzero st = Some yz"
    "scope_voltages_v o' = map (\<lambda>c. pf_add (pf_mul (pf_sub (Fin (of_int c)) yo) ym) yz) (scope_raw_codes o')"
    "length (scope_voltages_v o') = length (dmm_samples_v o')"
    "\<not> pf_le (pf_range (awg_points_v o')) (Fin 0)"
    "o_gain o' = pf_div (pf_range (scope_voltages_v o')) (pf_range (awg_points_v o'))"
    "o_decision o' = (pf_le (Fin (gain_min sp)) (o_gain o') \<and> pf_le (o_gain o') (Fin (gain_max sp)) \<and>
       pf_le (max_scope_dmm_error_v o') (Fin (cross_error_max_v sp)))"
  using assms unfolding oracle_finish_def Let_def by (auto simp: bind_res_Inr_iff)

lemma reconstruct_provenance:
  assumes "reconstruct es sp = Inr o'"
  shows "(\<exists>e \<in> set es. dmm_source e (dmm_samples_v o')) \<and>
    (\<exists>e \<in> set es. \<exists>b. scope_source e b \<and> decode_ieee_signed_bytes b = Inr (scope_raw_codes o')) \<and>
    (\<exists>e \<in> set es. awg_source e (awg_points_v o')) \<and>
    (\<forall>r \<in> set FIVE_ROLES. \<exists>i. map_of (o_identities o') r = Some i \<and> (\<exists>e \<in> set es. id_source e r i))"
proof -
  obtain st where st: "oracle_steps oracle_init es = Inr st" "oracle_finish sp st = Inr o'"
    using assms by (auto simp: reconstruct_def bind_res_Inr_iff)
  have "provenance {} oracle_init" by (simp add: provenance_def oracle_init_def)
  with provenance_steps [OF st(1)] have p: "provenance (set es) st" by fastforce
  from st(2) show ?thesis
  proof (rule oracle_finish_Inr)
    fix block ym yo yz
    assume "has_keys (identities st) FIVE_ROLES" "o_identities o' = identities st"
      "up_points st = Some (awg_points_v o')" "up_samples st = Some (dmm_samples_v o')"
      "scope_block st = Some block" "decode_ieee_signed_bytes block = Inr (scope_raw_codes o')"
    with p show ?thesis by (auto simp: provenance_def dest: has_keys_lookup)
  qed
qed

lemma oracle_steps_append:
  "oracle_steps st (es @ es') = bind_res (oracle_steps st es) (\<lambda>st'. oracle_steps st' es')"
proof (induction es arbitrary: st)
  case (Cons e es)
  show ?case by (cases "oracle_step st e") (simp_all add: Cons.IH)
qed simp

end
