(* ===== verification/Container.thy ===== *)
theory Container
  imports Py_Text
begin

text \<open>
  The container sandbox of the evaluator (\<^verbatim>\<open>instrument_benchmark_evaluator/container\<close>): limits and
  policy (\<^verbatim>\<open>contracts.py\<close>), the evidence read off \<^verbatim>\<open>docker inspect\<close> (\<^verbatim>\<open>evidence.py\<close>), the arguments of
  \<^verbatim>\<open>docker create\<close>, the policy check and the life cycle of one candidate container (\<^verbatim>\<open>runner.py\<close>).
  The Docker command line itself is outside: the record \<open>docker\<close> says what each call of
  \<^verbatim>\<open>docker_client.py\<close> returns or raises, and \<open>run_container\<close> also returns the calls it makes, in
  order. The lemmas show that the evidence says exactly what Docker reported, that every created
  container is removed on every path, and that a result is only ever returned for a container that
  ran under the full policy.
\<close>

section \<open>Errors\<close>

datatype container_error =
    ContainerInfrastructureError string
  | ContainerContractError string
  | OutputCollectionError string
  | PyError string

section \<open>Limits\<close>

record ContainerLimits =
  lim_cpus :: pyfloat
  lim_memory_mb :: int
  lim_pids :: int
  lim_timeout_seconds :: pyfloat
  lim_stdout_bytes :: int
  lim_stderr_bytes :: int

record EvaluatorMaxima =
  max_cpus :: pyfloat
  max_memory_mb :: int
  max_pids :: int
  max_timeout_seconds :: pyfloat
  max_stdout_bytes :: int
  max_stderr_bytes :: int

record EffectiveContainerPolicy =
  pol_cpus :: pyfloat
  pol_memory_mb :: int
  pol_pids :: int
  pol_timeout_seconds :: pyfloat
  pol_stdout_bytes :: int
  pol_stderr_bytes :: int

definition default_maxima :: EvaluatorMaxima where
  "default_maxima = \<lparr>max_cpus = Fin 1, max_memory_mb = 512, max_pids = 64,
     max_timeout_seconds = Fin 30, max_stdout_bytes = 1048576, max_stderr_bytes = 1048576\<rparr>"

definition pf_min2 :: "pyfloat \<Rightarrow> pyfloat \<Rightarrow> pyfloat" where
  \<comment> \<open>\<^verbatim>\<open>min(x, y)\<close>: the first unless the second is smaller\<close>
  "pf_min2 x y = (if pf_less y x then y else x)"

definition effective_policy :: "ContainerLimits \<Rightarrow> EvaluatorMaxima \<Rightarrow> EffectiveContainerPolicy" where
  "effective_policy limits maxima =
     \<lparr>pol_cpus = pf_min2 (lim_cpus limits) (max_cpus maxima),
      pol_memory_mb = min (lim_memory_mb limits) (max_memory_mb maxima),
      pol_pids = min (lim_pids limits) (max_pids maxima),
      pol_timeout_seconds = pf_min2 (lim_timeout_seconds limits) (max_timeout_seconds maxima),
      pol_stdout_bytes = min (lim_stdout_bytes limits) (max_stdout_bytes maxima),
      pol_stderr_bytes = min (lim_stderr_bytes limits) (max_stderr_bytes maxima)\<rparr>"

definition positive_int :: "string json \<Rightarrow> string \<Rightarrow> container_error + int" where
  "positive_int raw name =
     bind_res (as_int raw (ContainerContractError (name @ '' must be a positive integer''))) (\<lambda>n.
     bind_res (require (0 < n) (ContainerContractError (name @ '' must be a positive integer'')))
       (\<lambda>_. Inr n))"

definition positive_number :: "string json \<Rightarrow> string \<Rightarrow> container_error + pyfloat" where
  \<comment> \<open>NaN passes the comparison \<^verbatim>\<open>raw <= 0\<close>; an int beyond the floats makes \<^verbatim>\<open>float(raw)\<close> raise\<close>
  "positive_number raw name =
     (let e = ContainerContractError (name @ '' must be positive'') in
      case raw of
        JInt n \<Rightarrow> if n \<le> 0 then Inl e
                  else (case to_float (of_int n) of Fin q \<Rightarrow> Inr (Fin q) | _ \<Rightarrow> Inl (PyError ''OverflowError''))
      | JFloat x \<Rightarrow> if pf_le x (Fin 0) then Inl e else Inr x
      | _ \<Rightarrow> Inl e)"

definition LIMIT_NAMES :: "string list" where
  "LIMIT_NAMES = [''cpus'', ''memory_mb'', ''pids'', ''timeout_seconds'', ''stdout_bytes'', ''stderr_bytes'']"

definition load_limits :: "string json \<Rightarrow> container_error + ContainerLimits" where
  "load_limits raw =
     bind_res (as_obj raw (ContainerContractError ''limits must be a mapping'')) (\<lambda>d.
     bind_res (require (has_keys d LIMIT_NAMES)
       (ContainerContractError ''limits fields do not match protocol'')) (\<lambda>_.
     bind_res (positive_number (json_get d ''cpus'') ''cpus'') (\<lambda>c.
     bind_res (positive_int (json_get d ''memory_mb'') ''memory_mb'') (\<lambda>m.
     bind_res (positive_int (json_get d ''pids'') ''pids'') (\<lambda>p.
     bind_res (positive_number (json_get d ''timeout_seconds'') ''timeout_seconds'') (\<lambda>t.
     bind_res (positive_int (json_get d ''stdout_bytes'') ''stdout_bytes'') (\<lambda>so.
     bind_res (positive_int (json_get d ''stderr_bytes'') ''stderr_bytes'') (\<lambda>se.
     Inr \<lparr>lim_cpus = c, lim_memory_mb = m, lim_pids = p, lim_timeout_seconds = t,
          lim_stdout_bytes = so, lim_stderr_bytes = se\<rparr>))))))))"

section \<open>Evidence\<close>

record MountEvidence =
  mount_type :: string
  mount_source :: string
  mount_destination :: string
  mount_mode :: string
  mount_writable :: bool

record ContainerEvidence =
  container_id :: string
  image_digest :: string
  created_at :: string
  started_at :: string
  finished_at :: string
  c_status :: string
  exit_code :: int
  oom_killed :: bool
  c_user :: string
  network_mode :: string
  readonly_rootfs :: bool
  cap_drop :: "string list"
  security_options :: "string list"
  memory_bytes :: int
  nano_cpus :: int
  pids_limit :: int
  pid_mode :: string
  ipc_mode :: string
  uts_mode :: string
  mounts :: "MountEvidence list"
  memory_swap_bytes :: int
  log_driver :: string
  ulimits :: "string list"
  stop_timeout :: int
  tmpfs :: "string list"
  cleanup_attempted :: bool
  cleanup_succeeded :: "bool option"
  cleanup_error :: "string option"

definition inspect_mapping :: "(string \<times> string json) list \<Rightarrow> string \<Rightarrow> container_error + (string \<times> string json) list" where
  "inspect_mapping d key =
     as_obj (json_get d key) (ContainerInfrastructureError (''inspect '' @ key @ '' must be an object''))"

definition inspect_text :: "(string \<times> string json) list \<Rightarrow> string \<Rightarrow> container_error + string" where
  "inspect_text d key =
     as_str (json_get d key) (ContainerInfrastructureError (''inspect '' @ key @ '' must be a string''))"

definition optional_text :: "string json \<Rightarrow> container_error + string" where
  "optional_text v = (if v = JNull then Inr []
     else as_str v (ContainerInfrastructureError ''inspect namespace mode must be a string''))"

definition inspect_integer :: "(string \<times> string json) list \<Rightarrow> string \<Rightarrow> container_error + int" where
  "inspect_integer d key =
     as_int (json_get d key) (ContainerInfrastructureError (''inspect '' @ key @ '' must be an integer''))"

definition inspect_boolean :: "(string \<times> string json) list \<Rightarrow> string \<Rightarrow> container_error + bool" where
  "inspect_boolean d key =
     as_bool (json_get d key) (ContainerInfrastructureError (''inspect '' @ key @ '' must be a boolean''))"

definition inspect_strings :: "string json \<Rightarrow> string \<Rightarrow> container_error + string list" where
  "inspect_strings v key =
     (let e = ContainerInfrastructureError (''inspect '' @ key @ '' must be string list'') in
      bind_res (as_list v e) (traverse (\<lambda>x. as_str x e)))"

definition inspect_ulimit :: "string json \<Rightarrow> container_error + string" where
  "inspect_ulimit item =
     bind_res (as_obj item (ContainerInfrastructureError ''inspect Ulimit must be an object'')) (\<lambda>d.
     bind_res (inspect_text d ''Name'') (\<lambda>n.
     bind_res (inspect_integer d ''Soft'') (\<lambda>s.
     bind_res (inspect_integer d ''Hard'') (\<lambda>h.
     Inr (n @ '':'' @ show_int s @ '':'' @ show_int h)))))"

definition inspect_ulimits :: "string json \<Rightarrow> container_error + string list" where
  "inspect_ulimits v =
     bind_res (as_list v (ContainerInfrastructureError ''inspect Ulimits must be a list''))
       (traverse inspect_ulimit)"

definition inspect_tmpfs :: "string json \<Rightarrow> container_error + string list" where
  "inspect_tmpfs v =
     (let e = ContainerInfrastructureError ''inspect Tmpfs must be a string mapping'' in
      bind_res (as_obj v e) (\<lambda>d.
      bind_res (traverse (\<lambda>(k, x). bind_res (as_str x e) (\<lambda>s. Inr (k, s))) d) (\<lambda>kvs.
      Inr (map (\<lambda>(k, s). k @ '':'' @ s) (sort_key fst kvs)))))"

definition inspect_mount :: "string json \<Rightarrow> container_error + MountEvidence" where
  "inspect_mount v =
     bind_res (as_obj v (ContainerInfrastructureError ''inspect mount must be an object'')) (\<lambda>d.
     bind_res (inspect_text d ''Type'') (\<lambda>ty.
     bind_res (inspect_text d ''Source'') (\<lambda>src.
     bind_res (inspect_text d ''Destination'') (\<lambda>dst.
     bind_res (optional_text (json_get d ''Mode'')) (\<lambda>md.
     bind_res (inspect_boolean d ''RW'') (\<lambda>rw.
     Inr \<lparr>mount_type = ty, mount_source = src, mount_destination = dst, mount_mode = md,
          mount_writable = rw\<rparr>))))))"

definition normalize_inspect :: "(string \<times> string json) list \<Rightarrow> container_error + ContainerEvidence" where
  "normalize_inspect value =
     bind_res (inspect_mapping value ''Config'') (\<lambda>config.
     bind_res (inspect_mapping value ''HostConfig'') (\<lambda>host.
     bind_res (inspect_mapping value ''State'') (\<lambda>state.
     bind_res (as_list (json_get_or value ''Mounts'' (JList []))
       (ContainerInfrastructureError ''inspect Mounts must be a list'')) (\<lambda>raw_mounts.
     bind_res (traverse inspect_mount raw_mounts) (\<lambda>ms.
     bind_res (inspect_text value ''Id'') (\<lambda>cid.
     bind_res (inspect_text value ''Image'') (\<lambda>image.
     bind_res (inspect_text value ''Created'') (\<lambda>created.
     bind_res (inspect_text state ''StartedAt'') (\<lambda>started.
     bind_res (inspect_text state ''FinishedAt'') (\<lambda>finished.
     bind_res (inspect_text state ''Status'') (\<lambda>status.
     bind_res (inspect_integer state ''ExitCode'') (\<lambda>code.
     bind_res (inspect_boolean state ''OOMKilled'') (\<lambda>oom.
     bind_res (inspect_text config ''User'') (\<lambda>usr.
     bind_res (inspect_text host ''NetworkMode'') (\<lambda>net.
     bind_res (inspect_boolean host ''ReadonlyRootfs'') (\<lambda>ro.
     bind_res (inspect_strings (json_get_or host ''CapDrop'' (JList [])) ''CapDrop'') (\<lambda>caps.
     bind_res (inspect_strings (json_get_or host ''SecurityOpt'' (JList [])) ''SecurityOpt'') (\<lambda>sec.
     bind_res (inspect_integer host ''Memory'') (\<lambda>mem.
     bind_res (inspect_integer host ''NanoCpus'') (\<lambda>cpus.
     bind_res (inspect_integer host ''PidsLimit'') (\<lambda>pids.
     bind_res (optional_text (json_get host ''PidMode'')) (\<lambda>pidm.
     bind_res (optional_text (json_get host ''IpcMode'')) (\<lambda>ipcm.
     bind_res (optional_text (json_get host ''UTSMode'')) (\<lambda>utsm.
     bind_res (inspect_integer host ''MemorySwap'') (\<lambda>swap.
     bind_res (inspect_mapping host ''LogConfig'') (\<lambda>log.
     bind_res (inspect_text log ''Type'') (\<lambda>driver.
     bind_res (inspect_ulimits (json_get_or host ''Ulimits'' (JList []))) (\<lambda>ul.
     bind_res (inspect_integer config ''StopTimeout'') (\<lambda>stop.
     bind_res (inspect_tmpfs (json_get_or host ''Tmpfs'' (JObj []))) (\<lambda>tm.
     Inr \<lparr>container_id = cid, image_digest = image, created_at = created, started_at = started,
          finished_at = finished, c_status = status, exit_code = code, oom_killed = oom, c_user = usr,
          network_mode = net, readonly_rootfs = ro, cap_drop = caps, security_options = sec,
          memory_bytes = mem, nano_cpus = cpus, pids_limit = pids, pid_mode = pidm, ipc_mode = ipcm,
          uts_mode = utsm, mounts = ms, memory_swap_bytes = swap, log_driver = driver, ulimits = ul,
          stop_timeout = stop, tmpfs = tm, cleanup_attempted = False, cleanup_succeeded = None,
          cleanup_error = None\<rparr>))))))))))))))))))))))))))))))"

definition mount_json :: "MountEvidence \<Rightarrow> string json" where
  "mount_json m = JObj
     [(''type'', JStr (mount_type m)), (''source'', JStr (mount_source m)),
      (''destination'', JStr (mount_destination m)), (''mode'', JStr (mount_mode m)),
      (''writable'', JBool (mount_writable m))]"

definition str_list :: "string list \<Rightarrow> string json" where
  "str_list xs = JList (map JStr xs)"

definition evidence_json :: "ContainerEvidence \<Rightarrow> string json" where
  "evidence_json c = JObj
     [(''container_id'', JStr (container_id c)), (''image_digest'', JStr (image_digest c)),
      (''created_at'', JStr (created_at c)), (''started_at'', JStr (started_at c)),
      (''finished_at'', JStr (finished_at c)), (''status'', JStr (c_status c)),
      (''exit_code'', JInt (exit_code c)), (''oom_killed'', JBool (oom_killed c)),
      (''user'', JStr (c_user c)), (''network_mode'', JStr (network_mode c)),
      (''readonly_rootfs'', JBool (readonly_rootfs c)), (''cap_drop'', str_list (cap_drop c)),
      (''security_options'', str_list (security_options c)), (''memory_bytes'', JInt (memory_bytes c)),
      (''nano_cpus'', JInt (nano_cpus c)), (''pids_limit'', JInt (pids_limit c)),
      (''memory_swap_bytes'', JInt (memory_swap_bytes c)), (''log_driver'', JStr (log_driver c)),
      (''ulimits'', str_list (ulimits c)), (''stop_timeout'', JInt (stop_timeout c)),
      (''tmpfs'', str_list (tmpfs c)), (''pid_mode'', JStr (pid_mode c)),
      (''ipc_mode'', JStr (ipc_mode c)), (''uts_mode'', JStr (uts_mode c)),
      (''mounts'', JList (map mount_json (mounts c))),
      (''cleanup_attempted'', JBool (cleanup_attempted c)),
      (''cleanup_succeeded'', opt_json JBool (cleanup_succeeded c)),
      (''cleanup_error'', opt_json JStr (cleanup_error c))]"

section \<open>Paths\<close>

definition path_root :: "string \<Rightarrow> string" where
  \<comment> \<open>\<^verbatim>\<open>PurePosixPath(s).root\<close>: exactly two leading slashes stay two\<close>
  "path_root s = (if starts_with ''///'' s then ''/'' else if starts_with ''//'' s then ''//''
     else if starts_with ''/'' s then ''/'' else [])"

definition path_names :: "string \<Rightarrow> string list" where
  \<comment> \<open>the parts of a path without its root\<close>
  "path_names s = filter (\<lambda>p. p \<noteq> [] \<and> p \<noteq> ''.'') (split_on (CHR ''/'') s)"

definition with_name :: "string \<Rightarrow> string \<Rightarrow> container_error + string" where
  "with_name s name =
     (if path_names s = [] then Inl (PyError ''ValueError'')
      else Inr (path_root s @ join ''/'' (butlast (path_names s) @ [name])))"

definition path_name :: "string \<Rightarrow> string" where
  "path_name s = (if path_names s = [] then [] else last (path_names s))"

section \<open>Creating a container\<close>

record ImageLock =
  schema_version :: int
  container_protocol_version :: int
  lock_platform :: string
  base_image :: string
  dockerfile_sha256 :: string
  image_reference :: string
  lock_image_digest :: string
  lock_runtime_user :: string

record ContainerContract =
  instance_root :: string
  protocol_version :: int
  dockerfile :: string
  lock_file :: string
  context_files :: "(string, string) dict"
  k_platform :: string
  k_user :: string
  workdir :: string
  entrypoint :: "string list"
  gateway_path :: string
  output_path :: string
  limits :: ContainerLimits
  lock :: ImageLock

record run_inputs =
  \<comment> \<open>the arguments of \<^verbatim>\<open>run_container\<close>, paths already resolved\<close>
  in_image_digest :: string
  in_workspace :: string
  in_socket_dir :: string
  in_runner_dir :: string
  in_run_id :: string
  in_world_id :: string
  visa_socket_env :: bool
  fibsem_mode :: bool
  in_owner :: "string option"
    \<comment> \<open>the environment variable \<^verbatim>\<open>IAB_CONTAINER_OWNER\<close>\<close>
  in_time :: int
  in_token :: string
    \<comment> \<open>\<^verbatim>\<open>secrets.token_hex(6)\<close>\<close>

definition is_alnum :: "char \<Rightarrow> bool" where
  \<comment> \<open>\<^verbatim>\<open>str.isalnum\<close> of one character\<close>
  "is_alnum c = (let n = code_of c in
     (48 \<le> n \<and> n \<le> 57) \<or> (65 \<le> n \<and> n \<le> 90) \<or> (97 \<le> n \<and> n \<le> 122) \<or>
     n \<in> {170, 178, 179, 181, 185, 186, 188, 189, 190} \<or>
     (192 \<le> n \<and> n \<noteq> 215 \<and> n \<noteq> 247))"

definition container_name :: "string \<Rightarrow> string \<Rightarrow> string \<Rightarrow> string" where
  "container_name rid wid token =
     take 128 (map (\<lambda>c. if is_alnum c \<or> c \<in> set ''_.-'' then c else CHR ''-'')
       (''iab-'' @ rid @ ''-'' @ wid @ ''-'' @ token))"

definition float_str :: "runtime \<Rightarrow> pyfloat \<Rightarrow> string" where
  \<comment> \<open>\<^verbatim>\<open>str(x)\<close> of a float\<close>
  "float_str rt x = (case x of Fin q \<Rightarrow> float_repr rt q | PosInf \<Rightarrow> ''inf'' | NegInf \<Rightarrow> ''-inf'' | NaN \<Rightarrow> ''nan'')"

definition output_size :: "EffectiveContainerPolicy \<Rightarrow> int" where
  "output_size p = max (pol_stdout_bytes p) (pol_stderr_bytes p) * 4"

definition create_arguments ::
  "runtime \<Rightarrow> ContainerContract \<Rightarrow> EffectiveContainerPolicy \<Rightarrow> run_inputs \<Rightarrow> container_error + string list" where
  "create_arguments rt k p i =
     bind_res (with_name (output_path k) ''return.json'') (\<lambda>returned.
     let memory = show_int (pol_memory_mb p) @ ''m'' in
     Inr ([''create'',
       ''--name='' @ container_name (in_run_id i) (in_world_id i) (in_token i),
       ''--label=iab.managed=true'',
       ''--label=iab.run='' @ in_run_id i,
       ''--label=iab.world='' @ in_world_id i,
       ''--label=iab.evaluator='' @ path_name (instance_root k),
       ''--label=iab.owner='' @ (case in_owner i of None \<Rightarrow> in_run_id i | Some x \<Rightarrow> x),
       ''--label=iab.expires='' @ show_int (in_time i + 3600),
       ''--network=none'',
       ''--read-only'',
       ''--cap-drop=ALL'',
       ''--security-opt=no-new-privileges'',
       ''--log-driver=none'',
       ''--user='' @ k_user k,
       ''--env=IAB_CONTAINER_MODE=1'',
       ''--workdir='' @ workdir k,
       ''--cpus='' @ float_str rt (pol_cpus p),
       ''--memory='' @ memory,
       ''--memory-swap='' @ memory,
       ''--pids-limit='' @ show_int (pol_pids p),
       ''--ulimit=nofile=256:256'',
       ''--stop-timeout=1'',
       ''--tmpfs=/tmp:rw,noexec,nosuid,nodev,size=64m'',
       ''--mount=type=bind,src='' @ in_workspace i @ '',dst='' @ workdir k @ '',readonly'',
       ''--mount=type=bind,src='' @ in_runner_dir i @ '',dst=/runner,readonly'',
       ''--mount=type=bind,src='' @ in_socket_dir i @ '',dst=/run/iab,readonly'',
       ''--tmpfs=/output:rw,nosuid,nodev,noexec,uid=10001,gid=10001,mode=0770,size='' @
         show_int (output_size p)] @
       (if visa_socket_env i then [''--env=IAB_VISA_SOCKET=/run/iab/visa.sock''] else []) @
       (if fibsem_mode i then [''--env=IAB_FIBSEM_MODE=1''] else []) @
       [in_image_digest i, workdir k @ ''/solution.py'', gateway_path k, output_path k, returned]))"

section \<open>Checking the running container\<close>

definition tmpfs_options :: "string list \<Rightarrow> (string, string list) dict" where
  "tmpfs_options values =
     foldl (\<lambda>d v. case split_once (CHR '':'') v of None \<Rightarrow> d
       | Some (dst, opts) \<Rightarrow> AList.update dst (split_on (CHR '','') opts) d) [] values"

definition has_options :: "(string, string list) dict \<Rightarrow> string \<Rightarrow> string list \<Rightarrow> bool" where
  "has_options d dst req =
     list_all (\<lambda>o'. o' \<in> set (case map_of d dst of None \<Rightarrow> [] | Some xs \<Rightarrow> xs)) req"

definition trunc_float :: "pyfloat \<Rightarrow> container_error + int" where
  \<comment> \<open>\<^verbatim>\<open>int(x)\<close> of a float\<close>
  "trunc_float x = (case x of
     Fin q \<Rightarrow> Inr (if 0 \<le> q then \<lfloor>q\<rfloor> else - \<lfloor>- q\<rfloor>)
   | NaN \<Rightarrow> Inl (PyError ''ValueError'') | _ \<Rightarrow> Inl (PyError ''OverflowError''))"

definition bind_mounts :: "ContainerEvidence \<Rightarrow> MountEvidence list" where
  "bind_mounts ev = filter (\<lambda>m. mount_type m = ''bind'') (mounts ev)"

definition runtime_checks ::
  "ContainerEvidence \<Rightarrow> ContainerContract \<Rightarrow> EffectiveContainerPolicy \<Rightarrow> string \<Rightarrow>
     container_error + (string \<times> bool) list" where
  "runtime_checks ev k p img =
     (let tm = tmpfs_options (tmpfs ev); memory = pol_memory_mb p * 1024 * 1024 in
      bind_res (trunc_float (pf_mul (pol_cpus p) (Fin 1000000000))) (\<lambda>cpus.
      Inr [(''network mode'', network_mode ev = ''none''),
           (''read-only rootfs'', readonly_rootfs ev),
           (''runtime user'', c_user ev = k_user k),
           (''capability drop'', ''ALL'' \<in> set (cap_drop ev)),
           (''no-new-privileges'', ''no-new-privileges'' \<in> set (security_options ev)),
           (''memory limit'', memory_bytes ev = memory),
           (''swap limit'', memory_swap_bytes ev = memory),
           (''CPU limit'', nano_cpus ev = cpus),
           (''PID limit'', pids_limit ev = pol_pids p),
           (''image digest'', image_digest ev = img),
           (''log driver'', log_driver ev = ''none''),
           (''nofile ulimit'', ''nofile:256:256'' \<in> set (ulimits ev)),
           (''stop timeout'', stop_timeout ev = 1),
           (''output tmpfs'', has_options tm ''/output'' [''rw'', ''nosuid'', ''nodev'', ''noexec'',
              ''uid=10001'', ''gid=10001'', ''mode=0770'', ''size='' @ show_int (output_size p)]),
           (''temporary tmpfs'', has_options tm ''/tmp'' [''rw'', ''nosuid'', ''nodev'', ''noexec'', ''size=64m'']),
           (''bind mount allowlist'',
              set (map mount_destination (bind_mounts ev)) = set [workdir k, ''/runner'', ''/run/iab'']),
           (''read-only bind mounts'', list_all (\<lambda>m. \<not> mount_writable m) (bind_mounts ev))]))"

definition validate_runtime ::
  "ContainerEvidence \<Rightarrow> ContainerContract \<Rightarrow> EffectiveContainerPolicy \<Rightarrow> string \<Rightarrow> container_error + unit" where
  "validate_runtime ev k p img =
     bind_res (runtime_checks ev k p img) (\<lambda>checks.
     let failed = map fst (filter (\<lambda>(n, b). \<not> b) checks) in
     require (failed = [])
       (ContainerInfrastructureError (''container runtime policy mismatch: '' @ join '', '' failed)))"

section \<open>The artifacts of a run\<close>

record ArtifactEvidence =
  filename :: string
  size_bytes :: "string json"
  a_sha256 :: "string json"
  uid :: "string json"
  gid :: "string json"
  a_mode :: "string json"

definition item_field :: "(string \<times> string json) list \<Rightarrow> string \<Rightarrow> container_error + string json" where
  "item_field d k = (case map_of d k of None \<Rightarrow> Inl (PyError ''KeyError'') | Some v \<Rightarrow> Inr v)"

record live_envelope =
  \<comment> \<open>what the collector printed, decoded: the entry of \<^verbatim>\<open>result.json\<close>, its bytes, and the values of
      the two files\<close>
  public_item :: "(string \<times> string json) list"
  public_payload :: string
  public_result :: "string json"
  private_result :: "string json"

definition in_modes :: "string json \<Rightarrow> container_error + bool" where
  \<comment> \<open>\<^verbatim>\<open>v in {0o600, 0o644}\<close>; lists and objects cannot be hashed\<close>
  "in_modes v = (case v of JList _ \<Rightarrow> Inl (PyError ''TypeError'') | JObj _ \<Rightarrow> Inl (PyError ''TypeError'')
     | _ \<Rightarrow> Inr (eq_int v 384 \<or> eq_int v 420))"

definition collect_live_artifacts ::
  "runtime \<Rightarrow> live_envelope \<Rightarrow> container_error + (string \<times> string json) list \<times> ArtifactEvidence" where
  "collect_live_artifacts rt e =
     bind_res (as_obj (public_result e)
       (OutputCollectionError ''result and return artifacts must match objects'')) (\<lambda>result.
     bind_res (require (py_eq (public_result e) (private_result e))
       (OutputCollectionError ''result and return artifacts must match objects'')) (\<lambda>_.
     bind_res (item_field (public_item e) ''uid'') (\<lambda>u.
     bind_res (if eq_int u 10001 then bind_res (item_field (public_item e) ''mode'') in_modes else Inr False) (\<lambda>ok.
     bind_res (require ok (OutputCollectionError ''result artifact owner or mode is invalid'')) (\<lambda>_.
     bind_res (item_field (public_item e) ''sha256'') (\<lambda>sha.
     bind_res (require (sha = JStr (sha256 rt (public_payload e)))
       (OutputCollectionError ''result artifact hash mismatch'')) (\<lambda>_.
     bind_res (item_field (public_item e) ''size'') (\<lambda>sz.
     bind_res (item_field (public_item e) ''gid'') (\<lambda>g.
     bind_res (item_field (public_item e) ''mode'') (\<lambda>m.
     Inr (result, \<lparr>filename = ''result.json'', size_bytes = sz, a_sha256 = sha, uid = u, gid = g,
       a_mode = m\<rparr>)))))))))))"

section \<open>The life cycle of a candidate container\<close>

record AttachedContainerResult =
  at_returncode :: int
  at_stdout :: string
  at_stderr :: string
  timed_out :: bool
  output_limited :: bool
  completed_signal :: bool

record docker =
  d_create :: "string list \<Rightarrow> container_error + string"
    \<comment> \<open>standard output of \<^verbatim>\<open>docker create\<close>\<close>
  d_attach :: "string \<Rightarrow> container_error + AttachedContainerResult"
  d_live :: "container_error + live_envelope"
    \<comment> \<open>what the collector prints when the completion signal is seen\<close>
  d_inspect :: "string \<Rightarrow> container_error + (string \<times> string json) list"
  d_remove :: "string \<Rightarrow> string option"
    \<comment> \<open>the message of the \<^verbatim>\<open>ContainerInfrastructureError\<close>, if any\<close>

datatype docker_call =
    CreateCall "string list"
  | StartCall string
    \<comment> \<open>\<^verbatim>\<open>docker start --attach\<close>; a \<^verbatim>\<open>docker kill\<close> that ends the attachment is part of it\<close>
  | CollectCall string
    \<comment> \<open>\<^verbatim>\<open>docker exec\<close> of the live collector, when the completion signal is seen\<close>
  | InspectCall string
  | RemoveCall string

record ContainerProcessResult =
  cp_status :: string
  cp_returncode :: "int option"
  cp_stdout :: string
  cp_stderr :: string
  cp_result :: "(string \<times> string json) list option"
  cp_container_evidence :: ContainerEvidence
  cp_artifact_evidence :: "ArtifactEvidence option"
  cp_candidate_status :: string

record verdict =
  v_status :: string
  v_stderr :: string
  v_result :: "((string \<times> string json) list \<times> ArtifactEvidence) option"

definition copy_artifacts ::
  "runtime \<Rightarrow> docker \<Rightarrow> container_error + (string + (string \<times> string json) list \<times> ArtifactEvidence)" where
  \<comment> \<open>the callback: \<^verbatim>\<open>OutputCollectionError\<close> is kept as \<^verbatim>\<open>live_error\<close>, anything else leaves \<^verbatim>\<open>start_attached\<close>\<close>
  "copy_artifacts rt dk =
     (case bind_res (d_live dk) (collect_live_artifacts rt) of
        Inr x \<Rightarrow> Inr (Inr x)
      | Inl (OutputCollectionError m) \<Rightarrow> Inr (Inl m)
      | Inl e \<Rightarrow> Inl e)"

definition judge_run ::
  "AttachedContainerResult \<Rightarrow> ContainerEvidence \<Rightarrow> (string + (string \<times> string json) list \<times> ArtifactEvidence) \<Rightarrow> verdict" where
  "judge_run att ev live =
     (let nl = [CHR 0x0A]; same = (\<lambda>s. \<lparr>v_status = s, v_stderr = at_stderr att, v_result = None\<rparr>) in
      if completed_signal att then
        (case live of
           Inl m \<Rightarrow> \<lparr>v_status = ''invalid_result'',
                     v_stderr = strip (at_stderr att @ nl @ ''invalid result: '' @
                       (if m = [] then ''missing artifact'' else m)), v_result = None\<rparr>
         | Inr x \<Rightarrow> \<lparr>v_status = ''completed'', v_stderr = at_stderr att, v_result = Some x\<rparr>)
      else if timed_out att then same ''candidate_timeout''
      else if output_limited att then same ''output_limit''
      else if oom_killed ev then same ''candidate_oom''
      else if at_returncode att = 0 then
        \<lparr>v_status = ''invalid_result'',
         v_stderr = strip (at_stderr att @ nl @ ''missing trusted bootstrap completion signal''), v_result = None\<rparr>
      else if at_returncode att \<in> {2, 3} then same ''invalid_result''
      else same ''candidate_failure'')"

definition run_body ::
  "runtime \<Rightarrow> docker \<Rightarrow> ContainerContract \<Rightarrow> EffectiveContainerPolicy \<Rightarrow> run_inputs \<Rightarrow> string \<Rightarrow>
     docker_call list \<times> (container_error + AttachedContainerResult \<times> ContainerEvidence \<times> verdict)" where
  \<comment> \<open>the \<^verbatim>\<open>try\<close> block after \<^verbatim>\<open>docker create\<close> returned an id; an attachment that raises is listed without the
    collector, whether or not it had run\<close>
  "run_body rt dk k p i cid =
     (if cid = [] \<or> CHR 0x0A \<in> set cid
      then ([], Inl (ContainerInfrastructureError ''docker create did not return one container ID''))
      else case d_attach dk cid of
        Inl e \<Rightarrow> ([StartCall cid], Inl e)
      | Inr att \<Rightarrow>
          let calls = StartCall cid # (if completed_signal att then [CollectCall cid] else []) in
          (case (if completed_signal att then copy_artifacts rt dk else Inr (Inl [])) of
             Inl e \<Rightarrow> (calls, Inl e)
           | Inr live \<Rightarrow>
               (calls @ [InspectCall cid],
                bind_res (bind_res (d_inspect dk cid) normalize_inspect) (\<lambda>ev.
                bind_res (validate_runtime ev k p (in_image_digest i)) (\<lambda>_.
                Inr (att, ev, judge_run att ev live))))))"

definition run_container ::
  "runtime \<Rightarrow> docker \<Rightarrow> ContainerContract \<Rightarrow> EffectiveContainerPolicy \<Rightarrow> run_inputs \<Rightarrow>
     docker_call list \<times> (container_error + ContainerProcessResult)" where
  "run_container rt dk k p i =
     (case create_arguments rt k p i of
        Inl e \<Rightarrow> ([], Inl e)
      | Inr args \<Rightarrow>
          (case d_create dk args of
             Inl e \<Rightarrow> ([CreateCall args], Inl e)
           | Inr out \<Rightarrow>
               let cid = strip out; (calls, res) = run_body rt dk k p i cid; failed = d_remove dk cid in
               (CreateCall args # calls @ [RemoveCall cid],
                bind_res res (\<lambda>(att, ev, v).
                Inr \<lparr>cp_status = (if failed = None then v_status v else ''infrastructure_failure''),
                     cp_returncode = Some (at_returncode att), cp_stdout = at_stdout att,
                     cp_stderr = v_stderr v, cp_result = map_option fst (v_result v),
                     cp_container_evidence = ev\<lparr>cleanup_attempted := True,
                       cleanup_succeeded := Some (failed = None), cleanup_error := failed\<rparr>,
                     cp_artifact_evidence = map_option snd (v_result v),
                     cp_candidate_status = v_status v\<rparr>))))"

section \<open>Lemmas\<close>

lemmas inspect_defs = inspect_mapping_def inspect_text_def inspect_integer_def inspect_boolean_def

lemma inspect_fields [res_simps]:
  "inspect_mapping d k = Inr m \<longleftrightarrow> json_get d k = JObj m"
  "inspect_text d k = Inr s \<longleftrightarrow> json_get d k = JStr s"
  "inspect_integer d k = Inr n \<longleftrightarrow> json_get d k = JInt n"
  "inspect_boolean d k = Inr b \<longleftrightarrow> json_get d k = JBool b"
  by (simp_all add: inspect_defs as_Inr as_bool_Inr)

lemma traverse_as_str: "traverse (\<lambda>x. as_str x e) vs = Inr ss \<longleftrightarrow> vs = map JStr ss"
  by (induction vs arbitrary: ss) (auto simp: res_simps)

lemma inspect_strings_Inr [res_simps]: "inspect_strings v k = Inr ss \<longleftrightarrow> v = str_list ss"
  by (auto simp: inspect_strings_def Let_def res_simps traverse_as_str str_list_def)

definition reported_text :: "string json \<Rightarrow> string \<Rightarrow> bool" where
  \<comment> \<open>an entry that may be missing or null, and the text read from it\<close>
  "reported_text v s \<longleftrightarrow> v = JStr s \<or> v = JNull \<and> s = []"

definition reported_mount :: "string json \<Rightarrow> MountEvidence \<Rightarrow> bool" where
  "reported_mount v m \<longleftrightarrow> (\<exists>d. v = JObj d \<and> json_get d ''Type'' = JStr (mount_type m) \<and>
     json_get d ''Source'' = JStr (mount_source m) \<and> json_get d ''Destination'' = JStr (mount_destination m) \<and>
     reported_text (json_get d ''Mode'') (mount_mode m) \<and> json_get d ''RW'' = JBool (mount_writable m))"

definition reported_ulimit :: "string json \<Rightarrow> string \<Rightarrow> bool" where
  "reported_ulimit v t \<longleftrightarrow> (\<exists>d name soft hard. v = JObj d \<and> json_get d ''Name'' = JStr name \<and>
     json_get d ''Soft'' = JInt soft \<and> json_get d ''Hard'' = JInt hard \<and>
     t = name @ '':'' @ show_int soft @ '':'' @ show_int hard)"

lemma optional_text_Inr: "optional_text v = Inr s \<longleftrightarrow> reported_text v s"
  by (auto simp: optional_text_def reported_text_def res_simps)

lemma inspect_mount_Inr: "inspect_mount v = Inr m \<Longrightarrow> reported_mount v m"
  unfolding inspect_mount_def reported_mount_def by (auto simp: res_simps optional_text_Inr)

lemma inspect_ulimit_Inr: "inspect_ulimit v = Inr t \<Longrightarrow> reported_ulimit v t"
  unfolding inspect_ulimit_def reported_ulimit_def by (auto simp: res_simps)

lemma traverse_text_pairs:
  "traverse (\<lambda>(k, x). bind_res (as_str x e) (\<lambda>s. Inr (k, s))) d = Inr kvs \<longleftrightarrow> d = map (\<lambda>(k, s). (k, JStr s)) kvs"
  by (induction d arbitrary: kvs) (auto simp: res_simps)

lemma inspect_tmpfs_Inr:
  assumes "inspect_tmpfs v = Inr ts"
  shows "\<exists>d kvs. v = JObj d \<and> mset d = mset (map (\<lambda>(k, s). (k, JStr s)) kvs) \<and> sorted (map fst kvs) \<and>
    ts = map (\<lambda>(k, s). k @ '':'' @ s) kvs"
proof -
  obtain d kvs where "v = JObj d" "d = map (\<lambda>(k, s). (k, JStr s)) kvs" "ts = map (\<lambda>(k, s). k @ '':'' @ s) (sort_key fst kvs)"
    using assms by (auto simp: inspect_tmpfs_def Let_def res_simps traverse_text_pairs)
  then show ?thesis by (intro exI [of _ d] exI [of _ "sort_key fst kvs"]) simp
qed

lemma traverse_list_all2: "traverse f xs = Inr ys \<Longrightarrow> list_all2 (\<lambda>x y. f x = Inr y) xs ys"
  by (induction xs arbitrary: ys) (auto simp: res_simps)

lemma traverse_reported: "traverse f xs = Inr ys \<Longrightarrow> (\<And>x y. f x = Inr y \<Longrightarrow> P x y) \<Longrightarrow> list_all2 P xs ys"
  by (drule traverse_list_all2) (erule list_all2_mono)

lemma traverse_mounts: "traverse inspect_mount xs = Inr ms \<Longrightarrow> list_all2 reported_mount xs ms"
  by (erule traverse_reported) (rule inspect_mount_Inr)

lemma inspect_ulimits_Inr:
  "inspect_ulimits v = Inr ts \<Longrightarrow> \<exists>us. v = JList us \<and> list_all2 reported_ulimit us ts"
  by (auto simp: inspect_ulimits_def res_simps intro: traverse_reported inspect_ulimit_Inr)

lemma validate_runtime_Inr:
  assumes "validate_runtime ev k p img = Inr u"
  shows "\<exists>cs. runtime_checks ev k p img = Inr cs \<and> list_all snd cs"
  using assms unfolding validate_runtime_def
  by (fastforce simp: bind_res_Inr_iff Let_def list_all_iff filter_empty_conv)

lemma split_once_Some: "split_once c s = Some (a, b) \<Longrightarrow> s = a @ c # b"
  by (induction s arbitrary: a) (auto simp: split_once_def split: list.splits if_splits)

lemma split_on_not_Nil [simp]: "split_on c s \<noteq> []"
  by (induction s) (auto split: list.splits)

lemma join_split_on: "join [c] (split_on c s) = s"
proof (induction s)
  case (Cons x xs)
  obtain w ws where "split_on c xs = w # ws" by (cases "split_on c xs") auto
  with Cons show ?case by (cases ws) auto
qed simp

definition tmpfs_mounted :: "string list \<Rightarrow> string \<Rightarrow> string list \<Rightarrow> bool" where
  \<comment> \<open>a temporary file system is mounted there, with at least these options\<close>
  "tmpfs_mounted ts dst req \<longleftrightarrow> (\<exists>os. dst @ '':'' @ join '','' os \<in> set ts \<and> set req \<subseteq> set os)"

lemma tmpfs_options_Some:
  assumes "map_of (tmpfs_options ts) dst = Some os"
  shows "dst @ '':'' @ join '','' os \<in> set ts"
  using assms
proof (induction ts arbitrary: os rule: rev_induct)
  case (snoc t ts)
  then show ?case
    by (auto simp: tmpfs_options_def update_conv join_split_on split: option.splits if_splits
        dest!: split_once_Some [THEN sym])
qed (simp add: tmpfs_options_def)

lemma has_options_mounted:
  assumes "has_options (tmpfs_options ts) dst (r # req)"
  shows "tmpfs_mounted ts dst (r # req)"
proof (cases "map_of (tmpfs_options ts) dst")
  case (Some os)
  with assms tmpfs_options_Some [OF Some] show ?thesis
    unfolding has_options_def tmpfs_mounted_def by (intro exI [of _ os]) (auto simp: list_all_iff)
qed (use assms in \<open>simp add: has_options_def\<close>)

lemma runtime_checks_Inr:
  assumes "runtime_checks ev k p img = Inr cs" and "list_all snd cs"
  shows "network_mode ev = ''none'' \<and> readonly_rootfs ev \<and> c_user ev = k_user k \<and>
    ''ALL'' \<in> set (cap_drop ev) \<and> ''no-new-privileges'' \<in> set (security_options ev) \<and>
    memory_bytes ev = pol_memory_mb p * 1024 * 1024 \<and> memory_swap_bytes ev = pol_memory_mb p * 1024 * 1024 \<and>
    pids_limit ev = pol_pids p \<and> image_digest ev = img \<and>
    trunc_float (pf_mul (pol_cpus p) (Fin 1000000000)) = Inr (nano_cpus ev) \<and>
    log_driver ev = ''none'' \<and> ''nofile:256:256'' \<in> set (ulimits ev) \<and> stop_timeout ev = 1 \<and>
    tmpfs_mounted (tmpfs ev) ''/output'' [''rw'', ''nosuid'', ''nodev'', ''noexec'',
      ''uid=10001'', ''gid=10001'', ''mode=0770'', ''size='' @ show_int (output_size p)] \<and>
    tmpfs_mounted (tmpfs ev) ''/tmp'' [''rw'', ''nosuid'', ''nodev'', ''noexec'', ''size=64m''] \<and>
    set (map mount_destination (bind_mounts ev)) = {workdir k, ''/runner'', ''/run/iab''} \<and>
    (\<forall>m \<in> set (bind_mounts ev). \<not> mount_writable m)"
  using assms unfolding runtime_checks_def Let_def
  by (elim bind_res_Inr_iff [THEN iffD1, THEN exE] conjE) (clarsimp simp: list_all_iff has_options_mounted)

lemma run_body_calls:
  "set (fst (run_body rt dk k p i cid)) \<subseteq> {StartCall cid, CollectCall cid, InspectCall cid}"
  by (auto simp: run_body_def Let_def split: sum.splits)

lemma run_body_Inr:
  assumes "run_body rt dk k p i cid = (calls, Inr (att, ev, v))"
  obtains raw live where "d_attach dk cid = Inr att" "d_inspect dk cid = Inr raw" "normalize_inspect raw = Inr ev"
    "validate_runtime ev k p (in_image_digest i) = Inr ()" "v = judge_run att ev live"
    "completed_signal att \<longrightarrow> copy_artifacts rt dk = Inr live"
proof (cases "cid = [] \<or> CHR 0x0A \<in> set cid")
  case False
  note b = assms [unfolded run_body_def if_not_P [OF False]]
  obtain att' where a: "d_attach dk cid = Inr att'"
    using b by (cases "d_attach dk cid") auto
  note b = b [unfolded Let_def]
  obtain live where l: "(if completed_signal att' then copy_artifacts rt dk else Inr (Inl [])) = Inr live"
    using b by (cases "if completed_signal att' then copy_artifacts rt dk else Inr (Inl [])") (auto simp: a)
  have "bind_res (bind_res (d_inspect dk cid) normalize_inspect) (\<lambda>ev'.
      bind_res (validate_runtime ev' k p (in_image_digest i)) (\<lambda>_. Inr (att', ev', judge_run att' ev' live))) =
      Inr (att, ev, v)"
    using b unfolding a sum.case l by simp
  then obtain raw where "d_inspect dk cid = Inr raw" "normalize_inspect raw = Inr ev"
    "validate_runtime ev k p (in_image_digest i) = Inr ()" "att' = att" "v = judge_run att ev live"
    by (auto simp: bind_res_Inr_iff)
  moreover have "completed_signal att \<longrightarrow> copy_artifacts rt dk = Inr live"
    using l \<open>att' = att\<close> by auto
  ultimately show thesis using that a by blast
qed (use assms in \<open>simp add: run_body_def\<close>)

lemma run_container_Inr:
  assumes "snd (run_container rt dk k p i) = Inr r"
  obtains args out att ev v calls where "create_arguments rt k p i = Inr args" "d_create dk args = Inr out"
    "run_body rt dk k p i (strip out) = (calls, Inr (att, ev, v))"
    "cp_status r = (if d_remove dk (strip out) = None then v_status v else ''infrastructure_failure'')"
    "cp_container_evidence r = ev\<lparr>cleanup_attempted := True,
       cleanup_succeeded := Some (d_remove dk (strip out) = None), cleanup_error := d_remove dk (strip out)\<rparr>"
    "cp_result r = map_option fst (v_result v)" "cp_artifact_evidence r = map_option snd (v_result v)"
proof -
  obtain args where a: "create_arguments rt k p i = Inr args"
    using assms by (cases "create_arguments rt k p i") (auto simp: run_container_def)
  obtain out where o': "d_create dk args = Inr out"
    using assms a by (cases "d_create dk args") (auto simp: run_container_def)
  obtain calls res where b: "run_body rt dk k p i (strip out) = (calls, res)" by fastforce
  from assms obtain att ev v where res: "res = Inr (att, ev, v)"
    by (cases res) (auto simp: run_container_def a o' b)
  show thesis
    using assms a o' b unfolding res
    by (intro that [of args out calls att ev v]) (auto simp: run_container_def a Let_def)
qed

lemma judge_completed:
  assumes "v_status (judge_run att ev live) = ''completed''"
  shows "completed_signal att" and "\<exists>x. live = Inr x \<and> v_result (judge_run att ev live) = Some x"
  using assms unfolding judge_run_def Let_def by (auto split: if_splits sum.splits)

lemma judge_result: "v_result (judge_run att ev live) = Some x \<Longrightarrow> v_status (judge_run att ev live) = ''completed''"
  unfolding judge_run_def Let_def by (auto split: if_splits sum.splits)

lemma collect_live_Inr:
  assumes "collect_live_artifacts rt e = Inr (res, art)"
  shows "public_result e = JObj res \<and> py_eq (JObj res) (private_result e) \<and>
    a_sha256 art = JStr (sha256 rt (public_payload e)) \<and> eq_int (uid art) 10001 \<and>
    (eq_int (a_mode art) 384 \<or> eq_int (a_mode art) 420)"
  using assms unfolding collect_live_artifacts_def
  by (auto simp: res_simps in_modes_def split: if_splits json.splits)

lemma copy_artifacts_Inr:
  "copy_artifacts rt dk = Inr (Inr x) \<longleftrightarrow> (\<exists>e. d_live dk = Inr e \<and> collect_live_artifacts rt e = Inr x)"
  unfolding copy_artifacts_def by (auto simp: bind_res_Inr_iff split: sum.splits container_error.splits)

section \<open>A concrete container\<close>

definition example_inspect :: "(string \<times> string json) list" where
  "example_inspect =
     [(''Id'', JStr ''c1''), (''Image'', JStr ''sha256:1''), (''Created'', JStr ''t0''),
      (''Config'', JObj [(''User'', JStr ''10001:10001''), (''StopTimeout'', JInt 1)]),
      (''State'', JObj [(''StartedAt'', JStr ''t1''), (''FinishedAt'', JStr ''t2''), (''Status'', JStr ''exited''),
        (''ExitCode'', JInt 0), (''OOMKilled'', JBool False)]),
      (''HostConfig'', JObj [(''NetworkMode'', JStr ''none''), (''ReadonlyRootfs'', JBool True),
        (''CapDrop'', JList [JStr ''ALL'']), (''SecurityOpt'', JList [JStr ''no-new-privileges'']),
        (''Memory'', JInt 268435456), (''MemorySwap'', JInt 268435456), (''NanoCpus'', JInt 1000000000),
        (''PidsLimit'', JInt 64), (''LogConfig'', JObj [(''Type'', JStr ''none'')]),
        (''Ulimits'', JList [JObj [(''Name'', JStr ''nofile''), (''Soft'', JInt 256), (''Hard'', JInt 256)]]),
        (''Tmpfs'', JObj [(''/tmp'', JStr ''rw,noexec,nosuid,nodev,size=64m''),
          (''/output'', JStr ''rw,nosuid,nodev,noexec,uid=10001,gid=10001,mode=0770,size=4096'')])]),
      (''Mounts'', JList (map (\<lambda>d. JObj [(''Type'', JStr ''bind''), (''Source'', JStr ''/s''),
        (''Destination'', JStr d), (''RW'', JBool False)]) [''/w'', ''/runner'', ''/run/iab'']))]"

definition example_limits :: ContainerLimits where
  "example_limits = \<lparr>lim_cpus = Fin 1, lim_memory_mb = 256, lim_pids = 128, lim_timeout_seconds = Fin 60,
     lim_stdout_bytes = 1024, lim_stderr_bytes = 1024\<rparr>"

definition example_contract :: ContainerContract where
  "example_contract =
     \<lparr>instance_root = ''/i/x'', protocol_version = 1, dockerfile = ''Dockerfile'', lock_file = ''lock'',
      context_files = [], k_platform = ''linux/amd64'', k_user = ''10001:10001'', workdir = ''/w'',
      entrypoint = [''python'', ''b.py''], gateway_path = ''/run/iab/gateway.sock'', output_path = ''/output/result.json'',
      limits = example_limits,
      lock = \<lparr>schema_version = 1, container_protocol_version = 1, lock_platform = ''linux/amd64'',
        base_image = ''b'', dockerfile_sha256 = ''d'', image_reference = ''r'', lock_image_digest = ''sha256:1'',
        lock_runtime_user = ''10001:10001''\<rparr>\<rparr>"

definition example_policy :: EffectiveContainerPolicy where
  "example_policy = effective_policy example_limits default_maxima"

definition example_inputs :: run_inputs where
  "example_inputs = \<lparr>in_image_digest = ''sha256:1'', in_workspace = ''/h/w'', in_socket_dir = ''/h/s'',
     in_runner_dir = ''/h/r'', in_run_id = ''r'', in_world_id = ''w'', visa_socket_env = False,
     fibsem_mode = False, in_owner = None, in_time = 0, in_token = ''ab''\<rparr>"

definition example_docker_rt :: runtime where
  "example_docker_rt = \<lparr>float_repr = (\<lambda>_. ''1.0''), sha256 = (\<lambda>_. ''d'')\<rparr>"

definition example_docker :: docker where
  "example_docker =
     \<lparr>d_create = (\<lambda>_. Inr ''c1''),
      d_attach = (\<lambda>_. Inr \<lparr>at_returncode = 143, at_stdout = [], at_stderr = [], timed_out = False,
        output_limited = False, completed_signal = True\<rparr>),
      d_live = Inr \<lparr>public_item = [(''uid'', JInt 10001), (''gid'', JInt 10001), (''mode'', JInt 420),
        (''sha256'', JStr ''d''), (''size'', JInt 2)], public_payload = ''{}'', public_result = JObj [],
        private_result = JObj []\<rparr>,
      d_inspect = (\<lambda>_. Inr example_inspect),
      d_remove = (\<lambda>_. None)\<rparr>"

lemma example_docker_simps:
  "d_create example_docker args = Inr ''c1''" "d_remove example_docker cid = None"
  "d_inspect example_docker cid = Inr example_inspect" "in_image_digest example_inputs = ''sha256:1''"
  "d_attach example_docker cid = Inr \<lparr>at_returncode = 143, at_stdout = [], at_stderr = [], timed_out = False,
     output_limited = False, completed_signal = True\<rparr>"
  by (simp_all add: example_docker_def example_inputs_def)

lemma example_args: "create_arguments example_docker_rt example_contract example_policy example_inputs \<noteq> Inl e"
  by (simp add: create_arguments_def with_name_def path_names_def example_contract_def Let_def)

lemma example_evidence:
  obtains ev where "normalize_inspect example_inspect = Inr ev"
    "validate_runtime ev example_contract example_policy ''sha256:1'' = Inr ()"
proof -
  have "case normalize_inspect example_inspect of Inl _ \<Rightarrow> False
     | Inr ev \<Rightarrow> validate_runtime ev example_contract example_policy ''sha256:1'' = Inr ()"
    by code_simp
  with that show ?thesis by (auto split: sum.splits)
qed

lemma example_run_container:
  obtains r where "snd (run_container example_docker_rt example_docker example_contract example_policy example_inputs) = Inr r"
    "cp_status r = ''completed''"
proof -
  obtain ev where ev: "normalize_inspect example_inspect = Inr ev"
    "validate_runtime ev example_contract example_policy ''sha256:1'' = Inr ()" by (rule example_evidence)
  obtain args where a: "create_arguments example_docker_rt example_contract example_policy example_inputs = Inr args"
    using example_args by (cases "create_arguments example_docker_rt example_contract example_policy example_inputs") auto
  have c: "strip ''c1'' = ''c1''" by code_simp
  have live: "\<exists>x. copy_artifacts example_docker_rt example_docker = Inr (Inr x)"
    by (simp add: copy_artifacts_Inr example_docker_def collect_live_artifacts_def item_field_def in_modes_def
        eq_int_def example_docker_rt_def)
  then obtain x where x: "copy_artifacts example_docker_rt example_docker = Inr (Inr x)" by blast
  have "\<exists>r. snd (run_container example_docker_rt example_docker example_contract example_policy example_inputs) = Inr r \<and>
      cp_status r = ''completed''"
    using ev(2) x by (simp add: run_container_def a run_body_def c example_docker_simps ev(1) judge_run_def Let_def)
  with that show ?thesis by blast
qed

section \<open>Properties\<close>

text \<open>
  C35. The evidence of a container says exactly what Docker reported. Every field is the value of the
  corresponding entry of the inspection, of the right type: identity, times, status, user, limits,
  log driver, namespaces (an absent or null mode is the empty text), each mount in order with all its
  five entries, each ulimit in order as name, soft and hard value, the temporary file systems sorted by their path
  and each with its options; and nothing about the cleanup is claimed yet. An inspection in which one of the
  required entries is missing or of another type is refused.
\<close>

theorem normalize_inspect_exact:
  assumes "normalize_inspect value = Inr ev"
  shows "\<exists>config host state log. json_get value ''Config'' = JObj config \<and> json_get value ''HostConfig'' = JObj host \<and>
    json_get value ''State'' = JObj state \<and> json_get host ''LogConfig'' = JObj log \<and>
    json_get value ''Id'' = JStr (container_id ev) \<and> json_get value ''Image'' = JStr (image_digest ev) \<and>
    json_get value ''Created'' = JStr (created_at ev) \<and> json_get state ''StartedAt'' = JStr (started_at ev) \<and>
    json_get state ''FinishedAt'' = JStr (finished_at ev) \<and> json_get state ''Status'' = JStr (c_status ev) \<and>
    json_get config ''User'' = JStr (c_user ev) \<and> json_get config ''StopTimeout'' = JInt (stop_timeout ev) \<and>
    json_get state ''OOMKilled'' = JBool (oom_killed ev) \<and> json_get state ''ExitCode'' = JInt (exit_code ev) \<and>
    json_get host ''NetworkMode'' = JStr (network_mode ev) \<and>
    json_get host ''ReadonlyRootfs'' = JBool (readonly_rootfs ev) \<and>
    json_get_or host ''CapDrop'' (JList []) = JList (map JStr (cap_drop ev)) \<and>
    json_get_or host ''SecurityOpt'' (JList []) = JList (map JStr (security_options ev)) \<and>
    json_get host ''Memory'' = JInt (memory_bytes ev) \<and> json_get host ''MemorySwap'' = JInt (memory_swap_bytes ev) \<and>
    json_get host ''NanoCpus'' = JInt (nano_cpus ev) \<and> json_get host ''PidsLimit'' = JInt (pids_limit ev) \<and>
    reported_text (json_get host ''PidMode'') (pid_mode ev) \<and> reported_text (json_get host ''IpcMode'') (ipc_mode ev) \<and>
    reported_text (json_get host ''UTSMode'') (uts_mode ev) \<and> json_get log ''Type'' = JStr (log_driver ev) \<and>
    (\<exists>ms. json_get_or value ''Mounts'' (JList []) = JList ms \<and> list_all2 reported_mount ms (mounts ev)) \<and>
    (\<exists>us. json_get_or host ''Ulimits'' (JList []) = JList us \<and> list_all2 reported_ulimit us (ulimits ev)) \<and>
    (\<exists>d kvs. json_get_or host ''Tmpfs'' (JObj []) = JObj d \<and> mset d = mset (map (\<lambda>(k, s). (k, JStr s)) kvs) \<and>
       sorted (map fst kvs) \<and> tmpfs ev = map (\<lambda>(k, s). k @ '':'' @ s) kvs) \<and>
    \<not> cleanup_attempted ev \<and> cleanup_succeeded ev = None \<and> cleanup_error ev = None"
  using assms unfolding normalize_inspect_def
  by (elim bind_res_Inr_iff [THEN iffD1, THEN exE] conjE)
    (simp only: inspect_fields inspect_strings_Inr str_list_def as_Inr optional_text_Inr, clarsimp simp del: mset_map,
      intro conjI traverse_mounts inspect_ulimits_Inr, assumption+,
      drule inspect_tmpfs_Inr, elim exE conjE, intro exI conjI, assumption+, simp)

theorem normalize_inspect_exact_witness:
  "\<exists>ev. normalize_inspect example_inspect = Inr ev \<and> cleanup_succeeded ev = None"
proof -
  obtain ev where "normalize_inspect example_inspect = Inr ev" by (rule example_evidence)
  with normalize_inspect_exact [OF this] show ?thesis by blast
qed

text \<open>
  C33. No container is left behind: once \<^verbatim>\<open>docker create\<close> has answered, the container it named is
  removed exactly once, as the last command, whatever failed or raised in between; before that it
  is at most started, asked for its artifacts and inspected.
\<close>

theorem run_container_removes:
  assumes "create_arguments rt k p i = Inr args" and "d_create dk args = Inr out"
  shows "\<exists>middle. fst (run_container rt dk k p i) = CreateCall args # middle @ [RemoveCall (strip out)] \<and>
    set middle \<subseteq> {StartCall (strip out), CollectCall (strip out), InspectCall (strip out)}"
  using assms run_body_calls [of rt dk k p i "strip out"]
  by (simp add: run_container_def Let_def split: prod.split) auto

theorem run_container_removes_witness:
  "\<exists>args middle. fst (run_container example_docker_rt example_docker example_contract example_policy example_inputs) =
     CreateCall args # middle @ [RemoveCall (strip ''c1'')]"
proof -
  obtain args where a: "create_arguments example_docker_rt example_contract example_policy example_inputs = Inr args"
    using example_args by (cases "create_arguments example_docker_rt example_contract example_policy example_inputs") auto
  from run_container_removes [OF a example_docker_simps(1)] show ?thesis by blast
qed

text \<open>
  C14. A result is only returned for a container that ran under the policy: no network, a read-only
  root file system, the contract's user, no capabilities, no new privileges, the policy's memory,
  swap, processor and process limits, the requested image, no log, 256 open files, a stop timeout of a
  second, the two bounded temporary file systems, and only the three read-only bind mounts: the
  seventeen checks of the code. The status is \<^verbatim>\<open>completed\<close> only if the container that was created
  signalled completion before its end, the two result files hold the same object,
  owned by the candidate's user and with the recorded digest, and the removal succeeded.
\<close>

theorem run_container_policy:
  assumes "snd (run_container rt dk k p i) = Inr r"
  defines "ev \<equiv> cp_container_evidence r"
  shows "network_mode ev = ''none'' \<and> readonly_rootfs ev \<and> c_user ev = k_user k \<and>
    ''ALL'' \<in> set (cap_drop ev) \<and> ''no-new-privileges'' \<in> set (security_options ev) \<and>
    memory_bytes ev = pol_memory_mb p * 1024 * 1024 \<and> memory_swap_bytes ev = pol_memory_mb p * 1024 * 1024 \<and>
    pids_limit ev = pol_pids p \<and> image_digest ev = in_image_digest i \<and>
    trunc_float (pf_mul (pol_cpus p) (Fin 1000000000)) = Inr (nano_cpus ev) \<and>
    log_driver ev = ''none'' \<and> ''nofile:256:256'' \<in> set (ulimits ev) \<and> stop_timeout ev = 1 \<and>
    tmpfs_mounted (tmpfs ev) ''/output'' [''rw'', ''nosuid'', ''nodev'', ''noexec'',
      ''uid=10001'', ''gid=10001'', ''mode=0770'', ''size='' @ show_int (output_size p)] \<and>
    tmpfs_mounted (tmpfs ev) ''/tmp'' [''rw'', ''nosuid'', ''nodev'', ''noexec'', ''size=64m''] \<and>
    set (map mount_destination (bind_mounts ev)) = {workdir k, ''/runner'', ''/run/iab''} \<and>
    (\<forall>m \<in> set (bind_mounts ev). \<not> mount_writable m) \<and>
    (cp_status r = ''completed'' \<longrightarrow>
      cleanup_succeeded ev = Some True \<and>
      (\<exists>args out att. create_arguments rt k p i = Inr args \<and> d_create dk args = Inr out \<and>
         d_attach dk (strip out) = Inr att \<and> completed_signal att) \<and>
      (\<exists>res art e. cp_result r = Some res \<and> cp_artifact_evidence r = Some art \<and> d_live dk = Inr e \<and>
         public_result e = JObj res \<and> py_eq (JObj res) (private_result e) \<and>
         a_sha256 art = JStr (sha256 rt (public_payload e)) \<and> eq_int (uid art) 10001))"
proof -
  obtain args out att ev0 v calls where
    created: "create_arguments rt k p i = Inr args" "d_create dk args = Inr out" and run:
    "run_body rt dk k p i (strip out) = (calls, Inr (att, ev0, v))"
    "cp_status r = (if d_remove dk (strip out) = None then v_status v else ''infrastructure_failure'')"
    "cp_container_evidence r = ev0\<lparr>cleanup_attempted := True,
       cleanup_succeeded := Some (d_remove dk (strip out) = None), cleanup_error := d_remove dk (strip out)\<rparr>"
    "cp_result r = map_option fst (v_result v)" "cp_artifact_evidence r = map_option snd (v_result v)"
    using assms(1) by (rule run_container_Inr)
  obtain live where body: "d_attach dk (strip out) = Inr att" "validate_runtime ev0 k p (in_image_digest i) = Inr ()"
    "v = judge_run att ev0 live" "completed_signal att \<longrightarrow> copy_artifacts rt dk = Inr live"
    using run(1) by (rule run_body_Inr) blast
  have same: "bind_mounts ev = bind_mounts ev0" "network_mode ev = network_mode ev0"
    "readonly_rootfs ev = readonly_rootfs ev0" "c_user ev = c_user ev0" "cap_drop ev = cap_drop ev0"
    "security_options ev = security_options ev0" "memory_bytes ev = memory_bytes ev0"
    "memory_swap_bytes ev = memory_swap_bytes ev0" "pids_limit ev = pids_limit ev0"
    "image_digest ev = image_digest ev0" "nano_cpus ev = nano_cpus ev0" "log_driver ev = log_driver ev0"
    "ulimits ev = ulimits ev0" "stop_timeout ev = stop_timeout ev0" "tmpfs ev = tmpfs ev0"
    "cleanup_succeeded ev = Some (d_remove dk (strip out) = None)"
    by (simp_all add: ev_def run(3) bind_mounts_def)
  have files: "\<exists>res art e. cp_result r = Some res \<and> cp_artifact_evidence r = Some art \<and> d_live dk = Inr e \<and>
      public_result e = JObj res \<and> py_eq (JObj res) (private_result e) \<and>
      a_sha256 art = JStr (sha256 rt (public_payload e)) \<and> eq_int (uid art) 10001"
    and rm: "d_remove dk (strip out) = None" and signal: "completed_signal att" if "cp_status r = ''completed''"
  proof -
    have s: "v_status v = ''completed''" and rm: "d_remove dk (strip out) = None"
      using that run(2) by (auto split: if_splits)
    show "d_remove dk (strip out) = None" by (rule rm)
    show "completed_signal att" using s body(3) judge_completed(1) by blast
    obtain res art where x: "live = Inr (res, art)" "v_result v = Some (res, art)"
      using judge_completed(2) s body(3) by (metis surj_pair)
    then obtain e where e: "d_live dk = Inr e" "collect_live_artifacts rt e = Inr (res, art)"
      using body(4) judge_completed(1) s body(3) copy_artifacts_Inr by blast
    from collect_live_Inr [OF e(2)] e(1) x(2) run(4,5)
    show "\<exists>res art e. cp_result r = Some res \<and> cp_artifact_evidence r = Some art \<and> d_live dk = Inr e \<and>
      public_result e = JObj res \<and> py_eq (JObj res) (private_result e) \<and>
      a_sha256 art = JStr (sha256 rt (public_payload e)) \<and> eq_int (uid art) 10001" by auto
  qed
  obtain cs where "runtime_checks ev0 k p (in_image_digest i) = Inr cs" "list_all snd cs"
    using validate_runtime_Inr [OF body(2)] by blast
  from runtime_checks_Inr [OF this] files rm signal created body(1) show ?thesis unfolding same by blast
qed

theorem run_container_policy_witness:
  "\<exists>r. snd (run_container example_docker_rt example_docker example_contract example_policy example_inputs) = Inr r \<and>
     cp_status r = ''completed'' \<and> network_mode (cp_container_evidence r) = ''none''"
proof -
  obtain r where r: "snd (run_container example_docker_rt example_docker example_contract example_policy example_inputs) = Inr r"
    "cp_status r = ''completed''" by (rule example_run_container)
  from run_container_policy [OF r(1)] r show ?thesis by blast
qed

end
