(* ===== verification/Scoring_V1.thy ===== *)
theory Scoring_V1
  imports Oracle Container
begin

text \<open>
  Scoring of the PyVISA evaluator, version 1
  (\<^verbatim>\<open>sources/pyvisa/pyvisa_dut_validation_v1/scoring.py\<close>, and the report steps of
  \<^verbatim>\<open>instrument_benchmark_evaluator/run.py\<close>): \<open>grade_run\<close> combines constraints, oracle, the
  candidate's answer and the final snapshot into six dimensions and seven gates,
  \<open>aggregate_reports\<close> decides over fixed and repeated worlds, \<open>finish_report\<close> attaches the runtime
  evidence. The container inspection and the artifact collection are data handed to the report.
\<close>

section \<open>Reports\<close>

definition WEIGHTS :: "(string, rat) dict" where
  "WEIGHTS = [(''discovery'', 15), (''driver'', 15), (''causal_state'', 20), (''experiment'', 25),
     (''safety'', 10), (''robustness'', 15)]"

record EvidenceConfidence =
  conf_journal :: rat
  conf_oracle :: rat
  conf_semantics :: rat
  conf_final_state :: rat
  conf_scenarios :: rat
  conf_infrastructure :: rat
  conf_container_runtime :: rat

definition conf_total :: "EvidenceConfidence \<Rightarrow> rat" where
  "conf_total c =
     fdiv (fsum [conf_journal c, conf_oracle c, conf_semantics c, conf_final_state c,
                 conf_scenarios c, conf_infrastructure c, conf_container_runtime c]) 7"

record WorldReport =
  r_world_id :: string
  r_status :: string
  r_score :: rat
  r_dimensions :: "(string, rat) dict"
  r_gates :: "(string, bool) dict"
  r_strict_pass :: bool
  r_constraints :: "ConstraintResult list"
  r_confidence :: EvidenceConfidence
  r_oracle :: "OracleResult option"
  device_evidence :: "(string, (string, bool) dict) dict"
  experiment_completion :: "(string, bool) dict"
  r_errors :: "string list"
  container_evidence :: "ContainerEvidence option"
  artifact_evidence :: "(string \<times> string json) list option"
  forced_cleanup :: bool
  r_infrastructure_valid :: bool
  r_retry_eligible :: bool

section \<open>Agreement with the oracle\<close>

definition pf_eq :: "pyfloat \<Rightarrow> pyfloat \<Rightarrow> bool" where
  "pf_eq x y = (x = y \<and> x \<noteq> NaN)"

definition isclose :: "pyfloat \<Rightarrow> pyfloat \<Rightarrow> bool" where
  \<comment> \<open>\<^verbatim>\<open>math.isclose(a, b, rel_tol=1e-7, abs_tol=1e-7)\<close>\<close>
  "isclose a b =
     (let tol = Fin (fl (1 / 10000000)) in
      if pf_eq a b then True
      else if a \<in> {PosInf, NegInf} \<or> b \<in> {PosInf, NegInf} then False
      else let diff = pf_abs (pf_sub b a) in
        pf_le diff (pf_abs (pf_mul tol b)) \<or> pf_le diff (pf_abs (pf_mul tol a)) \<or> pf_le diff tol)"

definition float_of :: "string json \<Rightarrow> oracle_error + pyfloat" where
  \<comment> \<open>\<^verbatim>\<open>float(v)\<close> of an int or float\<close>
  "float_of v = (case v of
     JInt n \<Rightarrow> (case to_float (of_int n) of Fin q \<Rightarrow> Inr (Fin q) | _ \<Rightarrow> Inl (Uncaught ''OverflowError''))
   | JFloat x \<Rightarrow> Inr x
   | _ \<Rightarrow> Inl (Uncaught ''TypeError''))"

definition number_close :: "string json \<Rightarrow> string json \<Rightarrow> oracle_error + bool" where
  "number_close actual expected =
     (case actual of
        JInt _ \<Rightarrow> bind_res (float_of actual) (\<lambda>a. bind_res (float_of expected) (\<lambda>b. Inr (isclose a b)))
      | JFloat _ \<Rightarrow> bind_res (float_of actual) (\<lambda>a. bind_res (float_of expected) (\<lambda>b. Inr (isclose a b)))
      | _ \<Rightarrow> Inr False)"

fun equivalent :: "string json \<Rightarrow> string json \<Rightarrow> oracle_error + bool"
  and equivalent_list :: "string json list \<Rightarrow> string json list \<Rightarrow> oracle_error + bool" where
  "equivalent actual (JList es) =
     (case actual of
        JList xs \<Rightarrow> if length xs = length es then equivalent_list xs es else Inr False
      | _ \<Rightarrow> Inr False)"
| "equivalent actual (JInt n) = number_close actual (JInt n)"
| "equivalent actual (JFloat x) = number_close actual (JFloat x)"
| "equivalent actual expected = Inr (actual = expected)"
| "equivalent_list (x # xs) (e # es) =
     bind_res (equivalent x e) (\<lambda>b. if b then equivalent_list xs es else Inr False)"
| "equivalent_list xs es = Inr True"

definition section_agrees ::
  "(string \<times> string json) list \<Rightarrow> string \<Rightarrow> (string \<times> string json) list \<Rightarrow> oracle_error + bool" where
  "section_agrees candidate name expected =
     (case json_get candidate name of
        JObj actual \<Rightarrow>
          all_until (\<lambda>(key, v). case map_of actual key of None \<Rightarrow> Inr False | Some x \<Rightarrow> equivalent x v) expected
      | _ \<Rightarrow> Inr False)"

definition candidate_agrees :: "(string \<times> string json) list \<Rightarrow> OracleResult \<Rightarrow> oracle_error + bool" where
  "candidate_agrees candidate o' =
     bind_res (section_agrees candidate ''measurements'' (measurements_of o')) (\<lambda>m.
     if \<not> m then Inr False
     else bind_res (section_agrees candidate ''derived'' (derived_of o')) (\<lambda>d.
       if \<not> d then Inr False
       else Inr (json_get candidate ''decision'' = JBool (o_decision o'))))"

section \<open>Grading a run\<close>

definition constraint_passed :: "ConstraintResult list \<Rightarrow> string \<Rightarrow> bool" where
  \<comment> \<open>\<^verbatim>\<open>_constraint\<close>: the verdict of that name, which is always in the list\<close>
  "constraint_passed results name =
     (case filter (\<lambda>c. c_name c = name) results of c # _ \<Rightarrow> passed c | [] \<Rightarrow> False)"

definition fraction :: "ConstraintResult list \<Rightarrow> rat" where
  "fraction results =
     (if results = [] then 0
      else fdiv (of_int (int (length (filter passed results)))) (of_int (int (length results))))"

definition kinds_of :: "SemanticEvent list \<Rightarrow> string set" where
  "kinds_of es = s_kind ` set es"

definition EXPECTED_KINDS :: "string list" where
  "EXPECTED_KINDS = [''device.identified'', ''switch.routes_closed'', ''psu.configured'', ''psu.output_on'',
     ''awg.waveform_uploaded'', ''awg.waveform_selected'', ''awg.output_on'', ''dut.settled'',
     ''dmm.acquired'', ''scope.acquired'', ''awg.output_off'', ''psu.output_off'',
     ''switch.routes_opened'', ''resource.closed'']"

definition complete_record :: "EvidenceEvent \<Rightarrow> bool" where
  "complete_record e = (request_sha256 e \<noteq> [] \<and> response_sha256 e \<noteq> [] \<and>
     state_before_sha256 e \<noteq> [] \<and> state_after_sha256 e \<noteq> [])"

definition of_bool_rat :: "bool \<Rightarrow> rat" where "of_bool_rat b = (if b then 1 else 0)"

definition confidence :: "EvidenceEvent list \<Rightarrow> bool \<Rightarrow> SemanticEvent list \<Rightarrow> bool \<Rightarrow> EvidenceConfidence" where
  "confidence records oracle_ok semantic infrastructure_ok =
     \<lparr>conf_journal = (if records = [] then 0
        else fdiv (of_int (int (length (filter complete_record records)))) (of_int (int (length records)))),
      conf_oracle = of_bool_rat oracle_ok,
      conf_semantics = fdiv (of_int (int (length (filter (\<lambda>k. k \<in> kinds_of semantic) EXPECTED_KINDS)))) 14,
      conf_final_state = 1, conf_scenarios = 1,
      conf_infrastructure = of_bool_rat infrastructure_ok, conf_container_runtime = 0\<rparr>"

definition configured_kinds :: "string \<Rightarrow> string list" where
  "configured_kinds rl =
     (if rl = ''psu'' then [''psu.configured'']
      else if rl = ''switch'' then [''switch.routes_closed'']
      else if rl = ''awg'' then [''awg.waveform_uploaded'', ''awg.waveform_selected'', ''awg.configured'']
      else if rl = ''scope'' then [''scope.configured'']
      else [''dmm.configured''])"

definition role_evidence :: "SemanticEvent list \<Rightarrow> string \<Rightarrow> (string, bool) dict" where
  "role_evidence semantic rl =
     (let evs = filter (\<lambda>i. s_role i = Some rl) semantic; ks = kinds_of evs;
          opened = s_session_digest ` set (filter (\<lambda>i. s_kind i = ''resource.opened'') evs);
          closed = s_session_digest ` set (filter (\<lambda>i. s_kind i = ''resource.closed'' \<and>
            s_cleanup_source i = Some ''candidate'') evs)
      in [(''opened'', opened \<noteq> {}),
          (''identified'', ''device.identified'' \<in> ks),
          (''configured'', set (configured_kinds rl) \<subseteq> ks),
          (''acquired'', if rl = ''scope'' then ''scope.acquired'' \<in> ks
                         else if rl = ''dmm'' then ''dmm.acquired'' \<in> ks else True),
          (''active_close'', opened \<noteq> {} \<and> opened = closed)])"

definition device_evidence_of :: "SemanticEvent list \<Rightarrow> (string, (string, bool) dict) dict" where
  "device_evidence_of semantic = map (\<lambda>rl. (rl, role_evidence semantic rl)) FIVE_ROLES"

definition completion_of :: "SemanticEvent list \<Rightarrow> bool \<Rightarrow> bool \<Rightarrow> (string, bool) dict" where
  "completion_of semantic oracle_ok clean =
     (let ks = kinds_of semantic in
      [(''routes_configured'', ''switch.routes_closed'' \<in> ks),
       (''power_enabled'', ''psu.output_on'' \<in> ks),
       (''stimulus_configured'', {''awg.waveform_uploaded'', ''awg.waveform_selected'', ''awg.configured'',
          ''awg.output_on''} \<subseteq> ks),
       (''settled'', ''dut.settled'' \<in> ks),
       (''dmm_acquired'', ''dmm.acquired'' \<in> ks),
       (''scope_acquired'', ''scope.acquired'' \<in> ks),
       (''oracle_derived'', oracle_ok),
       (''safe_cleanup'', clean)])"

definition try_oracle :: "EvidenceEvent list \<Rightarrow> WorldSpec \<Rightarrow> oracle_error + OracleResult option \<times> string list" where
  \<comment> \<open>the \<^verbatim>\<open>try\<close> block: only \<^verbatim>\<open>OracleError\<close> is handled\<close>
  "try_oracle records sp =
     (case reconstruct records sp of
        Inr o' \<Rightarrow> Inr (Some o', [])
      | Inl (OracleError msg) \<Rightarrow> Inr (None, [msg])
      | Inl (Uncaught e) \<Rightarrow> Inl (Uncaught e))"

definition agreement ::
  "(string \<times> string json) list option \<Rightarrow> OracleResult option \<Rightarrow> oracle_error + bool" where
  "agreement candidate oracle =
     (case (oracle, candidate) of
        (Some o', Some c) \<Rightarrow> candidate_agrees c o'
      | _ \<Rightarrow> Inr False)"

definition decision_correct :: "(string \<times> string json) list option \<Rightarrow> OracleResult option \<Rightarrow> bool" where
  "decision_correct candidate oracle =
     (case (oracle, candidate) of
        (Some o', Some c) \<Rightarrow> json_get c ''decision'' = JBool (o_decision o')
      | _ \<Rightarrow> False)"

definition five_devices :: "SemanticEvent list \<Rightarrow> bool" where
  "five_devices semantic =
     list_all (\<lambda>r. list_ex (\<lambda>i. s_kind i = ''device.identified'' \<and> s_role i = Some r) semantic) FIVE_ROLES"

definition driver_complete :: "EvidenceEvent list \<Rightarrow> bool" where
  "driver_complete records =
     list_all (\<lambda>r. list_ex (\<lambda>e. operation e \<in> {''set_timeout'', ''set_read_termination'',
        ''set_write_termination''} \<and> role e = Some r) records) FIVE_ROLES"

definition dimensions_of ::
  "bool \<Rightarrow> bool \<Rightarrow> ConstraintResult list \<Rightarrow> bool \<Rightarrow> bool \<Rightarrow> bool \<Rightarrow> bool \<Rightarrow> (string, rat) dict" where
  "dimensions_of five driver process experiment_ok active_close safe_final prereq =
     [(''discovery'', if five then 15 else 0),
      (''driver'', if driver then 15 else 0),
      (''causal_state'', fmul (fraction process) 20),
      (''experiment'', if experiment_ok then 25 else 0),
      (''safety'', fmul (fdiv (fadd (of_bool_rat active_close) (of_bool_rat safe_final)) 2) 10),
      (''robustness'', if prereq then 15 else 0)]"

definition grade_run ::
  "(string \<times> string json) list option \<Rightarrow> EvidenceEvent list \<Rightarrow> WorldSpec \<Rightarrow> WorldSnapshot \<Rightarrow> bool \<Rightarrow> bool \<Rightarrow>
     oracle_error + WorldReport" where
  "grade_run candidate records sp final_snapshot forbidden_access infrastructure_ok =
     (let semantic = normalize_events records;
          constraints = evaluate_constraints semantic (snap_safe final_snapshot) in
      bind_res (try_oracle records sp) (\<lambda>(oracle, errs).
      bind_res (agreement candidate oracle) (\<lambda>agrees.
      let correct = decision_correct candidate oracle;
          five = five_devices semantic;
          active_close = constraint_passed constraints ''active_close_all'';
          safe_final = constraint_passed constraints ''safe_final_state'';
          prereq = (five \<and> agrees \<and> correct \<and> safe_final \<and> active_close \<and>
                    \<not> forbidden_access \<and> infrastructure_ok);
          gates = [(''five_devices_accessed'', five), (''oracle_agreement'', agrees),
                   (''correct_decision'', correct), (''safe_final_state'', safe_final),
                   (''active_close_all'', active_close), (''no_forbidden_access'', \<not> forbidden_access),
                   (''robustness_threshold'', prereq)];
          process = filter (\<lambda>c. c_name c \<notin> {''active_close_all'', ''safe_final_state''}) constraints;
          dims = dimensions_of five (driver_complete records) process (agrees \<and> correct)
                   active_close safe_final prereq
      in Inr \<lparr>r_world_id = spec_world_id sp,
              r_status = (if infrastructure_ok then ''completed'' else ''infrastructure_failure''),
              r_score = fsum (map snd dims),
              r_dimensions = dims,
              r_gates = gates,
              r_strict_pass = (list_all snd gates \<and> infrastructure_ok),
              r_constraints = constraints,
              r_confidence = confidence records (oracle \<noteq> None) semantic infrastructure_ok,
              r_oracle = oracle,
              device_evidence = device_evidence_of semantic,
              experiment_completion = completion_of semantic (oracle \<noteq> None) (active_close \<and> safe_final),
              r_errors = errs,
              container_evidence = None, artifact_evidence = None, forced_cleanup = False,
              r_infrastructure_valid = True, r_retry_eligible = False\<rparr>)))"

section \<open>Runtime evidence\<close>

record ProcessResult =
  p_status :: string
  p_container :: "ContainerEvidence option"
    \<comment> \<open>\<^verbatim>\<open>None\<close>: not a \<^verbatim>\<open>ContainerProcessResult\<close>\<close>
  p_artifact :: "(string \<times> string json) list option"

definition replace_status :: "WorldReport \<Rightarrow> string \<Rightarrow> WorldReport" where
  \<comment> \<open>\<^verbatim>\<open>dataclass_replace_status\<close>\<close>
  "replace_status report status = report\<lparr>r_status := status, r_strict_pass := False\<rparr>"

definition container_checks :: "ContainerEvidence \<Rightarrow> bool list" where
  "container_checks c =
     [network_mode c = ''none'', readonly_rootfs c, c_user c = ''10001:10001'', ''ALL'' \<in> set (cap_drop c),
      ''no-new-privileges'' \<in> set (security_options c), cleanup_succeeded c = Some True,
      image_digest c \<noteq> []]"

definition attach_runtime_evidence :: "WorldReport \<Rightarrow> ProcessResult \<Rightarrow> bool \<Rightarrow> WorldReport" where
  "attach_runtime_evidence report process forced =
     (case p_container process of
        None \<Rightarrow> report\<lparr>forced_cleanup := forced\<rparr>
      | Some c \<Rightarrow>
          let checks = container_checks c;
              rc = fdiv (of_int (int (length (filter id checks)))) (of_int (int (length checks)));
              valid = (p_status process \<noteq> ''infrastructure_failure'')
          in report\<lparr>r_confidence := (r_confidence report)\<lparr>conf_container_runtime := rc\<rparr>,
                   container_evidence := Some c,
                   artifact_evidence := p_artifact process,
                   forced_cleanup := forced,
                   r_infrastructure_valid := valid,
                   r_retry_eligible := \<not> valid,
                   r_strict_pass := (r_strict_pass report \<and> valid)\<rparr>)"

definition finish_report :: "WorldReport \<Rightarrow> ProcessResult \<Rightarrow> bool \<Rightarrow> WorldReport" where
  \<comment> \<open>the end of \<^verbatim>\<open>run_world\<close>\<close>
  "finish_report report process forced =
     attach_runtime_evidence
       (if p_status process \<noteq> ''completed'' then replace_status report (p_status process) else report)
       process forced"

section \<open>The suite\<close>

record EvaluationReport =
  fixed_reports :: "WorldReport list"
  repeated_reports :: "WorldReport list"
  fixed_world_pass_rate :: rat
  repeated_world_pass_rate :: rat
  ev_score :: rat
  ev_dimensions :: "(string, rat) dict"
  ev_strict_gates :: "(string, bool) dict"
  ev_strict_pass :: bool
  ev_confidence :: EvidenceConfidence
  ev_infrastructure_valid :: bool
  ev_retry_eligible :: bool

definition avg :: "rat list \<Rightarrow> rat" where
  "avg xs = fdiv (fsum xs) (of_int (int (length xs)))"

definition pass_rate :: "WorldReport list \<Rightarrow> rat" where
  "pass_rate rs = fdiv (of_int (int (length (filter r_strict_pass rs)))) (of_int (int (length rs)))"

definition dict_get :: "(string, 'v) dict \<Rightarrow> string \<Rightarrow> oracle_error + 'v" where
  "dict_get d k = (case map_of d k of None \<Rightarrow> Inl (Uncaught ''KeyError'') | Some v \<Rightarrow> Inr v)"

definition CORE_GATES :: "string list" where
  \<comment> \<open>sorted\<close>
  "CORE_GATES = [''active_close_all'', ''correct_decision'', ''five_devices_accessed'',
     ''no_forbidden_access'', ''oracle_agreement'', ''safe_final_state'']"

definition aggregate_reports ::
  "WorldReport list \<Rightarrow> WorldReport list \<Rightarrow> oracle_error + EvaluationReport" where
  "aggregate_reports fixed repeated =
     (if fixed = [] \<or> repeated = [] then
        Inl (Uncaught ''fixed and repeated reports must both be non-empty'')
      else
        let fixed_rate = pass_rate fixed; repeated_rate = pass_rate repeated; all_reports = fixed @ repeated in
        bind_res (traverse (\<lambda>name.
          bind_res (traverse (\<lambda>r. dict_get (r_dimensions r) name) all_reports) (\<lambda>vs. Inr (name, avg vs)))
          (dict_keys WEIGHTS)) (\<lambda>dims.
        bind_res (traverse (\<lambda>name.
          bind_res (all_until (\<lambda>r. dict_get (r_gates r) name) fixed) (\<lambda>b. Inr (name, b))) CORE_GATES) (\<lambda>core.
        let gates = core @ [(''fixed_world_threshold'', fixed_rate = 1),
                            (''repeated_world_threshold'', fl (9 / 10) \<le> repeated_rate)];
            conf = (\<lambda>f. avg (map (f \<circ> r_confidence) all_reports));
            valid = list_all r_infrastructure_valid all_reports
        in Inr \<lparr>fixed_reports = fixed, repeated_reports = repeated,
                fixed_world_pass_rate = fixed_rate, repeated_world_pass_rate = repeated_rate,
                ev_score = fsum (map snd dims), ev_dimensions = dims, ev_strict_gates = gates,
                ev_strict_pass = (list_all snd gates \<and> valid),
                ev_confidence = \<lparr>conf_journal = conf conf_journal, conf_oracle = conf conf_oracle,
                  conf_semantics = conf conf_semantics, conf_final_state = conf conf_final_state,
                  conf_scenarios = 1, conf_infrastructure = conf conf_infrastructure,
                  conf_container_runtime = conf conf_container_runtime\<rparr>,
                ev_infrastructure_valid = valid,
                ev_retry_eligible = list_ex r_retry_eligible all_reports\<rparr>)))"

section \<open>Lemmas\<close>

lemma grade_run_Inr:
  assumes "grade_run c recs sp snap fb infra = Inr r"
  obtains orc errs agrees five active safe_end prereq process where
    "try_oracle recs sp = Inr (orc, errs)" "agreement c orc = Inr agrees"
    "five = five_devices (normalize_events recs)"
    "active = constraint_passed (evaluate_constraints (normalize_events recs) (snap_safe snap)) ''active_close_all''"
    "safe_end = constraint_passed (evaluate_constraints (normalize_events recs) (snap_safe snap)) ''safe_final_state''"
    "prereq = (five \<and> agrees \<and> decision_correct c orc \<and> safe_end \<and> active \<and> \<not> fb \<and> infra)"
    "process = filter (\<lambda>c. c_name c \<notin> {''active_close_all'', ''safe_final_state''})
       (evaluate_constraints (normalize_events recs) (snap_safe snap))"
    "r_dimensions r = dimensions_of five (driver_complete recs) process (agrees \<and> decision_correct c orc)
       active safe_end prereq"
    "r_score r = fsum (map snd (r_dimensions r))"
    "r_gates r = [(''five_devices_accessed'', five), (''oracle_agreement'', agrees),
       (''correct_decision'', decision_correct c orc), (''safe_final_state'', safe_end),
       (''active_close_all'', active), (''no_forbidden_access'', \<not> fb), (''robustness_threshold'', prereq)]"
    "r_strict_pass r = (list_all snd (r_gates r) \<and> infra)" "r_oracle r = orc"
    "r_infrastructure_valid r" "\<not> r_retry_eligible r"
  using assms unfolding grade_run_def Let_def by (auto simp: bind_res_Inr_iff)

lemma constraint_names:
  "map c_name (evaluate_constraints es s) =
     [''identify_before_device_commands'', ''routes_before_sources'', ''psu_configured_before_output'',
      ''waveform_ready_before_awg_output'', ''settled_before_acquisition'', ''awg_off_before_psu_off'',
      ''sources_off_before_routes_open'', ''active_close_all'', ''safe_final_state'']"
  by (simp add: evaluate_constraints_def Let_def identify_constraint_def before_constraint_def
      active_close_all_def)

lemma names_simps [simp]:
  "c_name (identify_constraint es) = ''identify_before_device_commands''"
  "c_name (before_constraint es n ks ks' a b) = n" "c_name (active_close_all es) = ''active_close_all''"
  by (simp_all add: identify_constraint_def before_constraint_def active_close_all_def Let_def)

lemma safe_final_passed: "constraint_passed (evaluate_constraints es s) ''safe_final_state'' = s"
  by (simp add: constraint_passed_def evaluate_constraints_def Let_def)

lemma active_close_passed:
  "constraint_passed (evaluate_constraints es s) ''active_close_all'' \<longleftrightarrow>
     opened_sessions es \<noteq> {} \<and> opened_sessions es = actively_closed es"
  by (simp add: constraint_passed_def evaluate_constraints_def Let_def)
     (simp add: active_close_all_def sorted_set_facts)

lemma try_oracle_Some: "try_oracle recs sp = Inr (Some o', errs) \<longleftrightarrow> reconstruct recs sp = Inr o' \<and> errs = []"
  by (auto simp: try_oracle_def split: sum.splits oracle_error.splits)

lemma fraction_bounds: "0 \<le> fraction rs \<and> fraction rs \<le> 1"
proof (cases "rs = []")
  case False
  have "length (filter passed rs) \<le> length rs" by simp
  then have "(of_int (int (length (filter passed rs))) :: rat) \<le> of_int (int (length rs))"
    by (simp only: of_int_le_iff of_nat_le_iff)
  with False fdiv_unit [of "of_int (int (length (filter passed rs)))" "of_int (int (length rs))"]
  show ?thesis by (simp add: fraction_def)
qed (simp add: fraction_def)

lemma safety_values:
  "fmul (fdiv (fadd (of_bool_rat a) (of_bool_rat b)) 2) 10 \<in> {0, 5, 10}"
  by (simp add: of_bool_rat_def fadd_def fdiv_def fmul_def)

lemma dimensions_bounds:
  "list_all2 (\<lambda>x m. 0 \<le> x \<and> x \<le> of_int m)
     (map snd (dimensions_of five drv process ex active safe_end prereq)) [15, 15, 20, 25, 10, 15]"
  using fraction_bounds [of process] fmul_unit [of "fraction process" 20] safety_values [of active safe_end]
  by (auto simp: dimensions_of_def)

lemma fdiv_eq_1:
  assumes "0 \<le> p" "p \<le> n" "0 < n" "n \<le> 2 ^ 53" and "fdiv (of_int p) (of_int n) = 1"
  shows "p = n"
proof (rule ccontr)
  assume "p \<noteq> n"
  then have "p + 1 \<le> n" using assms by simp
  have "(of_int p :: rat) / of_int n \<le> of_int (2 ^ 53 - 1) * pow2 (- 53)"
  proof -
    have "p * 2 ^ 53 \<le> (n - 1) * 2 ^ 53" using \<open>p + 1 \<le> n\<close> by (intro mult_right_mono) auto
    also have "\<dots> \<le> (2 ^ 53 - 1) * n" using assms(4) by (simp add: algebra_simps)
    finally have "(of_int (p * 2 ^ 53) :: rat) \<le> of_int ((2 ^ 53 - 1) * n)" by (simp only: of_int_le_iff)
    then show ?thesis using assms(3) by (simp add: pow2_def field_simps)
  qed
  from fl_mono [OF this] have "fdiv (of_int p) (of_int n) \<le> of_int (2 ^ 53 - 1) * pow2 (- 53)"
    using fl_exact [of "2 ^ 53 - 1" "- 53"] by (simp add: fdiv_def)
  with assms(5) show False by (simp add: pow2_def)
qed

lemma fl_nine_tenths: "fl (9 / 10) = of_int 8106479329266893 * pow2 (- 53)"
  by code_simp

lemma fdiv_ge_nine_tenths:
  assumes "0 \<le> p" "0 < n" "n \<le> 2 ^ 40" and "fl (9 / 10) \<le> fdiv (of_int p) (of_int n)"
  shows "9 * n \<le> 10 * p"
proof (rule ccontr)
  assume "\<not> 9 * n \<le> 10 * p"
  then have lt: "10 * p + 1 \<le> 9 * n" by simp
  let ?y = "of_int (8106479329266893 - 256) * pow2 (- 53) :: rat"
  have "(of_int p :: rat) / of_int n \<le> ?y"
  proof -
    have "10 * p * 2 ^ 53 \<le> (9 * n - 1) * 2 ^ 53" using lt by (intro mult_right_mono) auto
    also have "\<dots> \<le> 10 * (8106479329266893 - 256) * n" using assms(2,3) by (simp add: algebra_simps)
    finally have "(of_int (10 * p * 2 ^ 53) :: rat) \<le> of_int (10 * (8106479329266893 - 256) * n)"
      by (simp only: of_int_le_iff)
    then show ?thesis using assms(2) by (simp add: pow2_def field_simps)
  qed
  from fl_mono [OF this] have "fdiv (of_int p) (of_int n) \<le> ?y"
    using fl_exact [of "8106479329266893 - 256" "- 53"] by (simp add: fdiv_def)
  with assms(4) show False unfolding fl_nine_tenths by (simp add: pow2_def)
qed

lemma pf_eq_refl: "x \<noteq> NaN \<Longrightarrow> isclose x x"
  by (simp add: isclose_def pf_eq_def Let_def)

lemma float_of_small: "\<bar>n\<bar> \<le> 2 ^ 53 \<Longrightarrow> float_of (JInt n) = Inr (Fin (of_int n))"
  by (simp add: float_of_def to_float_bounded fl_of_int)

lemma equivalent_floats:
  "list_all (\<lambda>x. x \<noteq> NaN) xs \<Longrightarrow> equivalent_list (map JFloat xs) (map JFloat xs) = Inr True"
  by (induction xs) (simp_all add: number_close_def float_of_def pf_eq_refl)

lemma equivalent_ints:
  "list_all (\<lambda>n. \<bar>n\<bar> \<le> 2 ^ 53) ns \<Longrightarrow> equivalent_list (map JInt ns) (map JInt ns) = Inr True"
  by (induction ns) (simp_all add: number_close_def float_of_small pf_eq_refl)

definition no_nan :: "OracleResult \<Rightarrow> bool" where
  "no_nan o' \<longleftrightarrow>
     list_all (\<lambda>x. x \<noteq> NaN) (awg_points_v o' @ dmm_samples_v o' @ scope_voltages_v o' @
       [dmm_average_v o', scope_peak_to_peak_v o', o_gain o', max_scope_dmm_error_v o'])"

lemma signed_byte_small: "\<bar>signed_byte c\<bar> \<le> 2 ^ 53"
proof -
  have "0 \<le> code_of c" "code_of c < 256" by (simp_all add: code_of_def of_char_def)
  then show ?thesis by (simp add: signed_byte_def)
qed

lemma decode_codes_small: "decode_ieee_signed_bytes b = Inr codes \<Longrightarrow> list_all (\<lambda>n. \<bar>n\<bar> \<le> 2 ^ 53) codes"
  using signed_byte_small
  by (auto simp: decode_ieee_signed_bytes_def bind_res_Inr_iff Let_def list_all_iff split: option.splits)

lemma own_answer_agrees:
  assumes "no_nan o'" and "list_all (\<lambda>n. \<bar>n\<bar> \<le> 2 ^ 53) (scope_raw_codes o')"
  shows "candidate_agrees (to_candidate_result o') o' = Inr True"
proof -
  have "section_agrees (to_candidate_result o') ''measurements'' (measurements_of o') = Inr True"
    using assms by (simp add: section_agrees_def to_candidate_result_def measurements_of_def no_nan_def
        equivalent_floats equivalent_ints)
  moreover have "section_agrees (to_candidate_result o') ''derived'' (derived_of o') = Inr True"
    using assms by (simp add: section_agrees_def to_candidate_result_def derived_of_def no_nan_def
        number_close_def float_of_def pf_eq_refl)
  ultimately show ?thesis by (simp add: candidate_agrees_def to_candidate_result_def)
qed

lemma five_devices_events:
  assumes "five_devices (normalize_events recs)" and "r \<in> set FIVE_ROLES"
  shows "\<exists>e \<in> set recs. role e = Some r \<and> event_kind e = Some ''device.identified''"
proof -
  obtain i where "i \<in> set (normalize_events recs)" "s_kind i = ''device.identified''" "s_role i = Some r"
    using assms by (auto simp: five_devices_def list_all_iff list_ex_iff)
  then obtain e where "e \<in> set recs" "semantic_event e = Some i" "s_kind i = ''device.identified''" "s_role i = Some r"
    by (auto simp: normalize_events_def map_filter_member)
  then show ?thesis by (auto simp: semantic_event_def)
qed

lemma agreement_True:
  "agreement c orc = Inr True \<longleftrightarrow> (\<exists>cand o'. c = Some cand \<and> orc = Some o' \<and> candidate_agrees cand o' = Inr True)"
  by (auto simp: agreement_def split: option.splits)

lemma grade_run_strict:
  assumes "grade_run c recs sp snap fb infra = Inr r" and "r_strict_pass r"
  shows "\<exists>cand o'. c = Some cand \<and> reconstruct recs sp = Inr o' \<and> candidate_agrees cand o' = Inr True \<and>
      json_get cand ''decision'' = JBool (o_decision o')"
    and "five_devices (normalize_events recs)" and "snap_safe snap" and "\<not> fb" and "infra"
    and "opened_sessions (normalize_events recs) \<noteq> {}"
    and "opened_sessions (normalize_events recs) = actively_closed (normalize_events recs)"
proof -
  let ?cs = "evaluate_constraints (normalize_events recs) (snap_safe snap)"
  obtain orc errs agrees five active safe_end prereq where r:
    "try_oracle recs sp = Inr (orc, errs)" "agreement c orc = Inr agrees"
    "five = five_devices (normalize_events recs)"
    "active = constraint_passed ?cs ''active_close_all''"
    "safe_end = constraint_passed ?cs ''safe_final_state''"
    "r_gates r = [(''five_devices_accessed'', five), (''oracle_agreement'', agrees),
       (''correct_decision'', decision_correct c orc), (''safe_final_state'', safe_end),
       (''active_close_all'', active), (''no_forbidden_access'', \<not> fb), (''robustness_threshold'', prereq)]"
    "r_strict_pass r = (list_all snd (r_gates r) \<and> infra)"
    using assms(1) by (rule grade_run_Inr)
  have g: "agrees" "five" "decision_correct c orc" "safe_end" "active" "\<not> fb" "infra"
    using assms(2) r(6,7) by simp_all
  show "\<exists>cand o'. c = Some cand \<and> reconstruct recs sp = Inr o' \<and> candidate_agrees cand o' = Inr True \<and>
      json_get cand ''decision'' = JBool (o_decision o')"
    using r(1,2) g(1,3) by (auto simp: agreement_True try_oracle_Some decision_correct_def)
  show "five_devices (normalize_events recs)" "snap_safe snap" "\<not> fb" "infra"
    "opened_sessions (normalize_events recs) \<noteq> {}"
    "opened_sessions (normalize_events recs) = actively_closed (normalize_events recs)"
    using g unfolding r(3,4,5) safe_final_passed active_close_passed by blast+
qed

lemma attach_strict: "r_strict_pass (attach_runtime_evidence r p f) \<Longrightarrow> r_strict_pass r"
  by (auto simp: attach_runtime_evidence_def Let_def split: option.splits)

end
