(* ===== verification/Grading_V1.thy ===== *)
theory Grading_V1
  imports Scoring_V1
begin

text \<open>
  What the grading of the PyVISA evaluator guarantees: soundness of a strict pass of a run and of
  the suite, an honest answer passes, the bounds of the scores, the effect of the process outcome
  on the report, and the one command that makes the grading raise. A concrete run of 36 events
  provides the witnesses.
\<close>

section \<open>A concrete run\<close>

definition example_snapshot :: "bool \<Rightarrow> bool \<Rightarrow> WorldSnapshot" where
  "example_snapshot p a = snapshot (example_world\<lparr>psu_output := p, awg_output := a, closed_routes := {}\<rparr>)"

definition example_event_v1 ::
  "int \<Rightarrow> string \<Rightarrow> string \<Rightarrow> string option \<Rightarrow> string option \<Rightarrow> bool \<Rightarrow> bool \<Rightarrow> EvidenceEvent" where
  "example_event_v1 n op rl req resp p a =
     \<lparr>e_run_id = ''r'', e_world_id = ''nominal'', e_sequence = n, monotonic_ns = n, operation = op,
      session_digest = Some rl, resource = Some rl, role = Some rl, request = req, response = resp,
      request_sha256 = ''1'', response_sha256 = ''1'', request_bytes = 0, response_bytes = 0,
      state_before = example_snapshot p a, state_after = example_snapshot p a,
      state_before_sha256 = ''1'', state_after_sha256 = ''1'', e_outcome = ''ok'', error_code = None,
      cleanup_source = (if op = ''close'' then Some ''candidate'' else None), source_sequence = None\<rparr>"

definition example_script_v1 :: "(string \<times> string \<times> string option \<times> bool \<times> bool) list" where
  "example_script_v1 =
     [(''psu'', ''*IDN?'', Some ''P'', False, False), (''switch'', ''*IDN?'', Some ''S'', False, False),
      (''awg'', ''*IDN?'', Some ''A'', False, False), (''scope'', ''*IDN?'', Some ''O'', False, False),
      (''dmm'', ''*IDN?'', Some ''D'', False, False),
      (''switch'', ''ROUT:CLOS (@1101,1102)'', None, False, False), (''psu'', ''VOLT 5'', None, False, False),
      (''psu'', ''OUTP ON'', None, True, False), (''awg'', ''DATA:ARB W,0,1'', None, True, False),
      (''awg'', ''FUNC:ARB W'', None, True, False), (''awg'', ''VOLT 1'', None, True, False),
      (''awg'', ''OUTP ON'', None, True, True), (''awg'', ''*OPC?'', Some ''1'', True, True),
      (''dmm'', ''READ?'', Some ''0,2'', True, True),
      (''scope'', ''WFMOUTPRE:YMULT?'', Some ''1'', True, True),
      (''scope'', ''WFMOUTPRE:YOFF?'', Some ''0'', True, True),
      (''scope'', ''WFMOUTPRE:YZERO?'', Some ''0'', True, True),
      (''scope'', ''CURVE?'', Some (''#12'' @ [CHR 0x00, CHR 0x02]), True, True),
      (''awg'', ''OUTP OFF'', None, True, False), (''psu'', ''OUTP OFF'', None, False, False),
      (''switch'', ''ROUT:OPEN:ALL'', None, False, False)]"

definition example_run :: "EvidenceEvent list" where
  "example_run =
     map (\<lambda>(n, op, rl, req, resp, p, a). example_event_v1 n op rl req resp p a)
       (zip [1..40]
         (map (\<lambda>rl. (''open_resource'', rl, Some rl, None, False, False)) FIVE_ROLES @
          map (\<lambda>rl. (''set_timeout'', rl, None, None, False, False)) FIVE_ROLES @
          map (\<lambda>(rl, req, resp, p, a). (''write'', rl, Some req, resp, p, a)) example_script_v1 @
          map (\<lambda>rl. (''close'', rl, None, None, False, False)) FIVE_ROLES))"

lemma oracle_finish_success:
  assumes "has_keys (identities st) FIVE_ROLES"
    and "up_points st = Some points" "2 \<le> length points" "\<not> pf_le (pf_range points) (Fin 0)"
    and "up_samples st = Some samples" "samples \<noteq> []" "fmean samples = Inr mean_v"
    and "scope_block st = Some block" "decode_ieee_signed_bytes block = Inr codes"
    and "ymult st = Some ym" "yoff st = Some yo" "yzero st = Some yz"
    and "volts = map (\<lambda>c. pf_add (pf_mul (pf_sub (Fin (of_int c)) yo) ym) yz) codes"
    and "length volts = length samples"
    and "errs = map (\<lambda>(v, d). pf_abs (pf_sub v d)) (zip volts samples)"
  shows "\<exists>o'. oracle_finish sp st = Inr o' \<and> awg_points_v o' = points \<and> dmm_samples_v o' = samples \<and>
     scope_voltages_v o' = volts \<and> dmm_average_v o' = mean_v \<and> scope_peak_to_peak_v o' = pf_range volts \<and>
     o_gain o' = pf_div (pf_range volts) (pf_range points) \<and>
     max_scope_dmm_error_v o' = pf_max (hd errs) (tl errs)"
  unfolding oracle_finish_def Let_def assms(2,5,8,10,11,12) need_def option.case
  using assms(1,3,4,6,7,9,13,14,15) by simp

definition example_state :: oracle_state where
  "example_state =
     \<lparr>identities = [(''psu'', ''P''), (''switch'', ''S''), (''awg'', ''A''), (''scope'', ''O''), (''dmm'', ''D'')],
      resources = map (\<lambda>r. (r, r)) FIVE_ROLES, up_points = Some [Fin 0, Fin 1],
      up_samples = Some [Fin 0, Fin 2], scope_block = Some (''#12'' @ [CHR 0x00, CHR 0x02]),
      ymult = Some (Fin 1), yoff = Some (Fin 0), yzero = Some (Fin 0)\<rparr>"

lemma example_steps: "oracle_steps oracle_init example_run = Inr example_state"
  by code_simp

lemma example_floats:
  "\<not> pf_le (pf_range [Fin 0, Fin 1]) (Fin 0)" "fmean [Fin 0, Fin 2] = Inr (Fin 1)"
  "decode_ieee_signed_bytes (''#12'' @ [CHR 0x00, CHR 0x02]) = Inr [0, 2]"
  "[Fin 0, Fin 2] = map (\<lambda>c. pf_add (pf_mul (pf_sub (Fin (of_int c)) (Fin 0)) (Fin 1)) (Fin 0)) [0, 2]"
  "pf_div (pf_range [Fin 0, Fin 2]) (pf_range [Fin 0, Fin 1]) = Fin 2" "pf_range [Fin 0, Fin 2] = Fin 2"
  "map (\<lambda>(v, d). pf_abs (pf_sub v d)) (zip [Fin 0, Fin 2] [Fin 0, Fin 2]) = [Fin 0, Fin 0]"
  by code_simp+

lemma example_oracle:
  obtains o' where "reconstruct example_run (nominal 1) = Inr o'" "no_nan o'"
proof -
  have "has_keys (identities example_state) FIVE_ROLES"
    by (simp add: example_state_def has_keys_def FIVE_ROLES_def)
  then obtain o' where o': "oracle_finish (nominal 1) example_state = Inr o'"
    "awg_points_v o' = [Fin 0, Fin 1]" "dmm_samples_v o' = [Fin 0, Fin 2]"
    "scope_voltages_v o' = [Fin 0, Fin 2]" "dmm_average_v o' = Fin 1" "scope_peak_to_peak_v o' = Fin 2"
    "o_gain o' = Fin 2" "max_scope_dmm_error_v o' = pf_max (Fin 0) [Fin 0]"
    using oracle_finish_success [of example_state "[Fin 0, Fin 1]" "[Fin 0, Fin 2]" "Fin 1"
        "''#12'' @ [CHR 0x00, CHR 0x02]" "[0, 2]" "Fin 1" "Fin 0" "Fin 0" "[Fin 0, Fin 2]"
        "[Fin 0, Fin 0]" "nominal 1"] example_floats
    by (simp only: example_state_def oracle_state.simps list.size) auto
  then have "reconstruct example_run (nominal 1) = Inr o' \<and> no_nan o'"
    by (simp add: reconstruct_def example_steps no_nan_def pf_max_def pf_less_def)
  then show ?thesis using that by blast
qed

lemma example_sessions:
  "five_devices (normalize_events example_run)"
  "opened_sessions (normalize_events example_run) \<noteq> {}"
  "opened_sessions (normalize_events example_run) = actively_closed (normalize_events example_run)"
  by code_simp+

section \<open>Properties: lemmas\<close>

lemma process_all_passed:
  "list_all passed cs \<Longrightarrow> filter P cs \<noteq> [] \<Longrightarrow> fraction (filter P cs) = 1"
proof -
  assume "list_all passed cs" and ne: "filter P cs \<noteq> []"
  then have "filter passed (filter P cs) = filter P cs" by (simp add: list_all_iff filter_id_conv del: filter_filter)
  then show ?thesis using ne by (simp add: fraction_def del: filter_filter)
qed

lemma honest_answer_lemma:
  assumes "reconstruct recs sp = Inr o'" and "no_nan o'" and "five_devices (normalize_events recs)"
    and "opened_sessions (normalize_events recs) \<noteq> {}"
    and "opened_sessions (normalize_events recs) = actively_closed (normalize_events recs)"
    and "snap_safe snap"
  shows "\<exists>r. grade_run (Some (to_candidate_result o')) recs sp snap False True = Inr r \<and> r_strict_pass r \<and>
    (driver_complete recs \<and> list_all passed (evaluate_constraints (normalize_events recs) True) \<longrightarrow>
       r_score r = 100)"
proof -
  let ?cs = "evaluate_constraints (normalize_events recs) True"
  let ?process = "filter (\<lambda>c. c_name c \<notin> {''active_close_all'', ''safe_final_state''}) ?cs"
  obtain b where "decode_ieee_signed_bytes b = Inr (scope_raw_codes o')"
    using reconstruct_provenance [OF assms(1)] by blast
  then have agrees: "candidate_agrees (to_candidate_result o') o' = Inr True"
    using own_answer_agrees [OF assms(2)] decode_codes_small by blast
  have t: "try_oracle recs sp = Inr (Some o', [])" using assms(1) by (simp add: try_oracle_Some)
  have d: "json_get (to_candidate_result o') ''decision'' = JBool (o_decision o')"
    by (simp add: to_candidate_result_def)
  have ac: "constraint_passed ?cs ''active_close_all''" "constraint_passed ?cs ''safe_final_state''"
    using assms(4,5) by (simp_all add: active_close_passed safe_final_passed)
  have "?process \<noteq> []" by (simp add: evaluate_constraints_def Let_def)
  then have full: "fsum (map snd (dimensions_of True True ?process True True True True)) = 100"
    if "list_all passed ?cs"
    using process_all_passed [OF that]
    by (simp add: dimensions_of_def of_bool_rat_def fsum_def fadd_def fdiv_def fmul_def)
  show ?thesis
    unfolding grade_run_def Let_def assms(6) [THEN eqTrueI]
    using t agrees d ac assms(3) full by (simp add: agreement_def decision_correct_def)
qed

lemma oracle_upload_no_comma:
  assumes "request e = Some req" "operation e = ''write''" "is_ascii req" "role e = Some ''awg''"
    and "starts_with ''DATA:ARB '' (upper (strip req))" and "second_word (strip req) = Some body"
    and "CHR '','' \<notin> set body"
  shows "oracle_step st e = Inl (Uncaught ''ValueError'')"
proof -
  have "upper (strip req) \<noteq> ''*IDN?''" using assms(5) by (auto simp: starts_with_def)
  moreover have "dropWhile (\<lambda>x. x \<noteq> CHR '','') body = []" using assms(7) by (auto simp: dropWhile_eq_Nil_conv)
  then have "split_once (CHR '','') body = None" unfolding split_once_def by (simp only: list.case)
  ultimately show ?thesis using assms by (simp add: oracle_step_def oracle_upload_def)
qed

lemma pass_rate_full:
  assumes "rs \<noteq> []" "int (length rs) \<le> 2 ^ 53" "pass_rate rs = 1"
  shows "list_all r_strict_pass rs"
proof -
  have "int (length (filter r_strict_pass rs)) = int (length rs)"
    using assms by (intro fdiv_eq_1) (simp_all add: pass_rate_def)
  then have "filter r_strict_pass rs = rs"
    by (metis length_filter_less less_irrefl filter_id_conv of_nat_eq_iff)
  then show ?thesis by (simp add: list_all_iff filter_id_conv)
qed

lemma aggregate_strict:
  assumes "aggregate_reports fx rp = Inr ev" and "ev_strict_pass ev"
  shows "pass_rate fx = 1 \<and> fl (9 / 10) \<le> pass_rate rp \<and> list_all r_infrastructure_valid (fx @ rp)"
proof -
  have ne: "\<not> (fx = [] \<or> rp = [])" using assms(1) unfolding aggregate_reports_def by (simp split: if_splits)
  have "\<exists>core. ev_strict_pass ev = (list_all snd (core @ [(''fixed_world_threshold'', pass_rate fx = 1),
      (''repeated_world_threshold'', fl (9 / 10) \<le> pass_rate rp)]) \<and> list_all r_infrastructure_valid (fx @ rp))"
    using assms(1) unfolding aggregate_reports_def if_not_P [OF ne] Let_def
    by (elim bind_res_Inr_iff [THEN iffD1, THEN exE] conjE) (clarsimp, blast)
  with assms(2) show ?thesis by auto
qed

lemma finish_report_strict:
  "r_strict_pass (finish_report report p f) \<Longrightarrow> p_status p = ''completed'' \<and> r_strict_pass report"
  by (auto simp: finish_report_def replace_status_def dest!: attach_strict split: if_splits)

lemma oracle_steps_no_writes: "list_all (\<lambda>e. operation e \<noteq> ''write'') es \<Longrightarrow> oracle_steps st es = Inr st"
  by (induction es) (auto simp: oracle_step_def split: option.split)

lemma grade_run_no_writes:
  assumes "list_all (\<lambda>e. operation e \<noteq> ''write'') recs"
  shows "\<exists>r. grade_run None recs sp snap fb infra = Inr r"
proof -
  have "\<exists>msg. reconstruct recs sp = Inl (OracleError msg)"
    unfolding reconstruct_def oracle_steps_no_writes [OF assms]
    by (simp add: oracle_finish_def oracle_init_def bind_res_Inl_iff FIVE_ROLES_def need_def has_keys_def)
  then obtain msg where "try_oracle recs sp = Inr (None, [msg])" by (auto simp: try_oracle_def)
  then show ?thesis by (simp add: grade_run_def Let_def agreement_def)
qed

lemma example_strict_run:
  obtains c r where "grade_run c example_run (nominal 1) (example_snapshot False False) False True = Inr r"
    "r_strict_pass r"
proof -
  obtain o' where o': "reconstruct example_run (nominal 1) = Inr o'" "no_nan o'" by (rule example_oracle)
  have "snap_safe (example_snapshot False False)" by (simp add: example_snapshot_def snapshot_def)
  with honest_answer_lemma [OF o' example_sessions] that show ?thesis by blast
qed

lemma aggregate_singletons:
  assumes "grade_run c recs sp snap fb infra = Inr r" and "r_strict_pass r"
  shows "\<exists>ev. aggregate_reports [r] [r] = Inr ev \<and> ev_strict_pass ev"
proof -
  obtain five drv process ex active safe_end prereq agrees dec where
    d: "r_dimensions r = dimensions_of five drv process ex active safe_end prereq"
    and g: "r_gates r = [(''five_devices_accessed'', five), (''oracle_agreement'', agrees),
       (''correct_decision'', dec), (''safe_final_state'', safe_end),
       (''active_close_all'', active), (''no_forbidden_access'', \<not> fb), (''robustness_threshold'', prereq)]"
    and s: "r_strict_pass r = (list_all snd (r_gates r) \<and> infra)" and v: "r_infrastructure_valid r"
    using assms(1) by (rule grade_run_Inr)
  have pr: "pass_rate [r] = 1" using assms(2) by (simp add: pass_rate_def)
  have "\<exists>dims. traverse (\<lambda>name. bind_res (traverse (\<lambda>r. dict_get (r_dimensions r) name) ([r] @ [r]))
      (\<lambda>vs. Inr (name, avg vs))) (dict_keys WEIGHTS) = Inr dims"
    by (simp add: d dimensions_of_def WEIGHTS_def dict_get_def)
  moreover have "traverse (\<lambda>name. bind_res (all_until (\<lambda>r. dict_get (r_gates r) name) [r]) (\<lambda>b. Inr (name, b)))
      CORE_GATES = Inr (map (\<lambda>n. (n, True)) CORE_GATES)"
    using assms(2) s by (simp add: g CORE_GATES_def dict_get_def)
  moreover have "fl (9 / 10) \<le> 1" by (rule fl.rnd_le_1) simp
  ultimately show ?thesis
    unfolding aggregate_reports_def Let_def pr using v by (auto simp: list_all_iff)
qed

section \<open>Properties\<close>

text \<open>
  C12. A strict pass of a graded run is sound: the hidden oracle could be reconstructed from the
  journal, the candidate's answer agrees with it and states its decision, every one of the five
  roles answered an identification that is in the journal, the acquired samples and the scope block
  are responses recorded in the journal, the world ended safe, every opened session was closed by
  the candidate, and neither forbidden access nor an infrastructure failure was reported.
\<close>

theorem v1_strict_pass_sound:
  assumes "grade_run c recs sp snap fb infra = Inr r" and "r_strict_pass r"
  shows "(\<exists>cand o'. c = Some cand \<and> reconstruct recs sp = Inr o' \<and> candidate_agrees cand o' = Inr True \<and>
       json_get cand ''decision'' = JBool (o_decision o') \<and>
       (\<exists>e \<in> set recs. dmm_source e (dmm_samples_v o')) \<and>
       (\<exists>e \<in> set recs. \<exists>b. scope_source e b \<and> decode_ieee_signed_bytes b = Inr (scope_raw_codes o')) \<and>
       (\<exists>e \<in> set recs. awg_source e (awg_points_v o'))) \<and>
    (\<forall>rl \<in> set FIVE_ROLES. \<exists>e \<in> set recs. role e = Some rl \<and> event_kind e = Some ''device.identified'') \<and>
    snap_safe snap \<and> opened_sessions (normalize_events recs) \<noteq> {} \<and>
    opened_sessions (normalize_events recs) = actively_closed (normalize_events recs) \<and> \<not> fb \<and> infra"
proof -
  note g = grade_run_strict [OF assms]
  obtain cand o' where o': "c = Some cand" "reconstruct recs sp = Inr o'" "candidate_agrees cand o' = Inr True"
    "json_get cand ''decision'' = JBool (o_decision o')" using g(1) by blast
  show ?thesis
    using o' reconstruct_provenance [OF o'(2)] five_devices_events [OF g(2)] g(3-7) by blast
qed

theorem v1_strict_pass_sound_witness:
  "\<exists>c r. grade_run c example_run (nominal 1) (example_snapshot False False) False True = Inr r \<and>
     r_strict_pass r \<and> (\<exists>e \<in> set example_run. role e = Some ''psu'' \<and> event_kind e = Some ''device.identified'')"
proof -
  obtain c r where r: "grade_run c example_run (nominal 1) (example_snapshot False False) False True = Inr r"
    "r_strict_pass r" by (rule example_strict_run)
  from v1_strict_pass_sound [OF r] r show ?thesis by (auto simp: FIVE_ROLES_def)
qed

text \<open>
  C25. An honest candidate passes: whenever the oracle can be reconstructed without NaN values, the
  answer that states exactly the oracle's values passes strictly (five devices identified, all
  sessions closed, safe final state), and it scores 100 when in addition all sessions were
  configured and all ordering constraints hold.
\<close>

theorem honest_answer_passes:
  assumes "reconstruct recs sp = Inr o'" and "no_nan o'" and "five_devices (normalize_events recs)"
    and "opened_sessions (normalize_events recs) \<noteq> {}"
    and "opened_sessions (normalize_events recs) = actively_closed (normalize_events recs)"
    and "snap_safe snap"
  shows "\<exists>r. grade_run (Some (to_candidate_result o')) recs sp snap False True = Inr r \<and> r_strict_pass r \<and>
    (driver_complete recs \<and> list_all passed (evaluate_constraints (normalize_events recs) True) \<longrightarrow>
       r_score r = 100)"
  using assms by (rule honest_answer_lemma)

theorem honest_answer_passes_witness:
  "\<exists>o' r. reconstruct example_run (nominal 1) = Inr o' \<and>
     grade_run (Some (to_candidate_result o')) example_run (nominal 1) (example_snapshot False False)
       False True = Inr r \<and> r_strict_pass r"
proof -
  obtain o' where o': "reconstruct example_run (nominal 1) = Inr o'" "no_nan o'" by (rule example_oracle)
  have safe: "snap_safe (example_snapshot False False)" by (simp add: example_snapshot_def snapshot_def)
  from honest_answer_passes [OF o' example_sessions safe] o'(1) show ?thesis by blast
qed

text \<open>
  Scores of a run are bounded: each of the six dimensions is between 0 and its weight and the
  score is between 0 and 100, roundings included.
\<close>

theorem v1_score_bounds:
  assumes "grade_run c recs sp snap fb infra = Inr r"
  shows "0 \<le> r_score r \<and> r_score r \<le> 100 \<and>
    list_all2 (\<lambda>d w. fst d = fst w \<and> 0 \<le> snd d \<and> snd d \<le> snd w) (r_dimensions r) WEIGHTS"
proof -
  obtain five drv process ex active safe_end prereq where
    d: "r_dimensions r = dimensions_of five drv process ex active safe_end prereq"
    and s: "r_score r = fsum (map snd (r_dimensions r))"
    using assms by (rule grade_run_Inr)
  note b = dimensions_bounds [of five drv process ex active safe_end prereq]
  have "0 \<le> r_score r" "r_score r \<le> 100"
    using fsum_bounds [OF b] by (simp_all add: s d)
  moreover have "list_all2 (\<lambda>d w. fst d = fst w \<and> 0 \<le> snd d \<and> snd d \<le> snd w) (r_dimensions r) WEIGHTS"
    using b by (simp add: d dimensions_of_def WEIGHTS_def)
  ultimately show ?thesis by blast
qed

theorem v1_score_bounds_witness:
  "\<exists>r. grade_run None [] (nominal 1) (example_snapshot False False) False True = Inr r \<and> r_score r \<le> 100"
proof -
  have "try_oracle [] (nominal 1) = Inr (None, [''not all five target identities are present''])"
    by (simp add: try_oracle_def reconstruct_def oracle_finish_def oracle_init_def has_keys_def FIVE_ROLES_def)
  then obtain r where r: "grade_run None [] (nominal 1) (example_snapshot False False) False True = Inr r"
    by (simp add: grade_run_def agreement_def Let_def)
  from v1_score_bounds [OF r] r show ?thesis by blast
qed

text \<open>
  C37. One rejected upload crashes the grading: if the journal holds a write to the generator that
  starts with \<^verbatim>\<open>DATA:ARB\<close> and has no comma, which the instrument rejects and the gateway records,
  the reconstruction raises a \<^verbatim>\<open>ValueError\<close> that \<open>grade_run\<close> does not handle, whatever else happened
  in the run.
\<close>

theorem malformed_upload_uncaught:
  assumes "oracle_steps oracle_init before = Inr st"
    and "request e = Some req" "operation e = ''write''" "is_ascii req" "role e = Some ''awg''"
    and "starts_with ''DATA:ARB '' (upper (strip req))" and "second_word (strip req) = Some body"
    and "CHR '','' \<notin> set body"
  shows "grade_run c (before @ e # after) sp snap fb infra = Inl (Uncaught ''ValueError'')"
proof -
  have "oracle_steps oracle_init (before @ e # after) = Inl (Uncaught ''ValueError'')"
    using assms(1) oracle_upload_no_comma [OF assms(2-8)] by (simp add: oracle_steps_append)
  then show ?thesis by (simp add: grade_run_def try_oracle_def reconstruct_def Let_def)
qed

theorem malformed_upload_uncaught_witness:
  "grade_run None [example_event_v1 1 ''write'' ''awg'' (Some ''DATA:ARB W'') None False False\<lparr>e_outcome := ''error''\<rparr>]
     (nominal 1) (example_snapshot False False) False True = Inl (Uncaught ''ValueError'')"
proof -
  let ?e = "example_event_v1 1 ''write'' ''awg'' (Some ''DATA:ARB W'') None False False\<lparr>e_outcome := ''error''\<rparr>"
  have facts: "is_ascii ''DATA:ARB W''" "starts_with ''DATA:ARB '' (upper (strip ''DATA:ARB W''))"
    "second_word (strip ''DATA:ARB W'') = Some ''W''"
    by code_simp+
  show ?thesis
    using malformed_upload_uncaught [of "[]" oracle_init ?e "''DATA:ARB W''" "''W''" None "[]" "nominal 1"
        "example_snapshot False False" False True] facts
    by (simp add: example_event_v1_def)
qed

text \<open>
  The process outcome overrides the grade: a report of a process that did not complete is never a
  strict pass; for a container process an infrastructure failure is exactly what makes the report
  invalid and eligible for a retry.
\<close>

theorem finish_report_gates:
  "(p_status p \<noteq> ''completed'' \<longrightarrow> \<not> r_strict_pass (finish_report r p f)) \<and>
   (r_strict_pass (finish_report r p f) \<longrightarrow> r_strict_pass r) \<and>
   (p_container p \<noteq> None \<longrightarrow>
      (r_retry_eligible (finish_report r p f) \<longleftrightarrow> p_status p = ''infrastructure_failure'') \<and>
      (r_infrastructure_valid (finish_report r p f) \<longleftrightarrow> p_status p \<noteq> ''infrastructure_failure'')) \<and>
   r_score (finish_report r p f) = r_score r"
  by (auto simp: finish_report_def attach_runtime_evidence_def replace_status_def Let_def
      split: option.splits if_splits)

theorem finish_report_gates_witness:
  "\<exists>c r. grade_run c example_run (nominal 1) (example_snapshot False False) False True = Inr r \<and>
     r_strict_pass r \<and>
     \<not> r_strict_pass (finish_report r \<lparr>p_status = ''timeout'', p_container = None, p_artifact = None\<rparr> False)"
proof -
  obtain c r where "grade_run c example_run (nominal 1) (example_snapshot False False) False True = Inr r"
    "r_strict_pass r" by (rule example_strict_run)
  with finish_report_gates [of "\<lparr>p_status = ''timeout'', p_container = None, p_artifact = None\<rparr>" r False]
  show ?thesis by auto
qed

text \<open>
  C34. A strict pass of the suite is sound: every fixed world passed strictly, at least nine tenths of
  the repeated worlds passed strictly, every fixed world has all six core gates, and no report comes
  from an invalid infrastructure.
\<close>

theorem v1_suite_pass_sound:
  assumes "aggregate_reports fixed repeated = Inr ev" and "ev_strict_pass ev"
    and "length fixed \<le> 2 ^ 40" and "length repeated \<le> 2 ^ 40"
  shows "list_all r_strict_pass fixed \<and>
    9 * length repeated \<le> 10 * length (filter r_strict_pass repeated) \<and>
    list_all r_infrastructure_valid (fixed @ repeated) \<and> fixed \<noteq> [] \<and> repeated \<noteq> []"
proof -
  have ne: "fixed \<noteq> []" "repeated \<noteq> []" using assms(1) by (auto simp: aggregate_reports_def split: if_splits)
  have g: "pass_rate fixed = 1" "fl (9 / 10) \<le> pass_rate repeated"
    "list_all r_infrastructure_valid (fixed @ repeated)"
    using aggregate_strict [OF assms(1,2)] by blast+
  have len: "int (length fixed) \<le> 2 ^ 53" "int (length repeated) \<le> 2 ^ 40"
    using of_nat_mono [OF assms(3), where 'a = int] of_nat_mono [OF assms(4), where 'a = int] by simp_all
  have "9 * int (length repeated) \<le> 10 * int (length (filter r_strict_pass repeated))"
    using g(2) ne(2) len(2) by (intro fdiv_ge_nine_tenths) (simp_all add: pass_rate_def)
  then have "9 * length repeated \<le> 10 * length (filter r_strict_pass repeated)" by simp
  with pass_rate_full [OF ne(1) len(1) g(1)] g(3) ne show ?thesis by blast
qed

theorem v1_suite_pass_sound_witness:
  "\<exists>c r ev. grade_run c example_run (nominal 1) (example_snapshot False False) False True = Inr r \<and>
     aggregate_reports [r] [r] = Inr ev \<and> ev_strict_pass ev \<and> list_all r_strict_pass [r]"
proof -
  obtain c r where r: "grade_run c example_run (nominal 1) (example_snapshot False False) False True = Inr r"
    "r_strict_pass r" by (rule example_strict_run)
  obtain ev where ev: "aggregate_reports [r] [r] = Inr ev" "ev_strict_pass ev"
    using aggregate_singletons [OF r] by blast
  have "length [r] \<le> 2 ^ 40" by simp
  from v1_suite_pass_sound [OF ev this this] r(1) ev show ?thesis by blast
qed

end
