(* ===== verification/Run_V1.thy ===== *)
theory Run_V1
  imports Gateway_Sessions Grading_V1
begin

text \<open>
  One evaluation of the PyVISA benchmark, version 1, from the rack to the report
  (\<^verbatim>\<open>instrument_benchmark_evaluator/run.py\<close>). What the candidate process does is an argument: the
  requests its connections send, the moments they end, and the result of the process. The theorems
  span the instruments, the gateway, the journal, the oracle and the grader.
\<close>

section \<open>Running a world\<close>

datatype client_step =
    Request draw string "(string \<times> string json) list"
  | Disconnect draw string

fun serve_steps :: "runtime \<Rightarrow> WorldSpec \<Rightarrow> client_step list \<Rightarrow> GatewayServer \<Rightarrow> GatewayServer" where
  "serve_steps rt sp [] g = g"
| "serve_steps rt sp (Request d own req # steps) g = serve_steps rt sp steps (fst (serve_request rt sp d own req g))"
| "serve_steps rt sp (Disconnect d own # steps) g = serve_steps rt sp steps (force_close_owner rt d own g)"

record candidate =
  \<comment> \<open>what \<^verbatim>\<open>backend.invoke\<close> makes happen and returns\<close>
  cand_steps :: "client_step list"
  cand_result :: "(string \<times> string json) list option"
  cand_process :: ProcessResult

datatype run_error = RackError instr_error | GradingError oracle_error | WorldsError world_config_error
  | MissingWorlds string

record WorldExecution =
  x_report :: WorldReport
  pre_cleanup_snapshot :: WorldSnapshot
  post_cleanup_snapshot :: WorldSnapshot
  x_forced_cleanup :: bool
  x_events :: "EvidenceEvent list"
    \<comment> \<open>\<^verbatim>\<open>journal.events()\<close>, which the source passes to the grader\<close>

definition start_gateway :: "string list \<Rightarrow> int \<Rightarrow> WorldSpec \<Rightarrow> run_error + GatewayServer" where
  "start_gateway listed now sp =
     (case new_rack listed False sp of
        Inl e \<Rightarrow> Inl (RackError e)
      | Inr rk \<Rightarrow> Inr (new_gateway rk
          (new_evidence (spec_world_id sp @ ''-'' @ show_int (seed sp)) (spec_world_id sp)) now))"

definition run_world ::
  "runtime \<Rightarrow> string list \<Rightarrow> int \<Rightarrow> candidate \<Rightarrow> WorldSpec \<Rightarrow> run_error + WorldExecution" where
  "run_world rt listed now c sp =
     bind_res (start_gateway listed now sp) (\<lambda>g0.
     let g = stop (serve_steps rt sp (cand_steps c) g0);
         final = gw_snapshot g;
         forced = (\<not> snap_safe final);
         rk = force_safe (rack g);
         post = snapshot (rack_world rk);
         events = j_events (journal g)
     in case grade_run (cand_result c) events sp final False True of
          Inl e \<Rightarrow> Inl (GradingError e)
        | Inr report \<Rightarrow>
            Inr \<lparr>x_report = finish_report report (cand_process c) forced, pre_cleanup_snapshot = final,
                 post_cleanup_snapshot = post, x_forced_cleanup = forced, x_events = events\<rparr>)"

definition run_suite ::
  "(WorldSpec \<Rightarrow> run_error + WorldExecution) \<Rightarrow> string list \<Rightarrow> (string, WorldSpec) dict \<Rightarrow>
     run_error + WorldExecution list" where
  "run_suite execute fixed_worlds specs =
     (let missing = filter (\<lambda>w. map_of specs w = None) fixed_worlds in
      if missing \<noteq> [] then Inl (MissingWorlds (''missing fixed world specs: '' @ join '', '' missing))
      else traverse (\<lambda>w. execute (the (map_of specs w))) fixed_worlds)"

definition run_full_suite ::
  "(WorldSpec \<Rightarrow> run_error + WorldExecution) \<Rightarrow> string list \<Rightarrow> int \<Rightarrow> int \<Rightarrow> (string, WorldSpec) dict \<Rightarrow>
     run_error + EvaluationReport" where
  \<comment> \<open>\<open>specs\<close> is what \<^verbatim>\<open>load_world_specs\<close> read\<close>
  "run_full_suite execute fixed_worlds repeated base_seed specs =
     bind_res (run_suite execute fixed_worlds specs) (\<lambda>fixed_executions.
     bind_res (case repeated_specs repeated base_seed of Inl e \<Rightarrow> Inl (WorldsError e) | Inr sps \<Rightarrow> Inr sps) (\<lambda>sps.
     bind_res (traverse execute sps) (\<lambda>repeated_executions.
     case aggregate_reports (map x_report fixed_executions) (map x_report repeated_executions) of
       Inl e \<Rightarrow> Inl (GradingError e)
     | Inr report \<Rightarrow> Inr report)))"

section \<open>Lemmas\<close>

fun step_token :: "client_step \<Rightarrow> string list" where
  "step_token (Request d own req) = [token d]"
| "step_token (Disconnect d own) = []"

definition step_tokens :: "client_step list \<Rightarrow> string list" where
  "step_tokens steps = concat (map step_token steps)"

lemma serve_steps_run:
  "gateway_run rt sp tokens g \<Longrightarrow> distinct (step_tokens steps) \<Longrightarrow> set (step_tokens steps) \<inter> tokens = {} \<Longrightarrow>
     gateway_run rt sp (tokens \<union> set (step_tokens steps)) (serve_steps rt sp steps g)"
proof (induction steps arbitrary: tokens g)
  case Nil
  then show ?case by (simp add: step_tokens_def)
next
  case (Cons st steps)
  show ?case
  proof (cases st)
    case (Request d own req)
    have "gateway_run rt sp (insert (token d) tokens) (fst (serve_request rt sp d own req g))"
      using Cons.prems by (intro gateway_run.request [OF Cons.prems(1), where d = d])
        (auto simp: Request step_tokens_def intro: prod.collapse [symmetric])
    from Cons.IH [OF this] Cons.prems Request show ?thesis by (auto simp: step_tokens_def insert_commute)
  next
    case (Disconnect d own)
    from Cons.IH [OF gateway_run.disconnect [OF Cons.prems(1)]] Cons.prems Disconnect show ?thesis
      by (simp add: step_tokens_def)
  qed
qed

lemma passed_closing:
  assumes imp: "implements rt r g" and once: "\<And>i. once r i" and inj: "inj_on (sha256 rt) tokens"
    and ids: "life_id ` set (life_log r) \<subseteq> tokens"
    and eq: "opened_sessions (normalize_events (j_events (journal g))) =
      actively_closed (normalize_events (j_events (journal g)))"
    and closed: "Closed i src \<in> set (life_log r)"
  shows "src = Some ''candidate''"
proof -
  have o: "Opened i \<in> set (life_log r)" using once_facts(1) [OF once closed] .
  then have "sha256 rt i \<in> opened_sessions (normalize_events (j_events (journal g)))"
    using registry_journal(1) [OF imp] by (auto simp: sessions_of_journal)
  then obtain j where j: "Closed j (Some ''candidate'') \<in> set (life_log r)" "sha256 rt i = sha256 rt j"
    unfolding eq using registry_journal(2) [OF imp] by (auto simp: sessions_of_journal)
  have "i \<in> tokens" "j \<in> tokens" using o j(1) ids by force+
  with inj j(2) have "i = j" by (simp add: inj_on_def)
  with once_facts(3) [OF once] closed j(1) show ?thesis by blast
qed

lemma force_safe_world:
  "finite (closed_routes (rack_world rk)) \<Longrightarrow> snap_safe (snapshot (rack_world (force_safe rk)))"
  by (auto simp: force_safe_def Let_def snapshot_def)

lemma world_run_finite: "world_run sp w \<Longrightarrow> finite (initial_closed_routes sp) \<Longrightarrow> finite (closed_routes w)"
proof (induction rule: world_run.induct)
  case start
  then show ?case by (simp add: new_world_def)
next
  case (tick w n w')
  then show ?case by (auto simp: advance_ms_def split: if_splits)
next
  case (act w a w')
  then show ?case by (cases rule: apply_action_cases [OF act.hyps(2)]) simp_all
next
  case (reopen w role)
  then show ?case by (simp add: note_session_reopen_def)
qed

lemma run_world_Inr:
  assumes "run_world rt listed now c sp = Inr x"
  obtains g0 g report where "start_gateway listed now sp = Inr g0" "g = serve_steps rt sp (cand_steps c) g0"
    "grade_run (cand_result c) (j_events (journal g)) sp (gw_snapshot g) False True = Inr report"
    "x_report x = finish_report report (cand_process c) (\<not> snap_safe (gw_snapshot g))"
    "pre_cleanup_snapshot x = gw_snapshot g" "x_forced_cleanup x \<longleftrightarrow> \<not> snap_safe (gw_snapshot g)"
    "post_cleanup_snapshot x = snapshot (rack_world (force_safe (rack g)))" "x_events x = j_events (journal g)"
proof -
  obtain g0 where g0: "start_gateway listed now sp = Inr g0" using assms by (auto simp: run_world_def res_simps)
  have st: "gw_snapshot (stop g) = gw_snapshot g" "rack (stop g) = rack g" "journal (stop g) = journal g" for g
    by (simp_all add: stop_def gw_snapshot_def)
  let ?g = "serve_steps rt sp (cand_steps c) g0"
  from assms g0 obtain report where
    r: "grade_run (cand_result c) (j_events (journal ?g)) sp (gw_snapshot ?g) False True = Inr report"
    and x: "x = \<lparr>x_report = finish_report report (cand_process c) (\<not> snap_safe (gw_snapshot ?g)),
       pre_cleanup_snapshot = gw_snapshot ?g, post_cleanup_snapshot = snapshot (rack_world (force_safe (rack ?g))),
       x_forced_cleanup = (\<not> snap_safe (gw_snapshot ?g)), x_events = j_events (journal ?g)\<rparr>"
    by (auto simp: run_world_def Let_def st split: sum.splits)
  show ?thesis by (rule that [OF g0 refl r]) (simp_all add: x)
qed

lemma start_gateway_run:
  assumes "validate_spec sp path = Inr ()" "start_gateway listed now sp = Inr g"
  shows "gateway_run rt sp {} g"
  using assms(2) gateway_run.start [OF assms(1)] by (auto simp: start_gateway_def split: sum.splits)

section \<open>Scope blocks\<close>

lemma signed_byte_pack: "- 128 \<le> c \<Longrightarrow> c \<le> 127 \<Longrightarrow> signed_byte (pack_byte c) = c"
proof -
  assume "- 128 \<le> c" "c \<le> 127"
  then have "c mod 256 = (if 0 \<le> c then c else c + 256)" by presburger
  then show ?thesis using \<open>- 128 \<le> c\<close> \<open>c \<le> 127\<close>
    by (auto simp: signed_byte_def pack_byte_def code_of_char_of_int)
qed

lemma show_int_digit: "1 \<le> n \<Longrightarrow> n \<le> 9 \<Longrightarrow> show_int n = [char_of (48 + nat n)]"
  by (simp add: show_int_def show_pos_step) (simp add: show_pos.simps)

lemma parse_bytes_decimal:
  assumes "list_all is_decimal s" "s \<noteq> []"
  shows "parse_bytes_int s = Some (digits_value 0 s)"
proof -
  have "bytes_strip s = s"
    unfolding bytes_strip_def using assms(1) by (intro strip_by_id) (auto simp: list_all_iff decimal_facts)
  then show ?thesis
    using split_sign_decimal [OF assms(1)] digit_part_decimal [OF assms(2,1)] by (simp add: parse_bytes_int_def)
qed

lemma decode_encode_block:
  assumes "list_all (\<lambda>c. - 128 \<le> c \<and> c \<le> 127) codes" "int (length codes) < 10 ^ 9" "binary_length_digits sp \<le> 9"
  shows "decode_ieee_signed_bytes (encode_block sp codes) = Inr codes"
proof -
  define payload where "payload = map pack_byte codes"
  define t where "t = show_int (int (length codes))"
  define k where "k = max (binary_length_digits sp) (length t)"
  define pad where "pad = pad_zeros k t"
  have t: "list_all is_decimal t" "t \<noteq> []" "digits_value 0 t = int (length codes)" "length t \<le> 9"
    unfolding t_def using show_nonneg(1-3) [of "int (length codes)"] show_nonneg(4) [of "int (length codes)" 9] assms(2) by simp_all
  have k: "1 \<le> k" "k \<le> 9" "length t \<le> k" using t(2,4) assms(3) by (simp_all add: k_def Suc_le_eq less_max_iff_disj)
  have pad: "list_all is_decimal pad" "pad \<noteq> []" "digits_value 0 pad = int (length codes)" "length pad = k"
    unfolding pad_def using pad_zeros_facts [OF t(1,2), of k] t(3) k(3) by (simp_all add: max_def)
  have block: "encode_block sp codes = CHR ''#'' # char_of (48 + k) # pad @ payload"
  proof -
    have "max (int (binary_length_digits sp)) (int (length t)) = int k" by (simp add: k_def)
    moreover have "show_int (int k) = [char_of (48 + k)]" using show_int_digit [of "int k"] k by simp
    ultimately show ?thesis by (simp add: encode_block_def Let_def payload_def pad_def t_def)
  qed
  have code: "code_of (char_of (48 + k) :: char) = 48 + int k" using k by (simp add: code_of_char_of)
  have "map signed_byte payload = codes"
    unfolding payload_def using assms(1) by (simp add: list_all_iff signed_byte_pack map_idI)
  moreover have "length payload = length codes" by (simp add: payload_def)
  ultimately show ?thesis
    using k pad parse_bytes_decimal [OF pad(1,2)]
    by (simp add: decode_ieee_signed_bytes_def block code Let_def)
qed

lemma curve_handle: "scope_handle rt sp ''CURVE?'' m w = (m, w, case scope_samples rt sp w of
     Inl e \<Rightarrow> Inl (Rejected e)
   | Inr xs \<Rightarrow> bind_res (traverse scope_code xs) (\<lambda>codes. Inr (Some (encode_block sp codes))))"
proof -
  have "upper ''CURVE?'' = ''CURVE?''" "\<not> starts_with ''DATA:SOURCE '' ''CURVE?''"
    "\<not> starts_with ''DATA:ENC '' ''CURVE?''" "\<not> starts_with ''DATA:WIDTH '' ''CURVE?''" by code_simp+
  then show ?thesis by (simp add: scope_handle_def Let_def)
qed

lemma scope_code_range: "scope_code v = Inr c \<Longrightarrow> - 128 \<le> c \<and> c \<le> 127"
  by (auto simp: scope_code_def res_simps)

section \<open>The output query of the supply\<close>

lemma psu_query:
  "exchange psu_handle psu_reset ''OUTP?'' i w = (i, w, Inr (Some ((if psu_on (model i) then ''1'' else ''0'') @ newline)))"
proof -
  have t: "is_ascii ''OUTP?''" "strip ''OUTP?'' = ''OUTP?''" "upper ''OUTP?'' = ''OUTP?''"
    "\<not> starts_with ''INST:NSEL '' ''OUTP?''" "\<not> starts_with ''VOLT '' ''OUTP?''" "\<not> starts_with ''OUTP '' ''OUTP?''"
    by code_simp+
  show ?thesis by (simp add: exchange_def psu_handle_def Let_def t)
qed

lemma rack_query:
  assumes "role_for rk res = Inr ''psu''" "\<not> transient_hit sp ''psu'' ''OUTP?'' rk"
  shows "rack_write rt sp res ''OUTP?'' rk =
    (rk, Inr (Some ((if psu_on (model (psu_ins rk)) then ''1'' else ''0'') @ newline)))"
  using assms by (simp add: rack_write_def model_exchange_def psu_query)

definition dirty :: WorldSpec where
  "dirty = (nominal 1)\<lparr>initial_psu_output := True\<rparr>"

section \<open>An example run\<close>

definition example_candidate :: candidate where
  \<comment> \<open>opens the supply and goes away\<close>
  "example_candidate =
     \<lparr>cand_steps = [Request (example_draw ''t1'') ''A''
        (example_request ''open_resource'' [(''resource'', JStr ''TCPIP0::192.0.2.10::inst0::INSTR'')]),
        Disconnect (example_draw ''t2'') ''A''],
      cand_result = None, cand_process = \<lparr>p_status = ''completed'', p_container = None, p_artifact = None\<rparr>\<rparr>"

lemma example_candidate_none: "cand_result example_candidate = None"
  by (simp add: example_candidate_def)

lemma operations_no_write: "map operation es = ops \<Longrightarrow> ''write'' \<notin> set ops \<Longrightarrow> list_all (\<lambda>e. operation e \<noteq> ''write'') es"
  by (force simp: list_all_iff)

definition example_start :: GatewayServer where
  "example_start = projr (start_gateway (dict_keys RESOURCE_ROLES) 0 (nominal 1))"

lemma example_run_world:
  "\<exists>x. run_world example_gw_rt (dict_keys RESOURCE_ROLES) 0 example_candidate (nominal 1) = Inr x"
proof -
  let ?g = "serve_steps example_gw_rt (nominal 1) (cand_steps example_candidate) example_start"
  have g: "start_gateway (dict_keys RESOURCE_ROLES) 0 (nominal 1) = Inr example_start" by code_simp
  have "map operation (j_events (journal ?g)) = [''open_resource'', ''close'']" by code_simp
  from operations_no_write [OF this]
  have "list_all (\<lambda>e. operation e \<noteq> ''write'') (j_events (journal (stop ?g)))" by (simp add: stop_def)
  from grade_run_no_writes [OF this] obtain r where
    "grade_run None (j_events (journal (stop ?g))) (nominal 1) (gw_snapshot (stop ?g)) False True = Inr r" by blast
  then show ?thesis by (simp add: run_world_def g Let_def example_candidate_none)
qed

definition noiseless :: WorldSpec where
  "noiseless = (nominal 1)\<lparr>scope_noise_v := 0\<rparr>"

lemma example_curve:
  "\<exists>block. scope_handle example_rt noiseless ''CURVE?'' scope_init example_world = (scope_init, example_world, Inr (Some block))"
proof -
  let ?q = "bind_res (case scope_samples example_rt noiseless example_world of Inl e \<Rightarrow> Inl (Rejected e) | Inr xs \<Rightarrow> Inr xs)
    (traverse scope_code)"
  have "\<not> isl ?q" by code_simp
  then obtain codes where "?q = Inr codes" by (cases ?q) auto
  then show ?thesis by (auto simp: curve_handle res_simps split: sum.splits)
qed

lemma example_roles:
  "role_for (rack example_open) ''TCPIP0::192.0.2.10::inst0::INSTR'' = Inr ''psu''"
  "\<not> transient_hit (nominal 1) ''psu'' ''OUTP?'' (rack example_open)"
  by code_simp+

section \<open>Properties\<close>

text \<open>
  C15. A run of a world ends safe and is judged on what the candidate did: after the cleanup the simulated
  hardware is in its safe state, the cleanup is recorded as forced exactly if the candidate left the
  hardware unsafe, and a run passes strictly only if its process completed, no cleanup was forced
  and no session was closed by a disconnect (for tokens that do not repeat and digests that do not
  collide on them).
\<close>

theorem run_world_sound:
  assumes "run_world rt listed now c sp = Inr x" and "validate_spec sp path = Inr ()"
    and "finite (initial_closed_routes sp)"
    and "distinct (step_tokens (cand_steps c))" and "inj_on (sha256 rt) (set (step_tokens (cand_steps c)))"
  shows "snap_safe (post_cleanup_snapshot x) \<and>
    (x_forced_cleanup x \<longleftrightarrow> \<not> snap_safe (pre_cleanup_snapshot x)) \<and>
    (r_strict_pass (x_report x) \<longrightarrow> p_status (cand_process c) = ''completed'' \<and> \<not> x_forced_cleanup x \<and>
       (\<forall>e \<in> set (x_events x). operation e = ''close'' \<longrightarrow> cleanup_source e = Some ''candidate''))"
proof -
  obtain g0 g report where g: "start_gateway listed now sp = Inr g0" "g = serve_steps rt sp (cand_steps c) g0"
    "grade_run (cand_result c) (j_events (journal g)) sp (gw_snapshot g) False True = Inr report"
    "x_report x = finish_report report (cand_process c) (\<not> snap_safe (gw_snapshot g))"
    "pre_cleanup_snapshot x = gw_snapshot g" "x_forced_cleanup x \<longleftrightarrow> \<not> snap_safe (gw_snapshot g)"
    "post_cleanup_snapshot x = snapshot (rack_world (force_safe (rack g)))" "x_events x = j_events (journal g)"
    using assms(1) by (rule run_world_Inr)
  have run: "gateway_run rt sp (set (step_tokens (cand_steps c))) g"
    using serve_steps_run [OF start_gateway_run [OF assms(2) g(1)] assms(4)] by (simp add: g(2))
  have "finite (closed_routes (rack_world (rack g)))"
    using gateway_run_ok [OF run] world_run_finite [OF rack_inv_run assms(3)] by (auto simp: gw_ok_def)
  then have post: "snap_safe (post_cleanup_snapshot x)" unfolding g(7) by (rule force_safe_world)
  have strict: "p_status (cand_process c) = ''completed'' \<and> \<not> x_forced_cleanup x \<and>
       (\<forall>e \<in> set (x_events x). operation e = ''close'' \<longrightarrow> cleanup_source e = Some ''candidate'')"
    if st: "r_strict_pass (x_report x)"
  proof -
    have p: "p_status (cand_process c) = ''completed''" "r_strict_pass report"
      using finish_report_strict st unfolding g(4) by blast+
    note gr = grade_run_strict [OF g(3) p(2)]
    obtain r where r: "reg_run r" "implements rt r g" "life_id ` set (life_log r) \<subseteq> set (step_tokens (cand_steps c))"
      using gateway_run_registry [OF run] by blast
    have "cleanup_source e = Some ''candidate''" if e: "e \<in> set (j_events (journal g))" "operation e = ''close''" for e
    proof -
      have "Closed (session_digest e) (cleanup_source e) \<in> set (life_of (j_events (journal g)))"
        using e by (auto simp: life_of_member life_event_of_iff)
      then obtain i where "Closed i (cleanup_source e) \<in> set (life_log r)" using registry_journal(2) [OF r(2)] by blast
      then show ?thesis by (rule passed_closing [OF r(2) reg_run_once [OF r(1)] assms(5) r(3) gr(7)])
    qed
    with p(1) gr(3) show ?thesis unfolding g(6,8) by blast
  qed
  show ?thesis using post strict unfolding g(5,6) by blast
qed

theorem run_world_sound_witness:
  "\<exists>x. run_world example_gw_rt (dict_keys RESOURCE_ROLES) 0 example_candidate (nominal 1) = Inr x \<and>
     snap_safe (post_cleanup_snapshot x)"
proof -
  obtain x where x: "run_world example_gw_rt (dict_keys RESOURCE_ROLES) 0 example_candidate (nominal 1) = Inr x"
    using example_run_world by blast
  have "validate_spec (nominal 1) [] = Inr ()" by code_simp
  moreover have "finite (initial_closed_routes (nominal 1))" by (simp add: nominal_def)
  moreover have "distinct (step_tokens (cand_steps example_candidate))"
    "inj_on (sha256 example_gw_rt) (set (step_tokens (cand_steps example_candidate)))"
    by (simp_all add: example_candidate_def step_tokens_def)
  ultimately show ?thesis using x run_world_sound [OF x] by blast
qed

text \<open>
  C30. What the oscilloscope sends is what the oracle reads: the block a \<^verbatim>\<open>CURVE?\<close> answers decodes, with the
  declared length and every signed byte, to the codes the samples were quantised to, for every
  validated world and fewer than a billion samples.
\<close>

theorem curve_round_trip:
  assumes "validate_spec sp path = Inr ()" and "scope_handle rt sp ''CURVE?'' m w = (m', w', Inr (Some block))"
    and "int (length (awg_points w)) < 10 ^ 9"
  shows "\<exists>xs codes. scope_samples rt sp w = Inr xs \<and> traverse scope_code xs = Inr codes \<and>
    length codes = length (awg_points w) \<and> decode_ieee_signed_bytes block = Inr codes"
proof -
  obtain xs codes where x: "scope_samples rt sp w = Inr xs" "traverse scope_code xs = Inr codes" "block = encode_block sp codes"
    using assms(2) by (auto simp: curve_handle res_simps split: sum.splits)
  have "length xs = length (awg_points w)"
    using x(1) by (auto simp: scope_samples_def res_simps noisy_def ideal_samples_def)
  then have len: "length codes = length (awg_points w)" using traverse_Inr_length [OF x(2)] by simp
  have "list_all (\<lambda>c. - 128 \<le> c \<and> c \<le> 127) codes"
    using traverse_Inr_set [OF x(2)] scope_code_range by (force simp: list_all_iff)
  moreover have "binary_length_digits sp \<le> 9" using validated_spec(5) [OF assms(1)] by simp
  ultimately show ?thesis using x len decode_encode_block assms(3) by auto
qed

theorem curve_round_trip_witness:
  "\<exists>block codes. scope_handle example_rt noiseless ''CURVE?'' scope_init example_world =
     (scope_init, example_world, Inr (Some block)) \<and> length codes = 2 \<and> decode_ieee_signed_bytes block = Inr codes"
proof -
  obtain block where b: "scope_handle example_rt noiseless ''CURVE?'' scope_init example_world =
     (scope_init, example_world, Inr (Some block))" using example_curve by blast
  have "validate_spec noiseless [] = Inr ()" by code_simp
  from curve_round_trip [OF this b] b show ?thesis by (auto simp: example_world_def)
qed

text \<open>
  The supply answers \<^verbatim>\<open>OUTP?\<close> truthfully in every run of a world that starts with its output off:
  the answer is 1 exactly if the output of the simulated hardware is on.
\<close>

theorem output_query_truthful:
  assumes "gateway_run rt sp tokens g" and "\<not> initial_psu_output sp"
    and "role_for (rack g) res = Inr ''psu''" and "\<not> transient_hit sp ''psu'' ''OUTP?'' (rack g)"
  shows "rack_write rt sp res ''OUTP?'' (rack g) =
    (rack g, Inr (Some ((if psu_output (rack_world (rack g)) then ''1'' else ''0'') @ newline)))"
proof -
  have "rack_inv sp (rack g)" using gateway_run_ok [OF assms(1)] by (simp add: gw_ok_def)
  then have "psu_on (model (psu_ins (rack g))) = psu_output (rack_world (rack g))"
    using assms(2) by (simp add: rack_inv_def psu_inv_def)
  with rack_query [OF assms(3,4)] show ?thesis by simp
qed

theorem output_query_truthful_witness:
  "rack_write example_gw_rt (nominal 1) ''TCPIP0::192.0.2.10::inst0::INSTR'' ''OUTP?'' (rack example_open) =
    (rack example_open, Inr (Some ((if psu_output (rack_world (rack example_open)) then ''1'' else ''0'') @ newline)))"
  by (rule output_query_truthful [OF example_open_run _ example_roles]) (simp add: nominal_def)

text \<open>
  C40. In a world that starts with the supply on, the first \<^verbatim>\<open>OUTP?\<close> is answered with 0 although the
  output of the hardware is on: the model of the instrument starts with its output flag off.
\<close>

theorem dirty_output_misreported:
  assumes "new_rack listed b sp = Inr rk" and "initial_psu_output sp"
    and "role_for rk res = Inr ''psu''" and "\<not> transient_hit sp ''psu'' ''OUTP?'' rk"
  shows "rack_write rt sp res ''OUTP?'' rk = (rk, Inr (Some (''0'' @ newline))) \<and> psu_output (rack_world rk)"
proof -
  have "rack_world rk = new_world sp \<and> model (psu_ins rk) = psu_init"
    using assms(1) unfolding new_rack_def Let_def new_instrument_def by (elim if_eqE) (simp, simp, clarsimp)
  with rack_query [OF assms(3,4)] assms(2) show ?thesis by (simp add: psu_init_def new_world_def)
qed

theorem dirty_output_misreported_witness:
  "\<exists>rk. new_rack (dict_keys RESOURCE_ROLES) False dirty = Inr rk \<and>
     rack_write example_gw_rt dirty ''TCPIP0::192.0.2.10::inst0::INSTR'' ''OUTP?'' rk = (rk, Inr (Some (''0'' @ newline))) \<and>
     psu_output (rack_world rk)"
proof -
  let ?rk = "projr (new_rack (dict_keys RESOURCE_ROLES) False dirty)"
  have rk: "new_rack (dict_keys RESOURCE_ROLES) False dirty = Inr ?rk" by code_simp
  have r: "role_for ?rk ''TCPIP0::192.0.2.10::inst0::INSTR'' = Inr ''psu''"
    "\<not> transient_hit dirty ''psu'' ''OUTP?'' ?rk" by code_simp+
  have "initial_psu_output dirty" by (simp add: dirty_def)
  from dirty_output_misreported [OF rk this r] rk show ?thesis by blast
qed

end
