(* ===== verification/Unicode_Text.thy ===== *)
theory Unicode_Text
  imports Py_Text Base64
begin

text \<open>
  Unicode text and the JSON text format, as the second PyVISA evaluator uses them on its wire and
  in its journal: a \<^verbatim>\<open>str\<close> is the list of its code points, \<open>utf8_encode\<close> and \<open>utf8_decode\<close> are
  \<^verbatim>\<open>str.encode("utf-8")\<close> and \<^verbatim>\<open>bytes.decode("utf-8")\<close>, \<open>udumps\<close> is \<^verbatim>\<open>json.dumps\<close> with sorted keys and
  no blanks, with or without \<^verbatim>\<open>ensure_ascii\<close>, and \<open>loads\<close> is \<^verbatim>\<open>json.loads\<close> with the hooks for
  objects, constants and integers. The lemmas show the two round trips: UTF-8, and JSON text.
\<close>

section \<open>Code points\<close>

type_synonym ustr = "int list"
type_synonym uobj = "(ustr \<times> ustr json) list"

definition u :: "string \<Rightarrow> ustr" where
  \<comment> \<open>a literal of the sources\<close>
  "u s = map code_of s"

definition is_surrogate :: "int \<Rightarrow> bool" where
  "is_surrogate c = (0xD800 \<le> c \<and> c \<le> 0xDFFF)"

definition scalar :: "int \<Rightarrow> bool" where
  \<comment> \<open>a code point that UTF-8 can carry\<close>
  "scalar c = (0 \<le> c \<and> c < 0x110000 \<and> \<not> is_surrogate c)"

lemma u_inject [simp]: "u s = u t \<longleftrightarrow> s = t"
  unfolding u_def by (metis char_of_code list.inj_map_strong)

lemma u_append: "u (s @ t) = u s @ u t"
  by (simp add: u_def)

lemma u_Nil_iff [simp]: "u s = [] \<longleftrightarrow> s = []" "[] = u s \<longleftrightarrow> s = []"
  by (auto simp: u_def)

lemma scalar_u: "c \<in> set (u s) \<Longrightarrow> scalar c"
proof -
  assume "c \<in> set (u s)"
  then obtain x where "c = code_of x" by (auto simp: u_def)
  with code_of_range [of x] show "scalar c" by (simp add: scalar_def is_surrogate_def)
qed

section \<open>UTF-8\<close>

definition utf8_char :: "int \<Rightarrow> int list" where
  "utf8_char c =
     (if c < 0x80 then [c]
      else if c < 0x800 then [0xC0 + c div 64, 0x80 + c mod 64]
      else if c < 0x10000 then [0xE0 + c div 4096, 0x80 + c div 64 mod 64, 0x80 + c mod 64]
      else [0xF0 + c div 262144, 0x80 + c div 4096 mod 64, 0x80 + c div 64 mod 64, 0x80 + c mod 64])"

definition utf8_encode :: "ustr \<Rightarrow> string option" where
  \<comment> \<open>\<^verbatim>\<open>None\<close> is \<^verbatim>\<open>UnicodeEncodeError\<close>\<close>
  "utf8_encode s =
     (if list_all scalar s then Some (map char_of (concat (map utf8_char s))) else None)"

definition cont :: "int \<Rightarrow> bool" where
  "cont b = (0x80 \<le> b \<and> b < 0xC0)"

fun utf8_codes :: "int list \<Rightarrow> ustr option" where
  "utf8_codes [] = Some []"
| "utf8_codes (a # r) =
     (if a < 0x80 then map_option (Cons a) (utf8_codes r)
      else if a < 0xC2 then None
      else if a < 0xE0 then
        (case r of b # r' \<Rightarrow>
           if cont b then map_option (Cons ((a - 0xC0) * 64 + (b - 0x80))) (utf8_codes r') else None
         | _ \<Rightarrow> None)
      else if a < 0xF0 then
        (case r of b # c # r' \<Rightarrow>
           let v = (a - 0xE0) * 4096 + (b - 0x80) * 64 + (c - 0x80) in
           if cont b \<and> cont c \<and> 0x800 \<le> v \<and> \<not> is_surrogate v
           then map_option (Cons v) (utf8_codes r') else None
         | _ \<Rightarrow> None)
      else
        (case r of b # c # d # r' \<Rightarrow>
           let v = (a - 0xF0) * 262144 + (b - 0x80) * 4096 + (c - 0x80) * 64 + (d - 0x80) in
           if cont b \<and> cont c \<and> cont d \<and> 0x10000 \<le> v \<and> v < 0x110000
           then map_option (Cons v) (utf8_codes r') else None
         | _ \<Rightarrow> None))"

definition utf8_decode :: "string \<Rightarrow> ustr option" where
  \<comment> \<open>\<^verbatim>\<open>None\<close> is \<^verbatim>\<open>UnicodeDecodeError\<close>\<close>
  "utf8_decode b = utf8_codes (map code_of b)"

lemma utf8_char_bytes: "scalar c \<Longrightarrow> b \<in> set (utf8_char c) \<Longrightarrow> 0 \<le> b \<and> b < 256"
  by (auto simp: utf8_char_def scalar_def split: if_splits)

lemma div_64_steps:
  fixes c :: int
  shows "c = 64 * (c div 64) + c mod 64"
    and "c div 64 = 64 * (c div 4096) + c div 64 mod 64"
    and "c div 4096 = 64 * (c div 262144) + c div 4096 mod 64"
proof -
  have e: "c div 4096 = c div 64 div 64" "c div 262144 = c div 4096 div 64"
    by (simp_all flip: zdiv_zmult2_eq)
  show "c = 64 * (c div 64) + c mod 64" by simp
  show "c div 64 = 64 * (c div 4096) + c div 64 mod 64" unfolding e(1) by simp
  show "c div 4096 = 64 * (c div 262144) + c div 4096 mod 64" unfolding e(2) by simp
qed

lemma utf8_codes_2:
  "\<lbrakk>2 \<le> p; p < 32; 0 \<le> q; q < 64; v = 64 * p + q\<rbrakk> \<Longrightarrow>
    utf8_codes ((0xC0 + p) # (0x80 + q) # r) = map_option (Cons v) (utf8_codes r)"
  by (simp add: cont_def mult.commute)

lemma utf8_codes_3:
  "\<lbrakk>0 \<le> p; p < 16; 0 \<le> q; q < 64; 0 \<le> q'; q' < 64; v = 4096 * p + 64 * q + q'; 0x800 \<le> v; \<not> is_surrogate v\<rbrakk> \<Longrightarrow>
    utf8_codes ((0xE0 + p) # (0x80 + q) # (0x80 + q') # r) = map_option (Cons v) (utf8_codes r)"
  by (simp add: cont_def Let_def mult.commute)

lemma utf8_codes_4:
  "\<lbrakk>0 \<le> p; 0 \<le> q; q < 64; 0 \<le> q'; q' < 64; 0 \<le> q''; q'' < 64;
    v = 262144 * p + 4096 * q + 64 * q' + q''; 0x10000 \<le> v; v < 0x110000\<rbrakk> \<Longrightarrow>
    utf8_codes ((0xF0 + p) # (0x80 + q) # (0x80 + q') # (0x80 + q'') # r) = map_option (Cons v) (utf8_codes r)"
  by (simp add: cont_def Let_def mult.commute add.assoc)

lemma utf8_codes_char:
  assumes "scalar c"
  shows "utf8_codes (utf8_char c @ r) = map_option (Cons c) (utf8_codes r)"
proof -
  note d = div_64_steps [of c]
  have m: "0 \<le> x mod 64" "x mod 64 < 64" for x :: int by simp_all
  have c: "0 \<le> c" "c < 0x110000" "\<not> is_surrogate c" using assms by (simp_all add: scalar_def)
  consider "c < 0x80" | "0x80 \<le> c" "c < 0x800" | "0x800 \<le> c" "c < 0x10000" | "0x10000 \<le> c" by linarith
  then show ?thesis
  proof cases
    case 1
    then show ?thesis by (simp add: utf8_char_def)
  next
    case 2
    then have "2 \<le> c div 64" "c div 64 < 32" by auto
    then show ?thesis using utf8_codes_2 [OF _ _ _ _ d(1), of r] 2 by (simp add: utf8_char_def)
  next
    case 3
    have e: "c = 4096 * (c div 4096) + 64 * (c div 64 mod 64) + c mod 64" using d(1,2) by linarith
    have "c div 4096 < 16" "0 \<le> c div 4096" using 3 by auto
    from utf8_codes_3 [OF this(2,1) m [of "c div 64"] m [of c] e 3(1) c(3)]
    show ?thesis using 3 by (simp add: utf8_char_def)
  next
    case 4
    have e: "c = 262144 * (c div 262144) + 4096 * (c div 4096 mod 64) + 64 * (c div 64 mod 64) + c mod 64"
      using d by linarith
    have "0 \<le> c div 262144" using 4 by auto
    from utf8_codes_4 [OF this m [of "c div 4096"] m [of "c div 64"] m [of c] e 4 c(2)]
    show ?thesis using 4 by (simp add: utf8_char_def)
  qed
qed

lemma utf8_codes_encode:
  "list_all scalar s \<Longrightarrow> utf8_codes (concat (map utf8_char s)) = Some s"
  by (induction s) (simp_all add: utf8_codes_char)

lemma code_of_char_of_bytes:
  "(\<And>b. b \<in> set bs \<Longrightarrow> 0 \<le> b \<and> b < 256) \<Longrightarrow> map code_of (map char_of bs) = (bs :: int list)"
  by (auto simp: code_of_char_of_int intro!: map_idI)

lemma utf8_round_trip: "utf8_encode s = Some b \<Longrightarrow> utf8_decode b = Some s"
proof -
  assume "utf8_encode s = Some b"
  then have s: "list_all scalar s" and b: "b = map char_of (concat (map utf8_char s))"
    by (auto simp: utf8_encode_def split: if_splits)
  have "map code_of b = concat (map utf8_char s)"
    unfolding b using s utf8_char_bytes by (intro code_of_char_of_bytes) (auto simp: list_all_iff)
  then show ?thesis by (simp add: utf8_decode_def utf8_codes_encode s)
qed

section \<open>Writing JSON\<close>

definition hex_code :: "int \<Rightarrow> int" where
  "hex_code d = (if d < 10 then 48 + d else 87 + d)"

definition hex4 :: "int \<Rightarrow> ustr" where
  "hex4 v = [hex_code (v div 4096 mod 16), hex_code (v div 256 mod 16), hex_code (v div 16 mod 16), hex_code (v mod 16)]"

definition u_escape :: "int \<Rightarrow> ustr" where
  "u_escape v = [92, 117] @ hex4 v"

definition short_escape :: "int \<Rightarrow> int option" where
  "short_escape c =
     (if c = 34 then Some 34 else if c = 92 then Some 92 else if c = 10 then Some 110
      else if c = 13 then Some 114 else if c = 9 then Some 116 else if c = 12 then Some 102
      else if c = 8 then Some 98 else None)"

definition escape_code :: "bool \<Rightarrow> int \<Rightarrow> ustr" where
  \<comment> \<open>one code point of a string, with or without \<^verbatim>\<open>ensure_ascii\<close>\<close>
  "escape_code ascii c =
     (case short_escape c of
        Some e \<Rightarrow> [92, e]
      | None \<Rightarrow>
          if c < 32 then u_escape c
          else if \<not> ascii \<or> c \<le> 126 then [c]
          else if c < 0x10000 then u_escape c
          else u_escape (0xD800 + (c - 0x10000) div 1024) @ u_escape (0xDC00 + (c - 0x10000) mod 1024))"

definition uquote :: "bool \<Rightarrow> ustr \<Rightarrow> ustr" where
  "uquote ascii s = 34 # concat (map (escape_code ascii) s) @ [34]"

fun ucommas :: "ustr list \<Rightarrow> ustr" where
  "ucommas [] = []"
| "ucommas [s] = s"
| "ucommas (s # t # ss) = s @ 44 # ucommas (t # ss)"

definition upair :: "bool \<Rightarrow> ustr \<times> ustr \<Rightarrow> ustr" where
  "upair ascii = (\<lambda>(k, s). uquote ascii k @ 58 # s)"

fun udumps :: "bool \<Rightarrow> (rat \<Rightarrow> string) \<Rightarrow> ustr json \<Rightarrow> ustr" where
  "udumps a fr JNull = u ''null''"
| "udumps a fr (JBool b) = (if b then u ''true'' else u ''false'')"
| "udumps a fr (JInt n) = u (show_int n)"
| "udumps a fr (JFloat x) =
     (case x of Fin q \<Rightarrow> u (fr q) | PosInf \<Rightarrow> u ''Infinity'' | NegInf \<Rightarrow> u ''-Infinity'' | NaN \<Rightarrow> u ''NaN'')"
| "udumps a fr (JStr s) = uquote a s"
| "udumps a fr (JList vs) = 91 # ucommas (map (udumps a fr) vs) @ [93]"
| "udumps a fr (JObj kvs) =
     123 # ucommas (map (upair a) (sort_key fst (map (\<lambda>(k, v). (k, udumps a fr v)) kvs))) @ [125]"

section \<open>Reading JSON\<close>

text \<open>
  The scanner of \<^verbatim>\<open>json\<close>. Every syntax error and every error of a hook is a \<^verbatim>\<open>ValueError\<close>; nesting
  beyond what the interpreter's stack allows is a \<^verbatim>\<open>RecursionError\<close>, so the depth it allows is an
  argument. The hooks are those of \<^verbatim>\<open>json.loads\<close>: \<open>pairs_hook\<close> turns the pairs of an object into a
  value, \<open>constant_hook\<close> the three non-finite constants, \<open>int_hook\<close> the text of an integer.
\<close>

datatype loads_error = ValueError | RecursionError

record hooks =
  pairs_hook :: "uobj \<Rightarrow> ustr json option"
  constant_hook :: "pyfloat \<Rightarrow> ustr json option"
  int_hook :: "string \<Rightarrow> int option"

definition is_ws :: "int \<Rightarrow> bool" where
  "is_ws c = (c = 32 \<or> c = 9 \<or> c = 10 \<or> c = 13)"

definition skip_ws :: "ustr \<Rightarrow> ustr" where
  "skip_ws s = dropWhile is_ws s"

definition hex_val :: "int \<Rightarrow> int option" where
  "hex_val c = (if 48 \<le> c \<and> c \<le> 57 then Some (c - 48) else if 97 \<le> c \<and> c \<le> 102 then Some (c - 87)
     else if 65 \<le> c \<and> c \<le> 70 then Some (c - 55) else None)"

fun read_hex4 :: "ustr \<Rightarrow> (int \<times> ustr) option" where
  "read_hex4 (a # b # c # d # r) =
     (case (hex_val a, hex_val b, hex_val c, hex_val d) of
        (Some a', Some b', Some c', Some d') \<Rightarrow> Some (a' * 4096 + b' * 256 + c' * 16 + d', r)
      | _ \<Rightarrow> None)"
| "read_hex4 _ = None"

definition unescape :: "int \<Rightarrow> int option" where
  "unescape e =
     (if e = 34 \<or> e = 92 \<or> e = 47 then Some e else if e = 110 then Some 10 else if e = 114 then Some 13
      else if e = 116 then Some 9 else if e = 102 then Some 12 else if e = 98 then Some 8 else None)"

definition read_escape :: "ustr \<Rightarrow> (int \<times> ustr) option" where
  \<comment> \<open>what follows a backslash; two escaped surrogates make one code point\<close>
  "read_escape s =
     (case s of [] \<Rightarrow> None
      | e # r \<Rightarrow>
          if e \<noteq> 117 then map_option (\<lambda>c. (c, r)) (unescape e)
          else (case read_hex4 r of None \<Rightarrow> None
                | Some (v, r') \<Rightarrow>
                    if 0xD800 \<le> v \<and> v \<le> 0xDBFF \<and> take 2 r' = [92, 117] then
                      (case read_hex4 (drop 2 r') of None \<Rightarrow> None
                       | Some (w, r'') \<Rightarrow>
                           if 0xDC00 \<le> w \<and> w \<le> 0xDFFF
                           then Some (0x10000 + (v - 0xD800) * 1024 + (w - 0xDC00), r'') else Some (v, r'))
                    else Some (v, r')))"

lemma read_hex4_length: "read_hex4 s = Some (v, r) \<Longrightarrow> length r < length s"
  by (induction s rule: read_hex4.induct) (auto split: option.splits)

lemma read_escape_length: "read_escape s = Some (v, r) \<Longrightarrow> length r < length s"
  by (auto simp: read_escape_def dest!: read_hex4_length split: list.splits if_splits option.splits)

function scan_str :: "ustr \<Rightarrow> (ustr \<times> ustr) option" where
  \<comment> \<open>a string behind its opening quote, and what follows the closing one\<close>
  "scan_str [] = None"
| "scan_str (c # r) =
     (if c = 34 then Some ([], r)
      else if c < 32 then None
      else if c \<noteq> 92 then map_option (apfst (Cons c)) (scan_str r)
      else (case read_escape r of None \<Rightarrow> None
            | Some (v, r') \<Rightarrow> map_option (apfst (Cons v)) (scan_str r')))"
  by pat_completeness auto
termination
  by (relation "measure length") (auto dest: read_escape_length)

definition is_dig :: "int \<Rightarrow> bool" where
  "is_dig c = (48 \<le> c \<and> c \<le> 57)"

definition split_digits :: "ustr \<Rightarrow> ustr \<times> ustr" where
  "split_digits s = (takeWhile is_dig s, dropWhile is_dig s)"

definition scan_frac :: "ustr \<Rightarrow> ustr \<times> ustr" where
  "scan_frac s = (case s of c # d # r \<Rightarrow>
       if c = 46 \<and> is_dig d then (case split_digits (d # r) of (ds, r') \<Rightarrow> (46 # ds, r')) else ([], s)
     | _ \<Rightarrow> ([], s))"

definition scan_exp :: "ustr \<Rightarrow> ustr \<times> ustr" where
  "scan_exp s = (case s of [] \<Rightarrow> ([], s)
     | e # r \<Rightarrow>
         if e = 101 \<or> e = 69 then
           (let sign = (case r of c # _ \<Rightarrow> if c = 43 \<or> c = 45 then [c] else [] | [] \<Rightarrow> []) in
            case split_digits (drop (length sign) r) of (ds, r') \<Rightarrow>
              if ds = [] then ([], s) else (e # sign @ ds, r'))
         else ([], s))"

definition scan_whole :: "ustr \<Rightarrow> (ustr \<times> ustr) option" where
  "scan_whole s = (case s of [] \<Rightarrow> None
     | c # r \<Rightarrow> if c = 48 then Some ([48], r) else if is_dig c then Some (split_digits s) else None)"

definition scan_number :: "ustr \<Rightarrow> (bool \<times> ustr \<times> ustr) option" where
  \<comment> \<open>whether the number is a float, its text, and what follows\<close>
  "scan_number s =
     (let (sign, s1) = (case s of c # r \<Rightarrow> if c = 45 then ([45], r) else ([], s) | [] \<Rightarrow> ([], s)) in
      case scan_whole s1 of None \<Rightarrow> None
      | Some (whole, s2) \<Rightarrow>
          (case scan_frac s2 of (point, s3) \<Rightarrow>
           case scan_exp s3 of (ex, s4) \<Rightarrow>
             Some (point \<noteq> [] \<or> ex \<noteq> [], sign @ whole @ point @ ex, s4)))"

definition starts :: "ustr \<Rightarrow> string \<Rightarrow> bool" where
  "starts s t = (take (length t) s = u t)"

definition opt_err :: "'a option \<Rightarrow> loads_error + 'a" where
  "opt_err x = (case x of None \<Rightarrow> Inl ValueError | Some v \<Rightarrow> Inr v)"

definition ascii_text :: "ustr \<Rightarrow> string" where
  "ascii_text s = map char_of s"

definition scan_literal :: "hooks \<Rightarrow> ustr \<Rightarrow> loads_error + (ustr json \<times> ustr)" where
  \<comment> \<open>the constants and numbers\<close>
  "scan_literal h s =
     (if starts s ''null'' then Inr (JNull, drop 4 s)
      else if starts s ''true'' then Inr (JBool True, drop 4 s)
      else if starts s ''false'' then Inr (JBool False, drop 5 s)
      else if starts s ''NaN'' then opt_err (map_option (\<lambda>v. (v, drop 3 s)) (constant_hook h NaN))
      else if starts s ''Infinity'' then opt_err (map_option (\<lambda>v. (v, drop 8 s)) (constant_hook h PosInf))
      else if starts s ''-Infinity'' then opt_err (map_option (\<lambda>v. (v, drop 9 s)) (constant_hook h NegInf))
      else (case scan_number s of None \<Rightarrow> Inl ValueError
            | Some (is_float, digits, r) \<Rightarrow>
                if is_float
                then opt_err (map_option (\<lambda>x. (JFloat x, r)) (parse_float (ascii_text digits)))
                else opt_err (map_option (\<lambda>n. (JInt n, r)) (int_hook h (ascii_text digits)))))"

text \<open>
  The items of an array and the pairs of an object, behind the opening bracket. The counter is the
  length of what is left: every turn consumes a comma, so it never runs out
  (\<open>scan_items_enough\<close> and \<open>scan_pairs_enough\<close> below).
\<close>

fun scan_items ::
  "(ustr \<Rightarrow> loads_error + (ustr json \<times> ustr)) \<Rightarrow> nat \<Rightarrow> ustr \<Rightarrow> loads_error + (ustr json list \<times> ustr)" where
  "scan_items p 0 s = Inl ValueError"
| "scan_items p (Suc n) s =
     bind_res (p s) (\<lambda>(v, r).
     case skip_ws r of [] \<Rightarrow> Inl ValueError
     | c # r' \<Rightarrow>
         if c = 93 then Inr ([v], r')
         else if c = 44 then bind_res (scan_items p n (skip_ws r')) (\<lambda>(vs, r''). Inr (v # vs, r''))
         else Inl ValueError)"

fun scan_pairs ::
  "(ustr \<Rightarrow> loads_error + (ustr json \<times> ustr)) \<Rightarrow> nat \<Rightarrow> ustr \<Rightarrow> loads_error + (uobj \<times> ustr)" where
  "scan_pairs p 0 s = Inl ValueError"
| "scan_pairs p (Suc n) s =
     (case s of [] \<Rightarrow> Inl ValueError
      | q # s1 \<Rightarrow>
        if q \<noteq> 34 then Inl ValueError else
        case scan_str s1 of None \<Rightarrow> Inl ValueError
        | Some (k, s2) \<Rightarrow>
        case skip_ws s2 of [] \<Rightarrow> Inl ValueError
        | d # s3 \<Rightarrow>
        if d \<noteq> 58 then Inl ValueError else
        bind_res (p (skip_ws s3)) (\<lambda>(v, r).
        case skip_ws r of [] \<Rightarrow> Inl ValueError
        | c # r' \<Rightarrow>
            if c = 125 then Inr ([(k, v)], r')
            else if c = 44 then bind_res (scan_pairs p n (skip_ws r')) (\<lambda>(kvs, r''). Inr ((k, v) # kvs, r''))
            else Inl ValueError))"

definition scan_array where
  "scan_array p r = (case skip_ws r of
       c # r' \<Rightarrow> if c = 93 then Inr (JList [], r')
         else bind_res (scan_items p (Suc (length r)) (c # r')) (\<lambda>(vs, r''). Inr (JList vs, r''))
     | [] \<Rightarrow> Inl ValueError)"

definition scan_object where
  "scan_object h p r = (case skip_ws r of
       c # r' \<Rightarrow> if c = 125 then opt_err (map_option (\<lambda>v. (v, r')) (pairs_hook h []))
         else bind_res (scan_pairs p (Suc (length r)) (c # r')) (\<lambda>(kvs, r'').
                opt_err (map_option (\<lambda>v. (v, r'')) (pairs_hook h kvs)))
     | [] \<Rightarrow> Inl ValueError)"

fun scan_once :: "hooks \<Rightarrow> nat \<Rightarrow> ustr \<Rightarrow> loads_error + (ustr json \<times> ustr)" where
  "scan_once h depth s =
     (case s of [] \<Rightarrow> Inl ValueError
      | c # r \<Rightarrow>
          if c = 34 then opt_err (map_option (\<lambda>(t, r'). (JStr t, r')) (scan_str r))
          else if c = 123 then (case depth of 0 \<Rightarrow> Inl RecursionError | Suc d \<Rightarrow> scan_object h (scan_once h d) r)
          else if c = 91 then (case depth of 0 \<Rightarrow> Inl RecursionError | Suc d \<Rightarrow> scan_array (scan_once h d) r)
          else scan_literal h s)"

declare scan_once.simps [simp del]

definition loads :: "hooks \<Rightarrow> nat \<Rightarrow> ustr \<Rightarrow> loads_error + ustr json" where
  \<comment> \<open>a leading byte order mark is refused, as is anything behind the value\<close>
  "loads h depth s =
     (if take 1 s = [0xFEFF] then Inl ValueError
      else bind_res (scan_once h depth (skip_ws s)) (\<lambda>(v, r).
             if skip_ws r = [] then Inr v else Inl ValueError))"

section \<open>The counters of the scanner never run out\<close>

lemma case_eq_Inr:
  "(case xs of [] \<Rightarrow> Inl e | y # ys \<Rightarrow> f y ys) = Inr v \<longleftrightarrow> (\<exists>y ys. xs = y # ys \<and> f y ys = Inr v)"
  "(case x of None \<Rightarrow> Inl e | Some a \<Rightarrow> g a) = Inr v \<longleftrightarrow> (\<exists>a. x = Some a \<and> g a = Inr v)"
  "(if c then Inl e else w) = Inr v \<longleftrightarrow> \<not> c \<and> w = Inr v"
  "(if c then w else Inl e) = Inr v \<longleftrightarrow> c \<and> w = Inr v"
  by (auto split: list.splits option.splits)

lemma case_eq_Some:
  "(case xs of [] \<Rightarrow> None | y # ys \<Rightarrow> f y ys) = Some v \<longleftrightarrow> (\<exists>y ys. xs = y # ys \<and> f y ys = Some v)"
  "(case x of None \<Rightarrow> None | Some a \<Rightarrow> g a) = Some v \<longleftrightarrow> (\<exists>a. x = Some a \<and> g a = Some v)"
  by (auto split: list.splits option.splits)

lemma opt_err_Inr [simp]: "opt_err x = Inr v \<longleftrightarrow> x = Some v"
  by (simp add: opt_err_def split: option.splits)

lemma length_skip_ws: "length (skip_ws s) \<le> length s"
  by (simp add: skip_ws_def length_dropWhile_le)

lemma skip_ws_Cons_length: "skip_ws s = c # r \<Longrightarrow> length r < length s"
  using length_skip_ws [of s] by simp

lemma scan_str_length: "scan_str s = Some (t, r) \<Longrightarrow> length r < length s"
proof (induction s arbitrary: t rule: scan_str.induct)
  case (2 c r')
  show ?case
  proof (cases "read_escape r'")
    case None
    with 2 show ?thesis by (auto split: if_splits)
  next
    case (Some vr)
    then obtain v r'' where e: "read_escape r' = Some (v, r'')" by (cases vr) simp
    from read_escape_length [OF e] 2(2)[OF _ _ _ e] 2(1,3) e show ?thesis
      by (fastforce split: if_splits)
  qed
qed simp

lemma scan_items_length:
  assumes "\<And>s v r. p s = Inr (v, r) \<Longrightarrow> length r \<le> length s"
  shows "scan_items p n s = Inr (vs, r) \<Longrightarrow> length r < length s"
proof (induction n arbitrary: s vs)
  case (Suc n)
  from Suc.prems obtain v r1 c r2 where a: "p s = Inr (v, r1)" "skip_ws r1 = c # r2"
    and b: "c = 93 \<and> r = r2 \<or> (\<exists>ws. scan_items p n (skip_ws r2) = Inr (ws, r))"
    by (auto simp: res_simps case_eq_Inr split: if_split_asm)
  from assms [OF a(1)] skip_ws_Cons_length [OF a(2)] length_skip_ws [of r2] b Suc.IH
  show ?case by fastforce
qed simp

lemma scan_pairs_length:
  assumes "\<And>s v r. p s = Inr (v, r) \<Longrightarrow> length r \<le> length s"
  shows "scan_pairs p n s = Inr (kvs, r) \<Longrightarrow> length r < length s"
proof (induction n arbitrary: s kvs)
  case (Suc n)
  from Suc.prems obtain k s1 s2 s3 v r1 c r2 where
    a: "s = 34 # s1" "scan_str s1 = Some (k, s2)" "skip_ws s2 = 58 # s3" "p (skip_ws s3) = Inr (v, r1)" "skip_ws r1 = c # r2"
    and b: "c = 125 \<and> r = r2 \<or> (\<exists>ws. scan_pairs p n (skip_ws r2) = Inr (ws, r))"
    by (auto simp: res_simps case_eq_Inr split: if_split_asm)
  from scan_str_length [OF a(2)] skip_ws_Cons_length [OF a(3)] length_skip_ws [of s3] assms [OF a(4)]
    skip_ws_Cons_length [OF a(5)] length_skip_ws [of r2] b Suc.IH
  show ?case unfolding a(1) by fastforce
qed simp

lemma split_digits_append [simp]: "fst (split_digits s) @ snd (split_digits s) = s"
  by (simp add: split_digits_def)

lemma scan_frac_append: "scan_frac s = (t, r) \<Longrightarrow> t @ r = s"
  by (auto simp: scan_frac_def split_digits_def takeWhile_eq_Nil_iff split: list.splits if_splits)

lemma scan_exp_append: "scan_exp s = (t, r) \<Longrightarrow> t @ r = s"
  by (auto simp: scan_exp_def split_digits_def Let_def split: list.splits if_splits)

lemma scan_whole_append: "scan_whole s = Some (t, r) \<Longrightarrow> t @ r = s \<and> t \<noteq> [] \<and> is_dig (hd t)"
  by (auto simp: scan_whole_def split_digits_def is_dig_def split: list.splits if_splits)

lemma scan_number_append:
  assumes "scan_number s = Some (b, t, r)"
  shows "t @ r = s" and "t \<noteq> []" and "hd t = 45 \<or> is_dig (hd t)"
proof -
  obtain sg :: ustr and s1 where sg: "(case s of c # r \<Rightarrow> if c = 45 then ([45], r) else ([], s) | [] \<Rightarrow> ([], s)) = (sg, s1)" by fastforce
  then have e: "s = sg @ s1" "sg = [] \<or> sg = [45]" by (auto split: list.splits if_splits)
  from assms sg obtain w s2 p s3 x where w: "scan_whole s1 = Some (w, s2)" "scan_frac s2 = (p, s3)" "scan_exp s3 = (x, r)"
    and t: "t = sg @ w @ p @ x"
    by (auto simp: scan_number_def Let_def split: option.splits prod.splits)
  note a = scan_whole_append [OF w(1)] scan_frac_append [OF w(2)] scan_exp_append [OF w(3)]
  show "t @ r = s" "t \<noteq> []" using a by (auto simp: t e)
  show "hd t = 45 \<or> is_dig (hd t)" using a e(2) by (auto simp: t)
qed

lemma scan_literal_length: "scan_literal h s = Inr (v, r) \<Longrightarrow> length r < length s"
proof -
  assume a: "scan_literal h s = Inr (v, r)"
  have s: "s \<noteq> []" if "starts s t" "t \<noteq> []" for t using that by (auto simp: starts_def)
  have n: "length r < length s" if "scan_number s = Some (b, t, r)" for b t
    using scan_number_append [OF that] by auto
  from a s n show ?thesis
    by (auto simp: scan_literal_def case_eq_Inr split: if_split_asm)
qed

lemma scan_once_length: "scan_once h d s = Inr (v, r) \<Longrightarrow> length r < length s"
proof (induction d arbitrary: s v r)
  case 0
  then show ?case
    by (subst (asm) scan_once.simps)
      (auto simp: case_eq_Inr dest!: scan_str_length scan_literal_length split: if_split_asm)
next
  case (Suc d)
  have p: "length r \<le> length s" if "scan_once h d s = Inr (v, r)" for s v r
    using Suc.IH [OF that] by simp
  have arr: "length r < length x" if "scan_array (scan_once h d) x = Inr (v, r)" for x v r
  proof -
    from that obtain c r' where c: "skip_ws x = c # r'"
      and "r = r' \<or> (\<exists>vs. scan_items (scan_once h d) (Suc (length x)) (c # r') = Inr (vs, r))"
      by (auto simp: scan_array_def case_eq_Inr res_simps simp del: scan_items.simps split: if_split_asm)
    with skip_ws_Cons_length [OF c] scan_items_length [where p = "scan_once h d", OF p]
    show ?thesis by fastforce
  qed
  have ob: "length r < length x" if "scan_object h (scan_once h d) x = Inr (v, r)" for x v r
  proof -
    from that obtain c r' where c: "skip_ws x = c # r'"
      and "r = r' \<or> (\<exists>kvs. scan_pairs (scan_once h d) (Suc (length x)) (c # r') = Inr (kvs, r))"
      by (auto simp: scan_object_def case_eq_Inr res_simps simp del: scan_pairs.simps split: if_split_asm)
    with skip_ws_Cons_length [OF c] scan_pairs_length [where p = "scan_once h d", OF p]
    show ?thesis by fastforce
  qed
  from Suc.prems show ?case
    by (subst (asm) scan_once.simps)
      (auto simp: case_eq_Inr dest!: scan_str_length scan_literal_length ob arr split: if_split_asm)
qed

lemma scan_items_enough:
  assumes "\<And>s v r. p s = Inr (v, r) \<Longrightarrow> length r \<le> length s"
  shows "length s < n \<Longrightarrow> length s < m \<Longrightarrow> scan_items p n s = scan_items p m s"
proof (induction n arbitrary: s m)
  case (Suc n)
  then obtain m' where m: "m = Suc m'" by (cases m) auto
  show ?case
  proof (cases "p s")
    case (Inr vr)
    then obtain v r where v: "p s = Inr (v, r)" by (cases vr) simp
    have "scan_items p n (skip_ws r') = scan_items p m' (skip_ws r')" if "skip_ws r = c # r'" for c r'
      using Suc.prems assms [OF v] skip_ws_Cons_length [OF that] length_skip_ws [of r'] m
      by (intro Suc.IH) auto
    then show ?thesis by (simp add: v m split: list.splits)
  qed (simp add: m)
qed simp

lemma scan_pairs_enough:
  assumes "\<And>s v r. p s = Inr (v, r) \<Longrightarrow> length r \<le> length s"
  shows "length s < n \<Longrightarrow> length s < m \<Longrightarrow> scan_pairs p n s = scan_pairs p m s"
proof (induction n arbitrary: s m)
  case (Suc n)
  then obtain m' where m: "m = Suc m'" by (cases m) auto
  have "scan_pairs p n (skip_ws r') = scan_pairs p m' (skip_ws r')"
    if "s = q # s1" "scan_str s1 = Some (k, s2)" "skip_ws s2 = x # s3" "p (skip_ws s3) = Inr (v, r)" "skip_ws r = c # r'"
    for q s1 k s2 x s3 v r c r'
    using Suc.prems scan_str_length [OF that(2)] skip_ws_Cons_length [OF that(3)] length_skip_ws [of s3]
      assms [OF that(4)] skip_ws_Cons_length [OF that(5)] length_skip_ws [of r'] m that(1)
    by (intro Suc.IH) auto
  then show ?case
    by (auto simp: m bind_res_def split: list.splits option.splits sum.splits)
qed simp

section \<open>What was written is read back\<close>

lemma hex_val_code: "0 \<le> d \<Longrightarrow> d < 16 \<Longrightarrow> hex_val (hex_code d) = Some d"
  by (auto simp: hex_val_def hex_code_def)

lemma div_16_steps:
  fixes v :: int
  assumes "0 \<le> v" "v < 65536"
  shows "v = v div 4096 mod 16 * 4096 + v div 256 mod 16 * 256 + v div 16 mod 16 * 16 + v mod 16"
proof -
  have e: "v div 256 = v div 16 div 16" "v div 4096 = v div 256 div 16"
    by (simp_all flip: zdiv_zmult2_eq)
  have "v = 16 * (v div 16) + v mod 16" by simp
  moreover have "v div 16 = 16 * (v div 256) + v div 16 mod 16" unfolding e(1) by simp
  moreover have "v div 256 = 16 * (v div 4096) + v div 256 mod 16" unfolding e(2) by simp
  moreover have "v div 4096 mod 16 = v div 4096" using assms by (intro mod_pos_pos_trivial) auto
  ultimately show ?thesis by linarith
qed

lemma read_hex4_hex4: "0 \<le> v \<Longrightarrow> v < 65536 \<Longrightarrow> read_hex4 (hex4 v @ r) = Some (v, r)"
  using div_16_steps [of v] by (simp only: hex4_def append_Cons append_Nil read_hex4.simps hex_val_code
      pos_mod_sign pos_mod_bound zero_less_numeral option.case prod.case)

lemma read_escape_u:
  assumes "0 \<le> v" "v < 65536" "\<not> is_surrogate v"
  shows "read_escape (117 # hex4 v @ r) = Some (v, r)"
  using assms(3) by (auto simp: read_escape_def read_hex4_hex4 [OF assms(1,2)] is_surrogate_def)

lemma read_escape_pair:
  assumes "0 \<le> a" "a < 1024" "0 \<le> b" "b < 1024"
  shows "read_escape (117 # hex4 (0xD800 + a) @ u_escape (0xDC00 + b) @ r) = Some (0x10000 + a * 1024 + b, r)"
  using assms by (simp add: read_escape_def read_hex4_hex4 u_escape_def)

lemma scan_str_escape:
  assumes "scalar c"
  shows "scan_str (escape_code a c @ r) = map_option (apfst (Cons c)) (scan_str r)"
proof (cases "short_escape c")
  case (Some e)
  then show ?thesis
    by (auto simp: escape_code_def short_escape_def read_escape_def unescape_def split: if_splits)
next
  case None
  then have c: "c \<noteq> 34" "c \<noteq> 92" by (auto simp: short_escape_def)
  have s: "0 \<le> c" "c < 0x110000" "\<not> is_surrogate c" using assms by (auto simp: scalar_def)
  consider "c < 32 \<or> a \<and> 126 < c \<and> c < 0x10000" | "32 \<le> c" "\<not> a \<or> c \<le> 126" | "a" "0x10000 \<le> c" by linarith
  then show ?thesis
  proof cases
    case 1
    then show ?thesis using None s by (auto simp: escape_code_def u_escape_def read_escape_u)
  next
    case 2
    then show ?thesis using None c by (auto simp: escape_code_def)
  next
    case 3
    have "0x10000 + (c - 0x10000) div 1024 * 1024 + (c - 0x10000) mod 1024 = c" by simp
    moreover have "0 \<le> (c - 0x10000) div 1024" "(c - 0x10000) div 1024 < 1024" using s 3 by auto
    ultimately show ?thesis
      using None 3 read_escape_pair [of "(c - 0x10000) div 1024" "(c - 0x10000) mod 1024" r]
      by (simp add: escape_code_def u_escape_def [of "0xD800 + (c - 0x10000) div 1024"])
  qed
qed

lemma scan_str_quote:
  "list_all scalar s \<Longrightarrow> scan_str (concat (map (escape_code a) s) @ 34 # r) = Some (s, r)"
  by (induction s) (simp_all add: scan_str_escape)

definition stops :: "ustr \<Rightarrow> bool" where
  \<comment> \<open>what can follow a value in a text without blanks\<close>
  "stops r = (r = [] \<or> hd r = 44 \<or> hd r = 93 \<or> hd r = 125)"

lemma stop_not: "stops (c # r) \<Longrightarrow> \<not> is_dig c \<and> c \<noteq> 46 \<and> c \<noteq> 101 \<and> c \<noteq> 69 \<and> c \<noteq> 43 \<and> c \<noteq> 45"
  by (auto simp: stops_def is_dig_def)

lemma split_digits_stop: "stops r \<Longrightarrow> split_digits (s @ r) = apsnd (\<lambda>x. x @ r) (split_digits s)"
proof -
  assume r: "stops r"
  have "takeWhile is_dig r = []" "dropWhile is_dig r = r"
    using stop_not [of "hd r" "tl r"] r by (cases r; auto)+
  then show ?thesis
    by (induction s) (auto simp: split_digits_def)
qed

lemma scan_frac_stop: "stops r \<Longrightarrow> scan_frac (s @ r) = apsnd (\<lambda>x. x @ r) (scan_frac s)"
proof -
  assume r: "stops r"
  consider "s = []" | c where "s = [c]" | c d t where "s = c # d # t" by (metis list.exhaust)
  then show ?thesis
  proof cases
    case 1
    then show ?thesis using r by (auto simp: scan_frac_def dest!: stop_not split: list.splits)
  next
    case (2 c)
    then show ?thesis using r by (auto simp: scan_frac_def dest!: stop_not split: list.splits)
  next
    case (3 c d t)
    then show ?thesis using split_digits_stop [OF r, of "d # t"]
      by (auto simp: scan_frac_def split: prod.splits)
  qed
qed

lemma scan_exp_stop: "stops r \<Longrightarrow> scan_exp (s @ r) = apsnd (\<lambda>x. x @ r) (scan_exp s)"
proof (cases s)
  case Nil
  assume "stops r"
  with Nil show ?thesis by (auto simp: scan_exp_def dest!: stop_not split: list.splits)
next
  case (Cons e t)
  assume r: "stops r"
  show ?thesis
  proof (cases t)
    case Nil
    then show ?thesis using r split_digits_stop [OF r, of "[]"]
      by (auto simp: Cons scan_exp_def Let_def split_digits_def dest!: stop_not split: list.splits)
  next
    case t: (Cons c t')
    then show ?thesis using split_digits_stop [OF r, of t] split_digits_stop [OF r, of t']
      by (auto simp: Cons scan_exp_def Let_def split: prod.splits if_splits)
  qed
qed

lemma scan_whole_stop: "scan_whole s = Some (t, s') \<Longrightarrow> stops r \<Longrightarrow> scan_whole (s @ r) = Some (t, s' @ r)"
  using split_digits_stop [of r s] by (auto simp: scan_whole_def split: list.splits if_splits)

lemma scan_number_stop:
  assumes "scan_number s = Some (b, t, [])" "stops r"
  shows "scan_number (s @ r) = Some (b, t, r)"
proof -
  have ne: "s \<noteq> []" using scan_number_append [OF assms(1)] by auto
  obtain sg :: ustr and s1 where sg: "(case s of c # r \<Rightarrow> if c = 45 then ([45], r) else ([], s) | [] \<Rightarrow> ([], s)) = (sg, s1)" by fastforce
  then have sg': "(case s @ r of c # x \<Rightarrow> if c = 45 then ([45], x) else ([], s @ r) | [] \<Rightarrow> ([], s @ r)) = (sg, s1 @ r)"
    using ne by (auto split: list.splits if_splits)
  from assms(1) sg obtain w s2 p s3 x where w: "scan_whole s1 = Some (w, s2)" "scan_frac s2 = (p, s3)" "scan_exp s3 = (x, [])"
    and t: "t = sg @ w @ p @ x" "b = (p \<noteq> [] \<or> x \<noteq> [])"
    by (auto simp: scan_number_def Let_def split: option.splits prod.splits)
  show ?thesis
    unfolding scan_number_def sg'
    by (simp add: scan_whole_stop [OF w(1) assms(2)] scan_frac_stop [OF assms(2)] scan_exp_stop [OF assms(2)] w t)
qed

lemma show_pos_head: "0 < n \<Longrightarrow> show_pos n \<noteq> [] \<and> code_of (hd (show_pos n)) \<noteq> 48"
proof (induction n rule: show_pos.induct)
  case (1 n)
  show ?case
  proof (cases "0 < n div 10")
    case True
    with 1 show ?thesis by (subst (1 2) show_pos_step) auto
  next
    case False
    with 1(2) have "n mod 10 = n" by auto
    moreover have "show_pos n = [char_of (48 + nat (n mod 10))]"
      using 1(2) False by (subst show_pos_step) (simp_all add: show_pos.simps)
    ultimately have "show_pos n = [char_of (48 + nat (n mod 10))]" "n mod 10 \<noteq> 0" using 1(2) by simp_all
    then show ?thesis using code_of_digit [of "n mod 10"] by simp
  qed
qed

lemma show_pos_digits: "list_all is_dig (u (show_pos n))"
  using show_pos_decimal [of n] by (auto simp: u_def list_all_iff is_decimal_def is_dig_def)

lemma split_all_digits: "list_all is_dig s \<Longrightarrow> split_digits s = (s, [])"
  by (simp add: split_digits_def list_all_iff)

lemma scan_whole_show_pos: "0 < n \<Longrightarrow> scan_whole (u (show_pos n)) = Some (u (show_pos n), [])"
  using show_pos_head [of n] show_pos_digits [of n] split_all_digits [OF show_pos_digits [of n]]
  by (cases "show_pos n") (auto simp: scan_whole_def u_def)

lemma scan_number_show_int: "scan_number (u (show_int n)) = Some (False, u (show_int n), [])"
proof -
  have e: "scan_frac [] = ([], [])" "scan_exp [] = ([], [])" by (simp_all add: scan_frac_def scan_exp_def)
  consider "n = 0" | "n < 0" | "0 < n" by linarith
  then show ?thesis
  proof cases
    case 1
    then show ?thesis by (simp add: show_int_def u_def code_of_def scan_number_def scan_whole_def e)
  next
    case 2
    then have "u (show_int n) = 45 # u (show_pos (- n))" by (simp add: show_int_def u_def code_of_def)
    with 2 scan_whole_show_pos [of "- n"] show ?thesis by (simp add: scan_number_def e)
  next
    case 3
    then have s: "u (show_int n) = u (show_pos n)" by (simp add: show_int_def)
    have "(case u (show_pos n) of c # r \<Rightarrow> if c = 45 then ([45], r) else ([], u (show_pos n)) | [] \<Rightarrow> ([], u (show_pos n))) =
        ([] :: ustr, u (show_pos n))"
      using show_pos_digits [of n] by (auto simp: is_dig_def split: list.splits)
    with 3 scan_whole_show_pos [of n] show ?thesis by (simp add: s scan_number_def e)
  qed
qed

definition number_text :: "bool \<Rightarrow> string \<Rightarrow> bool" where
  \<comment> \<open>the whole text is one JSON number, of the given kind\<close>
  "number_text is_float t = (scan_number (u t) = Some (is_float, u t, []))"

fun readable :: "hooks \<Rightarrow> (rat \<Rightarrow> string) \<Rightarrow> ustr json \<Rightarrow> bool" where
  \<comment> \<open>values whose text is read back: the integer hook and the text of the floats are faithful on
      them, strings have no surrogates, objects no repeated keys\<close>
  "readable h fr (JInt n) = (int_hook h (show_int n) = Some n)"
| "readable h fr (JFloat x) =
     (case x of Fin q \<Rightarrow> number_text True (fr q) \<and> parse_float (fr q) = Some (Fin q) | _ \<Rightarrow> False)"
| "readable h fr (JStr s) = list_all scalar s"
| "readable h fr (JList vs) = list_all (readable h fr) vs"
| "readable h fr (JObj kvs) =
     (distinct (map fst kvs) \<and> list_all (\<lambda>(k, v). list_all scalar k \<and> readable h fr v) kvs)"
| "readable h fr _ = True"

fun nested_within :: "nat \<Rightarrow> 's json \<Rightarrow> bool" where
  "nested_within d (JList vs) = (case d of 0 \<Rightarrow> False | Suc d' \<Rightarrow> list_all (nested_within d') vs)"
| "nested_within d (JObj kvs) = (case d of 0 \<Rightarrow> False | Suc d' \<Rightarrow> list_all (\<lambda>(k, v). nested_within d' v) kvs)"
| "nested_within d _ = True"

fun canon :: "ustr json \<Rightarrow> ustr json" where
  \<comment> \<open>the value with the keys of its objects in order\<close>
  "canon (JList vs) = JList (map canon vs)"
| "canon (JObj kvs) = JObj (sort_key fst (map (\<lambda>(k, v). (k, canon v)) kvs))"
| "canon v = v"

lemma ascii_text_u [simp]: "ascii_text (u t) = t"
  by (simp add: ascii_text_def u_def comp_def)

lemma starts_False:
  "s = c # r \<Longrightarrow> c = 45 \<or> is_dig c \<Longrightarrow> \<not> starts s ''null'' \<and> \<not> starts s ''true'' \<and> \<not> starts s ''false'' \<and>
    \<not> starts s ''NaN'' \<and> \<not> starts s ''Infinity''"
  by (auto simp: starts_def u_def code_of_def is_dig_def)

lemma scan_number_minus:
  "scan_number (45 # s) = Some (b, t, r) \<Longrightarrow> \<not> starts (45 # s) ''-Infinity''"
  by (auto simp: scan_number_def scan_whole_def Let_def starts_def u_def code_of_def is_dig_def
      split: list.splits if_splits)

lemma scan_literal_number:
  assumes "number_text b t" "stops r"
  shows "scan_literal h (u t @ r) =
    (if b then opt_err (map_option (\<lambda>x. (JFloat x, r)) (parse_float t))
     else opt_err (map_option (\<lambda>n. (JInt n, r)) (int_hook h t)))"
proof -
  from assms have n: "scan_number (u t @ r) = Some (b, u t, r)"
    unfolding number_text_def by (rule scan_number_stop)
  note a = scan_number_append [OF n]
  then obtain c s where c: "u t @ r = c # s" "c = 45 \<or> is_dig c" by (cases "u t") auto
  have "\<not> starts (c # s) ''-Infinity''"
  proof (cases "c = 45")
    case True
    with n c show ?thesis using scan_number_minus by auto
  next
    case False
    then show ?thesis by (auto simp: starts_def u_def code_of_def)
  qed
  with starts_False [OF refl c(2), of s] show ?thesis
    by (simp add: scan_literal_def n c(1) [symmetric])
qed

lemma number_text_head: "number_text b t \<Longrightarrow> \<exists>c s. u t = c # s \<and> (c = 45 \<or> is_dig c)"
  using scan_number_append [of "u t" b "u t" "[]"] unfolding number_text_def by (cases "u t") auto

lemma udumps_head:
  "readable h fr v \<Longrightarrow> \<exists>c s. udumps a fr v = c # s \<and> \<not> is_ws c \<and> c \<noteq> 93 \<and> c \<noteq> 0xFEFF"
proof (cases v)
  case (JInt n)
  then show ?thesis using number_text_head [of False "show_int n"] scan_number_show_int [of n]
    by (auto simp: number_text_def is_ws_def is_dig_def)
next
  case (JFloat x)
  assume "readable h fr v"
  with JFloat show ?thesis using number_text_head [of True]
    by (fastforce simp: is_ws_def is_dig_def split: pyfloat.splits)
qed (auto simp: u_def code_of_def is_ws_def uquote_def)

lemma skip_ws_Cons [simp]: "\<not> is_ws c \<Longrightarrow> skip_ws (c # r) = c # r"
  by (simp add: skip_ws_def)

lemma not_ws [simp]: "\<not> is_ws 93" "\<not> is_ws 44" "\<not> is_ws 125" "\<not> is_ws 58" "\<not> is_ws 34"
  by (simp_all add: is_ws_def)

lemma stop_simps [simp]: "stops []" "stops (93 # r)" "stops (44 # r)" "stops (125 # r)"
  by (simp_all add: stops_def)

lemma length_ucommas: "length ss \<le> Suc (length (ucommas ss))"
  by (induction ss rule: ucommas.induct) auto

lemma scan_items_text:
  assumes "\<And>v r. v \<in> set vs \<Longrightarrow> stops r \<Longrightarrow> p (f v @ r) = Inr (g v, r)"
    and "\<And>v. v \<in> set vs \<Longrightarrow> \<exists>c s. f v = c # s \<and> \<not> is_ws c"
  shows "vs \<noteq> [] \<Longrightarrow> length vs \<le> n \<Longrightarrow>
    scan_items p n (ucommas (map f vs) @ 93 # r) = Inr (map g vs, r)"
  using assms
proof (induction vs arbitrary: n rule: induct_list012)
  case (2 v)
  then show ?case by (cases n) auto
next
  case (3 v w vs)
  then obtain n' where n: "n = Suc n'" by (cases n) auto
  obtain c s where c: "f w = c # s" "\<not> is_ws c" using "3.prems"(4) [of w] by auto
  have "\<exists>t. ucommas (map f (w # vs)) = c # t" by (cases vs) (auto simp: c)
  then have ws: "skip_ws (ucommas (map f (w # vs)) @ 93 # r) = ucommas (map f (w # vs)) @ 93 # r"
    using c(2) by auto
  have "scan_items p n' (ucommas (map f (w # vs)) @ 93 # r) = Inr (map g (w # vs), r)"
    using "3.prems" n by (intro "3.IH"(2)) auto
  with ws "3.prems"(3) [of v] show ?case by (simp add: n)
qed simp

lemma scan_pairs_text:
  assumes "\<And>k v r. (k, v) \<in> set kvs \<Longrightarrow> stops r \<Longrightarrow> p (f v @ r) = Inr (g v, r)"
    and "\<And>k v. (k, v) \<in> set kvs \<Longrightarrow> list_all scalar k \<and> (\<exists>c s. f v = c # s \<and> \<not> is_ws c)"
  shows "kvs \<noteq> [] \<Longrightarrow> length kvs \<le> n \<Longrightarrow>
    scan_pairs p n (ucommas (map (\<lambda>(k, v). upair a (k, f v)) kvs) @ 125 # r) = Inr (map (\<lambda>(k, v). (k, g v)) kvs, r)"
  using assms
proof (induction kvs arbitrary: n rule: induct_list012)
  case (2 kv)
  obtain k v where kv: "kv = (k, v)" by (cases kv)
  obtain c s where c: "f v = c # s" "\<not> is_ws c" using 2(4) [of k v] kv by auto
  have "p (c # s @ 125 # r) = Inr (g v, 125 # r)" using 2(3) [of k v "125 # r"] kv c by simp
  then show ?case using 2(2,4) c kv
    by (cases n) (auto simp: upair_def uquote_def scan_str_quote)
next
  case (3 kv kw kvs)
  then obtain n' where n: "n = Suc n'" by (cases n) auto
  obtain k v where kv: "kv = (k, v)" by (cases kv)
  let ?t = "ucommas (map (\<lambda>(k, v). upair a (k, f v)) (kw # kvs)) @ 125 # r"
  obtain c s where c: "f v = c # s" "\<not> is_ws c" using "3.prems"(4) [of k v] kv by auto
  have p: "p (c # s @ 44 # ?t) = Inr (g v, 44 # ?t)" using "3.prems"(3) [of k v "44 # ?t"] kv c by simp
  have "\<exists>t. ucommas (map (\<lambda>(k, v). upair a (k, f v)) (kw # kvs)) = 34 # t"
    by (cases kvs; cases kw) (auto simp: upair_def uquote_def)
  then have ws: "skip_ws ?t = ?t" by auto
  have "scan_pairs p n' ?t = Inr (map (\<lambda>(k, v). (k, g v)) (kw # kvs), r)"
  proof (rule "3.IH"(2))
    show "length (kw # kvs) \<le> n'" using "3.prems"(2) n by simp
    show "p (f v @ r) = Inr (g v, r)" if "(k, v) \<in> set (kw # kvs)" "stops r" for k v r
      using that by (intro "3.prems"(3)) auto
    show "list_all scalar k \<and> (\<exists>c s. f v = c # s \<and> \<not> is_ws c)" if "(k, v) \<in> set (kw # kvs)" for k v
      by (rule "3.prems"(4)) (use that in auto)
  qed simp
  with ws p "3.prems"(4) [of k v] c show ?case
    by (simp add: n kv upair_def [of a, THEN fun_cong, of "(k, c # s)"] uquote_def scan_str_quote)
qed simp

lemma sort_key_map_snd:
  "sort_key fst (map (\<lambda>(k, v). (k, g v)) kvs) = map (\<lambda>(k, v). (k, g v)) (sort_key fst kvs)"
proof (induction kvs)
  case (Cons kv kvs)
  have "insort_key fst (k, g v) (map (\<lambda>(k, v). (k, g v)) xs) = map (\<lambda>(k, v). (k, g v)) (insort_key fst (k, v) xs)"
    for k v xs
    by (induction xs) auto
  with Cons show ?case by (cases kv) simp
qed simp

lemma scan_object_text:
  "scan_pairs p (Suc (length t)) t = Inr (kvs, r) \<Longrightarrow> pairs_hook h kvs = Some v \<Longrightarrow> \<exists>s. t = 34 # s \<Longrightarrow>
    scan_object h p t = Inr (v, r)"
  by (auto simp: scan_object_def opt_err_def simp del: scan_pairs.simps)

lemma scan_array_text:
  "scan_items p (Suc (length t)) t = Inr (vs, r) \<Longrightarrow> t = c # s \<Longrightarrow> \<not> is_ws c \<Longrightarrow> c \<noteq> 93 \<Longrightarrow>
    scan_array p t = Inr (JList vs, r)"
  by (auto simp: scan_array_def simp del: scan_items.simps)

lemma scan_once_object: "scan_once h (Suc d) (123 # t) = scan_object h (scan_once h d) t"
  by (simp add: scan_once.simps)

lemma scan_once_literal:
  "s = c # t \<Longrightarrow> c \<noteq> 34 \<Longrightarrow> c \<noteq> 123 \<Longrightarrow> c \<noteq> 91 \<Longrightarrow> scan_once h d s = scan_literal h s"
  by (simp add: scan_once.simps)

lemma scan_once_number:
  assumes "number_text b t" "stops r"
  shows "scan_once h d (u t @ r) = scan_literal h (u t @ r)"
proof -
  obtain c s where "u t = c # s" "c = 45 \<or> is_dig c" using number_text_head [OF assms(1)] by auto
  then show ?thesis by (intro scan_once_literal [of _ c "s @ r"]) (auto simp: is_dig_def)
qed

lemma scan_udumps:
  assumes h: "\<And>kvs. distinct (map fst kvs) \<Longrightarrow> pairs_hook h kvs = Some (JObj kvs)"
  shows "readable h fr v \<Longrightarrow> nested_within d v \<Longrightarrow> stops r \<Longrightarrow> scan_once h d (udumps a fr v @ r) = Inr (canon v, r)"
proof (induction v arbitrary: d r rule: canon.induct [case_names List Object Null Bool Int Float Str])
  case (List vs)
  then obtain d' where d: "d = Suc d'" by (cases d) auto
  have p: "scan_once h d' (udumps a fr v @ r) = Inr (canon v, r)" if "v \<in> set vs" "stops r" for v r
    using that List by (intro List.IH) (auto simp: list_all_iff d)
  have hd: "\<exists>c s. udumps a fr v = c # s \<and> \<not> is_ws c \<and> c \<noteq> 93" if "v \<in> set vs" for v
    using udumps_head [of h fr v a] List that by (auto simp: list_all_iff)
  show ?case
  proof (cases vs)
    case Nil
    then show ?thesis by (simp add: d scan_once.simps scan_array_def)
  next
    case (Cons w ws)
    let ?t = "ucommas (map (udumps a fr) vs) @ 93 # r"
    obtain c s where c: "?t = c # s" "\<not> is_ws c" "c \<noteq> 93" using hd [of w] Cons by (cases ws) auto
    have "scan_items (scan_once h d') (Suc (length ?t)) ?t = Inr (map canon vs, r)"
      using length_ucommas [of "map (udumps a fr) vs"] Cons p hd by (intro scan_items_text) fastforce+
    from scan_array_text [OF this c] show ?thesis by (simp add: d scan_once.simps)
  qed
next
  case (Object kvs)
  then obtain d' where d: "d = Suc d'" by (cases d) auto
  let ?ks = "sort_key fst kvs"
  have p: "scan_once h d' (udumps a fr v @ r) = Inr (canon v, r)" if "(k, v) \<in> set ?ks" "stops r" for k v r
    using that Object by (intro Object.IH) (fastforce simp: list_all_iff d)+
  have hd: "list_all scalar k \<and> (\<exists>c s. udumps a fr v = c # s \<and> \<not> is_ws c)" if "(k, v) \<in> set ?ks" for k v
    using udumps_head [of h fr v a] Object that by (fastforce simp: list_all_iff)
  let ?canon = "map (\<lambda>(k, v). (k, canon v)) ?ks"
  have f: "map fst ?canon = map fst ?ks" by (simp add: comp_def case_prod_beta)
  have "distinct (map fst ?canon)" unfolding f using Object.prems(1) by (simp add: distinct_map)
  from h [OF this] have hook: "pairs_hook h ?canon = Some (JObj ?canon)" .
  show ?case
  proof (cases "kvs = []")
    case True
    then show ?thesis using h [of "[]"] by (simp add: d scan_once.simps scan_object_def opt_err_def)
  next
    case False
    let ?f = "\<lambda>(k, v). upair a (k, udumps a fr v)"
    let ?t = "ucommas (map ?f ?ks) @ 125 # r"
    have "?ks \<noteq> []" using False by (metis length_0_conv length_sort)
    then obtain kw ws where kw: "?ks = kw # ws" by (cases ?ks) auto
    have c: "\<exists>s. ?t = 34 # s" unfolding kw by (cases ws; cases kw) (auto simp: upair_def uquote_def)
    have "length ?ks \<le> Suc (length ?t)" using length_ucommas [of "map ?f ?ks"] by simp
    from scan_pairs_text [OF p hd \<open>?ks \<noteq> []\<close> this]
    have "scan_pairs (scan_once h d') (Suc (length ?t)) ?t = Inr (?canon, r)" .
    moreover have "udumps a fr (JObj kvs) @ r = 123 # ?t"
      by (simp only: udumps.simps sort_key_map_snd map_map) (simp add: comp_def case_prod_beta')
    ultimately show ?thesis
      using scan_object_text [OF _ hook c, of "scan_once h d'" r] by (simp only: scan_once_object d canon.simps sort_key_map_snd)
  qed
next
  case Null
  show ?case by (simp add: scan_once.simps scan_literal_def starts_def u_def code_of_def)
next
  case (Bool b)
  show ?case by (simp add: scan_once.simps scan_literal_def starts_def u_def code_of_def)
next
  case (Int n)
  have "number_text False (show_int n)" by (simp add: number_text_def scan_number_show_int)
  with Int show ?case by (simp add: scan_once_number [of False] scan_literal_number [of False] opt_err_def)
next
  case (Float x)
  then show ?case
    by (cases x) (simp_all add: scan_once_number [of True] scan_literal_number [of True] opt_err_def)
next
  case (Str s)
  then show ?case by (simp add: scan_once.simps uquote_def scan_str_quote opt_err_def)
qed

lemma loads_udumps:
  assumes "\<And>kvs. distinct (map fst kvs) \<Longrightarrow> pairs_hook h kvs = Some (JObj kvs)"
    and "readable h fr v" and "nested_within d v"
  shows "loads h d (udumps a fr v) = Inr (canon v)"
proof -
  obtain c s where c: "udumps a fr v = c # s" "\<not> is_ws c" "c \<noteq> 0xFEFF" using udumps_head [OF assms(2)] by blast
  with scan_udumps [OF assms, of "[]" a] show ?thesis by (simp add: loads_def skip_ws_def)
qed

end
