(* ===== verification/Wire_Protocol.thy ===== *)
theory Wire_Protocol
  imports Unicode_Text
begin

text \<open>
  The wire protocol of the PyVISA evaluator, version 2
  (\<^verbatim>\<open>sources/pyvisa/pyvisa_dut_validation_v2/protocol.py\<close>): the values that may cross the wire, requests,
  responses, length-prefixed frames and the client that exchanges them. A socket is the list of
  chunks it will deliver, an empty list being the end of the stream. The lemmas show that reading
  does not depend on how the bytes are cut into chunks, that requests and responses survive the
  trip through JSON text, UTF-8 and the frame, and what the bounds on nesting and items refuse.
\<close>

definition WIRE_VERSION :: int where "WIRE_VERSION = 1"
definition WIRE_FRAME_BYTES :: int where "WIRE_FRAME_BYTES = 1048576"
definition MAX_WIRE_DEPTH :: int where "MAX_WIRE_DEPTH = 16"
definition MAX_WIRE_ITEMS :: int where "MAX_WIRE_ITEMS = 4096"
definition MAX_JSON_INTEGER_DIGITS :: nat where "MAX_JSON_INTEGER_DIGITS = 4096"

datatype WireValue =
    WNone
  | WBool bool
  | WInt int
  | WFloat pyfloat
  | WStr ustr
  | WBytes string
  | WTuple "WireValue list"

type_synonym wire_args = "(ustr \<times> WireValue) list"

datatype wire_error =
    WireProtocolError string
  | ConnectionClosed
  | RemoteVisaError ustr int ustr
  | OSError

definition jobj :: "(string \<times> ustr json) list \<Rightarrow> ustr json" where
  \<comment> \<open>a dictionary display with literal keys\<close>
  "jobj d = JObj (map (\<lambda>(k, v). (u k, v)) d)"

definition jstr :: "string \<Rightarrow> ustr json" where
  "jstr s = JStr (u s)"

definition field :: "uobj \<Rightarrow> string \<Rightarrow> ustr json" where
  \<comment> \<open>\<^verbatim>\<open>d.get(k)\<close>; \<^verbatim>\<open>d[k]\<close> where the key is known to be there\<close>
  "field d k = json_get d (u k)"

definition keys_are :: "uobj \<Rightarrow> string list \<Rightarrow> bool" where
  \<comment> \<open>\<^verbatim>\<open>set(d) == {k1, ..., kn}\<close>\<close>
  "keys_are d ks = has_keys d (map u ks)"

section \<open>Values\<close>

definition require_utf8 :: "ustr \<Rightarrow> wire_error + unit" where
  "require_utf8 s = require (utf8_encode s \<noteq> None) (WireProtocolError ''wire strings must be valid UTF-8'')"

lemma traverse_cong [fundef_cong]:
  "xs = ys \<Longrightarrow> (\<And>x. x \<in> set ys \<Longrightarrow> f x = g x) \<Longrightarrow> traverse f xs = traverse g ys"
  by (induction ys arbitrary: xs) auto

fun encode_wire_value :: "WireValue \<Rightarrow> wire_error + ustr json" where
  "encode_wire_value WNone = Inr JNull"
| "encode_wire_value (WBool b) = Inr (JBool b)"
| "encode_wire_value (WInt n) = Inr (JInt n)"
| "encode_wire_value (WStr s) = bind_res (require_utf8 s) (\<lambda>_. Inr (JStr s))"
| "encode_wire_value (WFloat x) =
     (if isfinite x then Inr (JFloat x) else Inl (WireProtocolError ''wire floats must be finite''))"
| "encode_wire_value (WBytes b) = Inr (jobj [(''type'', jstr ''bytes''), (''base64'', jstr (b64_encode b))])"
| "encode_wire_value (WTuple vs) =
     bind_res (traverse encode_wire_value vs) (\<lambda>js. Inr (jobj [(''type'', jstr ''list''), (''items'', JList js)]))"

definition b64_text :: "ustr \<Rightarrow> string option" where
  \<comment> \<open>\<^verbatim>\<open>b64decode\<close> of a text: a character outside ASCII is a \<^verbatim>\<open>ValueError\<close>\<close>
  "b64_text s = (if list_all (\<lambda>c. 0 \<le> c \<and> c < 128) s then b64_decode (ascii_text s) else None)"

lemma size_json_get:
  "json_get d k = JList vs \<Longrightarrow> size_list size vs < size_list (size_prod (\<lambda>_. 0) size) (d :: ('s \<times> 's json) list)"
proof -
  assume "json_get d k = JList vs"
  then have "(k, JList vs) \<in> set d"
    by (auto simp: json_get_def split: option.splits dest: map_of_SomeD)
  from size_list_estimation [OF this, of "size_list size vs"] show ?thesis by simp
qed

function (sequential) decode_wire_value :: "int \<Rightarrow> int \<Rightarrow> ustr json \<Rightarrow> wire_error + WireValue \<times> int"
  and decode_wire_items :: "int \<Rightarrow> int \<Rightarrow> ustr json list \<Rightarrow> wire_error + WireValue list \<times> int" where
  \<comment> \<open>the depth, the budget of items left and the value; the budget is handed on\<close>
  "decode_wire_value depth budget v =
     (if MAX_WIRE_DEPTH < depth then Inl (WireProtocolError ''wire value nesting is too deep'')
      else if budget - 1 < 0 then Inl (WireProtocolError ''wire value contains too many items'')
      else case v of
        JNull \<Rightarrow> Inr (WNone, budget - 1)
      | JBool b \<Rightarrow> Inr (WBool b, budget - 1)
      | JInt n \<Rightarrow> Inr (WInt n, budget - 1)
      | JStr s \<Rightarrow> bind_res (require_utf8 s) (\<lambda>_. Inr (WStr s, budget - 1))
      | JFloat x \<Rightarrow>
          (if isfinite x then Inr (WFloat x, budget - 1)
           else Inl (WireProtocolError ''wire floats must be finite''))
      | JList vs \<Rightarrow> Inl (WireProtocolError ''unsupported wire value'')
      | JObj d \<Rightarrow>
          if field d ''type'' = jstr ''bytes'' then
            (if \<not> keys_are d [''type'', ''base64''] then Inl (WireProtocolError ''invalid bytes value'')
             else case field d ''base64'' of
               JStr s \<Rightarrow> (case b64_text s of
                   None \<Rightarrow> Inl (WireProtocolError ''invalid base64 value'')
                 | Some b \<Rightarrow> Inr (WBytes b, budget - 1))
             | _ \<Rightarrow> Inl (WireProtocolError ''invalid bytes value''))
          else if field d ''type'' = jstr ''list'' then
            (if \<not> keys_are d [''type'', ''items''] then Inl (WireProtocolError ''invalid list value'')
             else case field d ''items'' of
               JList vs \<Rightarrow> bind_res (decode_wire_items (depth + 1) (budget - 1) vs) (\<lambda>(ws, b). Inr (WTuple ws, b))
             | _ \<Rightarrow> Inl (WireProtocolError ''invalid list value''))
          else Inl (WireProtocolError ''unknown wire value tag''))"
| "decode_wire_items depth budget [] = Inr ([], budget)"
| "decode_wire_items depth budget (v # vs) =
     bind_res (decode_wire_value depth budget v) (\<lambda>(w, b).
     bind_res (decode_wire_items depth b vs) (\<lambda>(ws, b'). Inr (w # ws, b')))"
  by pat_completeness auto
termination
  by (relation "measure (case_sum (\<lambda>(_, _, v). size v) (\<lambda>(_, _, vs). size_list size vs))")
    (auto simp: field_def dest!: size_json_get)

declare decode_wire_value.simps [simp del]

section \<open>Frames\<close>

fun printable :: "ustr json \<Rightarrow> bool" where
  \<comment> \<open>what \<^verbatim>\<open>json.dumps(..., allow_nan=False)\<close> can write: finite floats, integers within the
      interpreter's limit for decimal text\<close>
  "printable (JInt n) = (length (show_pos \<bar>n\<bar>) \<le> MAX_STR_DIGITS)"
| "printable (JFloat x) = isfinite x"
| "printable (JList vs) = list_all printable vs"
| "printable (JObj kvs) = list_all (\<lambda>(k, v). printable v) kvs"
| "printable _ = True"

definition encode_message :: "runtime \<Rightarrow> uobj \<Rightarrow> wire_error + string" where
  "encode_message rt m =
     (case (if printable (JObj m) then utf8_encode (udumps False (float_repr rt) (JObj m)) else None) of
        None \<Rightarrow> Inl (WireProtocolError ''message is not canonical JSON'')
      | Some payload \<Rightarrow>
          if payload = [] \<or> WIRE_FRAME_BYTES < int (length payload)
          then Inl (WireProtocolError ''invalid frame length'')
          else Inr (big_endian 4 (int (length payload)) @ payload))"

type_synonym stream = "string list"

definition recv :: "nat \<Rightarrow> stream \<Rightarrow> string \<times> stream" where
  \<comment> \<open>\<^verbatim>\<open>stream.recv(n)\<close>: at most \<open>n\<close> bytes of the next chunk, nothing at the end\<close>
  "recv n s = (case s of [] \<Rightarrow> ([], [])
     | c # cs \<Rightarrow> if length c \<le> n then (c, cs) else (take n c, drop n c # cs))"

lemma recv_length: "recv n s = (c, s') \<Longrightarrow> length c \<le> n"
  by (auto simp: recv_def split: list.splits if_splits)

function recv_loop :: "bool \<Rightarrow> string \<Rightarrow> nat \<Rightarrow> stream \<Rightarrow> wire_error + string \<times> stream" where
  "recv_loop clean got remaining s =
     (if remaining = 0 then Inr (got, s)
      else case recv remaining s of (chunk, s') \<Rightarrow>
        if chunk = []
        then Inl (if clean \<and> got = [] then ConnectionClosed else WireProtocolError ''truncated frame'')
        else recv_loop clean (got @ chunk) (remaining - length chunk) s')"
  by pat_completeness auto
termination
  by (relation "measure (\<lambda>(_, _, n, _). n)") auto

declare recv_loop.simps [simp del]

definition recv_exact :: "bool \<Rightarrow> nat \<Rightarrow> stream \<Rightarrow> wire_error + string \<times> stream" where
  "recv_exact clean n s = recv_loop clean [] n s"

definition unique_object :: "uobj \<Rightarrow> ustr json option" where
  "unique_object pairs = (if distinct (map fst pairs) then Some (JObj pairs) else None)"

definition reject_json_constant :: "pyfloat \<Rightarrow> ustr json option" where
  "reject_json_constant x = None"

definition parse_json_int :: "string \<Rightarrow> int option" where
  "parse_json_int v =
     (let digits = (if starts_with ''-'' v then drop 1 v else v) in
      if MAX_JSON_INTEGER_DIGITS < length digits then None else parse_int v)"

definition wire_hooks :: hooks where
  "wire_hooks = \<lparr>pairs_hook = unique_object, constant_hook = reject_json_constant, int_hook = parse_json_int\<rparr>"

definition recv_message :: "nat \<Rightarrow> stream \<Rightarrow> wire_error + uobj \<times> stream" where
  \<comment> \<open>the first argument is the nesting the interpreter's stack allows\<close>
  "recv_message limit s =
     bind_res (recv_exact True 4 s) (\<lambda>(header, s1).
     let n = from_big_endian 0 header in
     if n = 0 \<or> WIRE_FRAME_BYTES < n then Inl (WireProtocolError ''invalid frame length'')
     else bind_res (recv_exact False (nat n) s1) (\<lambda>(payload, s2).
     case utf8_decode payload of
       None \<Rightarrow> Inl (WireProtocolError ''invalid JSON payload'')
     | Some t \<Rightarrow>
         (case loads wire_hooks limit t of
            Inl _ \<Rightarrow> Inl (WireProtocolError ''invalid JSON payload'')
          | Inr (JObj m) \<Rightarrow> Inr (m, s2)
          | Inr _ \<Rightarrow> Inl (WireProtocolError ''message must be a JSON object''))))"

section \<open>Requests and responses\<close>

definition valid_request_id :: "ustr json \<Rightarrow> bool" where
  "valid_request_id v = (case v of JInt n \<Rightarrow> 0 < n | _ \<Rightarrow> False)"

definition encode_args :: "wire_args \<Rightarrow> wire_error + uobj" where
  "encode_args args = traverse (\<lambda>(k, v). bind_res (encode_wire_value v) (\<lambda>j. Inr (k, j))) args"

definition encode_request :: "runtime \<Rightarrow> int \<Rightarrow> ustr \<Rightarrow> wire_args \<Rightarrow> wire_error + string" where
  "encode_request rt request_id op args =
     bind_res (require (valid_request_id (JInt request_id)) (WireProtocolError ''invalid request ID'')) (\<lambda>_.
     bind_res (require (op \<noteq> []) (WireProtocolError ''invalid operation'')) (\<lambda>_.
     bind_res (require_utf8 op) (\<lambda>_.
     bind_res (require (list_all (\<lambda>(k, v). k \<noteq> []) args) (WireProtocolError ''invalid request arguments'')) (\<lambda>_.
     bind_res (traverse (\<lambda>(k, v). require_utf8 k) args) (\<lambda>_.
     bind_res (encode_args args) (\<lambda>encoded.
     encode_message rt
       [(u ''version'', JInt WIRE_VERSION), (u ''request_id'', JInt request_id),
        (u ''operation'', JStr op), (u ''args'', JObj encoded)]))))))"

fun decode_args :: "int \<Rightarrow> uobj \<Rightarrow> wire_error + wire_args" where
  \<comment> \<open>one budget for all arguments, each counted itself as well\<close>
  "decode_args budget [] = Inr []"
| "decode_args budget ((k, v) # rest) =
     (if budget - 1 < 0 then Inl (WireProtocolError ''request contains too many argument items'')
      else bind_res (decode_wire_value 0 (budget - 1) v) (\<lambda>(w, b).
           bind_res (decode_args b rest) (\<lambda>decoded. Inr ((k, w) # decoded))))"

definition decode_request :: "uobj \<Rightarrow> wire_error + int \<times> ustr \<times> wire_args" where
  "decode_request m =
     bind_res (require (keys_are m [''version'', ''request_id'', ''operation'', ''args''])
       (WireProtocolError ''invalid request shape'')) (\<lambda>_.
     bind_res (require (field m ''version'' = JInt WIRE_VERSION) (WireProtocolError ''unsupported protocol version'')) (\<lambda>_.
     bind_res (require (valid_request_id (field m ''request_id'')) (WireProtocolError ''invalid request ID'')) (\<lambda>_.
     bind_res (as_int (field m ''request_id'') (WireProtocolError ''invalid request ID'')) (\<lambda>request_id.
     bind_res (as_str (field m ''operation'') (WireProtocolError ''invalid operation'')) (\<lambda>op.
     bind_res (require (op \<noteq> []) (WireProtocolError ''invalid operation'')) (\<lambda>_.
     bind_res (require_utf8 op) (\<lambda>_.
     bind_res (as_obj (field m ''args'') (WireProtocolError ''invalid request arguments'')) (\<lambda>raw_args.
     bind_res (require (list_all (\<lambda>(k, v). k \<noteq> []) raw_args) (WireProtocolError ''invalid request arguments'')) (\<lambda>_.
     bind_res (traverse (\<lambda>(k, v). require_utf8 k) raw_args) (\<lambda>_.
     bind_res (decode_args MAX_WIRE_ITEMS raw_args) (\<lambda>decoded.
       Inr (request_id, op, decoded))))))))))))"

definition success_response :: "int \<Rightarrow> WireValue \<Rightarrow> int option \<Rightarrow> wire_error + uobj" where
  "success_response request_id result status =
     bind_res (require (valid_request_id (JInt request_id)) (WireProtocolError ''invalid request ID'')) (\<lambda>_.
     bind_res (encode_wire_value result) (\<lambda>r.
       Inr [(u ''version'', JInt WIRE_VERSION), (u ''request_id'', JInt request_id), (u ''ok'', JBool True),
            (u ''result'', r), (u ''status'', opt_json JInt status)]))"

definition rpc_error_response :: "int \<Rightarrow> ustr \<Rightarrow> int \<Rightarrow> ustr \<Rightarrow> wire_error + uobj" where
  "rpc_error_response request_id knd code message =
     (if \<not> valid_request_id (JInt request_id) \<or> knd = [] \<or> message = []
      then Inl (WireProtocolError ''invalid remote error'')
      else Inr [(u ''version'', JInt WIRE_VERSION), (u ''request_id'', JInt request_id), (u ''ok'', JBool False),
                (u ''error'', jobj [(''kind'', JStr knd), (''code'', JInt code), (''message'', JStr message)])])"

definition decode_status :: "ustr json \<Rightarrow> wire_error + int option" where
  "decode_status v = (case v of JNull \<Rightarrow> Inr None | JInt n \<Rightarrow> Inr (Some n)
     | _ \<Rightarrow> Inl (WireProtocolError ''invalid VISA status''))"

definition decode_remote_error :: "ustr json \<Rightarrow> wire_error" where
  \<comment> \<open>the exception raised for an error response\<close>
  "decode_remote_error e = (case e of
     JObj d \<Rightarrow>
       if \<not> keys_are d [''kind'', ''code'', ''message''] then WireProtocolError ''invalid remote error''
       else (case (field d ''kind'', field d ''code'', field d ''message'') of
           (JStr knd, JInt code, JStr message) \<Rightarrow>
             if knd = [] \<or> message = [] then WireProtocolError ''invalid remote error''
             else RemoteVisaError knd code message
         | _ \<Rightarrow> WireProtocolError ''invalid remote error'')
   | _ \<Rightarrow> WireProtocolError ''invalid remote error'')"

definition decode_response :: "uobj \<Rightarrow> int \<Rightarrow> wire_error + WireValue \<times> int option" where
  "decode_response m expected =
     bind_res (require (set (map u [''version'', ''request_id'', ''ok'']) \<subseteq> set (dict_keys m))
       (WireProtocolError ''invalid response shape'')) (\<lambda>_.
     bind_res (require (field m ''version'' = JInt WIRE_VERSION) (WireProtocolError ''unsupported protocol version'')) (\<lambda>_.
     bind_res (require (valid_request_id (field m ''request_id'') \<and> field m ''request_id'' = JInt expected)
       (WireProtocolError ''response request ID mismatch'')) (\<lambda>_.
     bind_res (as_bool (field m ''ok'') (WireProtocolError ''invalid response outcome'')) (\<lambda>ok.
     if ok then
       bind_res (require (keys_are m [''version'', ''request_id'', ''ok'', ''result'', ''status''])
         (WireProtocolError ''invalid success response shape'')) (\<lambda>_.
       bind_res (decode_status (field m ''status'')) (\<lambda>status.
       bind_res (decode_wire_value 0 MAX_WIRE_ITEMS (field m ''result'')) (\<lambda>(w, _).
         Inr (w, status))))
     else
       bind_res (require (keys_are m [''version'', ''request_id'', ''ok'', ''error''])
         (WireProtocolError ''invalid error response shape'')) (\<lambda>_.
       Inl (decode_remote_error (field m ''error'')))))))"

section \<open>The client\<close>

text \<open>
  The state of a client is its connection and the next request id. What the operating system and
  the peer do during one call is the argument \<open>peer\<close>: the connection \<^verbatim>\<open>connector\<close> returns if it has
  to be called, and what arrives on the connection once the request is sent; \<open>None\<close> stands for
  an \<^verbatim>\<open>OSError\<close>.
\<close>

record RpcClient =
  endpoint :: ustr
  connection :: "stream option"
  next_request_id :: int

record peer =
  connector :: "stream option"
  answer :: "string \<Rightarrow> stream option"

definition new_client :: "ustr \<Rightarrow> wire_error + RpcClient" where
  "new_client path =
     (if take 1 path \<noteq> u ''/'' then Inl OSError
      else Inr \<lparr>endpoint = path, connection = None, next_request_id = 1\<rparr>)"

definition drop_connection :: "RpcClient \<Rightarrow> RpcClient" where
  "drop_connection c = c\<lparr>connection := None\<rparr>"

definition connect :: "peer \<Rightarrow> RpcClient \<Rightarrow> wire_error + stream" where
  "connect p c = (case connection c of Some s \<Rightarrow> Inr s
     | None \<Rightarrow> (case connector p of None \<Rightarrow> Inl OSError | Some s \<Rightarrow> Inr s))"

definition exchange_call ::
  "runtime \<Rightarrow> nat \<Rightarrow> peer \<Rightarrow> int \<Rightarrow> ustr \<Rightarrow> wire_args \<Rightarrow> RpcClient \<Rightarrow> wire_error + uobj \<times> stream" where
  \<comment> \<open>connect, send the request, receive one message\<close>
  "exchange_call rt limit p request_id op args c =
     bind_res (connect p c) (\<lambda>s.
     bind_res (encode_request rt request_id op args) (\<lambda>frame.
     bind_res (case answer p frame of None \<Rightarrow> Inl OSError | Some s' \<Rightarrow> Inr s') (\<lambda>s'.
     recv_message limit (s @ s'))))"

definition call ::
  "runtime \<Rightarrow> nat \<Rightarrow> peer \<Rightarrow> ustr \<Rightarrow> wire_args \<Rightarrow> RpcClient \<Rightarrow> RpcClient \<times> (wire_error + WireValue \<times> int option)" where
  "call rt limit p op args c =
     (let request_id = next_request_id c; c1 = c\<lparr>next_request_id := request_id + 1\<rparr> in
      case exchange_call rt limit p request_id op args c1 of
        Inl e \<Rightarrow> (drop_connection c1, Inl e)
      | Inr (m, s) \<Rightarrow>
          let c2 = c1\<lparr>connection := Some s\<rparr> in
          (case decode_response m request_id of
             Inr r \<Rightarrow> (c2, Inr r)
           | Inl (RemoteVisaError knd code message) \<Rightarrow> (c2, Inl (RemoteVisaError knd code message))
           | Inl e \<Rightarrow> (drop_connection c2, Inl e)))"

section \<open>Reading a stream\<close>

definition live_stream :: "stream \<Rightarrow> bool" where
  \<comment> \<open>no empty chunk, which would be the end of the stream\<close>
  "live_stream s = list_all (\<lambda>c. c \<noteq> []) s"

lemma recv_live:
  assumes "live_stream s" "0 < n"
  shows "case recv n s of (c, s') \<Rightarrow> c @ concat s' = concat s \<and> live_stream s' \<and> length c \<le> n \<and> (c = [] \<longleftrightarrow> s = [])"
  using assms by (auto simp: recv_def live_stream_def split: list.splits)

lemma recv_loop_live:
  assumes "live_stream s"
  shows "recv_loop clean got n s =
    (if n \<le> length (concat s)
     then Inr (got @ take n (concat s), snd (projr (recv_loop clean got n s)))
     else Inl (if clean \<and> got = [] \<and> s = [] then ConnectionClosed else WireProtocolError ''truncated frame'')) \<and>
    (n \<le> length (concat s) \<longrightarrow>
       concat (snd (projr (recv_loop clean got n s))) = drop n (concat s) \<and> live_stream (snd (projr (recv_loop clean got n s))))"
  using assms
proof (induction clean got n s rule: recv_loop.induct)
  case (1 clean got n s)
  show ?case
  proof (cases "n = 0")
    case True
    then show ?thesis using 1 by (simp add: recv_loop.simps)
  next
    case False
    obtain c s' where c: "recv n s = (c, s')" by fastforce
    with recv_live [of s n] 1(2) False
    have r: "c @ concat s' = concat s" "live_stream s'" "length c \<le> n" "c = [] \<longleftrightarrow> s = []" by auto
    show ?thesis
    proof (cases "c = []")
      case True
      then have "recv_loop clean got n s =
          Inl (if clean \<and> got = [] then ConnectionClosed else WireProtocolError ''truncated frame'')"
        using False c by (simp add: recv_loop.simps [of clean got n s])
      then show ?thesis using False r True by simp
    next
      case ne: False
      have e: "recv_loop clean got n s = recv_loop clean (got @ c) (n - length c) s'"
        using False c ne by (simp add: recv_loop.simps [of clean got n s])
      have t: "take n (concat s) = c @ take (n - length c) (concat s')" "drop n (concat s) = drop (n - length c) (concat s')"
        "n \<le> length (concat s) \<longleftrightarrow> n - length c \<le> length (concat s')"
        unfolding r(1) [symmetric] using r(3) by auto
      have "s \<noteq> []" using ne r(4) by simp
      with 1(1) [OF False c [symmetric] _ r(2)] ne show ?thesis
        unfolding e t by auto
    qed
  qed
qed

lemma recv_exact_enough:
  assumes "live_stream s" "concat s = b @ rest" "length b = n"
  obtains s' where "recv_exact clean n s = Inr (b, s')" "concat s' = rest" "live_stream s'"
  using recv_loop_live [OF assms(1), of clean "[]" n] assms(2,3) unfolding recv_exact_def by auto

lemma recv_exact_short:
  "live_stream s \<Longrightarrow> length (concat s) < n \<Longrightarrow>
    recv_exact clean n s = Inl (if clean \<and> concat s = [] then ConnectionClosed else WireProtocolError ''truncated frame'')"
proof -
  assume s: "live_stream s" "length (concat s) < n"
  have "concat s = [] \<longleftrightarrow> s = []" using s(1) by (auto simp: live_stream_def list_all_iff)
  then show ?thesis using recv_loop_live [OF s(1), of clean "[]" n] s(2) unfolding recv_exact_def by auto
qed

definition received :: "wire_error + uobj \<times> stream \<Rightarrow> wire_error + uobj \<times> string" where
  \<comment> \<open>what was read, and the bytes that are left\<close>
  "received r = map_sum id (apsnd concat) r"

lemma recv_exact_concat:
  assumes "live_stream s" "live_stream s'" "concat s = concat s'"
  shows "(\<exists>e. recv_exact clean n s = Inl e \<and> recv_exact clean n s' = Inl e) \<or>
    (\<exists>b t t'. recv_exact clean n s = Inr (b, t) \<and> recv_exact clean n s' = Inr (b, t') \<and> live_stream t \<and> live_stream t' \<and> concat t = concat t')"
proof (cases "n \<le> length (concat s)")
  case True
  have b: "concat s = take n (concat s) @ drop n (concat s)" "length (take n (concat s)) = n" using True by auto
  from recv_exact_enough [OF assms(1) b] obtain t where
    "recv_exact clean n s = Inr (take n (concat s), t)" "concat t = drop n (concat s)" "live_stream t" .
  moreover from recv_exact_enough [OF assms(2) b [unfolded assms(3)]] obtain t' where
    "recv_exact clean n s' = Inr (take n (concat s'), t')" "concat t' = drop n (concat s')" "live_stream t'" .
  ultimately show ?thesis by (auto simp: assms(3))
next
  case False
  then show ?thesis using recv_exact_short [OF assms(1), of n] recv_exact_short [OF assms(2), of n] assms(3) by auto
qed

lemma recv_message_concat:
  assumes "live_stream s" "live_stream s'" "concat s = concat s'"
  shows "received (recv_message limit s) = received (recv_message limit s')"
  using recv_exact_concat [OF assms, of True 4]
proof (elim disjE exE conjE)
  fix b t t'
  assume h: "recv_exact True 4 s = Inr (b, t)" "recv_exact True 4 s' = Inr (b, t')" and l: "live_stream t" "live_stream t'" "concat t = concat t'"
  from recv_exact_concat [OF l, of False "nat (from_big_endian 0 b)"] show ?thesis
    by (auto simp: recv_message_def h received_def Let_def split: option.splits sum.splits json.splits)
qed (simp add: recv_message_def)
section \<open>Values survive the trip\<close>

fun wire_exact :: "(rat \<Rightarrow> string) \<Rightarrow> WireValue \<Rightarrow> bool" where
  \<comment> \<open>numbers whose text the reader of a frame accepts and maps back to them\<close>
  "wire_exact fr (WInt n) = (length (show_pos \<bar>n\<bar>) \<le> MAX_JSON_INTEGER_DIGITS)"
| "wire_exact fr (WFloat x) =
     (case x of Fin q \<Rightarrow> number_text True (fr q) \<and> parse_float (fr q) = Some (Fin q) | _ \<Rightarrow> True)"
| "wire_exact fr (WTuple vs) = list_all (wire_exact fr) vs"
| "wire_exact fr _ = True"

fun wire_within :: "nat \<Rightarrow> WireValue \<Rightarrow> bool" where
  \<comment> \<open>tuples nested at most so deep\<close>
  "wire_within k (WTuple vs) = (vs = [] \<or> (case k of 0 \<Rightarrow> False | Suc j \<Rightarrow> list_all (wire_within j) vs))"
| "wire_within k _ = True"

fun wire_items :: "WireValue \<Rightarrow> int" where
  "wire_items (WTuple vs) = 1 + sum_list (map wire_items vs)"
| "wire_items _ = 1"

lemma wire_items_pos: "1 \<le> wire_items v"
proof (induction v rule: wire_items.induct)
  case (1 vs)
  have "0 \<le> sum_list (map wire_items vs)" by (intro sum_list_nonneg) (use 1 in force)
  then show ?case by simp
qed simp_all

lemma require_utf8_Inr [simp]: "require_utf8 s = Inr x \<longleftrightarrow> list_all scalar s"
  by (simp add: require_utf8_def utf8_encode_def)

lemma parse_int_show_int: "length (show_pos \<bar>n\<bar>) \<le> MAX_STR_DIGITS \<Longrightarrow> parse_int (show_int n) = Some n"
proof -
  assume len: "length (show_pos \<bar>n\<bar>) \<le> MAX_STR_DIGITS"
  have minus: "\<not> is_space (CHR ''-'')" by code_simp
  consider "0 \<le> n" | "n < 0" by linarith
  then show ?thesis
  proof cases
    case 1
    note s = show_nonneg(1-3) [OF 1]
    have "length (show_int n) \<le> MAX_STR_DIGITS" using len 1 by (simp add: show_int_def MAX_STR_DIGITS_def)
    moreover have "strip (show_int n) = show_int n" using s(1) unfolding strip_def
      by (intro strip_by_id) (auto simp: list_all_iff dest: decimal_facts(1))
    ultimately show ?thesis using s by (simp add: parse_int_def split_sign_decimal digit_part_decimal)
  next
    case 2
    then have e: "show_int n = CHR ''-'' # show_pos (- n)" by (simp add: show_int_def)
    note d = show_pos_decimal [of "- n"]
    have "strip (show_int n) = show_int n" unfolding strip_def e using d minus
      by (intro strip_by_id) (auto simp: list_all_iff dest: decimal_facts(1))
    moreover have "show_pos (- n) \<noteq> []" using show_pos_head [of "- n"] 2 by simp
    ultimately show ?thesis using len 2 d digits_value_show_pos [of "- n"]
      by (simp add: parse_int_def e split_sign_def digit_part_decimal)
  qed
qed

lemma parse_json_int_show_int:
  assumes "length (show_pos \<bar>n\<bar>) \<le> MAX_JSON_INTEGER_DIGITS"
  shows "parse_json_int (show_int n) = Some n"
proof -
  have "starts_with ''-'' (show_int n) \<longleftrightarrow> n < 0"
  proof (cases "n < 0")
    case False
    then obtain c cs where "show_int n = c # cs" "is_decimal c"
      using show_nonneg(1,2) [of n] by (cases "show_int n") auto
    with False decimal_facts(4) [of c] show ?thesis by (simp add: starts_with_def)
  qed (simp add: starts_with_def show_int_def)
  then have "length (if starts_with ''-'' (show_int n) then drop 1 (show_int n) else show_int n) \<le> MAX_JSON_INTEGER_DIGITS"
    using assms by (auto simp: show_int_def MAX_JSON_INTEGER_DIGITS_def)
  moreover have "parse_int (show_int n) = Some n"
    using assms by (intro parse_int_show_int) (simp add: MAX_STR_DIGITS_def MAX_JSON_INTEGER_DIGITS_def)
  ultimately show ?thesis by (simp add: parse_json_int_def)
qed

lemma b64_char_ascii: "0 \<le> v \<Longrightarrow> v < 64 \<Longrightarrow> code_of (b64_char v) < 128"
  by (simp add: b64_char_def code_of_char_of_int)

lemma code_of_pad [simp]: "code_of (CHR ''='') = 61"
  by code_simp

lemma b64_ascii: "c \<in> set (b64_encode b) \<Longrightarrow> code_of c < 128"
proof (induction b rule: b64_encode.induct)
  case (2 a)
  then show ?case by (auto simp: b64_char_ascii b64_sextets)
next
  case (3 a b)
  then show ?case by (auto simp: b64_char_ascii b64_sextets)
next
  case (4 a b c rest)
  then show ?case by (auto simp: b64_char_ascii b64_sextets)
qed simp

lemma b64_text_encode: "b64_text (u (b64_encode b)) = Some b"
proof -
  have "list_all (\<lambda>c. 0 \<le> c \<and> c < 128) (u (b64_encode b))"
    using b64_ascii code_of_range(1) by (auto simp: u_def list_all_iff)
  then show ?thesis by (simp add: b64_text_def b64_round_trip)
qed

lemma encode_readable:
  assumes "encode_wire_value v = Inr j" "wire_exact fr v"
  shows "readable wire_hooks fr j"
  using assms
proof (induction v arbitrary: j rule: encode_wire_value.induct)
  case (3 n)
  then show ?case by (auto simp: wire_hooks_def parse_json_int_show_int)
next
  case (5 x)
  then show ?case by (auto split: if_splits pyfloat.splits)
next
  case (6 b)
  then show ?case using scalar_u by (auto simp: jobj_def jstr_def list_all_iff)
next
  case (7 vs)
  from 7(2) obtain js where js: "traverse encode_wire_value vs = Inr js"
    and j: "j = jobj [(''type'', jstr ''list''), (''items'', JList js)]"
    by (auto simp: res_simps)
  have "readable wire_hooks fr x" if "x \<in> set js" for x
    using traverse_Inr_set [OF js] that 7(1,3) by (fastforce simp: list_all_iff)
  then show ?case using scalar_u by (auto simp: j jobj_def jstr_def list_all_iff)
qed (auto simp: res_simps)
lemma wire_items_sum: "0 \<le> sum_list (map wire_items ws)"
proof (induction ws)
  case (Cons w ws)
  then show ?case using wire_items_pos [of w] by simp
qed simp

lemma field_simps [simp]:
  "field [] k = JNull"
  "field ((u k', v) # d) k = (if k = k' then v else field d k)"
  by (auto simp: field_def)

lemma jstr_inject [simp]: "jstr s = jstr t \<longleftrightarrow> s = t"
  by (simp add: jstr_def)

lemma canon_jstr [simp]: "canon (jstr s) = jstr s"
  by (simp add: jstr_def)

lemma keys_are_simps: "keys_are d ks \<longleftrightarrow> fst ` set d = u ` set ks"
  by (simp add: keys_are_def has_keys_def dict_keys_def)

lemma map_of_sort: "distinct (map fst d) \<Longrightarrow> map_of (sort_key fst d) = map_of d"
  by (metis map_of_inject_set distinct_map distinct_sort set_sort)

lemma field_canon:
  assumes "distinct (map fst d)"
  shows "field (sort_key fst (map (\<lambda>(k, v). (k, canon v)) d)) k = canon (field d k)"
proof -
  have e: "map fst (map (\<lambda>(k, v). (k, canon v)) d) = map fst d" by (simp add: comp_def case_prod_beta)
  have "map_of (sort_key fst (map (\<lambda>(k, v). (k, canon v)) d)) = map_of (map (\<lambda>(k, v). (k, canon v)) d)"
    by (rule map_of_sort) (simp only: e assms)
  then show ?thesis
    by (simp add: field_def json_get_def map_of_map split: option.splits)
qed

lemma keys_are_canon: "keys_are (sort_key fst (map (\<lambda>(k, v). (k, canon v)) d)) ks \<longleftrightarrow> keys_are d ks"
proof -
  have "fst ` set (map (\<lambda>(k, v). (k, canon v)) d) = fst ` set d" by force
  then show ?thesis by (simp add: keys_are_def has_keys_def dict_keys_def)
qed

lemma decode_bytes_obj:
  "\<lbrakk>depth \<le> MAX_WIRE_DEPTH; 1 \<le> budget; field d ''type'' = jstr ''bytes''; keys_are d [''type'', ''base64''];
    field d ''base64'' = JStr s; b64_text s = Some b\<rbrakk> \<Longrightarrow>
    decode_wire_value depth budget (JObj d) = Inr (WBytes b, budget - 1)"
  by (simp add: decode_wire_value.simps)

lemma decode_tuple_obj:
  "\<lbrakk>depth \<le> MAX_WIRE_DEPTH; 1 \<le> budget; field d ''type'' = jstr ''list''; keys_are d [''type'', ''items''];
    field d ''items'' = JList js\<rbrakk> \<Longrightarrow>
    decode_wire_value depth budget (JObj d) =
      bind_res (decode_wire_items (depth + 1) (budget - 1) js) (\<lambda>(ws, b). Inr (WTuple ws, b))"
  by (simp add: decode_wire_value.simps)

lemma canon_jobj:
  assumes "distinct (map fst d)"
  obtains d' where "canon (jobj d) = JObj d'"
    and "\<And>k. field d' k = canon (case map_of d k of None \<Rightarrow> JNull | Some v \<Rightarrow> v)"
    and "\<And>ks. keys_are d' ks \<longleftrightarrow> fst ` set d = set ks"
proof -
  let ?d = "map (\<lambda>(k, v). (u k, v)) d"
  have "map fst ?d = map u (map fst d)" by (simp add: comp_def case_prod_beta)
  moreover have "inj u" by (simp add: inj_def)
  ultimately have di: "distinct (map fst ?d)" using assms by (simp only: distinct_map) (auto intro: inj_on_subset)
  have "field ?d k = (case map_of d k of None \<Rightarrow> JNull | Some v \<Rightarrow> v)" for k
    by (induction d) auto
  moreover have "keys_are ?d ks \<longleftrightarrow> fst ` set d = set ks" for ks
  proof -
    have "fst ` set ?d = u ` fst ` set d" by force
    then show ?thesis using \<open>inj u\<close> by (simp only: keys_are_simps inj_image_eq_iff)
  qed
  ultimately show ?thesis
    by (intro that [of "sort_key fst (map (\<lambda>(k, v). (k, canon v)) ?d)"])
      (simp_all only: jobj_def canon.simps field_canon [OF di] keys_are_canon)
qed

lemma decode_bytes:
  assumes "depth \<le> MAX_WIRE_DEPTH" "1 \<le> budget"
  shows "decode_wire_value depth budget (canon (jobj [(''type'', jstr ''bytes''), (''base64'', jstr (b64_encode b))])) =
    Inr (WBytes b, budget - 1)"
  by (rule canon_jobj [of "[(''type'', jstr ''bytes''), (''base64'', jstr (b64_encode b))]"])
    (simp, simp add: decode_bytes_obj [OF assms, where s = "u (b64_encode b)"] b64_text_encode jstr_def)

lemma decode_tuple:
  assumes "depth \<le> MAX_WIRE_DEPTH" "1 \<le> budget"
  shows "decode_wire_value depth budget (canon (jobj [(''type'', jstr ''list''), (''items'', JList js)])) =
    bind_res (decode_wire_items (depth + 1) (budget - 1) (map canon js)) (\<lambda>(ws, b). Inr (WTuple ws, b))"
  by (rule canon_jobj [of "[(''type'', jstr ''list''), (''items'', JList js)]"])
    (simp, simp add: decode_tuple_obj [OF assms, where js = "map canon js"])

lemma decode_encode:
  assumes "encode_wire_value v = Inr j" "wire_within k v" "depth + int k \<le> MAX_WIRE_DEPTH" "wire_items v \<le> budget"
  shows "decode_wire_value depth budget (canon j) = Inr (v, budget - wire_items v)"
  using assms
proof (induction v arbitrary: j k depth budget rule: encode_wire_value.induct)
  case (7 vs)
  from 7(2) obtain js where js: "traverse encode_wire_value vs = Inr js"
    and j: "j = jobj [(''type'', jstr ''list''), (''items'', JList js)]"
    by (auto simp: res_simps)
  have items: "decode_wire_items (depth + 1) b (map canon xs) = Inr (ws, b - sum_list (map wire_items ws))"
    if "traverse encode_wire_value ws = Inr xs" "set ws \<subseteq> set vs" "sum_list (map wire_items ws) \<le> b" for ws xs b
    using that
  proof (induction ws arbitrary: xs b)
    case (Cons w ws)
    from Cons.prems(1) obtain x ys where x: "encode_wire_value w = Inr x" "traverse encode_wire_value ws = Inr ys" "xs = x # ys"
      by (auto simp: res_simps)
    from 7(3) Cons.prems(2) obtain k' where k: "k = Suc k'" "wire_within k' w"
      by (cases k) (auto simp: list_all_iff)
    from wire_items_sum [of ws] have "decode_wire_value (depth + 1) b (canon x) = Inr (w, b - wire_items w)"
      using 7(1) [OF _ x(1) k(2)] Cons.prems(2,3) 7(4) k(1) by simp
    moreover have "decode_wire_items (depth + 1) (b - wire_items w) (map canon ys) =
        Inr (ws, b - wire_items w - sum_list (map wire_items ws))"
      using Cons.prems by (intro Cons.IH [OF x(2)]) auto
    ultimately show ?case by (simp add: x(3) algebra_simps)
  qed simp
  have "depth \<le> MAX_WIRE_DEPTH" "1 \<le> budget" using 7(4,5) wire_items_pos [of "WTuple vs"] by linarith+
  from decode_tuple [OF this, of js] items [OF js, of "budget - 1"] 7(5) show ?case
    by (simp add: j)
next
  case (6 b)
  then show ?case using decode_bytes [of depth budget b] by simp
next
  case (5 x)
  then show ?case by (auto simp: decode_wire_value.simps split: if_splits)
qed (auto simp: decode_wire_value.simps res_simps)
section \<open>Messages survive the trip\<close>

lemma nested_mono: "nested_within d v \<Longrightarrow> d \<le> d' \<Longrightarrow> nested_within d' v"
proof (induction d v arbitrary: d' rule: nested_within.induct)
  case (1 d vs)
  from "1.prems" obtain e e' where d: "d = Suc e" "d' = Suc e'" "e \<le> e'" by (cases d; cases d') simp_all
  have "nested_within e' v" if "v \<in> set vs" for v
    using "1.prems" "1.IH" [OF d(1) that] that d by (simp add: list_all_iff)
  then show ?case by (simp add: d list_all_iff)
next
  case (2 d kvs)
  from "2.prems" obtain e e' where d: "d = Suc e" "d' = Suc e'" "e \<le> e'" by (cases d; cases d') simp_all
  have "nested_within e' v" if "(k, v) \<in> set kvs" for k v
    using "2.prems" "2.IH" [OF d(1) that refl] that d by (fastforce simp: list_all_iff)
  then show ?case by (auto simp: d list_all_iff)
qed simp_all

lemma encode_nested:
  assumes "encode_wire_value v = Inr j" "wire_within k v"
  shows "nested_within (2 * k + 2) j"
  using assms
proof (induction v arbitrary: j k rule: encode_wire_value.induct)
  case (7 vs)
  from 7(2) obtain js where js: "traverse encode_wire_value vs = Inr js"
    and j: "j = jobj [(''type'', jstr ''list''), (''items'', JList js)]"
    by (auto simp: res_simps)
  have "nested_within (2 * k) x" if "x \<in> set js" for x
  proof -
    obtain w where w: "w \<in> set vs" "encode_wire_value w = Inr x" using traverse_Inr_set [OF js \<open>x \<in> set js\<close>] by auto
    with 7(3) obtain k' where k: "k = Suc k'" "wire_within k' w" by (cases k) (auto simp: list_all_iff)
    with 7(1) [OF w k(2)] show ?thesis by simp
  qed
  then show ?case by (simp add: j jobj_def jstr_def list_all_iff)
next
  case (5 x)
  then show ?case by (auto split: if_splits)
qed (auto simp: jobj_def jstr_def res_simps)

lemma message_round_trip:
  assumes "encode_message rt m = Inr frame" and "readable wire_hooks (float_repr rt) (JObj m)"
    and "nested_within limit (JObj m)" and "live_stream s" and "concat s = frame @ rest"
  obtains m' s' where "canon (JObj m) = JObj m'" "recv_message limit s = Inr (m', s')" "concat s' = rest" "live_stream s'"
proof -
  from assms(1) obtain payload where p: "utf8_encode (udumps False (float_repr rt) (JObj m)) = Some payload"
    "payload \<noteq> []" "int (length payload) \<le> WIRE_FRAME_BYTES" and f: "frame = big_endian 4 (int (length payload)) @ payload"
    by (auto simp: encode_message_def split: option.splits if_splits)
  have n: "from_big_endian 0 (big_endian 4 (int (length payload))) = int (length payload)"
    using p(3) by (intro big_endian_round_trip) (simp_all add: WIRE_FRAME_BYTES_def)
  from assms(5) f have "concat s = big_endian 4 (int (length payload)) @ payload @ rest" by simp
  from recv_exact_enough [OF assms(4) this] obtain s1 where
    s1: "recv_exact True 4 s = Inr (big_endian 4 (int (length payload)), s1)" "concat s1 = payload @ rest" "live_stream s1" by auto
  from recv_exact_enough [OF s1(3,2)] obtain s2 where
    s2: "recv_exact False (length payload) s1 = Inr (payload, s2)" "concat s2 = rest" "live_stream s2" by auto
  have h: "pairs_hook wire_hooks kvs = Some (JObj kvs)" if "distinct (map fst kvs)" for kvs
    using that by (simp add: wire_hooks_def unique_object_def)
  obtain m' where m': "canon (JObj m) = JObj m'" by simp
  have "recv_message limit s = Inr (m', s2)"
    using s1 s2 p m' n utf8_round_trip [OF p(1)] loads_udumps [OF h assms(2,3), of False]
    by (simp add: recv_message_def Let_def)
  with m' s2 that show thesis by blast
qed

lemma fst_comp_keep [simp]: "fst \<circ> (\<lambda>(k, v). (k, g v)) = fst"
  by auto

lemma canon_message:
  assumes "canon (JObj m) = JObj m'" "distinct (map fst m)"
  shows "field m' k = canon (field m k)" and "keys_are m' ks \<longleftrightarrow> keys_are m ks"
    and "set (dict_keys m') = set (dict_keys m)"
proof -
  have e: "m' = sort_key fst (map (\<lambda>(k, v). (k, canon v)) m)" using assms(1) by simp
  show "field m' k = canon (field m k)" unfolding e by (rule field_canon [OF assms(2)])
  show "keys_are m' ks \<longleftrightarrow> keys_are m ks" unfolding e by (rule keys_are_canon)
  show "set (dict_keys m') = set (dict_keys m)" unfolding e dict_keys_def by force
qed

definition args_cost :: "wire_args \<Rightarrow> int" where
  \<comment> \<open>what the arguments of a request take from the budget of items\<close>
  "args_cost args = sum_list (map (\<lambda>(k, v). 1 + wire_items v) args)"

lemma args_cost_nonneg: "0 \<le> args_cost args"
proof (induction args)
  case (Cons kv args)
  then show ?case using wire_items_pos [of "snd kv"] by (cases kv) (simp add: args_cost_def)
qed (simp add: args_cost_def)

definition deliverable :: "(rat \<Rightarrow> string) \<Rightarrow> WireValue \<Rightarrow> bool" where
  \<comment> \<open>within the receiver's bounds: exact numbers, at most sixteen levels of tuples\<close>
  "deliverable fr v = (wire_exact fr v \<and> wire_within 16 v)"

lemma require_utf8_ok: "list_all scalar s \<Longrightarrow> require_utf8 s = Inr ()"
  by simp

lemma traverse_utf8:
  "list_all (\<lambda>(k, v). list_all scalar k) xs \<Longrightarrow> traverse (\<lambda>(k, v). require_utf8 k) xs = Inr (map (\<lambda>_. ()) xs)"
  by (induction xs) (auto simp: require_utf8_ok simp del: require_utf8_Inr)

lemma encode_args_map:
  assumes "encode_args args = Inr e"
  shows "e = map (\<lambda>(k, v). (k, projr (encode_wire_value v))) args"
    and "(k, v) \<in> set args \<Longrightarrow> encode_wire_value v = Inr (projr (encode_wire_value v))"
  using assms unfolding encode_args_def
  by (induction args arbitrary: e) (auto simp: res_simps)

lemma decode_args_encoded:
  assumes "\<And>k v. (k, v) \<in> set args \<Longrightarrow> encode_wire_value v = Inr (f v) \<and> wire_within 16 v"
  shows "args_cost args \<le> b \<Longrightarrow> decode_args b (map (\<lambda>(k, v). (k, canon (f v))) args) = Inr args"
  using assms
proof (induction args arbitrary: b)
  case (Cons kv args)
  obtain k v where kv: "kv = (k, v)" by (cases kv)
  note args_cost_nonneg [of args]
  moreover have "args_cost (kv # args) = 1 + wire_items v + args_cost args" by (simp add: args_cost_def kv)
  ultimately have b: "1 + wire_items v \<le> b" "args_cost args \<le> b - 1 - wire_items v" using Cons.prems(1) by linarith+
  have "decode_wire_value 0 (b - 1) (canon (f v)) = Inr (v, b - 1 - wire_items v)"
    using Cons.prems(2) [of k v] b(1) kv by (intro decode_encode [where k = 16]) (auto simp: MAX_WIRE_DEPTH_def)
  moreover have "decode_args (b - 1 - wire_items v) (map (\<lambda>(k, v). (k, canon (f v))) args) = Inr args"
    using Cons.prems(2) b(2) by (intro Cons.IH) auto
  moreover have "\<not> b - 1 < 0" using b(1) wire_items_pos [of v] by linarith
  ultimately show ?case by (simp add: kv)
qed simp

lemma request_round_trip_lemma:
  assumes "encode_request rt rid op args = Inr frame" and "distinct (map fst args)"
    and "list_all (\<lambda>(k, v). deliverable (float_repr rt) v) args" and "args_cost args \<le> MAX_WIRE_ITEMS"
    and "length (show_pos rid) \<le> MAX_JSON_INTEGER_DIGITS" and "36 \<le> limit"
    and "live_stream s" and "concat s = frame @ rest"
  shows "\<exists>m s'. recv_message limit s = Inr (m, s') \<and> concat s' = rest \<and> live_stream s' \<and>
    decode_request m = Inr (rid, op, sort_key fst args)"
proof -
  from assms(1) obtain e where rid: "0 < rid" and op: "op \<noteq> []" "list_all scalar op"
    and ks: "list_all (\<lambda>(k, v). k \<noteq> []) args" and e: "encode_args args = Inr e"
    and fr: "encode_message rt [(u ''version'', JInt WIRE_VERSION), (u ''request_id'', JInt rid),
        (u ''operation'', JStr op), (u ''args'', JObj e)] = Inr frame"
    and ut: "\<exists>us. traverse (\<lambda>(k, v). require_utf8 k) args = Inr us"
    by (auto simp: encode_request_def res_simps case_eq_Inr valid_request_id_def)
  let ?m = "[(u ''version'', JInt WIRE_VERSION), (u ''request_id'', JInt rid), (u ''operation'', JStr op), (u ''args'', JObj e)]"
  let ?f = "\<lambda>v. projr (encode_wire_value v)"
  note em = encode_args_map [OF e]
  have sc: "list_all scalar k" if "(k, v) \<in> set args" for k v
    using ut that by (induction args) (auto simp: res_simps)
  have "map fst e = map fst args" by (simp add: em(1) comp_def case_prod_beta)
  moreover have "readable wire_hooks (float_repr rt) (?f v)" if "(k, v) \<in> set args" for k v
    using assms(3) that by (intro encode_readable [OF em(2) [OF that]]) (auto simp: list_all_iff deliverable_def)
  ultimately have re: "readable wire_hooks (float_repr rt) (JObj e)"
    using assms(2) sc by (auto simp: em(1) list_all_iff)
  have int: "parse_json_int (show_int WIRE_VERSION) = Some WIRE_VERSION" by code_simp
  have rd: "readable wire_hooks (float_repr rt) (JObj ?m)"
    using re op rid assms(5) scalar_u int by (auto simp: wire_hooks_def parse_json_int_show_int list_all_iff)
  have "nested_within 34 (?f v)" if "(k, v) \<in> set args" for k v
    using encode_nested [OF em(2) [OF that], of 16] assms(3) that by (auto simp: list_all_iff deliverable_def)
  then have "nested_within 35 (JObj e)" by (auto simp: em(1) list_all_iff numeral_eq_Suc)
  then have "nested_within 36 (JObj ?m)" by (simp add: numeral_eq_Suc)
  then have "nested_within limit (JObj ?m)" using assms(6) by (rule nested_mono)
  from message_round_trip [OF fr rd this assms(7,8)] obtain m' s' where
    m': "canon (JObj ?m) = JObj m'" and r: "recv_message limit s = Inr (m', s')" "concat s' = rest" "live_stream s'" .
  have di: "distinct (map fst ?m)" by simp
  note c = canon_message [OF m' di]
  let ?a = "map (\<lambda>(k, v). (k, canon (?f v))) (sort_key fst args)"
  have ar: "field m' ''args'' = JObj ?a"
  proof -
    have "map (\<lambda>(k, v). (k, canon v)) e = map (\<lambda>(k, v). (k, canon (?f v))) args" by (auto simp: em(1))
    then show ?thesis unfolding c by (simp only: field_simps list.inject) (simp add: sort_key_map_snd)
  qed
  have mem: "set (sort_key fst args) = set args" by simp
  have "list_all (\<lambda>(k, v). list_all scalar k) ?a" using sc by (auto simp: list_all_iff)
  then have "traverse (\<lambda>(k, v). require_utf8 k) ?a = Inr (map (\<lambda>_. ()) ?a)" by (rule traverse_utf8)
  moreover have "decode_args MAX_WIRE_ITEMS ?a = Inr (sort_key fst args)"
  proof (rule decode_args_encoded)
    show "encode_wire_value v = Inr (?f v) \<and> wire_within 16 v" if "(k, v) \<in> set (sort_key fst args)" for k v
      using that em(2) assms(3) by (auto simp: list_all_iff deliverable_def)
    show "args_cost (sort_key fst args) \<le> MAX_WIRE_ITEMS"
      using assms(4) by (simp add: args_cost_def sum_list_sort_key)
  qed
  moreover have "list_all (\<lambda>(k, v). k \<noteq> []) ?a" using ks by (auto simp: list_all_iff)
  moreover have "keys_are m' [''version'', ''request_id'', ''operation'', ''args'']"
    unfolding c(2) by (simp add: keys_are_simps)
  moreover have "field m' ''version'' = JInt WIRE_VERSION" "field m' ''request_id'' = JInt rid" "field m' ''operation'' = JStr op"
    by (simp_all add: c(1))
  ultimately have "decode_request m' = Inr (rid, op, sort_key fst args)"
    using op rid by (simp add: decode_request_def ar valid_request_id_def require_utf8_ok)
  with r show ?thesis by blast
qed

lemma canon_jobj_ex:
  assumes "distinct (map fst d)"
  shows "\<exists>d'. canon (jobj d) = JObj d' \<and> (\<forall>k. field d' k = canon (case map_of d k of None \<Rightarrow> JNull | Some v \<Rightarrow> v)) \<and>
    (\<forall>ks. keys_are d' ks \<longleftrightarrow> fst ` set d = set ks)"
  by (rule canon_jobj [OF assms]) blast

lemma int_readable:
  "length (show_pos \<bar>n\<bar>) \<le> MAX_JSON_INTEGER_DIGITS \<Longrightarrow> readable wire_hooks fr (JInt n)"
  by (simp add: wire_hooks_def parse_json_int_show_int)

lemma version_readable: "readable wire_hooks fr (JInt WIRE_VERSION)"
proof -
  have "parse_json_int (show_int WIRE_VERSION) = Some WIRE_VERSION" by code_simp
  then show ?thesis by (simp add: wire_hooks_def)
qed

lemma keys_scalar: "list_all scalar (u k)"
  using scalar_u by (auto simp: list_all_iff)

definition status_exact :: "int option \<Rightarrow> bool" where
  "status_exact st = (case st of None \<Rightarrow> True | Some n \<Rightarrow> length (show_pos \<bar>n\<bar>) \<le> MAX_JSON_INTEGER_DIGITS)"

lemma success_round_trip:
  assumes "success_response rid r st = Inr m" and "encode_message rt m = Inr frame"
    and "deliverable (float_repr rt) r" and "wire_items r \<le> MAX_WIRE_ITEMS"
    and "length (show_pos rid) \<le> MAX_JSON_INTEGER_DIGITS" and "status_exact st" and "36 \<le> limit"
    and "live_stream s" and "concat s = frame @ rest"
  shows "\<exists>m' s'. recv_message limit s = Inr (m', s') \<and> concat s' = rest \<and> live_stream s' \<and> decode_response m' rid = Inr (r, st)"
proof -
  from assms(1) obtain j where rid: "0 < rid" and j: "encode_wire_value r = Inr j"
    and m: "m = [(u ''version'', JInt WIRE_VERSION), (u ''request_id'', JInt rid), (u ''ok'', JBool True),
            (u ''result'', j), (u ''status'', opt_json JInt st)]"
    by (auto simp: success_response_def res_simps case_eq_Inr valid_request_id_def)
  have "readable wire_hooks (float_repr rt) j" using encode_readable [OF j] assms(3) by (simp add: deliverable_def)
  moreover have "readable wire_hooks (float_repr rt) (opt_json JInt st)"
    using assms(6) int_readable by (auto simp: opt_json_def status_exact_def split: option.splits simp del: readable.simps(1))
  ultimately have rd: "readable wire_hooks (float_repr rt) (JObj m)"
    using int_readable [of rid] version_readable rid assms(5) keys_scalar by (simp add: m del: readable.simps(1))
  have "nested_within 34 j" using encode_nested [OF j, of 16] assms(3) by (simp add: deliverable_def)
  then have "nested_within 36 (JObj m)"
    using nested_mono [of 34 j 35] by (cases st) (simp_all add: m opt_json_def numeral_eq_Suc)
  then have "nested_within limit (JObj m)" using assms(7) by (rule nested_mono)
  from message_round_trip [OF assms(2) rd this assms(8,9)] obtain m' s' where
    m': "canon (JObj m) = JObj m'" and t: "recv_message limit s = Inr (m', s')" "concat s' = rest" "live_stream s'" .
  have di: "distinct (map fst m)" by (simp add: m)
  note c = canon_message [OF m' di]
  have "keys_are m' [''version'', ''request_id'', ''ok'', ''result'', ''status'']" "set (map u [''version'', ''request_id'', ''ok'']) \<subseteq> set (dict_keys m')"
    unfolding c by (auto simp: m keys_are_simps)
  moreover have "field m' ''version'' = JInt WIRE_VERSION" "field m' ''request_id'' = JInt rid" "field m' ''ok'' = JBool True"
    "field m' ''result'' = canon j" "field m' ''status'' = opt_json JInt st"
    by (simp_all add: c(1) m opt_json_def split: option.splits)
  moreover have "decode_wire_value 0 MAX_WIRE_ITEMS (canon j) = Inr (r, MAX_WIRE_ITEMS - wire_items r)"
    using assms(3,4) by (intro decode_encode [OF j, where k = 16]) (simp_all add: deliverable_def MAX_WIRE_DEPTH_def)
  moreover have "decode_status (opt_json JInt st) = Inr st" by (simp add: decode_status_def opt_json_def split: option.splits)
  ultimately have "decode_response m' rid = Inr (r, st)"
    using rid by (simp add: decode_response_def valid_request_id_def)
  with t show ?thesis by blast
qed

lemma error_round_trip:
  assumes "rpc_error_response rid knd code msg = Inr m" and "encode_message rt m = Inr frame"
    and "list_all scalar knd" and "list_all scalar msg"
    and "length (show_pos rid) \<le> MAX_JSON_INTEGER_DIGITS" and "length (show_pos \<bar>code\<bar>) \<le> MAX_JSON_INTEGER_DIGITS"
    and "2 \<le> limit" and "live_stream s" and "concat s = frame @ rest"
  shows "\<exists>m' s'. recv_message limit s = Inr (m', s') \<and> concat s' = rest \<and> live_stream s' \<and>
    decode_response m' rid = Inl (RemoteVisaError knd code msg)"
proof -
  let ?e = "[(''kind'', JStr knd), (''code'', JInt code), (''message'', JStr msg)]"
  from assms(1) have rid: "0 < rid" and ne: "knd \<noteq> []" "msg \<noteq> []"
    and m: "m = [(u ''version'', JInt WIRE_VERSION), (u ''request_id'', JInt rid), (u ''ok'', JBool False), (u ''error'', jobj ?e)]"
    by (auto simp: rpc_error_response_def valid_request_id_def split: if_splits)
  have "readable wire_hooks (float_repr rt) (jobj ?e)"
    using int_readable [OF assms(6)] assms(3,4) keys_scalar by (simp add: jobj_def del: readable.simps(1))
  then have rd: "readable wire_hooks (float_repr rt) (JObj m)"
    using int_readable [of rid] version_readable rid assms(5) keys_scalar by (simp add: m del: readable.simps(1))
  have "nested_within 2 (JObj m)" by (simp add: m jobj_def numeral_2_eq_2)
  then have "nested_within limit (JObj m)" using assms(7) by (rule nested_mono)
  from message_round_trip [OF assms(2) rd this assms(8,9)] obtain m' s' where
    m': "canon (JObj m) = JObj m'" and t: "recv_message limit s = Inr (m', s')" "concat s' = rest" "live_stream s'" .
  have di: "distinct (map fst m)" by (simp add: m)
  note c = canon_message [OF m' di]
  have "distinct (map fst ?e)" by simp
  from canon_jobj_ex [OF this] obtain d where d: "canon (jobj ?e) = JObj d"
    "\<forall>k. field d k = canon (case map_of ?e k of None \<Rightarrow> JNull | Some v \<Rightarrow> v)" "\<forall>ks. keys_are d ks \<longleftrightarrow> fst ` set ?e = set ks"
    by (elim exE conjE)
  have "keys_are m' [''version'', ''request_id'', ''ok'', ''error'']" "set (map u [''version'', ''request_id'', ''ok'']) \<subseteq> set (dict_keys m')"
    unfolding c by (auto simp: m keys_are_simps)
  moreover have "field m' ''version'' = JInt WIRE_VERSION" "field m' ''request_id'' = JInt rid" "field m' ''ok'' = JBool False"
    "field m' ''error'' = JObj d"
    by (simp_all add: c(1) m d(1))
  moreover have "decode_remote_error (JObj d) = RemoteVisaError knd code msg"
    using ne by (simp add: decode_remote_error_def d(2,3))
  ultimately have "decode_response m' rid = Inl (RemoteVisaError knd code msg)"
    using rid by (simp add: decode_response_def valid_request_id_def)
  with t show ?thesis by blast
qed

end
