(* ===== verification/Visa_Journal.thy ===== *)
theory Visa_Journal
  imports Wire_Protocol
begin

text \<open>
  The hash-chained journal of the PyVISA evaluator, version 2
  (\<^verbatim>\<open>sources/pyvisa/pyvisa_dut_validation_v2/journal.py\<close>). The clock is a function from the number of a
  reading to the reading; a journal counts the readings taken so far. \<^verbatim>\<open>append\<close> copies the fields
  through JSON, which puts the keys of every object in order (\<open>canon\<close>, see \<open>visa_copy\<close>). The lemmas
  show that the sequence numbers count up, that the hashes chain and that every event's hash is
  the digest of its own record.
\<close>

definition VISA_GENESIS_HASH :: string where "VISA_GENESIS_HASH = replicate 64 (CHR ''0'')"

definition visa_canonical :: "runtime \<Rightarrow> ustr json \<Rightarrow> string" where
  \<comment> \<open>\<^verbatim>\<open>json.dumps(value, sort_keys=True, separators=(",", ":"), ensure_ascii=True).encode("utf-8")\<close>\<close>
  "visa_canonical rt v = ascii_text (udumps True (float_repr rt) v)"

record VisaEvent =
  ve_run_id :: ustr
  ve_world_id :: ustr
  ve_sequence :: int
  ve_time :: int
  ve_previous :: string
  ve_kind :: string
  ve_fields :: uobj
  ve_hash :: string

record VisaJournal =
  vj_run_id :: ustr
  vj_world_id :: ustr
  vj_events :: "VisaEvent list"
  vj_readings :: nat

definition visa_unsigned :: "VisaEvent \<Rightarrow> uobj" where
  "visa_unsigned e =
     [(u ''run_id'', JStr (ve_run_id e)), (u ''world_id'', JStr (ve_world_id e)),
      (u ''sequence'', JInt (ve_sequence e)), (u ''monotonic_ns'', JInt (ve_time e)),
      (u ''previous_hash'', jstr (ve_previous e)), (u ''kind'', jstr (ve_kind e)),
      (u ''fields'', JObj (ve_fields e))]"

definition visa_to_dict :: "VisaEvent \<Rightarrow> uobj" where
  "visa_to_dict e = visa_unsigned e @ [(u ''event_hash'', jstr (ve_hash e))]"

definition new_visa_journal :: "ustr \<Rightarrow> ustr \<Rightarrow> string + VisaJournal" where
  "new_visa_journal run world =
     (if run = [] \<or> world = [] then Inl ''run_id and world_id must not be empty''
      else Inr \<lparr>vj_run_id = run, vj_world_id = world, vj_events = [], vj_readings = 0\<rparr>)"

definition visa_final_hash :: "VisaJournal \<Rightarrow> string" where
  "visa_final_hash j = (if vj_events j = [] then VISA_GENESIS_HASH else ve_hash (last (vj_events j)))"

definition visa_copied :: "uobj \<Rightarrow> uobj" where
  \<comment> \<open>\<^verbatim>\<open>json.loads(_canonical(fields))\<close>\<close>
  "visa_copied fs = sort_key fst (map (\<lambda>(k, v). (k, canon v)) fs)"

definition read_clock :: "VisaJournal \<Rightarrow> VisaJournal" where
  \<comment> \<open>a reading outside \<^verbatim>\<open>append\<close>\<close>
  "read_clock j = j\<lparr>vj_readings := Suc (vj_readings j)\<rparr>"

definition visa_append ::
  "runtime \<Rightarrow> (nat \<Rightarrow> int) \<Rightarrow> string \<Rightarrow> uobj \<Rightarrow> VisaJournal \<Rightarrow> VisaJournal" where
  \<comment> \<open>for a non-empty kind, the only ones the sources use\<close>
  "visa_append rt clock knd fs j =
     (let draft = \<lparr>ve_run_id = vj_run_id j, ve_world_id = vj_world_id j,
            ve_sequence = int (length (vj_events j)) + 1, ve_time = clock (vj_readings j),
            ve_previous = visa_final_hash j, ve_kind = knd, ve_fields = visa_copied fs, ve_hash = []\<rparr>;
          digest = sha256 rt (visa_canonical rt (JObj (visa_unsigned draft))) in
      (read_clock j)\<lparr>vj_events := vj_events j @ [draft\<lparr>ve_hash := digest\<rparr>]\<rparr>)"

definition visa_export :: "runtime \<Rightarrow> VisaJournal \<Rightarrow> string" where
  \<comment> \<open>the content of the exported file\<close>
  "visa_export rt j = concat (map (\<lambda>e. visa_canonical rt (JObj (visa_to_dict e)) @ [CHR 0x0A]) (vj_events j))"

definition plain_hooks :: hooks where
  \<comment> \<open>\<^verbatim>\<open>json.loads\<close> without hooks; of a repeated key the last value counts\<close>
  "plain_hooks = \<lparr>pairs_hook = (\<lambda>kvs. Some (JObj (fold (\<lambda>(k, v). AList.update k v) kvs []))),
     constant_hook = (\<lambda>x. Some (JFloat x)), int_hook = parse_int\<rparr>"

lemma visa_append_simps [simp]:
  "vj_run_id (visa_append rt clock knd fs j) = vj_run_id j"
  "vj_world_id (visa_append rt clock knd fs j) = vj_world_id j"
  "vj_readings (visa_append rt clock knd fs j) = Suc (vj_readings j)"
  "map ve_kind (vj_events (visa_append rt clock knd fs j)) = map ve_kind (vj_events j) @ [knd]"
  by (simp_all add: visa_append_def read_clock_def Let_def)

lemma read_clock_simps [simp]:
  "vj_events (read_clock j) = vj_events j" "vj_run_id (read_clock j) = vj_run_id j"
  "vj_world_id (read_clock j) = vj_world_id j" "vj_readings (read_clock j) = Suc (vj_readings j)"
  by (simp_all add: read_clock_def)

text \<open>The literal copy through JSON text is \<open>visa_copied\<close> wherever the text can be read back.\<close>

lemma fold_update_distinct:
  "distinct (map fst (acc @ kvs)) \<Longrightarrow> fold (\<lambda>(k, v). AList.update k v) kvs acc = acc @ kvs"
proof (induction kvs arbitrary: acc)
  case (Cons kv kvs)
  obtain k v where kv: "kv = (k, v)" by (cases kv)
  have "AList.update k v acc = acc @ [(k, v)]"
    using Cons.prems by (induction acc) (auto simp: kv)
  with Cons.IH [of "acc @ [(k, v)]"] Cons.prems show ?case by (simp add: kv)
qed simp

lemma visa_copy:
  assumes "readable plain_hooks (float_repr rt) (JObj fs)" and "nested_within limit (JObj fs)"
  shows "loads plain_hooks limit (udumps True (float_repr rt) (JObj fs)) = Inr (JObj (visa_copied fs))"
proof -
  have "pairs_hook plain_hooks kvs = Some (JObj kvs)" if "distinct (map fst kvs)" for kvs
    using fold_update_distinct [of "[]" kvs] that by (simp add: plain_hooks_def)
  from loads_udumps [OF this assms] show ?thesis by (simp add: visa_copied_def)
qed

section \<open>The chain\<close>

definition event_sound :: "runtime \<Rightarrow> VisaEvent \<Rightarrow> bool" where
  \<comment> \<open>the hash is the digest of the event's own record\<close>
  "event_sound rt e = (ve_hash e = sha256 rt (visa_canonical rt (JObj (visa_unsigned e))))"

fun chained :: "string \<Rightarrow> int \<Rightarrow> VisaEvent list \<Rightarrow> bool" where
  \<comment> \<open>each event carries the hash of the one before it and the next number\<close>
  "chained previous n [] = True"
| "chained previous n (e # es) = (ve_previous e = previous \<and> ve_sequence e = n \<and> chained (ve_hash e) (n + 1) es)"

definition journal_sound :: "runtime \<Rightarrow> VisaJournal \<Rightarrow> bool" where
  "journal_sound rt j =
     (chained VISA_GENESIS_HASH 1 (vj_events j) \<and>
      list_all (\<lambda>e. event_sound rt e \<and> ve_run_id e = vj_run_id j \<and> ve_world_id e = vj_world_id j) (vj_events j))"

lemma chained_append:
  "chained p n (es @ [e]) \<longleftrightarrow> chained p n es \<and>
     ve_previous e = (if es = [] then p else ve_hash (last es)) \<and> ve_sequence e = n + int (length es)"
  by (induction es arbitrary: p n) auto

lemma visa_unsigned_hash [simp]: "visa_unsigned (e\<lparr>ve_hash := h\<rparr>) = visa_unsigned e"
  by (simp add: visa_unsigned_def)

lemma journal_sound_append: "journal_sound rt j \<Longrightarrow> journal_sound rt (visa_append rt clock knd fs j)"
  by (auto simp: journal_sound_def visa_append_def Let_def chained_append event_sound_def visa_final_hash_def visa_unsigned_def)

definition timed :: "(nat \<Rightarrow> int) \<Rightarrow> VisaJournal \<Rightarrow> bool" where
  \<comment> \<open>the events carry clock readings in order, all of them already taken\<close>
  "timed clock j = (\<exists>ns. sorted_wrt (<) ns \<and> list_all (\<lambda>n. n < vj_readings j) ns \<and> map ve_time (vj_events j) = map clock ns)"

lemma timed_append: "timed clock j \<Longrightarrow> timed clock (visa_append rt clock knd fs j)"
proof -
  assume "timed clock j"
  then obtain ns where ns: "sorted_wrt (<) ns" "list_all (\<lambda>n. n < vj_readings j) ns" "map ve_time (vj_events j) = map clock ns"
    by (auto simp: timed_def)
  have "sorted_wrt (<) (ns @ [vj_readings j])" using ns(1,2) by (auto simp: sorted_wrt_append list_all_iff)
  moreover have "list_all (\<lambda>n. n < Suc (vj_readings j)) (ns @ [vj_readings j])"
    using ns(2) by (auto simp: list_all_iff)
  moreover have "map ve_time (vj_events (visa_append rt clock knd fs j)) = map clock (ns @ [vj_readings j])"
    using ns(3) by (simp add: visa_append_def Let_def)
  ultimately show ?thesis unfolding timed_def by (intro exI [of _ "ns @ [vj_readings j]"]) simp
qed

lemma timed_read: "timed clock j \<Longrightarrow> timed clock (read_clock j)"
  by (fastforce simp: timed_def list_all_iff)

end
