(* ===== verification/Visa_Broker.thy ===== *)
theory Visa_Broker
  imports Visa_Journal
begin

text \<open>
  The broker of the PyVISA evaluator, version 2
  (\<^verbatim>\<open>sources/pyvisa/pyvisa_dut_validation_v2/broker.py\<close> and \<^verbatim>\<open>query_filter.py\<close>). A broker holds its connections,
  their sessions, the counters of its limits, the journal and the state of the VISA library. The
  library is a parameter: each call returns its new state, the journal entries its hooks append
  and a result or an exception. Code that changes the broker and may raise is an \<open>action\<close>, a
  function from the broker to the broker and a result.

  A request runs in three phases, because only the middle one holds the operation lock:
  \<open>begin_request\<close> counts and journals it, \<open>run_request\<close> checks and performs it, \<open>report_request\<close>
  journals the outcome. \<open>broker_dispatch\<close> is their sequence; the phases of several connections
  interleave.
\<close>

section \<open>Exceptions, library and environment\<close>

datatype lib_exc = LibVisaIOError int | LibCommandRejected int | LibArgumentError | LibOther string

datatype broker_exc =
    CandidateRequestError string int string
  | VisaIOError int
  | CommandRejected int
  | ResourceQueryRejected string int
  | ArgumentError \<comment> \<open>\<^verbatim>\<open>TypeError\<close>, \<^verbatim>\<open>ValueError\<close> and \<^verbatim>\<open>KeyError\<close>\<close>
  | TrustedError string \<comment> \<open>any other exception, with the name of its type\<close>

definition raised :: "lib_exc \<Rightarrow> broker_exc" where
  "raised e = (case e of LibVisaIOError n \<Rightarrow> VisaIOError n | LibCommandRejected n \<Rightarrow> CommandRejected n
     | LibArgumentError \<Rightarrow> ArgumentError | LibOther s \<Rightarrow> TrustedError s)"

datatype lib_value =
    LNone | LBool bool | LInt int | LFloat pyfloat | LStr ustr | LBytes string | LTuple "lib_value list" | LObject

type_synonym ('l, 'a) lib_run = "'l \<times> (string \<times> uobj) list \<times> (lib_exc + 'a)"

record 'l visalib =
  lib_open_manager :: "'l \<Rightarrow> ('l, int \<times> int) lib_run"
  lib_list_resources :: "'l \<Rightarrow> ('l, ustr list) lib_run"
  lib_open :: "int \<Rightarrow> ustr \<Rightarrow> int \<Rightarrow> int \<Rightarrow> 'l \<Rightarrow> ('l, int \<times> int) lib_run"
  lib_close :: "int \<Rightarrow> 'l \<Rightarrow> ('l, int) lib_run"
  lib_read :: "int \<Rightarrow> int \<Rightarrow> 'l \<Rightarrow> ('l, string \<times> int) lib_run"
  lib_write :: "string \<Rightarrow> int \<Rightarrow> string \<Rightarrow> 'l \<Rightarrow> ('l, int \<times> int) lib_run"
  lib_get_attribute :: "int \<Rightarrow> int \<Rightarrow> 'l \<Rightarrow> ('l, lib_value \<times> int) lib_run"
  lib_set_attribute :: "int \<Rightarrow> int \<Rightarrow> WireValue \<Rightarrow> 'l \<Rightarrow> ('l, int) lib_run"
  lib_disable_event :: "int \<Rightarrow> int \<Rightarrow> int \<Rightarrow> 'l \<Rightarrow> ('l, unit) lib_run"
  lib_discard_events :: "int \<Rightarrow> int \<Rightarrow> int \<Rightarrow> 'l \<Rightarrow> ('l, unit) lib_run"
  is_access_mode :: "int \<Rightarrow> bool"
  is_attribute :: "int \<Rightarrow> bool"
  is_event_type :: "int \<Rightarrow> bool"
  is_mechanism :: "int \<Rightarrow> bool"

text \<open>The status codes are those of \<^verbatim>\<open>pyvisa.constants\<close>.\<close>

record visa_codes =
  error_invalid_object :: int
  error_nonsupported_operation :: int
  error_resource_not_found :: int
  error_invalid_expression :: int

datatype worker_run = WorkerTimeout | WorkerDone int string

record 'l broker_env =
  be_runtime :: runtime
  be_clock :: "nat \<Rightarrow> int"
  be_lib :: "'l visalib"
  be_codes :: visa_codes
  be_worker :: "string \<Rightarrow> worker_run"
  be_json_text :: "string \<Rightarrow> ustr option"
  be_limit :: nat

section \<open>State\<close>

record RemoteSession =
  real_session :: int
  session_kind :: string

record ConnectionState =
  peer_uid :: int
  peer_gid :: int
  peer_pid :: int
  sessions :: "(ustr \<times> RemoteSession) list"
  request_count :: int
  closed :: bool

record broker_limits =
  max_connections :: int
  max_total_connections :: int
  max_requests_per_connection :: int
  max_total_requests :: int
  max_total_argument_bytes :: int

record BrokerSummary =
  bs_connections :: int
  bs_leaked_sessions :: int
  bs_frozen :: bool

record 'l RemoteVisaBroker =
  limits :: broker_limits
  connections :: "(ustr \<times> ConnectionState) list"
  states :: "ustr list"
  connection_count :: int
  total_requests :: int
  argument_bytes :: int
  leaked_session_count :: int
  frozen :: bool
  broker_summary :: "BrokerSummary option"
  fatal_error :: "string option"
  visa_journal :: VisaJournal
  library :: 'l

definition default_limits :: broker_limits where
  "default_limits = \<lparr>max_connections = 16, max_total_connections = 64, max_requests_per_connection = 256,
     max_total_requests = 256, max_total_argument_bytes = 512 * 1024\<rparr>"

definition new_broker :: "broker_limits \<Rightarrow> VisaJournal \<Rightarrow> 'l \<Rightarrow> broker_exc + 'l RemoteVisaBroker" where
  "new_broker ls j l =
     (if list_ex (\<lambda>n. n \<le> 0) [max_connections ls, max_total_connections ls, max_requests_per_connection ls,
           max_total_requests ls, max_total_argument_bytes ls]
      then Inl ArgumentError
      else Inr \<lparr>limits = ls, connections = [], states = [], connection_count = 0, total_requests = 0,
             argument_bytes = 0, leaked_session_count = 0, frozen = False, broker_summary = None,
             fatal_error = None, visa_journal = j, library = l\<rparr>)"

type_synonym ('l, 'a) action = "'l RemoteVisaBroker \<Rightarrow> 'l RemoteVisaBroker \<times> (broker_exc + 'a)"

definition ret :: "'a \<Rightarrow> ('l, 'a) action" where
  "ret x b = (b, Inr x)"

definition throw :: "broker_exc \<Rightarrow> ('l, 'a) action" where
  "throw e b = (b, Inl e)"

definition bind_act :: "('l, 'a) action \<Rightarrow> ('a \<Rightarrow> ('l, 'b) action) \<Rightarrow> ('l, 'b) action" where
  "bind_act m f b = (case m b of (b', Inl e) \<Rightarrow> (b', Inl e) | (b', Inr x) \<Rightarrow> f x b')"

definition guard_act :: "bool \<Rightarrow> broker_exc \<Rightarrow> ('l, unit) action" where
  "guard_act c e b = (b, if c then Inr () else Inl e)"

definition emit :: "'l broker_env \<Rightarrow> string \<Rightarrow> (string \<times> ustr json) list \<Rightarrow> ('l, unit) action" where
  \<comment> \<open>\<^verbatim>\<open>self.journal.append(kind, **fields)\<close>\<close>
  "emit env knd fs b =
     (b\<lparr>visa_journal := visa_append (be_runtime env) (be_clock env) knd (map (\<lambda>(k, v). (u k, v)) fs) (visa_journal b)\<rparr>, Inr ())"

definition call_library :: "'l broker_env \<Rightarrow> ('l \<Rightarrow> ('l, 'a) lib_run) \<Rightarrow> ('l, 'a) action" where
  \<comment> \<open>a call of the library, with what its hooks journal meanwhile\<close>
  "call_library env f b =
     (case f (library b) of (l, entries, r) \<Rightarrow>
        (b\<lparr>library := l,
           visa_journal := fold (\<lambda>(k, fs). visa_append (be_runtime env) (be_clock env) k fs) entries (visa_journal b)\<rparr>,
         map_sum raised id r))"

definition conn_of :: "'l RemoteVisaBroker \<Rightarrow> ustr \<Rightarrow> ConnectionState" where
  \<comment> \<open>the connection of a worker; every worker has one\<close>
  "conn_of b c = (case map_of (connections b) c of Some s \<Rightarrow> s
     | None \<Rightarrow> \<lparr>peer_uid = 0, peer_gid = 0, peer_pid = 0, sessions = [], request_count = 0, closed = True\<rparr>)"

definition put_conn :: "ustr \<Rightarrow> ConnectionState \<Rightarrow> 'l RemoteVisaBroker \<Rightarrow> 'l RemoteVisaBroker" where
  "put_conn c s b = b\<lparr>connections := AList.update c s (connections b)\<rparr>"

section \<open>Audit values\<close>

definition digest_of :: "runtime \<Rightarrow> string \<Rightarrow> ustr json" where
  "digest_of rt bytes = jstr (sha256 rt bytes)"

definition utf8_bytes :: "ustr \<Rightarrow> string" where
  \<comment> \<open>\<^verbatim>\<open>s.encode("utf-8")\<close> of a text without surrogates\<close>
  "utf8_bytes s = map char_of (concat (map utf8_char s))"

definition audit_text_token :: "runtime \<Rightarrow> ustr \<Rightarrow> ustr json" where
  "audit_text_token rt t =
     jobj [(''type'', jstr ''token''), (''length'', JInt (int (length t))), (''sha256'', digest_of rt (utf8_bytes t))]"

definition audit_token :: "runtime \<Rightarrow> WireValue option \<Rightarrow> ustr json" where
  "audit_token rt v = (case v of Some (WStr t) \<Rightarrow> audit_text_token rt t | _ \<Rightarrow> jobj [(''type'', jstr ''invalid_token'')])"

fun audit_value :: "runtime \<Rightarrow> bool \<Rightarrow> WireValue \<Rightarrow> ustr json" where
  "audit_value rt redact (WBytes b) =
     jobj ([(''type'', jstr ''bytes''), (''length'', JInt (int (length b))), (''sha256'', digest_of rt b)] @
           (if redact then [] else [(''base64'', jstr (b64_encode b))]))"
| "audit_value rt redact (WStr s) =
     (if redact then jobj [(''type'', jstr ''string''), (''length'', JInt (int (length s))),
            (''utf8_length'', JInt (int (length (utf8_bytes s)))), (''sha256'', digest_of rt (utf8_bytes s))]
      else JStr s)"
| "audit_value rt redact (WTuple vs) = JList (map (audit_value rt redact) vs)"
| "audit_value rt redact WNone = JNull"
| "audit_value rt redact (WBool b) = JBool b"
| "audit_value rt redact (WInt n) = JInt n"
| "audit_value rt redact (WFloat x) = JFloat x"

definition audit_mapping :: "runtime \<Rightarrow> wire_args \<Rightarrow> uobj" where
  "audit_mapping rt args =
     map (\<lambda>(k, v). (k, if k = u ''session'' then audit_token rt (Some v) else audit_value rt False v)) args"

definition audit_operation :: "runtime \<Rightarrow> bool \<Rightarrow> ustr \<Rightarrow> ustr json" where
  "audit_operation rt redact op = audit_value rt redact (WStr op)"

definition audit_rejected_mapping :: "runtime \<Rightarrow> wire_args \<Rightarrow> ustr json" where
  "audit_rejected_mapping rt args =
     jobj [(''type'', jstr ''redacted_mapping''), (''entries'', JInt (int (length args))),
           (''keys_sha256'', digest_of rt (ascii_text (udumps True (float_repr rt) (JList (map JStr (sort (map fst args)))))))]"

fun wire_value :: "lib_value \<Rightarrow> broker_exc + WireValue" where
  "wire_value LNone = Inr WNone"
| "wire_value (LBool b) = Inr (WBool b)"
| "wire_value (LInt n) = Inr (WInt n)"
| "wire_value (LFloat x) = Inr (WFloat x)"
| "wire_value (LStr s) = Inr (WStr s)"
| "wire_value (LBytes b) = Inr (WBytes b)"
| "wire_value (LTuple vs) = bind_res (traverse wire_value vs) (\<lambda>ws. Inr (WTuple ws))"
| "wire_value LObject = Inl (TrustedError ''RuntimeError'')"

definition wire_int :: "wire_args \<Rightarrow> string \<Rightarrow> int option \<Rightarrow> broker_exc + int" where
  \<comment> \<open>\<^verbatim>\<open>_integer(args[name], minimum=...)\<close>; the key is known to be there\<close>
  "wire_int args name minimum = (case map_of args (u name) of
     Some (WInt n) \<Rightarrow> (case minimum of Some m \<Rightarrow> if n < m then Inl ArgumentError else Inr n | None \<Rightarrow> Inr n)
   | _ \<Rightarrow> Inl ArgumentError)"

definition wire_str :: "wire_args \<Rightarrow> string \<Rightarrow> broker_exc + ustr" where
  \<comment> \<open>\<^verbatim>\<open>_string(args[name])\<close>\<close>
  "wire_str args name = (case map_of args (u name) of
     Some (WStr s) \<Rightarrow> if s = [] then Inl ArgumentError else Inr s
   | _ \<Rightarrow> Inl ArgumentError)"

definition lift_res :: "broker_exc + 'a \<Rightarrow> ('l, 'a) action" where
  "lift_res r b = (b, r)"

section \<open>Resource queries\<close>

definition MAX_QUERY_BYTES :: int where "MAX_QUERY_BYTES = 256"

definition query_payload :: "runtime \<Rightarrow> ustr list \<Rightarrow> ustr \<Rightarrow> string" where
  "query_payload rt resources query =
     visa_canonical rt (jobj [(''resources'', JList (map JStr resources)), (''query'', JStr query)])"

definition worker_failed :: "broker_exc + 'a" where
  "worker_failed = Inl (TrustedError ''RuntimeError'')"

definition checked_resources :: "ustr list \<Rightarrow> ustr json list \<Rightarrow> broker_exc + ustr list" where
  "checked_resources resources vs =
     traverse (\<lambda>v. case v of JStr s \<Rightarrow> if s \<in> set resources then Inr s else worker_failed | _ \<Rightarrow> worker_failed) vs"

definition worker_result :: "ustr list \<Rightarrow> ustr json \<Rightarrow> broker_exc + ustr list" where
  "worker_result resources result = (case result of
     JObj d \<Rightarrow>
       if keys_are d [''error_code''] then
         (case field d ''error_code'' of
            JInt code \<Rightarrow> Inl (ResourceQueryRejected ''invalid_expression'' code)
          | _ \<Rightarrow> worker_failed)
       else if keys_are d [''resources''] then
         (case field d ''resources'' of JList vs \<Rightarrow> checked_resources resources vs | _ \<Rightarrow> worker_failed)
       else worker_failed
   | _ \<Rightarrow> worker_failed)"

definition filter_resources :: "'l broker_env \<Rightarrow> ustr list \<Rightarrow> ustr \<Rightarrow> broker_exc + ustr list" where
  \<comment> \<open>an answer of the worker with an integer of more than 4300 digits, which would be a \<^verbatim>\<open>ValueError\<close>
      of its own, counts as an invalid one\<close>
  "filter_resources env resources query =
     (if MAX_QUERY_BYTES < int (length (utf8_bytes query))
      then Inl (ResourceQueryRejected ''query_length'' (error_invalid_expression (be_codes env)))
      else case be_worker env (query_payload (be_runtime env) resources query) of
        WorkerTimeout \<Rightarrow> Inl (ResourceQueryRejected ''query_timeout'' (error_invalid_expression (be_codes env)))
      | WorkerDone code out \<Rightarrow>
          if code \<noteq> 0 \<or> 64 * 1024 < length out then worker_failed
          else case be_json_text env out of
            None \<Rightarrow> worker_failed
          | Some t \<Rightarrow> (case loads plain_hooks (be_limit env) t of
                Inl ValueError \<Rightarrow> worker_failed
              | Inl RecursionError \<Rightarrow> Inl (TrustedError ''RecursionError'')
              | Inr result \<Rightarrow> worker_result resources result))"

definition query_worker ::
  "runtime \<Rightarrow> (string \<Rightarrow> ustr option) \<Rightarrow> nat \<Rightarrow> (ustr list \<Rightarrow> ustr \<Rightarrow> int + ustr list) \<Rightarrow> string \<Rightarrow> worker_run" where
  \<comment> \<open>the worker process; the fourth argument is \<^verbatim>\<open>pyvisa.rname.filter\<close>, on the left the code of its error\<close>
  "query_worker rt json_text limit rname input =
     (case json_text (take (64 * 1024 + 1) input) of
        None \<Rightarrow> WorkerDone 70 []
      | Some t \<Rightarrow>
          (case loads plain_hooks limit t of
             Inl _ \<Rightarrow> WorkerDone 70 []
           | Inr (JObj d) \<Rightarrow>
               if \<not> keys_are d [''resources'', ''query''] then WorkerDone 64 []
               else (case (field d ''resources'', field d ''query'') of
                   (JList vs, JStr query) \<Rightarrow>
                     if list_all (\<lambda>v. str_of v \<noteq> None) vs then
                       WorkerDone 0 (visa_canonical rt
                         (case rname (map (\<lambda>v. the (str_of v)) vs) query of
                            Inr filtered \<Rightarrow> jobj [(''resources'', JList (map JStr filtered))]
                          | Inl code \<Rightarrow> jobj [(''error_code'', JInt code)]))
                     else WorkerDone 64 []
                 | _ \<Rightarrow> WorkerDone 64 [])
           | Inr _ \<Rightarrow> WorkerDone 64 []))"

section \<open>Connections\<close>

definition new_connection ::
  "'l broker_env \<Rightarrow> ustr \<Rightarrow> int \<Rightarrow> int \<Rightarrow> int \<Rightarrow> ('l, unit) action" where
  \<comment> \<open>the second argument is the fresh identifier\<close>
  "new_connection env c uid gid pid b =
     (let peer = [(''peer_uid'', JInt uid), (''peer_gid'', JInt gid), (''peer_pid'', JInt pid)] in
      if frozen b then (b, Inl (TrustedError ''RuntimeError''))
      else if max_total_connections (limits b) \<le> connection_count b \<or> max_connections (limits b) \<le> int (length (states b))
      then bind_act (emit env ''connection.reject'' ((''reason'', jstr ''connection_limit'') # peer)) (\<lambda>_.
             throw (CandidateRequestError ''connection_limit'' (error_nonsupported_operation (be_codes env))
               ''connection limit exceeded'')) b
      else emit env ''connection.open'' ((''connection_id'', JStr c) # peer)
             (put_conn c \<lparr>peer_uid = uid, peer_gid = gid, peer_pid = pid, sessions = [], request_count = 0, closed = False\<rparr>
               (b\<lparr>states := states b @ [c], connection_count := connection_count b + 1\<rparr>)))"

definition traffic_limit_reached :: "'l RemoteVisaBroker \<Rightarrow> bool" where
  "traffic_limit_reached b =
     (max_total_connections (limits b) \<le> connection_count b \<or> max_total_requests (limits b) \<le> total_requests b \<or>
      max_total_argument_bytes (limits b) \<le> argument_bytes b)"

definition effective_uid :: "int \<Rightarrow> int \<Rightarrow> int \<Rightarrow> int" where
  "effective_uid candidate_uid readiness_uid uid =
     (if uid = candidate_uid then 10001 else if uid = readiness_uid then 11001 else uid)"

definition accept_connection ::
  "'l broker_env \<Rightarrow> int \<Rightarrow> int \<Rightarrow> ustr \<Rightarrow> int \<Rightarrow> int \<Rightarrow> int \<Rightarrow> ('l, bool) action" where
  \<comment> \<open>one turn of the loop of \<^verbatim>\<open>serve_unix\<close> with a client waiting: whether a worker starts for it\<close>
  "accept_connection env candidate_uid readiness_uid c uid gid pid b =
     (if traffic_limit_reached b then (b, Inr False)
      else case new_connection env c (effective_uid candidate_uid readiness_uid uid) gid pid b of
        (b', Inr _) \<Rightarrow> (b', Inr True)
      | (b', Inl (CandidateRequestError _ _ _)) \<Rightarrow> (b', Inr False)
      | (b', Inl e) \<Rightarrow> (b', Inl e))"

definition announce :: "'l broker_env \<Rightarrow> string \<Rightarrow> ('l, unit) action" where
  \<comment> \<open>what \<^verbatim>\<open>serve_unix\<close> journals once its socket is bound\<close>
  "announce env path =
     bind_act (emit env ''lifecycle.socket_bound'' [(''endpoint_name'', jstr path), (''mode'', jstr ''0666'')]) (\<lambda>_.
     emit env ''broker.ready'' [(''endpoint_name'', jstr path)])"

fun close_all :: "'l broker_env \<Rightarrow> ustr \<Rightarrow> (ustr \<times> RemoteSession) list \<Rightarrow> ('l, unit) action" where
  \<comment> \<open>the loop of \<^verbatim>\<open>disconnect\<close>\<close>
  "close_all env c [] = ret ()"
| "close_all env c ((token, remote) # rest) =
     bind_act (call_library env (lib_close (be_lib env) (real_session remote))) (\<lambda>status.
     bind_act (emit env ''session.forced_cleanup''
        [(''connection_id'', JStr c), (''session'', audit_text_token (be_runtime env) token),
         (''session_kind'', jstr (session_kind remote)), (''status'', JInt status)]) (\<lambda>_.
     close_all env c rest))"

definition disconnect :: "'l broker_env \<Rightarrow> ustr \<Rightarrow> ('l, int) action" where
  "disconnect env c b =
     (let s = conn_of b c; leaked = int (length (sessions s)) in
      if closed s then (b, Inr 0)
      else bind_act (close_all env c (rev (sessions s))) (\<lambda>_.
           bind_act (\<lambda>b. (put_conn c ((conn_of b c)\<lparr>sessions := [], closed := True\<rparr>)
               (b\<lparr>leaked_session_count := leaked_session_count b + leaked\<rparr>), Inr ())) (\<lambda>_.
           bind_act (emit env ''connection.close'' [(''connection_id'', JStr c), (''leaked_sessions'', JInt leaked)]) (\<lambda>_.
           (\<lambda>b. (b\<lparr>states := remove1 c (states b)\<rparr>, Inr leaked))))) b)"

section \<open>Operations\<close>

definition OPERATIONS :: "string list" where
  \<comment> \<open>in the order of \<^verbatim>\<open>sorted(OPERATIONS)\<close>\<close>
  "OPERATIONS = [''close'', ''disable_event'', ''discard_events'', ''get_attribute'', ''list_resources'', ''open'',
     ''open_default_resource_manager'', ''read'', ''set_attribute'', ''write'']"

definition exact_args :: "'l broker_env \<Rightarrow> wire_args \<Rightarrow> string list \<Rightarrow> ('l, unit) action" where
  "exact_args env args ks =
     guard_act (has_keys args (map u ks))
       (CandidateRequestError ''invalid_arguments'' (error_invalid_object (be_codes env)) ''invalid arguments'')"

definition session_named :: "ConnectionState \<Rightarrow> wire_args \<Rightarrow> (ustr \<times> int) option" where
  "session_named s args = (case map_of args (u ''session'') of
     Some (WStr t) \<Rightarrow> map_option (\<lambda>r. (t, real_session r)) (map_of (sessions s) t)
   | _ \<Rightarrow> None)"

definition find_session :: "'l broker_env \<Rightarrow> ustr \<Rightarrow> wire_args \<Rightarrow> ('l, ustr \<times> int) action" where
  \<comment> \<open>\<^verbatim>\<open>_session\<close>: a session of this very connection\<close>
  "find_session env c args b =
     (case session_named (conn_of b c) args of
        Some tr \<Rightarrow> (b, Inr tr)
      | None \<Rightarrow> bind_act (emit env ''session.invalid_access''
             [(''connection_id'', JStr c), (''session'', audit_token (be_runtime env) (map_of args (u ''session'')))]) (\<lambda>_.
           throw (CandidateRequestError ''invalid_session'' (error_invalid_object (be_codes env)) ''invalid session'')) b)"

definition add_session ::
  "'l broker_env \<Rightarrow> ustr \<Rightarrow> ustr \<Rightarrow> int \<Rightarrow> string \<Rightarrow> (string \<times> ustr json) list \<Rightarrow> ('l, WireValue) action" where
  \<comment> \<open>\<^verbatim>\<open>_token\<close>: the second text is the token drawn\<close>
  "add_session env c token session knd extra b =
     (let s = conn_of b c in
      bind_act (emit env ''session.open''
        ([(''connection_id'', JStr c), (''session'', audit_text_token (be_runtime env) token), (''session_kind'', jstr knd)] @ extra))
        (\<lambda>_. ret (WStr token))
        (put_conn c (s\<lparr>sessions := AList.update token \<lparr>real_session = session, session_kind = knd\<rparr> (sessions s)\<rparr>) b))"

type_synonym broker_reply = "WireValue \<times> int option"

definition broker_open_manager :: "'l broker_env \<Rightarrow> ustr \<Rightarrow> ustr \<Rightarrow> wire_args \<Rightarrow> ('l, broker_reply) action" where
  "broker_open_manager env c token args =
     bind_act (exact_args env args []) (\<lambda>_.
     bind_act (call_library env (lib_open_manager (be_lib env))) (\<lambda>(session, status).
     bind_act (add_session env c token session ''resource_manager'' []) (\<lambda>t. ret (t, Some status))))"

definition broker_list_resources :: "'l broker_env \<Rightarrow> ustr \<Rightarrow> wire_args \<Rightarrow> ('l, broker_reply) action" where
  "broker_list_resources env c args =
     (let reject = (\<lambda>reason code. emit env ''resource_query.reject''
            [(''connection_id'', JStr c), (''reason'', jstr reason), (''code'', JInt code)]);
          missing = error_resource_not_found (be_codes env) in
      bind_act (exact_args env args [''session'', ''query'']) (\<lambda>_.
      bind_act (lift_res (wire_str args ''query'')) (\<lambda>query.
      bind_act (call_library env (lib_list_resources (be_lib env))) (\<lambda>resources.
      bind_act (emit env ''resource_query.request''
        [(''connection_id'', JStr c), (''query_length'', JInt (int (length query))),
         (''query_sha256'', digest_of (be_runtime env) (utf8_bytes query))]) (\<lambda>_.
      case filter_resources env resources query of
        Inl (ResourceQueryRejected reason code) \<Rightarrow>
          bind_act (reject reason code) (\<lambda>_. throw (ResourceQueryRejected reason code))
      | Inl e \<Rightarrow> throw e
      | Inr filtered \<Rightarrow>
          if filtered = [] then bind_act (reject ''no_match'' missing) (\<lambda>_. throw (VisaIOError missing))
          else bind_act (emit env ''resource_query.result''
                 [(''connection_id'', JStr c), (''matched'', JInt (int (length filtered)))]) (\<lambda>_.
               ret (WTuple (map WStr filtered), None)))))))"

definition broker_open :: "'l broker_env \<Rightarrow> ustr \<Rightarrow> ustr \<Rightarrow> ustr \<Rightarrow> int \<Rightarrow> wire_args \<Rightarrow> ('l, broker_reply) action" where
  "broker_open env c token parent session args =
     bind_act (exact_args env args [''session'', ''resource_name'', ''access_mode'', ''open_timeout'']) (\<lambda>_.
     bind_act (lift_res (wire_str args ''resource_name'')) (\<lambda>resource.
     bind_act (lift_res (wire_int args ''access_mode'' (Some 0))) (\<lambda>mode.
     bind_act (guard_act (is_access_mode (be_lib env) mode) ArgumentError) (\<lambda>_.
     bind_act (lift_res (wire_int args ''open_timeout'' (Some 0))) (\<lambda>timeout.
     bind_act (call_library env (lib_open (be_lib env) session resource mode timeout)) (\<lambda>(opened, status).
     bind_act (add_session env c token opened ''resource''
        [(''parent_session'', audit_text_token (be_runtime env) parent), (''resource_name'', JStr resource)]) (\<lambda>t.
     ret (t, Some status))))))))"

definition broker_close :: "'l broker_env \<Rightarrow> ustr \<Rightarrow> ustr \<Rightarrow> int \<Rightarrow> wire_args \<Rightarrow> ('l, broker_reply) action" where
  "broker_close env c token session args =
     bind_act (exact_args env args [''session'']) (\<lambda>_.
     bind_act (call_library env (lib_close (be_lib env) session)) (\<lambda>status.
     bind_act (\<lambda>b. let s = conn_of b c in
         (put_conn c (s\<lparr>sessions := AList.delete token (sessions s)\<rparr>) b, Inr (map_of (sessions s) token))) (\<lambda>remote.
     bind_act (emit env ''session.close''
       [(''connection_id'', JStr c), (''session'', audit_text_token (be_runtime env) token),
        (''session_kind'', jstr (case remote of Some r \<Rightarrow> session_kind r | None \<Rightarrow> [])), (''source'', jstr ''candidate''),
        (''status'', JInt status)]) (\<lambda>_.
     ret (WNone, Some status)))))"

definition broker_read :: "'l broker_env \<Rightarrow> ustr \<Rightarrow> ustr \<Rightarrow> int \<Rightarrow> wire_args \<Rightarrow> ('l, broker_reply) action" where
  "broker_read env c token session args =
     (let who = [(''connection_id'', JStr c), (''session'', audit_text_token (be_runtime env) token)] in
      bind_act (exact_args env args [''session'', ''count'']) (\<lambda>_.
      bind_act (lift_res (wire_int args ''count'' (Some 1))) (\<lambda>n.
      bind_act (emit env ''scpi.read'' (who @ [(''count'', JInt n)])) (\<lambda>_.
      bind_act (call_library env (lib_read (be_lib env) session n)) (\<lambda>(data, status).
      bind_act (emit env ''scpi.read_result''
        (who @ [(''payload'', audit_value (be_runtime env) False (WBytes data)), (''status'', JInt status)])) (\<lambda>_.
      ret (WBytes data, Some status)))))))"

definition broker_write :: "'l broker_env \<Rightarrow> ustr \<Rightarrow> ustr \<Rightarrow> int \<Rightarrow> wire_args \<Rightarrow> ('l, broker_reply) action" where
  "broker_write env c token session args =
     (let who = [(''connection_id'', JStr c), (''session'', audit_text_token (be_runtime env) token)] in
      bind_act (exact_args env args [''session'', ''data'']) (\<lambda>_.
      case map_of args (u ''data'') of
        Some (WBytes data) \<Rightarrow>
          bind_act (emit env ''scpi.write'' (who @ [(''payload'', audit_value (be_runtime env) False (WBytes data))])) (\<lambda>_.
          bind_act (call_library env (lib_write (be_lib env) (sha256 (be_runtime env) (utf8_bytes token)) session data)) (\<lambda>(n, status).
          bind_act (emit env ''scpi.write_result'' (who @ [(''count'', JInt n), (''status'', JInt status)])) (\<lambda>_.
          ret (WInt n, Some status))))
      | _ \<Rightarrow> throw ArgumentError))"

definition broker_get_attribute :: "'l broker_env \<Rightarrow> int \<Rightarrow> wire_args \<Rightarrow> ('l, broker_reply) action" where
  "broker_get_attribute env session args =
     bind_act (exact_args env args [''session'', ''attribute'']) (\<lambda>_.
     bind_act (lift_res (wire_int args ''attribute'' None)) (\<lambda>a.
     bind_act (guard_act (is_attribute (be_lib env) a) ArgumentError) (\<lambda>_.
     bind_act (call_library env (lib_get_attribute (be_lib env) session a)) (\<lambda>(v, status).
     bind_act (lift_res (wire_value v)) (\<lambda>w. ret (w, Some status))))))"

definition broker_set_attribute :: "'l broker_env \<Rightarrow> int \<Rightarrow> wire_args \<Rightarrow> ('l, broker_reply) action" where
  "broker_set_attribute env session args =
     bind_act (exact_args env args [''session'', ''attribute'', ''attribute_state'']) (\<lambda>_.
     bind_act (lift_res (wire_int args ''attribute'' None)) (\<lambda>a.
     bind_act (guard_act (is_attribute (be_lib env) a) ArgumentError) (\<lambda>_.
     case map_of args (u ''attribute_state'') of
       None \<Rightarrow> throw ArgumentError
     | Some v \<Rightarrow>
         bind_act (call_library env (lib_set_attribute (be_lib env) session a v)) (\<lambda>status. ret (WNone, Some status)))))"

definition broker_events ::
  "'l broker_env \<Rightarrow> (int \<Rightarrow> int \<Rightarrow> int \<Rightarrow> 'l \<Rightarrow> ('l, unit) lib_run) \<Rightarrow> int \<Rightarrow> wire_args \<Rightarrow> ('l, broker_reply) action" where
  \<comment> \<open>\<^verbatim>\<open>disable_event\<close> and \<^verbatim>\<open>discard_events\<close>\<close>
  "broker_events env f session args =
     bind_act (exact_args env args [''session'', ''event_type'', ''mechanism'']) (\<lambda>_.
     bind_act (lift_res (wire_int args ''event_type'' None)) (\<lambda>e.
     bind_act (guard_act (is_event_type (be_lib env) e) ArgumentError) (\<lambda>_.
     bind_act (lift_res (wire_int args ''mechanism'' None)) (\<lambda>m.
     bind_act (guard_act (is_mechanism (be_lib env) m) ArgumentError) (\<lambda>_.
     bind_act (call_library env (f session e m)) (\<lambda>_. ret (WNone, None)))))))"

definition invoke :: "'l broker_env \<Rightarrow> ustr \<Rightarrow> ustr \<Rightarrow> ustr \<Rightarrow> wire_args \<Rightarrow> ('l, broker_reply) action" where
  "invoke env c token op args =
     (if op = u ''open_default_resource_manager'' then broker_open_manager env c token args
      else bind_act (find_session env c args) (\<lambda>(t, session).
        if op = u ''list_resources'' then broker_list_resources env c args
        else if op = u ''open'' then broker_open env c token t session args
        else if op = u ''close'' then broker_close env c t session args
        else if op = u ''read'' then broker_read env c t session args
        else if op = u ''write'' then broker_write env c t session args
        else if op = u ''get_attribute'' then broker_get_attribute env session args
        else if op = u ''set_attribute'' then broker_set_attribute env session args
        else if op = u ''disable_event'' then broker_events env (lib_disable_event (be_lib env)) session args
        else broker_events env (lib_discard_events (be_lib env)) session args))"

section \<open>Requests\<close>

record pending_request =
  p_operation :: ustr
  p_args :: wire_args
  p_audited :: "ustr json"
  p_limited :: bool
  p_started :: int

definition args_size :: "runtime \<Rightarrow> ustr \<Rightarrow> wire_args \<Rightarrow> int" where
  "args_size rt op args =
     int (length (utf8_bytes op)) + int (length (udumps True (float_repr rt) (JObj (audit_mapping rt args))))"

definition begin_request :: "'l broker_env \<Rightarrow> ustr \<Rightarrow> ustr \<Rightarrow> wire_args \<Rightarrow> ('l, pending_request) action" where
  "begin_request env c op args b =
     (let rt = be_runtime env;
          s = (conn_of b c)\<lparr>request_count := request_count (conn_of b c) + 1\<rparr>;
          b1 = put_conn c s (b\<lparr>visa_journal := read_clock (visa_journal b),
                 total_requests := total_requests b + 1,
                 argument_bytes := argument_bytes b + args_size rt op args\<rparr>);
          limited = (max_requests_per_connection (limits b) < request_count s \<or>
            max_total_requests (limits b) < total_requests b1 \<or>
            max_total_argument_bytes (limits b) < argument_bytes b1);
          audited = audit_operation rt limited op in
      bind_act (emit env ''rpc.request''
        [(''connection_id'', JStr c), (''operation'', audited),
         (''args'', if limited then audit_rejected_mapping rt args else JObj (audit_mapping rt args))]) (\<lambda>_.
      ret \<lparr>p_operation = op, p_args = args, p_audited = audited, p_limited = limited,
           p_started = be_clock env (vj_readings (visa_journal b))\<rparr>) b1)"

definition run_request :: "'l broker_env \<Rightarrow> ustr \<Rightarrow> ustr \<Rightarrow> pending_request \<Rightarrow> ('l, broker_reply) action" where
  \<comment> \<open>the body of the \<^verbatim>\<open>try\<close> block, up to the journal entry of its result\<close>
  "run_request env c token p b =
     (let s = conn_of b c; op = p_operation p; codes = be_codes env;
          unauthorized = CandidateRequestError ''unauthorized'' (error_invalid_object codes) ''unauthorized peer'' in
      if p_limited p then throw (CandidateRequestError ''request_limit'' (error_nonsupported_operation codes) ''request limit exceeded'') b
      else if closed s then throw (CandidateRequestError ''closed_connection'' (error_invalid_object codes) ''connection is closed'') b
      else if op = u ''hello'' then
        bind_act (exact_args env (p_args p) []) (\<lambda>_.
        bind_act (guard_act (peer_uid s = 10001 \<or> peer_uid s = 11001) unauthorized) (\<lambda>_.
        ret (WTuple (map (\<lambda>n. WStr (u n)) OPERATIONS), None))) b
      else if peer_uid s \<noteq> 10001 then throw unauthorized b
      else if op \<notin> set (map u OPERATIONS)
      then throw (CandidateRequestError ''unknown_operation'' (error_nonsupported_operation codes) ''unsupported operation'') b
      else invoke env c token op (p_args p) b)"

definition rejection :: "'l broker_env \<Rightarrow> broker_exc \<Rightarrow> (string \<times> int \<times> string) option" where
  \<comment> \<open>kind, code and message of the rejection an exception turns into; none for a trusted failure\<close>
  "rejection env e = (case e of
     CandidateRequestError knd code msg \<Rightarrow> Some (knd, code, msg)
   | VisaIOError code \<Rightarrow> Some (''visa_error'', code, ''VISA operation failed'')
   | CommandRejected code \<Rightarrow> Some (''visa_error'', code, ''VISA operation failed'')
   | ResourceQueryRejected reason code \<Rightarrow> Some (''invalid_resource_query'', code, ''VISA resource query rejected'')
   | ArgumentError \<Rightarrow> Some (''invalid_arguments'', error_invalid_object (be_codes env), ''invalid arguments'')
   | TrustedError t \<Rightarrow> None)"

definition record_trusted_failure :: "'l broker_env \<Rightarrow> string \<Rightarrow> string \<Rightarrow> ('l, unit) action" where
  "record_trusted_failure env component exception_type b =
     (if fatal_error b \<noteq> None then (b, Inr ())
      else emit env ''trusted.failure_detected''
             [(''component'', jstr component), (''exception_type'', jstr exception_type),
              (''message'', jstr ''trusted simulator invariant failure'')]
             (b\<lparr>fatal_error := Some exception_type\<rparr>))"

definition latency :: "'l broker_env \<Rightarrow> pending_request \<Rightarrow> 'l RemoteVisaBroker \<Rightarrow> 'l RemoteVisaBroker \<times> ustr json" where
  \<comment> \<open>\<^verbatim>\<open>max(0, time.monotonic_ns() - started_ns)\<close>\<close>
  "latency env p b =
     (b\<lparr>visa_journal := read_clock (visa_journal b)\<rparr>,
      JInt (max 0 (be_clock env (vj_readings (visa_journal b)) - p_started p)))"

definition report_request :: "'l broker_env \<Rightarrow> ustr \<Rightarrow> pending_request \<Rightarrow> broker_exc + broker_reply \<Rightarrow> ('l, broker_reply) action" where
  "report_request env c p outcome b =
     (case outcome of
        Inr (result, status) \<Rightarrow>
          (case latency env p b of (b1, ns) \<Rightarrow>
             bind_act (emit env ''rpc.result''
               [(''connection_id'', JStr c), (''operation'', JStr (p_operation p)),
                (''result'', audit_value (be_runtime env) False result), (''status'', opt_json JInt status),
                (''latency_ns'', ns)]) (\<lambda>_. ret (result, status)) b1)
      | Inl e \<Rightarrow>
          (case rejection env e of
             Some (knd, code, msg) \<Rightarrow>
               (case latency env p b of (b1, ns) \<Rightarrow>
                  bind_act (emit env ''rpc.reject''
                    [(''connection_id'', JStr c), (''operation'', p_audited p), (''error_kind'', jstr knd),
                     (''code'', JInt code), (''message'', jstr msg), (''latency_ns'', ns)]) (\<lambda>_.
                  throw (CandidateRequestError knd code msg)) b1)
           | None \<Rightarrow>
               bind_act (record_trusted_failure env ''broker'' (case e of TrustedError t \<Rightarrow> t | _ \<Rightarrow> [])) (\<lambda>_. throw e) b))"

definition broker_dispatch ::
  "'l broker_env \<Rightarrow> ustr \<Rightarrow> ustr \<Rightarrow> ustr \<Rightarrow> wire_args \<Rightarrow> ('l, broker_reply) action" where
  \<comment> \<open>\<^verbatim>\<open>dispatch\<close> of one connection with nothing in between; the third argument is the token drawn\<close>
  "broker_dispatch env c token op args =
     bind_act (begin_request env c op args) (\<lambda>p b.
       case run_request env c token p b of (b', outcome) \<Rightarrow> report_request env c p outcome b')"

section \<open>The end of a run\<close>

fun disconnect_all :: "'l broker_env \<Rightarrow> ustr list \<Rightarrow> ('l, unit) action" where
  "disconnect_all env [] = ret ()"
| "disconnect_all env (c # cs) = bind_act (disconnect env c) (\<lambda>_. disconnect_all env cs)"

definition freeze_begin :: "'l broker_env \<Rightarrow> int \<Rightarrow> ('l, ustr list) action" where
  \<comment> \<open>\<^verbatim>\<open>freeze_and_close\<close> up to the joins: no new connections; the connections to be closed and the
      number of workers registered are fixed\<close>
  "freeze_begin env workers b =
     bind_act (emit env ''broker.cancellation_requested''
       [(''active_workers'', JInt workers), (''active_connections'', JInt (int (length (states b))))]) (\<lambda>_.
     ret (states b)) (b\<lparr>frozen := True\<rparr>)"

definition summarize :: "('l, BrokerSummary) action" where
  "summarize b =
     (let s = \<lparr>bs_connections = connection_count b, bs_leaked_sessions = leaked_session_count b, bs_frozen = True\<rparr>
      in (b\<lparr>broker_summary := Some s\<rparr>, Inr s))"

definition freeze_finish :: "'l broker_env \<Rightarrow> ustr list \<Rightarrow> int \<Rightarrow> ('l, BrokerSummary) action" where
  \<comment> \<open>from the joins on; the last argument is the number of workers still alive\<close>
  "freeze_finish env actives alive =
     bind_act (guard_act (alive = 0) (TrustedError ''RuntimeError'')) (\<lambda>_.
     bind_act (disconnect_all env actives) (\<lambda>_.
     bind_act summarize (\<lambda>s.
     bind_act (emit env ''broker.frozen''
       [(''connections'', JInt (bs_connections s)), (''leaked_sessions'', JInt (bs_leaked_sessions s))]) (\<lambda>_.
     ret s))))"

definition freeze_and_close :: "'l broker_env \<Rightarrow> int \<Rightarrow> int \<Rightarrow> ('l, BrokerSummary) action" where
  "freeze_and_close env workers alive b =
     (case broker_summary b of
        Some s \<Rightarrow> (b, Inr s)
      | None \<Rightarrow> bind_act (freeze_begin env workers) (\<lambda>actives. freeze_finish env actives alive) b)"

definition raise_if_failed :: "('l, unit) action" where
  "raise_if_failed b = (b, if fatal_error b = None then Inr () else Inl (TrustedError ''RuntimeError''))"

section \<open>Serving a connection\<close>

datatype served = Stop | Answer string | LastAnswer string

definition malformed :: "'l broker_env \<Rightarrow> ustr \<Rightarrow> string \<Rightarrow> ('l, served) action" where
  "malformed env c detail =
     bind_act (emit env ''connection.reject''
       [(''connection_id'', JStr c), (''reason'', jstr ''malformed_frame''), (''detail'', jstr detail)]) (\<lambda>_. ret Stop)"

definition send_response :: "'l broker_env \<Rightarrow> ustr \<Rightarrow> bool \<Rightarrow> wire_error + uobj \<Rightarrow> ('l, served) action" where
  "send_response env c final response =
     (case bind_res response (encode_message (be_runtime env)) of
        Inr frame \<Rightarrow> ret (if final then LastAnswer frame else Answer frame)
      | Inl (WireProtocolError detail) \<Rightarrow> malformed env c detail
      | Inl _ \<Rightarrow> ret Stop)"

definition broker_serve_request :: "'l broker_env \<Rightarrow> ustr \<Rightarrow> ustr \<Rightarrow> int \<Rightarrow> ustr \<Rightarrow> wire_args \<Rightarrow> ('l, served) action" where
  "broker_serve_request env c token request_id op args b =
     (case broker_dispatch env c token op args b of
        (b', Inr (result, status)) \<Rightarrow> send_response env c False (success_response request_id result status) b'
      | (b', Inl (CandidateRequestError knd code msg)) \<Rightarrow>
          send_response env c (knd = ''request_limit'') (rpc_error_response request_id (u knd) code (u msg)) b'
      | (b', Inl e) \<Rightarrow>
          bind_act (record_trusted_failure env ''broker_worker'' (case e of TrustedError t \<Rightarrow> t | _ \<Rightarrow> [])) (\<lambda>_. ret Stop) b')"

definition serve_frame :: "'l broker_env \<Rightarrow> ustr \<Rightarrow> ustr \<Rightarrow> stream \<Rightarrow> ('l, served \<times> stream) action" where
  \<comment> \<open>one turn of the loop of \<^verbatim>\<open>_serve_connection\<close>: what is sent, and the rest of the stream\<close>
  "serve_frame env c token s =
     (case recv_message (be_limit env) s of
        Inl (WireProtocolError detail) \<Rightarrow> bind_act (malformed env c detail) (\<lambda>r. ret (r, []))
      | Inl _ \<Rightarrow> ret (Stop, [])
      | Inr (m, s') \<Rightarrow>
          (case decode_request m of
             Inl (WireProtocolError detail) \<Rightarrow> bind_act (malformed env c detail) (\<lambda>r. ret (r, []))
           | Inl _ \<Rightarrow> ret (Stop, [])
           | Inr (request_id, op, args) \<Rightarrow>
               bind_act (broker_serve_request env c token request_id op args) (\<lambda>r. ret (r, s'))))"

fun serve_connection :: "'l broker_env \<Rightarrow> ustr \<Rightarrow> ustr list \<Rightarrow> stream \<Rightarrow> ('l, string list) action" where
  \<comment> \<open>\<^verbatim>\<open>_serve_connection\<close> with the tokens its requests draw: the frames sent; the connection is
      disconnected at the end\<close>
  "serve_connection env c [] s = bind_act (disconnect env c) (\<lambda>_. ret [])"
| "serve_connection env c (token # tokens) s =
     bind_act (serve_frame env c token s) (\<lambda>(r, s'). case r of
         Stop \<Rightarrow> bind_act (disconnect env c) (\<lambda>_. ret [])
       | LastAnswer frame \<Rightarrow> bind_act (disconnect env c) (\<lambda>_. ret [frame])
       | Answer frame \<Rightarrow> bind_act (serve_connection env c tokens s') (\<lambda>frames. ret (frame # frames)))"

end
