(* ===== verification/Broker_Evidence.thy ===== *)
theory Broker_Evidence
  imports Visa_Broker Sim_Evidence
begin

text \<open>
  What one operation of the broker leaves in the journal. The checks of \<open>Sim_Evidence\<close> read of an
  event its kind, its connection and its operation (\<open>trace\<close>); \<open>conn_effect\<close> and \<open>outcome_fits\<close> say which
  events an operation appends for each outcome, and \<open>sessions_fit\<close> how its connection's sessions
  changed. They are computed by a weakest precondition along the structure of the actions.
\<close>

section \<open>The trace of a journal\<close>

type_synonym trace_item = "string \<times> ustr json \<times> ustr json"

definition is_hook :: "string \<Rightarrow> bool" where
  \<comment> \<open>the kinds the hooks of the bench journal\<close>
  "is_hook k = (take 5 k = ''hook.'')"

definition item :: "VisaEvent \<Rightarrow> trace_item" where
  \<comment> \<open>all the checks read of an event: its kind, its connection and its operation\<close>
  "item e = (ve_kind e, field (ve_fields e) ''connection_id'', field (ve_fields e) ''operation'')"

definition trace_of :: "VisaEvent list \<Rightarrow> trace_item list" where
  "trace_of es = map item (filter (\<lambda>e. \<not> is_hook (ve_kind e)) es)"

definition trace :: "'l RemoteVisaBroker \<Rightarrow> trace_item list" where
  "trace b = trace_of (vj_events (visa_journal b))"

definition getf :: "(string \<times> ustr json) list \<Rightarrow> string \<Rightarrow> ustr json" where
  "getf fs k = (case map_of fs k of None \<Rightarrow> JNull | Some v \<Rightarrow> canon v)"

lemma field_copied:
  assumes "distinct (map fst fs)"
  shows "field (visa_copied (map (\<lambda>(k, v). (u k, v)) fs)) k = getf fs k"
proof -
  let ?d = "map (\<lambda>(k, v). (u k, v)) fs"
  have "map fst ?d = map u (map fst fs)" by (simp add: comp_def case_prod_beta)
  moreover have "inj u" by (simp add: inj_def)
  ultimately have d: "distinct (map fst ?d)" using assms by (simp only: distinct_map) (auto intro: inj_on_subset)
  have "field ?d k = (case map_of fs k of None \<Rightarrow> JNull | Some v \<Rightarrow> v)" by (induction fs) auto
  then show ?thesis by (simp only: visa_copied_def field_canon [OF d] getf_def) (simp split: option.splits)
qed

lemma getf_simps [simp]:
  "getf [] k = JNull"
  "getf ((k', v) # fs) k = (if k = k' then canon v else getf fs k)"
  by (simp_all add: getf_def)

lemma trace_append:
  assumes "distinct (map fst fs)" "\<not> is_hook knd"
  shows "trace_of (vj_events (visa_append rt clock knd (map (\<lambda>(k, v). (u k, v)) fs) j)) =
    trace_of (vj_events j) @ [(knd, getf fs ''connection_id'', getf fs ''operation'')]"
  using assms by (simp add: visa_append_def Let_def trace_of_def item_def field_copied)

lemma trace_append_hook:
  "is_hook knd \<Longrightarrow> trace_of (vj_events (visa_append rt clock knd fs j)) = trace_of (vj_events j)"
  by (simp add: visa_append_def Let_def trace_of_def)

section \<open>The library\<close>

definition quiet_run :: "('l, 'a) lib_run \<Rightarrow> bool" where
  \<comment> \<open>only hooks journal during a call of the library\<close>
  "quiet_run r = list_all (\<lambda>(k, fs). is_hook k) (fst (snd r))"

definition library_contract :: "'l visalib \<Rightarrow> bool" where
  \<comment> \<open>what the broker relies on: the hooks journal nothing but hook events, and \<^verbatim>\<open>close\<close> returns a
      status instead of raising\<close>
  "library_contract lib =
     ((\<forall>l. quiet_run (lib_open_manager lib l)) \<and> (\<forall>l. quiet_run (lib_list_resources lib l)) \<and>
      (\<forall>s n m t l. quiet_run (lib_open lib s n m t l)) \<and>
      (\<forall>s l. quiet_run (lib_close lib s l) \<and> (\<exists>status. snd (snd (lib_close lib s l)) = Inr status)) \<and>
      (\<forall>s n l. quiet_run (lib_read lib s n l)) \<and> (\<forall>d s b l. quiet_run (lib_write lib d s b l)) \<and>
      (\<forall>s a l. quiet_run (lib_get_attribute lib s a l)) \<and> (\<forall>s a v l. quiet_run (lib_set_attribute lib s a v l)) \<and>
      (\<forall>s e m l. quiet_run (lib_disable_event lib s e m l)) \<and> (\<forall>s e m l. quiet_run (lib_discard_events lib s e m l)))"

definition lib_after :: "'l broker_env \<Rightarrow> ('l, 'a) lib_run \<Rightarrow> 'l RemoteVisaBroker \<Rightarrow> 'l RemoteVisaBroker" where
  "lib_after env r b = b\<lparr>library := fst r,
     visa_journal := fold (\<lambda>(k, fs). visa_append (be_runtime env) (be_clock env) k fs) (fst (snd r)) (visa_journal b)\<rparr>"

definition logged :: "'l broker_env \<Rightarrow> string \<Rightarrow> (string \<times> ustr json) list \<Rightarrow> 'l RemoteVisaBroker \<Rightarrow> 'l RemoteVisaBroker" where
  "logged env knd fs b =
     b\<lparr>visa_journal := visa_append (be_runtime env) (be_clock env) knd (map (\<lambda>(k, v). (u k, v)) fs) (visa_journal b)\<rparr>"

lemma emit_eq [simp]: "emit env knd fs b = (logged env knd fs b, Inr ())"
  by (simp add: emit_def logged_def)

lemma call_library_eq:
  "call_library env f b = (lib_after env (f (library b)) b, map_sum raised id (snd (snd (f (library b)))))"
  by (simp add: call_library_def lib_after_def split: prod.split)

named_theorems act_rules

lemma act_simps:
  "bind_act m f b = (case m b of (b', Inl e) \<Rightarrow> (b', Inl e) | (b', Inr x) \<Rightarrow> f x b')"
  "ret x b = (b, Inr x)" "throw e b = (b, Inl e)"
  "guard_act c e b = (b, if c then Inr () else Inl e)" "lift_res r b = (b, r)"
  by (simp_all add: bind_act_def ret_def throw_def guard_act_def lift_res_def)

lemma logged_frame [simp]:
  "limits (logged env knd fs b) = limits b" "connections (logged env knd fs b) = connections b"
  "states (logged env knd fs b) = states b" "connection_count (logged env knd fs b) = connection_count b"
  "total_requests (logged env knd fs b) = total_requests b" "argument_bytes (logged env knd fs b) = argument_bytes b"
  "leaked_session_count (logged env knd fs b) = leaked_session_count b" "frozen (logged env knd fs b) = frozen b"
  "broker_summary (logged env knd fs b) = broker_summary b" "fatal_error (logged env knd fs b) = fatal_error b"
  by (simp_all add: logged_def)

lemma lib_after_frame [simp]:
  "limits (lib_after env r b) = limits b" "connections (lib_after env r b) = connections b"
  "states (lib_after env r b) = states b" "connection_count (lib_after env r b) = connection_count b"
  "total_requests (lib_after env r b) = total_requests b" "argument_bytes (lib_after env r b) = argument_bytes b"
  "leaked_session_count (lib_after env r b) = leaked_session_count b" "frozen (lib_after env r b) = frozen b"
  "broker_summary (lib_after env r b) = broker_summary b" "fatal_error (lib_after env r b) = fatal_error b"
  by (simp_all add: lib_after_def)

lemma put_conn_frame [simp]:
  "limits (put_conn c s b) = limits b" "connections (put_conn c s b) = AList.update c s (connections b)"
  "states (put_conn c s b) = states b" "connection_count (put_conn c s b) = connection_count b"
  "total_requests (put_conn c s b) = total_requests b" "argument_bytes (put_conn c s b) = argument_bytes b"
  "leaked_session_count (put_conn c s b) = leaked_session_count b" "frozen (put_conn c s b) = frozen b"
  "broker_summary (put_conn c s b) = broker_summary b" "fatal_error (put_conn c s b) = fatal_error b"
  "visa_journal (put_conn c s b) = visa_journal b" "library (put_conn c s b) = library b"
  by (simp_all add: put_conn_def)

lemma conn_of_frame [simp]:
  "conn_of (logged env knd fs b) = conn_of b" "conn_of (lib_after env r b) = conn_of b"
  by (simp_all add: conn_of_def fun_eq_iff)

lemma conn_of_put [simp]: "conn_of (put_conn c s b) c' = (if c' = c then s else conn_of b c')"
  by (simp add: conn_of_def update_conv')

lemma trace_put_conn [simp]: "trace (put_conn c s b) = trace b"
  by (simp add: trace_def)

lemma trace_logged:
  "distinct (map fst fs) \<Longrightarrow> \<not> is_hook knd \<Longrightarrow>
    trace (logged env knd fs b) = trace b @ [(knd, getf fs ''connection_id'', getf fs ''operation'')]"
  by (simp add: trace_def logged_def trace_append)

lemma trace_lib_after [simp]: "quiet_run r \<Longrightarrow> trace (lib_after env r b) = trace b"
proof -
  have "trace_of (vj_events (fold (\<lambda>(k, fs). visa_append (be_runtime env) (be_clock env) k fs) es j)) = trace_of (vj_events j)"
    if "list_all (\<lambda>(k, fs). is_hook k) es" for es j
    using that by (induction es arbitrary: j) (auto simp: trace_append_hook)
  then show "quiet_run r \<Longrightarrow> ?thesis" by (simp add: trace_def lib_after_def quiet_run_def)
qed

section \<open>What one operation leaves in the trace\<close>

definition frame_of :: "'l RemoteVisaBroker \<Rightarrow> broker_limits \<times> ustr list \<times> int \<times> int \<times> int \<times> int \<times> bool \<times> BrokerSummary option \<times> string option" where
  "frame_of b = (limits b, states b, connection_count b, total_requests b, argument_bytes b, leaked_session_count b,
     frozen b, broker_summary b, fatal_error b)"

definition conn_effect :: "ustr \<Rightarrow> string list \<Rightarrow> 'l RemoteVisaBroker \<Rightarrow> 'l RemoteVisaBroker \<Rightarrow> bool" where
  \<comment> \<open>new events of one connection, whose sessions alone may have changed\<close>
  "conn_effect c new b b' =
     (trace b' = trace b @ map (\<lambda>k. (k, JStr c, JNull)) new \<and> frame_of b' = frame_of b \<and>
      map fst (connections b') = map fst (connections b) \<and>
      (\<forall>x. x \<noteq> c \<longrightarrow> conn_of b' x = conn_of b x) \<and>
      conn_of b' c = (conn_of b c)\<lparr>sessions := sessions (conn_of b' c)\<rparr>)"

definition sessions_fit :: "string list \<Rightarrow> (ustr \<times> RemoteSession) list \<Rightarrow> (ustr \<times> RemoteSession) list \<Rightarrow> bool" where
  "sessions_fit new before after =
     (distinct (map fst before) \<longrightarrow> distinct (map fst after) \<and>
      (if ''session.open'' \<in> set new then length after = Suc (length before)
       else if ''session.close'' \<in> set new then Suc (length after) = length before
       else after = before))"

definition outcome_fits :: "ustr \<Rightarrow> broker_exc + broker_reply \<Rightarrow> string list \<Rightarrow> bool" where
  "outcome_fits op out new = (case out of
     Inr _ \<Rightarrow>
       if op = u ''read'' then new = [''scpi.read'', ''scpi.read_result'']
       else if op = u ''write'' then new = [''scpi.write'', ''scpi.write_result'']
       else new \<in> {[], [''session.open''], [''session.close''], [''resource_query.request'', ''resource_query.result'']}
   | Inl (TrustedError _) \<Rightarrow> True
   | Inl _ \<Rightarrow>
       new \<in> {[], [''session.invalid_access''], [''resource_query.request'', ''resource_query.reject'']} \<or>
       op = u ''read'' \<and> new = [''scpi.read''] \<or> op = u ''write'' \<and> new = [''scpi.write''])"

definition new_kinds :: "'l RemoteVisaBroker \<Rightarrow> 'l RemoteVisaBroker \<Rightarrow> string list" where
  "new_kinds b b' = map fst (drop (length (trace b)) (trace b'))"

definition op_effect :: "ustr \<Rightarrow> ustr \<Rightarrow> 'l RemoteVisaBroker \<Rightarrow> broker_exc + broker_reply \<Rightarrow> 'l RemoteVisaBroker \<Rightarrow> bool" where
  "op_effect c op b out b' =
     (conn_effect c (new_kinds b b') b b' \<and> outcome_fits op out (new_kinds b b') \<and>
      sessions_fit (new_kinds b b') (sessions (conn_of b c)) (sessions (conn_of b' c)))"

text \<open>The weakest precondition of an action, computed along its structure.\<close>

definition wp :: "('l, 'a) action \<Rightarrow> (broker_exc + 'a \<Rightarrow> 'l RemoteVisaBroker \<Rightarrow> bool) \<Rightarrow> 'l RemoteVisaBroker \<Rightarrow> bool" where
  "wp m Q b = (case m b of (b', r) \<Rightarrow> Q r b')"

lemma wp_unit [act_rules]:
  "wp (guard_act c e) Q b = (if c then Q (Inr ()) b else Q (Inl e) b)"
  "wp (emit env k fs) Q b = Q (Inr ()) (logged env k fs b)"
  by (simp_all add: wp_def guard_act_def)

lemma wp_lib [act_rules]:
  "wp (call_library env f) Q b = Q (map_sum raised id (snd (snd (f (library b))))) (lib_after env (f (library b)) b)"
  by (simp add: wp_def call_library_eq)

lemma wp_value [act_rules]:
  "wp (ret x) Q b = Q (Inr x) b" "wp (throw e) Q b = Q (Inl e) b" "wp (lift_res r) Q b = Q r b"
  by (simp_all add: wp_def ret_def throw_def lift_res_def)

lemma wp_bind [act_rules]:
  "wp (bind_act m g) Q b = wp m (\<lambda>r b'. case r of Inl e \<Rightarrow> Q (Inl e) b' | Inr x \<Rightarrow> wp (g x) Q b') b"
  by (simp add: wp_def bind_act_def split: prod.split sum.split)

lemma map_fst_update: "c \<in> set (map fst xs) \<Longrightarrow> map fst (AList.update c s xs) = map fst xs"
  by (induction xs) auto

lemma lib_quiet:
  assumes "library_contract lib"
  shows "quiet_run (lib_open_manager lib l)" "quiet_run (lib_list_resources lib l)" "quiet_run (lib_open lib s n m t l)"
    "quiet_run (lib_close lib s l)" "quiet_run (lib_read lib s k l)" "quiet_run (lib_write lib d s bs l)"
    "quiet_run (lib_get_attribute lib s a l)" "quiet_run (lib_set_attribute lib s a v l)"
    "quiet_run (lib_disable_event lib s e m l)" "quiet_run (lib_discard_events lib s e m l)"
  using assms by (auto simp: library_contract_def)

lemmas effect_rules = op_effect_def new_kinds_def conn_effect_def frame_of_def trace_logged is_hook_def sessions_fit_def outcome_fits_def

lemma map_sum_Inr [simp]: "map_sum f id r = Inr x \<longleftrightarrow> r = Inr x"
  by (cases r) auto

lemma broker_read_effect:
  assumes "library_contract (be_lib env)"
  shows "wp (broker_read env c t s args) (op_effect c (u ''read'') b) b"
  by (auto simp: broker_read_def exact_args_def Let_def act_rules effect_rules lib_quiet [OF assms]
      split: sum.split broker_exc.split)

lemma broker_write_effect:
  assumes "library_contract (be_lib env)"
  shows "wp (broker_write env c t s args) (op_effect c (u ''write'') b) b"
  by (auto simp: broker_write_def exact_args_def Let_def act_rules effect_rules lib_quiet [OF assms]
      split: sum.split broker_exc.split option.split WireValue.split)

lemma broker_get_attribute_effect:
  assumes "library_contract (be_lib env)" "op \<noteq> u ''read''" "op \<noteq> u ''write''"
  shows "wp (broker_get_attribute env s args) (op_effect c op b) b"
  using assms(2,3)
  by (auto simp: broker_get_attribute_def exact_args_def Let_def act_rules effect_rules lib_quiet [OF assms(1)]
      split: sum.split broker_exc.split)

lemma broker_set_attribute_effect:
  assumes "library_contract (be_lib env)" "op \<noteq> u ''read''" "op \<noteq> u ''write''"
  shows "wp (broker_set_attribute env s args) (op_effect c op b) b"
  using assms(2,3)
  by (auto simp: broker_set_attribute_def exact_args_def Let_def act_rules effect_rules lib_quiet [OF assms(1)]
      split: sum.split broker_exc.split option.split)

lemma broker_events_effect:
  assumes "\<And>e m l. quiet_run (f s e m l)" "op \<noteq> u ''read''" "op \<noteq> u ''write''"
  shows "wp (broker_events env f s args) (op_effect c op b) b"
  using assms(2,3)
  by (auto simp: broker_events_def exact_args_def Let_def act_rules effect_rules assms(1)
      split: sum.split broker_exc.split)

lemma traverse_Inl: "traverse f xs = Inl e \<Longrightarrow> \<exists>x \<in> set xs. f x = Inl e"
  by (induction xs) (auto simp: bind_res_def split: sum.splits)

lemma filter_resources_error:
  assumes "filter_resources env rs q = Inl e"
  obtains r n where "e = ResourceQueryRejected r n" | t where "e = TrustedError t"
proof -
  have c: "\<exists>t. e = TrustedError t" if cr: "checked_resources rs vs = Inl e" for vs
  proof -
    obtain x where "(case x of JStr s \<Rightarrow> if s \<in> set rs then Inr s else worker_failed | _ \<Rightarrow> worker_failed) = Inl e"
      using traverse_Inl [OF cr [unfolded checked_resources_def]] by blast
    then show ?thesis by (cases x) (auto simp: worker_failed_def split: if_splits)
  qed
  have "(\<exists>r n. e = ResourceQueryRejected r n) \<or> (\<exists>t. e = TrustedError t)"
    using assms c
    by (auto simp: filter_resources_def worker_result_def worker_failed_def
        split: if_splits worker_run.splits option.splits sum.splits loads_error.splits json.splits)
  with that show thesis by blast
qed

lemma broker_list_resources_effect:
  assumes "library_contract (be_lib env)" "op \<noteq> u ''read''" "op \<noteq> u ''write''"
  shows "wp (broker_list_resources env c args) (op_effect c op b) b"
  using assms(2,3)
  by (auto simp: broker_list_resources_def exact_args_def Let_def act_rules effect_rules lib_quiet [OF assms(1)]
      elim: filter_resources_error split: sum.split broker_exc.split)

lemma length_update_fresh: "k \<notin> set (map fst xs) \<Longrightarrow> length (AList.update k v xs) = Suc (length xs)"
  by (induction xs) auto

lemma wp_add_session [act_rules]:
  "wp (add_session env c token session knd extra) Q b = Q (Inr (WStr token))
     (logged env ''session.open''
        ([(''connection_id'', JStr c), (''session'', audit_text_token (be_runtime env) token), (''session_kind'', jstr knd)] @ extra)
        (put_conn c ((conn_of b c)\<lparr>sessions := AList.update token \<lparr>real_session = session, session_kind = knd\<rparr> (sessions (conn_of b c))\<rparr>) b))"
  by (simp add: wp_def add_session_def bind_act_def ret_def Let_def)

lemma broker_open_manager_effect:
  assumes "library_contract (be_lib env)" "op \<noteq> u ''read''" "op \<noteq> u ''write''"
    and "token \<notin> set (map fst (sessions (conn_of b c)))" and "c \<in> set (map fst (connections b))"
  shows "wp (broker_open_manager env c token args) (op_effect c op b) b"
  using assms(2-5)
  by (auto simp: broker_open_manager_def exact_args_def Let_def act_rules effect_rules lib_quiet [OF assms(1)] map_fst_update
      length_update_fresh distinct_update
      split: sum.split broker_exc.split)

lemma broker_open_effect:
  assumes "library_contract (be_lib env)" "op \<noteq> u ''read''" "op \<noteq> u ''write''"
    and "token \<notin> set (map fst (sessions (conn_of b c)))" and "c \<in> set (map fst (connections b))"
  shows "wp (broker_open env c token parent s args) (op_effect c op b) b"
  using assms(2-5)
  by (auto simp: broker_open_def exact_args_def Let_def act_rules effect_rules lib_quiet [OF assms(1)] map_fst_update
      length_update_fresh distinct_update
      split: sum.split broker_exc.split)

lemma broker_close_effect:
  assumes "library_contract (be_lib env)" "op \<noteq> u ''read''" "op \<noteq> u ''write''"
    and "t \<in> set (map fst (sessions (conn_of b c)))" and "c \<in> set (map fst (connections b))"
  shows "wp (broker_close env c t s args) (op_effect c op b) b"
proof -
  obtain r where r: "map_of (sessions (conn_of b c)) t = Some r"
    using assms(4) by (metis image_set map_of_eq_None_iff not_None_eq)
  have w: "wp (\<lambda>b. let s = conn_of b c in
       (put_conn c (s\<lparr>sessions := AList.delete t (sessions s)\<rparr>) b, Inr (map_of (sessions s) t))) Q b' =
     Q (Inr (map_of (sessions (conn_of b' c)) t))
       (put_conn c ((conn_of b' c)\<lparr>sessions := AList.delete t (sessions (conn_of b' c))\<rparr>) b')" for Q b'
    by (simp add: wp_def Let_def)
  from assms(2,3,5) r show ?thesis
    by (auto simp: broker_close_def exact_args_def act_rules w effect_rules lib_quiet [OF assms(1)] map_fst_update
        length_delete_Suc distinct_delete
        split: sum.split broker_exc.split)
qed

lemma find_session_effect:
  "wp (find_session env c args) (\<lambda>r b'. case r of
      Inr (t, s) \<Rightarrow> b' = b \<and> t \<in> set (map fst (sessions (conn_of b c)))
    | Inl e \<Rightarrow> op_effect c op b (Inl e) b') b"
proof (cases "session_named (conn_of b c) args")
  case None
  then show ?thesis
    by (simp add: wp_def find_session_def bind_act_def throw_def effect_rules)
next
  case (Some ts)
  obtain t s where ts: "ts = (t, s)" by (cases ts)
  with Some have "t \<in> set (map fst (sessions (conn_of b c)))"
    by (auto simp: session_named_def split: option.splits WireValue.splits dest!: map_of_SomeD intro!: image_eqI)
  then show ?thesis using Some ts by (simp add: wp_def find_session_def)
qed

lemma wp_mono: "wp m P b \<Longrightarrow> (\<And>r b'. P r b' \<Longrightarrow> Q r b') \<Longrightarrow> wp m Q b"
  by (auto simp: wp_def split: prod.splits)

lemma invoke_effect:
  assumes "library_contract (be_lib env)"
    and "token \<notin> set (map fst (sessions (conn_of b c)))" and "c \<in> set (map fst (connections b))"
  shows "wp (invoke env c token op args) (op_effect c op b) b"
proof (cases "op = u ''open_default_resource_manager''")
  case True
  then show ?thesis using broker_open_manager_effect [OF assms(1) _ _ assms(2,3), of op] by (simp add: invoke_def)
next
  case False
  let ?next = "\<lambda>(t, s). if op = u ''list_resources'' then broker_list_resources env c args
        else if op = u ''open'' then broker_open env c token t s args
        else if op = u ''close'' then broker_close env c t s args
        else if op = u ''read'' then broker_read env c t s args
        else if op = u ''write'' then broker_write env c t s args
        else if op = u ''get_attribute'' then broker_get_attribute env s args
        else if op = u ''set_attribute'' then broker_set_attribute env s args
        else if op = u ''disable_event'' then broker_events env (lib_disable_event (be_lib env)) s args
        else broker_events env (lib_discard_events (be_lib env)) s args"
  note q = lib_quiet [OF assms(1)]
  have n: "wp (?next (t, s)) (op_effect c op b) b" if "t \<in> set (map fst (sessions (conn_of b c)))" for t s
    using broker_list_resources_effect [OF assms(1), of op] broker_open_effect [OF assms(1) _ _ assms(2,3), of op]
      broker_close_effect [OF assms(1) _ _ that assms(3), of op] broker_read_effect [OF assms(1)] broker_write_effect [OF assms(1)]
      broker_get_attribute_effect [OF assms(1), of op] broker_set_attribute_effect [OF assms(1), of op]
      broker_events_effect [of "lib_disable_event (be_lib env)" s op, OF q(9)]
      broker_events_effect [of "lib_discard_events (be_lib env)" s op, OF q(10)]
    by (auto split: if_split)
  have "wp (bind_act (find_session env c args) ?next) (op_effect c op b) b"
    unfolding wp_bind
  proof (rule wp_mono [OF find_session_effect [where op = op]])
    fix r :: "broker_exc + ustr \<times> int" and b'
    assume r: "case r of Inr (t, s) \<Rightarrow> b' = b \<and> t \<in> set (map fst (sessions (conn_of b c)))
      | Inl e \<Rightarrow> op_effect c op b (Inl e) b'"
    show "case r of Inl e \<Rightarrow> op_effect c op b (Inl e) b' | Inr x \<Rightarrow> wp (?next x) (op_effect c op b) b'"
    proof (cases r)
      case (Inr ts)
      obtain t s where ts: "ts = (t, s)" by (cases ts)
      with r Inr have "b' = b" "t \<in> set (map fst (sessions (conn_of b c)))" by simp_all
      then show ?thesis using n [of t s] by (simp only: Inr ts sum.case)
    qed (use r in simp)
  qed
  then show ?thesis using False by (simp add: invoke_def case_prod_beta')
qed

end
