(* ===== verification/Broker_Run.thy ===== *)
theory Broker_Run
  imports Broker_Evidence
begin

text \<open>
  Runs of the broker: connections are accepted, their requests begin, run and are reported in any
  interleaving, they leave, and the broker is frozen. \<open>broker_run\<close> is that step relation; its
  invariant \<open>run_ok\<close> carries the trace of every connection and the accounts of the whole run.
\<close>

section \<open>The boundaries on traces\<close>

type_synonym tstate = "ustr json \<times> string list"

definition tstep :: "string \<times> ustr json \<Rightarrow> tstate \<Rightarrow> tstate option" where
  \<comment> \<open>\<open>rpc_step\<close> on the items of a trace\<close>
  "tstep i = (\<lambda>(operation, scpi). case i of (k, op) \<Rightarrow>
     if k = ''rpc.request'' then (if operation \<noteq> JNull then None else Some (op, []))
     else if take 5 k = ''scpi.'' then (if operation = JNull then None else Some (operation, scpi @ [k]))
     else if operation = JNull then None
     else if \<not> py_eq op operation then None
     else if operation = jstr ''read'' \<or> operation = jstr ''write'' then
       (let name = (if operation = jstr ''read'' then ''read'' else ''write'');
            attempt = ''scpi.'' @ name; result = ''scpi.'' @ name @ ''_result'' in
        if k = ''rpc.result'' then (if scpi = [attempt, result] then Some (JNull, []) else None)
        else if scpi = [] \<or> scpi = [attempt] then Some (JNull, []) else None)
     else if scpi \<noteq> [] then None
     else Some (JNull, []))"

fun tsteps :: "(string \<times> ustr json) list \<Rightarrow> tstate \<Rightarrow> tstate option" where
  "tsteps [] st = Some st"
| "tsteps (i # is) st = (case tstep i st of None \<Rightarrow> None | Some st' \<Rightarrow> tsteps is st')"

definition rpc_of :: "ustr \<Rightarrow> trace_item list \<Rightarrow> (string \<times> ustr json) list" where
  "rpc_of c tr = map (\<lambda>(k, _, op). (k, op)) (filter (\<lambda>(k, cid, _). k \<in> set TRACKED \<and> cid = JStr c) tr)"

lemma tsteps_append: "tsteps (xs @ ys) st = (case tsteps xs st of None \<Rightarrow> None | Some st' \<Rightarrow> tsteps ys st')"
  by (induction xs arbitrary: st) (auto split: option.splits)

lemma rpc_of_append [simp]: "rpc_of c (xs @ ys) = rpc_of c xs @ rpc_of c ys"
  by (simp add: rpc_of_def)

lemma rpc_of_Nil [simp]: "rpc_of c [] = []"
  by (simp add: rpc_of_def)

lemma field_event [simp]:
  "field (visa_to_dict e) ''kind'' = jstr (ve_kind e)" "field (visa_to_dict e) ''fields'' = JObj (ve_fields e)"
  by (simp_all add: visa_to_dict_def visa_unsigned_def)

lemma event_field_dict [simp]: "event_field (visa_to_dict e) k = field (ve_fields e) k"
  by (simp add: event_field_def)

lemma kind_is_dict [simp]: "kind_is (visa_to_dict e) k \<longleftrightarrow> ve_kind e = k"
  by (simp add: kind_is_def)

lemma is_tracked_dict: "is_tracked (visa_to_dict e) \<longleftrightarrow> ve_kind e \<in> set TRACKED"
  by (auto simp: is_tracked_def list_ex_iff)

lemma starts_u: "starts (u s) t \<longleftrightarrow> take (length t) s = t"
  unfolding starts_def u_def by (metis take_map u_def u_inject)

lemma inj_jstr: "map jstr xs = map jstr ys \<longleftrightarrow> xs = ys"
  by (metis inj_def inj_map_eq_map jstr_inject)

lemma rpc_step_dict:
  "rpc_step (visa_to_dict e) (operation, map jstr scpi) =
    map_option (\<lambda>(o', s). (o', map jstr s)) (tstep (ve_kind e, field (ve_fields e) ''operation'') (operation, scpi))"
proof -
  have st: "starts (case jstr (ve_kind e) of JStr s \<Rightarrow> s | _ \<Rightarrow> []) ''scpi.'' \<longleftrightarrow> take 5 (ve_kind e) = ''scpi.''"
    by (simp add: jstr_def starts_u numeral_eq_Suc)
  have m: "map jstr scpi = [jstr a, jstr b] \<longleftrightarrow> scpi = [a, b]" "map jstr scpi = [jstr a] \<longleftrightarrow> scpi = [a]" for a b
    using inj_jstr [of scpi "[a, b]"] inj_jstr [of scpi "[a]"] by simp_all
  show ?thesis
    unfolding rpc_step_def tstep_def by (simp add: st m Let_def)
qed

lemma rpc_steps_dict:
  "rpc_steps (map visa_to_dict es) (operation, map jstr scpi) =
    map_option (\<lambda>(o', s). (o', map jstr s)) (tsteps (map (\<lambda>e. (ve_kind e, field (ve_fields e) ''operation'')) es) (operation, scpi))"
  by (induction es arbitrary: operation scpi) (auto simp: rpc_step_dict split: option.splits)

lemma hook_untracked: "is_hook k \<Longrightarrow> k \<notin> set TRACKED \<and> k \<notin> set (map fst COUNTED_EVENTS)"
  by (auto simp: is_hook_def TRACKED_def COUNTED_EVENTS_def)

lemma rpc_of_events:
  "rpc_of c (trace_of es) = map (\<lambda>e. (ve_kind e, field (ve_fields e) ''operation''))
     (filter (\<lambda>e. ve_kind e \<in> set TRACKED \<and> field (ve_fields e) ''connection_id'' = JStr c) es)"
  using hook_untracked by (induction es) (auto simp: rpc_of_def trace_of_def item_def)

definition boundaries :: "trace_item list \<Rightarrow> bool" where
  \<comment> \<open>\<open>valid_rpc_boundaries\<close> on traces\<close>
  "boundaries tr = (\<forall>(k, cid, op) \<in> set tr. k \<in> set TRACKED \<longrightarrow>
     (\<exists>c. cid = JStr c \<and> c \<noteq> [] \<and> (\<exists>scpi. tsteps (rpc_of c tr) (JNull, []) = Some (JNull, scpi))))"

lemma valid_rpc_boundaries_trace:
  assumes "boundaries (trace_of es)"
  shows "valid_rpc_boundaries (map visa_to_dict es)"
proof -
  have ok: "is_text (field (ve_fields e) ''connection_id'') \<and>
      stream_valid (stream_of (map visa_to_dict es) (field (ve_fields e) ''connection_id''))"
    if e: "e \<in> set es" "ve_kind e \<in> set TRACKED" for e
  proof -
    have "item e \<in> set (trace_of es)" using e hook_untracked by (auto simp: trace_of_def)
    with assms e(2) obtain c scpi where c: "field (ve_fields e) ''connection_id'' = JStr c" "c \<noteq> []"
      "tsteps (rpc_of c (trace_of es)) (JNull, []) = Some (JNull, scpi)"
      by (fastforce simp: boundaries_def item_def)
    have "stream_of (map visa_to_dict es) (JStr c) =
        map visa_to_dict (filter (\<lambda>e. ve_kind e \<in> set TRACKED \<and> field (ve_fields e) ''connection_id'' = JStr c) es)"
      by (simp add: stream_of_def filter_map comp_def is_tracked_dict)
    with c(3) rpc_steps_dict [of _ JNull "[]"] show ?thesis
      by (simp add: c(1,2) is_text_def stream_valid_def rpc_of_events)
  qed
  then show ?thesis
    by (auto simp: valid_rpc_boundaries_def list_all_iff is_tracked_dict)
qed

definition kinds_in :: "trace_item list \<Rightarrow> string \<Rightarrow> int" where
  "kinds_in tr k = int (length (filter (\<lambda>i. fst i = k) tr))"

lemma kinds_in_append [simp]: "kinds_in (xs @ ys) k = kinds_in xs k + kinds_in ys k"
  by (simp add: kinds_in_def)

lemma kind_count_trace: "\<not> is_hook k \<Longrightarrow> kind_count (map visa_to_dict es) k = kinds_in (trace_of es) k"
  by (induction es) (auto simp: kind_count_def kinds_in_def trace_of_def item_def)

section \<open>Interleaved connections\<close>

datatype phase = Idle | Begun pending_request | Ran pending_request "broker_exc + broker_reply"

record 'l world =
  br :: "'l RemoteVisaBroker"
  phases :: "ustr \<Rightarrow> phase"
  closing :: "ustr list option"

definition known :: "'l RemoteVisaBroker \<Rightarrow> ustr set" where
  "known b = set (map fst (connections b))"

definition uncounted :: "VisaJournal \<Rightarrow> bool" where
  "uncounted j = list_all (\<lambda>e. ve_kind e \<notin> set (map fst COUNTED_EVENTS)) (vj_events j)"

definition settled :: "VisaJournal \<Rightarrow> bool" where
  \<comment> \<open>the fields of every event are a copy through JSON text\<close>
  "settled j = list_all (\<lambda>e. visa_copied (ve_fields e) = ve_fields e) (vj_events j)"

definition fresh_journal :: "'l broker_env \<Rightarrow> VisaJournal \<Rightarrow> bool" where
  \<comment> \<open>a journal a broker may start with: one the service has written its first events to\<close>
  "fresh_journal env j = (uncounted j \<and> settled j \<and> journal_sound (be_runtime env) j \<and> timed (be_clock env) j)"

inductive broker_run :: "'l broker_env \<Rightarrow> 'l world \<Rightarrow> bool" for env where
  start: "new_broker ls j l = Inr b \<Longrightarrow> fresh_journal env j \<Longrightarrow> broker_run env \<lparr>br = b, phases = \<lambda>_. Idle, closing = None\<rparr>"
| listen: "broker_run env w \<Longrightarrow> announce env path (br w) = (b, r) \<Longrightarrow> broker_run env (w\<lparr>br := b\<rparr>)"
| accept: "broker_run env w \<Longrightarrow> c \<notin> known (br w) \<Longrightarrow> c \<noteq> [] \<Longrightarrow> new_connection env c uid gid pid (br w) = (b, r) \<Longrightarrow>
    broker_run env (w\<lparr>br := b\<rparr>)"
| submit: "broker_run env w \<Longrightarrow> c \<in> known (br w) \<Longrightarrow> phases w c = Idle \<Longrightarrow>
    begin_request env c op args (br w) = (b, Inr p) \<Longrightarrow> broker_run env (w\<lparr>br := b, phases := (phases w)(c := Begun p)\<rparr>)"
| run: "broker_run env w \<Longrightarrow> c \<in> known (br w) \<Longrightarrow> phases w c = Begun p \<Longrightarrow>
    \<forall>x. token \<notin> set (map fst (sessions (conn_of (br w) x))) \<Longrightarrow> run_request env c token p (br w) = (b, out) \<Longrightarrow>
    broker_run env (w\<lparr>br := b, phases := (phases w)(c := Ran p out)\<rparr>)"
| report: "broker_run env w \<Longrightarrow> phases w c = Ran p out \<Longrightarrow> report_request env c p out (br w) = (b, r) \<Longrightarrow>
    broker_run env (w\<lparr>br := b, phases := (phases w)(c := Idle)\<rparr>)"
| garble: "broker_run env w \<Longrightarrow> c \<in> known (br w) \<Longrightarrow> phases w c = Idle \<Longrightarrow> malformed env c detail (br w) = (b, r) \<Longrightarrow>
    broker_run env (w\<lparr>br := b\<rparr>)"
| fail: "broker_run env w \<Longrightarrow> record_trusted_failure env component exception_type (br w) = (b, r) \<Longrightarrow>
    broker_run env (w\<lparr>br := b\<rparr>)"
| leave: "broker_run env w \<Longrightarrow> c \<in> known (br w) \<Longrightarrow> phases w c = Idle \<Longrightarrow> disconnect env c (br w) = (b, r) \<Longrightarrow>
    broker_run env (w\<lparr>br := b\<rparr>)"
| freeze: "broker_run env w \<Longrightarrow> freeze_begin env workers (br w) = (b, Inr cs) \<Longrightarrow>
    broker_run env (w\<lparr>br := b, closing := Some cs\<rparr>)"
| finish: "broker_run env w \<Longrightarrow> closing w = Some cs \<Longrightarrow> \<forall>c. phases w c = Idle \<Longrightarrow>
    freeze_finish env cs 0 (br w) = (b, r) \<Longrightarrow> broker_run env (w\<lparr>br := b\<rparr>)"

section \<open>The invariant\<close>

definition trusted_failure :: "broker_exc + broker_reply \<Rightarrow> bool" where
  "trusted_failure out = (\<exists>t. out = Inl (TrustedError t))"

definition healthy :: "'l world \<Rightarrow> bool" where
  \<comment> \<open>no trusted failure, recorded or about to be\<close>
  "healthy w = (fatal_error (br w) = None \<and> (\<forall>c p out. phases w c = Ran p out \<longrightarrow> \<not> trusted_failure out))"

definition live_sessions :: "'l RemoteVisaBroker \<Rightarrow> int" where
  "live_sessions b = (\<Sum>c \<in> known b. int (length (sessions (conn_of b c))))"

definition closed_connections :: "'l RemoteVisaBroker \<Rightarrow> ustr set" where
  "closed_connections b = {c \<in> known b. closed (conn_of b c)}"

definition busy :: "'l world \<Rightarrow> ustr set" where
  "busy w = {c. phases w c \<noteq> Idle}"

definition scpi_fits :: "pending_request \<Rightarrow> broker_exc + broker_reply \<Rightarrow> string list \<Rightarrow> bool" where
  "scpi_fits p out scpi =
     (if p_audited p = jstr ''read'' \<or> p_audited p = jstr ''write'' then
        (let attempt = ''scpi.'' @ (if p_audited p = jstr ''read'' then ''read'' else ''write'') in
         case out of Inr _ \<Rightarrow> scpi = [attempt, attempt @ ''_result''] | Inl _ \<Rightarrow> scpi = [] \<or> scpi = [attempt])
      else scpi = [])"

definition phase_state :: "phase \<Rightarrow> tstate \<Rightarrow> bool" where
  "phase_state ph st = (case ph of
     Idle \<Rightarrow> st = (JNull, [])
   | Begun p \<Rightarrow> st = (canon (p_audited p), [])
   | Ran p out \<Rightarrow> fst st = canon (p_audited p) \<and> scpi_fits p out (snd st))"

definition audited_right :: "'l broker_env \<Rightarrow> phase \<Rightarrow> bool" where
  "audited_right env ph = (case ph of Idle \<Rightarrow> True
     | Begun p \<Rightarrow> p_audited p = audit_operation (be_runtime env) (p_limited p) (p_operation p)
     | Ran p out \<Rightarrow> p_audited p = audit_operation (be_runtime env) (p_limited p) (p_operation p) \<and>
         (\<forall>r. out = Inr r \<longrightarrow> \<not> p_limited p))"

definition traffic_ok :: "'l broker_env \<Rightarrow> 'l world \<Rightarrow> bool" where
  \<comment> \<open>the boundaries of every connection\<close>
  "traffic_ok env w =
     ((\<forall>c. audited_right env (phases w c) \<and>
         (\<exists>st. tsteps (rpc_of c (trace (br w))) (JNull, []) = Some st \<and> phase_state (phases w c) st)) \<and>
      (\<forall>(k, cid, op) \<in> set (trace (br w)). k \<in> set TRACKED \<longrightarrow> (\<exists>c \<in> known (br w). cid = JStr c)))"

definition tables_ok :: "'l world \<Rightarrow> bool" where
  "tables_ok w =
     (distinct (map fst (connections (br w))) \<and> [] \<notin> known (br w) \<and> busy w \<subseteq> known (br w) \<and>
      (\<forall>c. distinct (map fst (sessions (conn_of (br w) c)))) \<and>
      (\<forall>c. closed (conn_of (br w) c) \<longrightarrow> sessions (conn_of (br w) c) = []) \<and>
      distinct (states (br w)) \<and> set (states (br w)) = known (br w) - closed_connections (br w) \<and>
      (\<forall>cs. closing w = Some cs \<longrightarrow> frozen (br w) \<and> set (states (br w)) \<subseteq> set cs \<and> set cs \<subseteq> known (br w)))"

definition accounts_ok :: "'l world \<Rightarrow> bool" where
  "accounts_ok w =
     (let k = kinds_in (trace (br w)) in
      k ''rpc.request'' = k ''rpc.result'' + k ''rpc.reject'' + int (card (busy w)) \<and>
      k ''session.open'' = k ''session.close'' + k ''session.forced_cleanup'' + live_sessions (br w) \<and>
      k ''connection.open'' = connection_count (br w) \<and> connection_count (br w) = int (card (known (br w))) \<and>
      k ''connection.close'' = int (card (closed_connections (br w))) \<and>
      k ''resource_query.request'' = k ''resource_query.result'' + k ''resource_query.reject'' \<and>
      leaked_session_count (br w) = k ''session.forced_cleanup'')"

definition run_ok :: "'l broker_env \<Rightarrow> 'l world \<Rightarrow> bool" where
  "run_ok env w = (traffic_ok env w \<and> tables_ok w \<and> accounts_ok w)"

section \<open>How the steps change the tables\<close>

definition same_tables :: "'l RemoteVisaBroker \<Rightarrow> 'l RemoteVisaBroker \<Rightarrow> bool" where
  "same_tables b b' =
     (map fst (connections b') = map fst (connections b) \<and> states b' = states b \<and>
      connection_count b' = connection_count b \<and> leaked_session_count b' = leaked_session_count b \<and> frozen b' = frozen b \<and>
      (\<forall>x. sessions (conn_of b' x) = sessions (conn_of b x) \<and> closed (conn_of b' x) = closed (conn_of b x)))"

lemma same_tables_known: "same_tables b b' \<Longrightarrow> known b' = known b"
  by (simp add: same_tables_def known_def)

lemma same_tables_counts:
  assumes "same_tables b b'"
  shows "live_sessions b' = live_sessions b" "closed_connections b' = closed_connections b"
proof -
  note k = same_tables_known [OF assms]
  have "\<forall>x. sessions (conn_of b' x) = sessions (conn_of b x) \<and> closed (conn_of b' x) = closed (conn_of b x)"
    using assms by (simp add: same_tables_def)
  then show "live_sessions b' = live_sessions b" "closed_connections b' = closed_connections b"
    by (simp_all add: live_sessions_def closed_connections_def k)
qed

lemma same_tables_ok: "tables_ok w \<Longrightarrow> same_tables (br w) b \<Longrightarrow> tables_ok (w\<lparr>br := b\<rparr>)"
  by (auto simp: tables_ok_def busy_def same_tables_known same_tables_counts) (auto simp: same_tables_def)

lemma rpc_of_other:
  "\<forall>(k, cid, op) \<in> set new. k \<in> set TRACKED \<longrightarrow> cid = JStr c \<Longrightarrow> x \<noteq> c \<Longrightarrow> rpc_of x new = []"
  by (auto simp: rpc_of_def filter_empty_conv)

lemma traffic_extend:
  assumes "traffic_ok env w" and tr: "trace b = trace (br w) @ new" and kn: "known (br w) \<subseteq> known b"
    and new: "\<forall>(k, cid, op) \<in> set new. k \<in> set TRACKED \<longrightarrow> cid = JStr c \<and> c \<in> known b"
    and ph: "audited_right env ph"
    and st: "\<And>st. tsteps (rpc_of c (trace (br w))) (JNull, []) = Some st \<Longrightarrow> phase_state (phases w c) st \<Longrightarrow>
      \<exists>st'. tsteps (rpc_of c new) st = Some st' \<and> phase_state ph st'"
  shows "traffic_ok env (w\<lparr>br := b, phases := (phases w)(c := ph)\<rparr>)"
proof -
  have new': "\<forall>(k, cid, op) \<in> set new. k \<in> set TRACKED \<longrightarrow> cid = JStr c" using new by fast
  have "audited_right env (((phases w)(c := ph)) x) \<and>
      (\<exists>st. tsteps (rpc_of x (trace b)) (JNull, []) = Some st \<and> phase_state (((phases w)(c := ph)) x) st)" for x
  proof (cases "x = c")
    case True
    obtain s where "tsteps (rpc_of c (trace (br w))) (JNull, []) = Some s" "phase_state (phases w c) s"
      using assms(1) unfolding traffic_ok_def by blast
    with st [OF this] ph show ?thesis by (auto simp: True tr tsteps_append)
  next
    case False
    then show ?thesis using assms(1) rpc_of_other [OF new' False] by (auto simp: traffic_ok_def tr)
  qed
  moreover have "\<forall>(k, cid, op) \<in> set (trace b). k \<in> set TRACKED \<longrightarrow> (\<exists>c \<in> known b. cid = JStr c)"
    using assms(1) kn new unfolding traffic_ok_def tr by fastforce
  ultimately show ?thesis by (simp add: traffic_ok_def)
qed

lemma traffic_same:
  assumes "traffic_ok env w" and "trace b = trace (br w) @ new" and "known (br w) \<subseteq> known b"
    and "\<forall>(k, cid, op) \<in> set new. k \<notin> set TRACKED"
  shows "traffic_ok env (w\<lparr>br := b\<rparr>)"
proof -
  have "rpc_of [] new = []" using assms(4) by (auto simp: rpc_of_def filter_empty_conv)
  then have "traffic_ok env (w\<lparr>br := b, phases := (phases w)([] := phases w [])\<rparr>)"
    using assms by (intro traffic_extend [OF assms(1-3)]) (auto simp: traffic_ok_def)
  then show ?thesis by simp
qed

lemma kinds_in_simps [simp]:
  "kinds_in [] k = 0" "kinds_in ((k', x) # tr) k = (if k' = k then 1 else 0) + kinds_in tr k"
  by (simp_all add: kinds_in_def)

lemma busy_update:
  "busy (w\<lparr>br := b, phases := (phases w)(c := ph)\<rparr>) = (if ph = Idle then busy w - {c} else insert c (busy w))"
  "busy (w\<lparr>br := b\<rparr>) = busy w" "busy (w\<lparr>br := b, closing := cl\<rparr>) = busy w"
  by (auto simp: busy_def)

lemma finite_busy: "tables_ok w \<Longrightarrow> finite (busy w)"
  by (auto simp: tables_ok_def known_def intro: finite_subset)

lemma canon_audited: "canon (audit_operation rt red op) = JStr op \<and> \<not> red \<or> (\<exists>d. canon (audit_operation rt red op) = JObj d) \<and> red"
  by (cases red) (simp_all add: audit_operation_def jobj_def)

lemma begin_request_effect:
  assumes "begin_request env c op args b = (b', Inr p)" "c \<in> known b"
  shows "trace b' = trace b @ [(''rpc.request'', JStr c, canon (p_audited p))] \<and> same_tables b b' \<and>
    fatal_error b' = fatal_error b \<and> audited_right env (Begun p)"
proof -
  have k: "map fst (AList.update c s (connections b)) = map fst (connections b)" for s
    using assms(2) by (simp add: known_def map_fst_update)
  have t: "trace (b\<lparr>visa_journal := read_clock (visa_journal b), total_requests := n, argument_bytes := m\<rparr>) = trace b" for n m
    by (simp add: trace_def)
  have co: "conn_of (b\<lparr>visa_journal := read_clock (visa_journal b), total_requests := n, argument_bytes := m\<rparr>) = conn_of b" for n m
    by (simp add: conn_of_def fun_eq_iff)
  from assms(1) show ?thesis
    unfolding begin_request_def Let_def
    by (auto simp: bind_act_def ret_def trace_logged is_hook_def same_tables_def audited_right_def k t co split: if_splits)
qed

lemma step_begin:
  assumes "run_ok env w" "c \<in> known (br w)" "phases w c = Idle" "begin_request env c op args (br w) = (b, Inr p)"
  shows "run_ok env (w\<lparr>br := b, phases := (phases w)(c := Begun p)\<rparr>)"
proof -
  note e = begin_request_effect [OF assms(4,2)]
  have tr: "trace b = trace (br w) @ [(''rpc.request'', JStr c, canon (p_audited p))]" and sa: "same_tables (br w) b"
    using e by blast+
  have ok: "traffic_ok env w" "tables_ok w" "accounts_ok w" using assms(1) by (auto simp: run_ok_def)
  have "traffic_ok env (w\<lparr>br := b, phases := (phases w)(c := Begun p)\<rparr>)"
  proof (rule traffic_extend [OF ok(1) tr])
    show "\<exists>st'. tsteps (rpc_of c [(''rpc.request'', JStr c, canon (p_audited p))]) st = Some st' \<and> phase_state (Begun p) st'"
      if "phase_state (phases w c) st" for st
      using that assms(3) by (simp add: phase_state_def rpc_of_def TRACKED_def tstep_def)
  qed (use e assms(2) same_tables_known [OF sa] in auto)
  moreover have "tables_ok (w\<lparr>br := b, phases := (phases w)(c := Begun p)\<rparr>)"
    using same_tables_ok [OF ok(2) sa] assms(2) same_tables_known [OF sa] by (auto simp: tables_ok_def busy_update)
  moreover have "accounts_ok (w\<lparr>br := b, phases := (phases w)(c := Begun p)\<rparr>)"
  proof -
    have "c \<notin> busy w" using assms(3) by (simp add: busy_def)
    then have "card (insert c (busy w)) = Suc (card (busy w))" using finite_busy [OF ok(2)] by simp
    then show ?thesis
      using ok(3) sa by (simp add: accounts_ok_def Let_def tr busy_update same_tables_counts same_tables_known) (simp add: same_tables_def)
  qed
  ultimately show ?thesis by (simp add: run_ok_def)
qed

lemma effect_refl [simp]: "conn_effect c [] b b"
  by (simp add: conn_effect_def)

lemma sessions_fit_same [simp]: "sessions_fit [] s s"
  by (simp add: sessions_fit_def)

lemma sum_point:
  fixes f g :: "'a \<Rightarrow> int"
  assumes "finite A" "c \<in> A" "\<And>x. x \<in> A \<Longrightarrow> x \<noteq> c \<Longrightarrow> f x = g x"
  shows "sum f A = sum g A - g c + f c"
proof -
  have "sum f (A - {c}) = sum g (A - {c})" using assms(3) by (intro sum.cong) auto
  then show ?thesis using sum.remove [OF assms(1,2), of f] sum.remove [OF assms(1,2), of g] by linarith
qed

lemma effect_tables:
  assumes "conn_effect c new b b'" "c \<in> known b"
  shows "known b' = known b" and "closed_connections b' = closed_connections b"
    and "live_sessions b' = live_sessions b - int (length (sessions (conn_of b c))) + int (length (sessions (conn_of b' c)))"
    and "closed (conn_of b' x) = closed (conn_of b x)" and "x \<noteq> c \<Longrightarrow> conn_of b' x = conn_of b x"
proof -
  have o: "conn_of b' x = conn_of b x" if "x \<noteq> c" for x using assms(1) that by (simp add: conn_effect_def)
  then show "x \<noteq> c \<Longrightarrow> conn_of b' x = conn_of b x" .
  have "conn_of b' c = (conn_of b c)\<lparr>sessions := sessions (conn_of b' c)\<rparr>" using assms(1) by (simp add: conn_effect_def)
  then have "closed (conn_of b' c) = closed (conn_of b c)" by (metis ConnectionState.select_convs(6) ConnectionState.surjective ConnectionState.update_convs(4))
  with o show cl: "closed (conn_of b' x) = closed (conn_of b x)" for x by (cases "x = c") auto
  show k: "known b' = known b" using assms(1) by (simp add: conn_effect_def known_def)
  show "closed_connections b' = closed_connections b" by (simp add: closed_connections_def k cl)
  show "live_sessions b' = live_sessions b - int (length (sessions (conn_of b c))) + int (length (sessions (conn_of b' c)))"
    unfolding live_sessions_def k
    by (rule sum_point) (use assms(2) o in \<open>auto simp: known_def\<close>)
qed

lemma new_kinds_self [simp]: "new_kinds b b = []"
  by (simp add: new_kinds_def)

definition run_effect :: "ustr \<Rightarrow> pending_request \<Rightarrow> 'l RemoteVisaBroker \<Rightarrow> broker_exc + broker_reply \<Rightarrow> 'l RemoteVisaBroker \<Rightarrow> bool" where
  "run_effect c p b out b' =
     (op_effect c (p_operation p) b out b' \<and> (p_limited p \<longrightarrow> b' = b \<and> (\<exists>e. out = Inl e)) \<and> (closed (conn_of b c) \<longrightarrow> b' = b))"

lemma op_effect_refused:
  "op_effect c op b (Inl e) b \<longleftrightarrow> True"
  by (auto simp: op_effect_def outcome_fits_def split: broker_exc.split)

lemma u_hello [simp]: "u ''hello'' \<noteq> u ''read''" "u ''hello'' \<noteq> u ''write''"
  by simp_all

lemma run_request_effect:
  assumes "library_contract (be_lib env)"
    and "token \<notin> set (map fst (sessions (conn_of b c)))" and "c \<in> known b"
  shows "wp (run_request env c token p) (run_effect c p b) b"
proof -
  have i: "wp (invoke env c token op args) (op_effect c op b) b" for op args
    using invoke_effect [OF assms(1,2)] assms(3) by (simp add: known_def)
  have h: "op_effect c (u ''hello'') b (Inr r) b" for r
    by (simp add: op_effect_def outcome_fits_def)
  have un: "wp (run_request env c token p) Q b =
    (let s = conn_of b c; op = p_operation p; codes = be_codes env;
          unauthorized = CandidateRequestError ''unauthorized'' (error_invalid_object codes) ''unauthorized peer'' in
      if p_limited p then Q (Inl (CandidateRequestError ''request_limit'' (error_nonsupported_operation codes) ''request limit exceeded'')) b
      else if closed s then Q (Inl (CandidateRequestError ''closed_connection'' (error_invalid_object codes) ''connection is closed'')) b
      else if op = u ''hello'' then
        (if has_keys (p_args p) (map u []) then
           if peer_uid s = 10001 \<or> peer_uid s = 11001 then Q (Inr (WTuple (map (\<lambda>n. WStr (u n)) OPERATIONS), None)) b
           else Q (Inl unauthorized) b
         else Q (Inl (CandidateRequestError ''invalid_arguments'' (error_invalid_object codes) ''invalid arguments'')) b)
      else if peer_uid s \<noteq> 10001 then Q (Inl unauthorized) b
      else if op \<notin> set (map u OPERATIONS)
      then Q (Inl (CandidateRequestError ''unknown_operation'' (error_nonsupported_operation codes) ''unsupported operation'')) b
      else wp (invoke env c token op (p_args p)) Q b)" for Q
    by (simp add: wp_def run_request_def Let_def throw_def exact_args_def guard_act_def bind_act_def ret_def)
  have m: "wp (invoke env c token (p_operation p) (p_args p)) (run_effect c p b) b" if "\<not> p_limited p" "\<not> closed (conn_of b c)"
    by (rule wp_mono [OF i]) (use that in \<open>simp add: run_effect_def\<close>)
  show ?thesis
    unfolding un Let_def using m h by (simp add: run_effect_def op_effect_refused)
qed

lemma audited_ops:
  assumes "audited_right env (Begun p)"
  shows "\<not> p_limited p \<Longrightarrow> p_audited p = JStr (p_operation p)" and "p_limited p \<Longrightarrow> \<exists>d. p_audited p = JObj d"
    and "canon (p_audited p) \<noteq> JNull"
  using assms canon_audited [of "be_runtime env" "p_limited p" "p_operation p"]
  by (auto simp: audited_right_def audit_operation_def jobj_def)

lemma scpi_trace [simp]:
  "rpc_of c [] = []"
  "rpc_of c ((k, JStr c, op) # tr) = (if k \<in> set TRACKED then (k, op) # rpc_of c tr else rpc_of c tr)"
  by (simp_all add: rpc_of_def)

lemma step_run_traffic:
  assumes "op_effect c (p_operation p) b out b'" "audited_right env (Begun p)" "\<not> trusted_failure out"
    and "p_limited p \<longrightarrow> b' = b \<and> (\<exists>e. out = Inl e)"
  shows "\<exists>st'. tsteps (rpc_of c (map (\<lambda>k. (k, JStr c, JNull)) (new_kinds b b'))) (canon (p_audited p), []) = Some st' \<and>
    phase_state (Ran p out) st'"
proof (cases "p_limited p")
  case True
  then obtain d where "p_audited p = JObj d" using audited_ops(2) [OF assms(2)] by blast
  with True assms(4) show ?thesis by (simp add: phase_state_def scpi_fits_def jstr_def)
next
  case False
  note a = audited_ops(1) [OF assms(2) False]
  have f: "outcome_fits (p_operation p) out (new_kinds b b')" using assms(1) by (simp add: op_effect_def)
  have e: "JStr (p_operation p) = jstr k \<longleftrightarrow> p_operation p = u k" for k by (simp add: jstr_def)
  show ?thesis
  proof (cases out)
    case (Inr r)
    with f show ?thesis
      by (auto simp: a outcome_fits_def e TRACKED_def tstep_def phase_state_def scpi_fits_def split: if_splits)
  next
    case (Inl x)
    with f assms(3) show ?thesis
      by (cases x) (auto simp: a outcome_fits_def trusted_failure_def e TRACKED_def tstep_def phase_state_def scpi_fits_def)
  qed
qed


lemma step_run:
  assumes "run_ok env w" "phases w c = Begun p" "library_contract (be_lib env)"
    and "\<forall>x. token \<notin> set (map fst (sessions (conn_of (br w) x)))" and "run_request env c token p (br w) = (b, out)"
    and "\<not> trusted_failure out"
  shows "run_ok env (w\<lparr>br := b, phases := (phases w)(c := Ran p out)\<rparr>)"
proof -
  let ?new = "new_kinds (br w) b"
  have ok: "traffic_ok env w" "tables_ok w" "accounts_ok w" using assms(1) by (auto simp: run_ok_def)
  have c: "c \<in> known (br w)" using ok(2) assms(2) by (auto simp: tables_ok_def busy_def)
  have "run_effect c p (br w) out b"
    using run_request_effect [OF assms(3) _ c, of token p] assms(4,5) by (simp add: wp_def)
  then have oe: "op_effect c (p_operation p) (br w) out b" and li: "p_limited p \<longrightarrow> b = br w \<and> (\<exists>e. out = Inl e)"
    and cl: "closed (conn_of (br w) c) \<longrightarrow> b = br w" by (auto simp: run_effect_def)
  then have ef: "conn_effect c ?new (br w) b" and of: "outcome_fits (p_operation p) out ?new"
    and sf: "sessions_fit ?new (sessions (conn_of (br w) c)) (sessions (conn_of b c))" by (auto simp: op_effect_def)
  note et = effect_tables [OF ef c]
  have tr: "trace b = trace (br w) @ map (\<lambda>k. (k, JStr c, JNull)) ?new" using ef by (simp add: conn_effect_def)
  have fr: "states b = states (br w)" "connection_count b = connection_count (br w)" "frozen b = frozen (br w)"
    "leaked_session_count b = leaked_session_count (br w)" "map fst (connections b) = map fst (connections (br w))"
    using ef by (simp_all add: conn_effect_def frame_of_def)
  have ar: "audited_right env (Begun p)" using ok(1) assms(2) by (metis traffic_ok_def)
  have "traffic_ok env (w\<lparr>br := b, phases := (phases w)(c := Ran p out)\<rparr>)"
  proof (rule traffic_extend [OF ok(1) tr])
    show "\<exists>st'. tsteps (rpc_of c (map (\<lambda>k. (k, JStr c, JNull)) ?new)) st = Some st' \<and> phase_state (Ran p out) st'"
      if "phase_state (phases w c) st" for st
      using step_run_traffic [OF oe ar assms(6) li] that assms(2) by (simp add: phase_state_def)
    show "audited_right env (Ran p out)" using ar li by (auto simp: audited_right_def)
  qed (use c et(1) in auto)
  moreover have "tables_ok (w\<lparr>br := b, phases := (phases w)(c := Ran p out)\<rparr>)"
  proof -
    have "distinct (map fst (sessions (conn_of b x))) \<and> (closed (conn_of b x) \<longrightarrow> sessions (conn_of b x) = [])" for x
      using ok(2) sf et(4,5) [of x] cl by (cases "x = c") (auto simp: tables_ok_def sessions_fit_def)
    then show ?thesis using ok(2) c by (auto simp: tables_ok_def fr et(1,2) busy_update)
  qed
  moreover have "accounts_ok (w\<lparr>br := b, phases := (phases w)(c := Ran p out)\<rparr>)"
  proof -
    have bz: "insert c (busy w) = busy w" using assms(2) by (auto simp: busy_def)
    have d: "distinct (map fst (sessions (conn_of (br w) c)))" using ok(2) by (simp add: tables_ok_def)
    note s = ok(3) sf d
    note simps = accounts_ok_def Let_def tr busy_update et(1-3) fr sessions_fit_def bz
    show ?thesis
    proof (cases out)
      case (Inr r)
      with of consider "?new = [''scpi.read'', ''scpi.read_result'']" | "?new = [''scpi.write'', ''scpi.write_result'']"
        | "?new = []" | "?new = [''session.open'']" | "?new = [''session.close'']"
        | "?new = [''resource_query.request'', ''resource_query.result'']"
        by (auto simp: outcome_fits_def split: if_splits)
      then show ?thesis using s by cases (simp_all add: simps)
    next
      case (Inl e)
      with of assms(6) consider "?new = []" | "?new = [''session.invalid_access'']"
        | "?new = [''resource_query.request'', ''resource_query.reject'']" | "?new = [''scpi.read'']" | "?new = [''scpi.write'']"
        by (cases e) (auto simp: outcome_fits_def trusted_failure_def)
      then show ?thesis using s by cases (simp_all add: simps)
    qed
  qed
  ultimately show ?thesis by (simp add: run_ok_def)
qed

lemma py_eq_object:
  assumes "distinct (map fst d)" "\<And>k v. (k, v) \<in> set d \<Longrightarrow> py_eq v v"
  shows "py_eq (JObj d) (JObj d)"
proof -
  have "py_eq_obj e d" if "set e \<subseteq> set d" for e
    using that
  proof (induction e)
    case (Cons kv e)
    then have "map_of d (fst kv) = Some (snd kv)" using assms(1) by (cases kv) auto
    with Cons assms(2) show ?case by (cases kv) auto
  qed simp
  then show ?thesis by simp
qed

lemma py_eq_canon_object:
  assumes "distinct (map fst d)" "\<And>k v. (k, v) \<in> set d \<Longrightarrow> py_eq (canon v) (canon v)"
  shows "py_eq (canon (JObj d)) (canon (JObj d))"
proof -
  let ?c = "sort_key fst (map (\<lambda>(k, v). (k, canon v)) d)"
  have "map fst (map (\<lambda>(k, v). (k, canon v)) d) = map fst d" by (induction d) auto
  then have "mset (map fst ?c) = mset (map fst d)" by (simp only: mset_map mset_sort) (metis mset_map)
  then have "distinct (map fst ?c)" using assms(1) by (metis mset_eq_imp_distinct_iff)
  moreover have "py_eq w w" if "(k, w) \<in> set ?c" for k w using that assms(2) by auto
  ultimately show ?thesis using py_eq_object [of ?c] by simp
qed

lemma py_eq_audited: "py_eq (canon (audit_operation rt red op)) (canon (audit_operation rt red op))"
  unfolding audit_operation_def audit_value.simps jobj_def
  by (cases red; simp only: if_True if_False; (rule py_eq_canon_object)?) (auto simp: jstr_def digest_of_def num_of_def)

lemma report_request_effect:
  assumes "report_request env c p out b = (b', r)" "\<not> trusted_failure out" "audited_right env (Ran p out)" "c \<in> known b"
  obtains knd where "trace b' = trace b @ [(knd, JStr c, canon (p_audited p))]" "same_tables b b'"
    "fatal_error b' = fatal_error b"
    "knd = (case out of Inr _ \<Rightarrow> ''rpc.result'' | Inl _ \<Rightarrow> ''rpc.reject'')"
proof -
  have t: "trace (b\<lparr>visa_journal := read_clock (visa_journal b)\<rparr>) = trace b" by (simp add: trace_def)
  have co: "conn_of (b\<lparr>visa_journal := read_clock (visa_journal b)\<rparr>) = conn_of b" by (simp add: conn_of_def fun_eq_iff)
  show thesis
  proof (cases out)
    case (Inr rs)
    then have "p_audited p = JStr (p_operation p)"
      using assms(3) by (simp add: audited_right_def audit_operation_def)
    with assms(1) Inr that [of "''rpc.result''"] show thesis
      by (cases rs) (auto simp: report_request_def latency_def bind_act_def ret_def trace_logged is_hook_def same_tables_def t co)
  next
    case (Inl e)
    with assms(2) obtain k n m where "rejection env e = Some (k, n, m)"
      by (cases e) (auto simp: rejection_def trusted_failure_def)
    with assms(1) Inl that [of "''rpc.reject''"] show thesis
      by (auto simp: report_request_def latency_def bind_act_def throw_def trace_logged is_hook_def same_tables_def t co)
  qed
qed

lemma step_report:
  assumes "run_ok env w" "phases w c = Ran p out" "\<not> trusted_failure out" "report_request env c p out (br w) = (b, r)"
  shows "run_ok env (w\<lparr>br := b, phases := (phases w)(c := Idle)\<rparr>)"
proof -
  have ok: "traffic_ok env w" "tables_ok w" "accounts_ok w" using assms(1) by (auto simp: run_ok_def)
  have c: "c \<in> known (br w)" using ok(2) assms(2) by (auto simp: tables_ok_def busy_def)
  have ar: "audited_right env (Ran p out)" using ok(1) assms(2) by (metis traffic_ok_def)
  obtain knd where tr: "trace b = trace (br w) @ [(knd, JStr c, canon (p_audited p))]" and sa: "same_tables (br w) b"
    and knd: "knd = (case out of Inr _ \<Rightarrow> ''rpc.result'' | Inl _ \<Rightarrow> ''rpc.reject'')"
    using report_request_effect [OF assms(4,3) ar c] by metis
  have a: "p_audited p = audit_operation (be_runtime env) (p_limited p) (p_operation p)"
    using ar by (simp add: audited_right_def)
  note kn = same_tables_known [OF sa]
  have "traffic_ok env (w\<lparr>br := b, phases := (phases w)(c := Idle)\<rparr>)"
  proof (rule traffic_extend [OF ok(1) tr])
    show "\<exists>st'. tsteps (rpc_of c [(knd, JStr c, canon (p_audited p))]) st = Some st' \<and> phase_state Idle st'"
      if ps: "phase_state (phases w c) st" for st
    proof -
      obtain scpi where st: "st = (canon (p_audited p), scpi)" and f: "scpi_fits p out scpi"
        using ps assms(2) by (cases st) (auto simp: phase_state_def)
      have k: "knd \<in> set TRACKED" "knd \<noteq> ''rpc.request''" "take 5 knd \<noteq> ''scpi.''" "knd = ''rpc.result'' \<longleftrightarrow> (\<exists>r. out = Inr r)"
        by (cases out; simp add: knd TRACKED_def)+
      have n: "canon (p_audited p) \<noteq> JNull" "canon (p_audited p) = jstr s \<longleftrightarrow> p_audited p = jstr s" for s
        using canon_audited [of "be_runtime env" "p_limited p" "p_operation p"] by (auto simp: a audit_operation_def jstr_def jobj_def)
      have e: "py_eq (canon (p_audited p)) (canon (p_audited p))" unfolding a by (rule py_eq_audited)
      have "tstep (knd, canon (p_audited p)) st = Some (JNull, [])"
        using f k by (cases out) (auto simp: st tstep_def scpi_fits_def n e Let_def)
      then show ?thesis using k(1) by (simp add: phase_state_def)
    qed
  qed (use c kn in \<open>auto simp: audited_right_def\<close>)
  moreover have "tables_ok (w\<lparr>br := b, phases := (phases w)(c := Idle)\<rparr>)"
    using same_tables_ok [OF ok(2) sa] by (auto simp: tables_ok_def busy_update)
  moreover have "accounts_ok (w\<lparr>br := b, phases := (phases w)(c := Idle)\<rparr>)"
  proof -
    have "c \<in> busy w" using assms(2) by (simp add: busy_def)
    then have cd: "int (card (busy w)) = int (card (busy w - {c})) + 1"
      using card.remove [OF finite_busy [OF ok(2)], of c] by linarith
    have "knd = ''rpc.result'' \<or> knd = ''rpc.reject''" by (simp add: knd split: sum.split)
    moreover have fr: "connection_count b = connection_count (br w)" "leaked_session_count b = leaked_session_count (br w)"
      using sa by (simp_all add: same_tables_def)
    ultimately show ?thesis
      using ok(3) cd by (elim disjE) (simp_all add: accounts_ok_def Let_def tr busy_update same_tables_counts [OF sa] kn fr)
  qed
  ultimately show ?thesis by (simp add: run_ok_def)
qed

lemma fst_update_fresh: "c \<notin> set (map fst xs) \<Longrightarrow> map fst (AList.update c v xs) = map fst xs @ [c]"
  by (induction xs) auto

definition ACCOUNTED :: "string list" where
  \<comment> \<open>the kinds the invariant speaks of\<close>
  "ACCOUNTED = TRACKED @ [''session.open'', ''session.close'', ''session.forced_cleanup'', ''connection.open'',
     ''connection.close'', ''resource_query.request'', ''resource_query.result'', ''resource_query.reject'']"

definition silent :: "trace_item list \<Rightarrow> bool" where
  "silent new = list_all (\<lambda>(k, _). k \<notin> set ACCOUNTED) new"

lemma silent_simps [simp]:
  "silent []" "silent ((k, x) # new) \<longleftrightarrow> k \<notin> set ACCOUNTED \<and> silent new"
  by (simp_all add: silent_def)

lemma silent_kinds: "silent new \<Longrightarrow> k \<in> set ACCOUNTED \<Longrightarrow> kinds_in new k = 0"
  by (auto simp: silent_def kinds_in_def list_all_iff filter_empty_conv)

lemma silent_untracked: "silent new \<Longrightarrow> \<forall>(k, cid, op) \<in> set new. k \<notin> set TRACKED"
  by (auto simp: silent_def list_all_iff ACCOUNTED_def)

lemma step_silent:
  assumes "run_ok env w" "trace b = trace (br w) @ new" "silent new" "same_tables (br w) b"
  shows "run_ok env (w\<lparr>br := b\<rparr>)"
proof -
  have ok: "traffic_ok env w" "tables_ok w" "accounts_ok w" using assms(1) by (auto simp: run_ok_def)
  note k = same_tables_known [OF assms(4)] and c = same_tables_counts [OF assms(4)]
  have z: "kinds_in new knd = 0" if "knd \<in> set ACCOUNTED" for knd by (rule silent_kinds [OF assms(3) that])
  have f: "connection_count b = connection_count (br w)" "leaked_session_count b = leaked_session_count (br w)"
    using assms(4) by (simp_all add: same_tables_def)
  have "accounts_ok (w\<lparr>br := b\<rparr>)"
    using ok(3) by (simp add: accounts_ok_def Let_def assms(2) z busy_update k c f ACCOUNTED_def TRACKED_def)
  then show ?thesis
    using traffic_same [OF ok(1) assms(2) _ silent_untracked [OF assms(3)]] same_tables_ok [OF ok(2) assms(4)] k
    by (simp add: run_ok_def)
qed

lemma same_tables_logged [simp]: "same_tables b (logged env knd fs b') = same_tables b b'" "same_tables b b"
  by (simp_all add: same_tables_def)

lemma same_tables_trans: "same_tables a b \<Longrightarrow> same_tables b c \<Longrightarrow> same_tables a c"
  by (simp add: same_tables_def)

lemma step_listen:
  assumes "run_ok env w" "announce env path (br w) = (b, r)"
  shows "run_ok env (w\<lparr>br := b\<rparr>)" and "fatal_error b = fatal_error (br w)"
  using assms(2) step_silent [OF assms(1), of b]
  by (auto simp: announce_def bind_act_def trace_logged is_hook_def ACCOUNTED_def TRACKED_def intro: same_tables_trans)

lemma step_garble:
  assumes "run_ok env w" "malformed env c detail (br w) = (b, r)"
  shows "run_ok env (w\<lparr>br := b\<rparr>)" and "fatal_error b = fatal_error (br w)"
  using assms(2) step_silent [OF assms(1), of b]
  by (auto simp: malformed_def bind_act_def ret_def trace_logged is_hook_def ACCOUNTED_def TRACKED_def)

lemma step_freeze:
  assumes "run_ok env w" "freeze_begin env n (br w) = (b, Inr cs)"
  shows "run_ok env (w\<lparr>br := b, closing := Some cs\<rparr>)" and "fatal_error b = fatal_error (br w)"
proof -
  let ?b = "br w\<lparr>frozen := True\<rparr>"
  have cs: "cs = states (br w)" and b: "b = logged env ''broker.cancellation_requested''
      [(''active_workers'', JInt n), (''active_connections'', JInt (int (length (states (br w)))))] ?b"
    using assms(2) by (auto simp: freeze_begin_def bind_act_def ret_def)
  have co: "conn_of ?b = conn_of (br w)" by (simp add: conn_of_def fun_eq_iff)
  have t: "trace ?b = trace (br w)" by (simp add: trace_def)
  have ok: "traffic_ok env w" "tables_ok w" "accounts_ok w" using assms(1) by (auto simp: run_ok_def)
  have "run_ok env (w\<lparr>br := ?b, closing := Some cs\<rparr>)"
  proof -
    have "known ?b = known (br w)" "live_sessions ?b = live_sessions (br w)"
      "closed_connections ?b = closed_connections (br w)"
      by (simp_all add: known_def live_sessions_def closed_connections_def co)
    then show ?thesis using ok
      by (simp add: run_ok_def traffic_ok_def tables_ok_def accounts_ok_def Let_def t co busy_update cs)
  qed
  then have "run_ok env (w\<lparr>br := ?b, closing := Some cs, br := b\<rparr>)"
    by (rule step_silent [where new = "[(''broker.cancellation_requested'', JNull, JNull)]"])
      (simp_all add: b trace_logged is_hook_def ACCOUNTED_def TRACKED_def)
  moreover have "w\<lparr>br := ?b, closing := Some cs, br := b\<rparr> = w\<lparr>br := b, closing := Some cs\<rparr>" by (cases w) simp
  ultimately show "run_ok env (w\<lparr>br := b, closing := Some cs\<rparr>)" by (simp only:)
  show "fatal_error b = fatal_error (br w)" by (simp add: b)
qed

lemma step_accept:
  assumes "run_ok env w" "c \<notin> known (br w)" "c \<noteq> []" "new_connection env c uid gid pid (br w) = (b, r)"
  shows "run_ok env (w\<lparr>br := b\<rparr>)" and "fatal_error b = fatal_error (br w)"
proof -
  let ?peer = "[(''peer_uid'', JInt uid), (''peer_gid'', JInt gid), (''peer_pid'', JInt pid)]"
  let ?s = "\<lparr>peer_uid = uid, peer_gid = gid, peer_pid = pid, sessions = [], request_count = 0, closed = False\<rparr>"
  let ?b = "br w\<lparr>states := states (br w) @ [c], connection_count := connection_count (br w) + 1\<rparr>"
  consider "b = br w" | fs where "b = logged env ''connection.reject'' fs (br w)" "distinct (map fst fs)"
    | "\<not> frozen (br w)" "b = logged env ''connection.open'' ((''connection_id'', JStr c) # ?peer) (put_conn c ?s ?b)"
  proof -
    assume a: "b = br w \<Longrightarrow> thesis" "\<And>fs. b = logged env ''connection.reject'' fs (br w) \<Longrightarrow> distinct (map fst fs) \<Longrightarrow> thesis"
      "\<not> frozen (br w) \<Longrightarrow> b = logged env ''connection.open'' ((''connection_id'', JStr c) # ?peer) (put_conn c ?s ?b) \<Longrightarrow> thesis"
    let ?full = "max_total_connections (limits (br w)) \<le> connection_count (br w) \<or>
      max_connections (limits (br w)) \<le> int (length (states (br w)))"
    show thesis
    proof (cases "frozen (br w)")
      case True
      with assms(4) show thesis by (intro a(1)) (simp add: new_connection_def)
    next
      case False
      show thesis
      proof (cases ?full)
        case True
        with False assms(4) show thesis
          by (intro a(2) [of "(''reason'', jstr ''connection_limit'') # ?peer"]) (simp_all add: new_connection_def bind_act_def throw_def)
      next
        case nf: False
        with False assms(4) show thesis by (intro a(3)) (simp_all add: new_connection_def)
      qed
    qed
  qed
  then have "run_ok env (w\<lparr>br := b\<rparr>) \<and> fatal_error b = fatal_error (br w)"
  proof cases
    case 2
    then have "trace b = trace (br w) @ [(''connection.reject'', getf fs ''connection_id'', getf fs ''operation'')]"
      by (simp add: trace_logged is_hook_def)
    from step_silent [OF assms(1) this] 2 show ?thesis
      by (simp_all add: ACCOUNTED_def TRACKED_def)
  next
    case 3
    have ok: "traffic_ok env w" "tables_ok w" "accounts_ok w" using assms(1) by (auto simp: run_ok_def)
    have t: "trace ?b = trace (br w)" by (simp add: trace_def)
    have cb: "conn_of ?b = conn_of (br w)" by (simp add: conn_of_def fun_eq_iff)
    have tr: "trace b = trace (br w) @ [(''connection.open'', JStr c, JNull)]"
      by (simp add: 3 trace_logged is_hook_def t)
    have up: "map fst (AList.update c ?s (connections (br w))) = map fst (connections (br w)) @ [c]"
      using assms(2) unfolding known_def by (rule fst_update_fresh)
    have kn: "known b = insert c (known (br w))" by (simp add: 3 known_def up)
    have co: "conn_of b x = (if x = c then ?s else conn_of (br w) x)" for x by (simp add: 3 cb)
    have fin: "finite (known (br w))" by (simp add: known_def)
    have cl: "closed_connections b = closed_connections (br w)"
      using assms(2) by (auto simp: closed_connections_def kn co)
    have "(\<Sum>x \<in> known (br w). int (length (sessions (conn_of b x)))) = live_sessions (br w)"
      unfolding live_sessions_def using assms(2) by (intro sum.cong) (auto simp: co)
    then have li: "live_sessions b = live_sessions (br w)"
      using fin assms(2) by (simp add: live_sessions_def kn co)
    have "traffic_ok env (w\<lparr>br := b\<rparr>)"
      by (rule traffic_same [OF ok(1) tr]) (auto simp: kn TRACKED_def)
    moreover have "tables_ok (w\<lparr>br := b\<rparr>)"
    proof -
      have "distinct (map fst (connections b))" using ok(2) assms(2) by (simp add: 3 up tables_ok_def known_def)
      moreover have "closing w = None" using ok(2) 3(1) by (cases "closing w") (auto simp: tables_ok_def)
      moreover have "c \<notin> closed_connections (br w)" using assms(2) by (simp add: closed_connections_def)
      moreover have "states b = states (br w) @ [c]" by (simp add: 3)
      ultimately show ?thesis
        using ok(2) assms(2,3) by (auto simp: tables_ok_def kn co cl busy_update)
    qed
    moreover have "accounts_ok (w\<lparr>br := b\<rparr>)"
    proof -
      have "connection_count b = connection_count (br w) + 1" "leaked_session_count b = leaked_session_count (br w)"
        by (simp_all add: 3)
      then show ?thesis
        using ok(3) fin assms(2) by (simp add: accounts_ok_def Let_def tr busy_update kn cl li)
    qed
    ultimately show ?thesis by (simp add: run_ok_def 3)
  qed (use assms(1) in simp_all)
  then show "run_ok env (w\<lparr>br := b\<rparr>)" and "fatal_error b = fatal_error (br w)" by simp_all
qed

lemma close_all_effect:
  assumes "library_contract (be_lib env)"
  obtains b' where "close_all env c ss b = (b', Inr ())"
    and "trace b' = trace b @ replicate (length ss) (''session.forced_cleanup'', JStr c, JNull)"
    and "frame_of b' = frame_of b" and "connections b' = connections b"
proof -
  have "\<exists>b'. close_all env c ss b = (b', Inr ()) \<and>
      trace b' = trace b @ replicate (length ss) (''session.forced_cleanup'', JStr c, JNull) \<and>
      frame_of b' = frame_of b \<and> connections b' = connections b"
  proof (induction ss arbitrary: b)
    case (Cons tr ss)
    obtain t r where tr: "tr = (t, r)" by (cases tr)
    let ?lr = "lib_close (be_lib env) (real_session r) (library b)"
    have "\<forall>s l. \<exists>status. snd (snd (lib_close (be_lib env) s l)) = Inr status"
      using assms by (simp add: library_contract_def)
    then obtain status where st: "snd (snd ?lr) = Inr status" by fast
    let ?b = "logged env ''session.forced_cleanup'' [(''connection_id'', JStr c),
      (''session'', audit_text_token (be_runtime env) t), (''session_kind'', jstr (session_kind r)), (''status'', JInt status)]
      (lib_after env ?lr b)"
    have "trace ?b = trace b @ [(''session.forced_cleanup'', JStr c, JNull)]" "frame_of ?b = frame_of b"
      by (simp_all add: trace_logged is_hook_def lib_quiet [OF assms] frame_of_def)
    with Cons.IH [of ?b] show ?case by (auto simp: tr bind_act_def call_library_eq st)
  qed (simp add: ret_def)
  with that show thesis by blast
qed

definition left_by :: "ustr \<Rightarrow> 'l RemoteVisaBroker \<Rightarrow> 'l RemoteVisaBroker \<Rightarrow> bool" where
  \<comment> \<open>what \<open>disconnect\<close> of an open connection leaves\<close>
  "left_by c b b' =
     (trace b' = trace b @ replicate (length (sessions (conn_of b c))) (''session.forced_cleanup'', JStr c, JNull) @
        [(''connection.close'', JStr c, JNull)] \<and>
      map fst (connections b') = map fst (connections b) \<and>
      (\<forall>x. x \<noteq> c \<longrightarrow> conn_of b' x = conn_of b x) \<and> sessions (conn_of b' c) = [] \<and> closed (conn_of b' c) \<and>
      states b' = remove1 c (states b) \<and> connection_count b' = connection_count b \<and> frozen b' = frozen b \<and>
      leaked_session_count b' = leaked_session_count b + int (length (sessions (conn_of b c))) \<and>
      fatal_error b' = fatal_error b)"

lemma disconnect_effect:
  assumes "library_contract (be_lib env)" "c \<in> known b" "disconnect env c b = (b', r)"
  shows "if closed (conn_of b c) then b' = b \<and> r = Inr 0
    else left_by c b b' \<and> r = Inr (int (length (sessions (conn_of b c))))"
proof (cases "closed (conn_of b c)")
  case False
  obtain b1 where b1: "close_all env c (rev (sessions (conn_of b c))) b = (b1, Inr ())"
    "trace b1 = trace b @ replicate (length (sessions (conn_of b c))) (''session.forced_cleanup'', JStr c, JNull)"
    "frame_of b1 = frame_of b" "connections b1 = connections b"
    using close_all_effect [OF assms(1), of c "rev (sessions (conn_of b c))" b] by auto
  have co: "conn_of b1 = conn_of b" by (simp add: conn_of_def fun_eq_iff b1(4))
  define b2 where "b2 = b1\<lparr>leaked_session_count := leaked_session_count b1 + int (length (sessions (conn_of b c)))\<rparr>"
  have b2: "trace b2 = trace b1" "conn_of b2 = conn_of b" "connections b2 = connections b"
    using co b1(4) by (simp_all add: b2_def trace_def conn_of_def fun_eq_iff)
  define b3 where "b3 = logged env ''connection.close'' [(''connection_id'', JStr c),
      (''leaked_sessions'', JInt (int (length (sessions (conn_of b c)))))]
      (put_conn c ((conn_of b c)\<lparr>sessions := [], closed := True\<rparr>) b2)"
  have r: "b' = b3\<lparr>states := remove1 c (states b3)\<rparr>" "r = Inr (int (length (sessions (conn_of b c))))"
    using assms(3) False by (auto simp: disconnect_def Let_def bind_act_def b1(1) co b2_def b3_def)
  have f: "trace (b3\<lparr>states := s\<rparr>) = trace b3" "conn_of (b3\<lparr>states := s\<rparr>) = conn_of b3" for s
    by (simp_all add: trace_def conn_of_def fun_eq_iff)
  have "trace b3 = trace b2 @ [(''connection.close'', JStr c, JNull)]"
    by (simp add: b3_def trace_logged is_hook_def)
  moreover have "map fst (AList.update c ((conn_of b c)\<lparr>sessions := [], closed := True\<rparr>) (connections b)) = map fst (connections b)"
    using assms(2) by (simp add: known_def map_fst_update)
  ultimately have "left_by c b b'"
    using b1(3) by (simp add: left_by_def r f b1(2) b2) (simp add: b3_def b2 frame_of_def, simp add: b2_def)
  with False r show ?thesis by simp
qed (use assms(3) in \<open>simp add: disconnect_def\<close>)

lemma kinds_in_replicate [simp]: "kinds_in (replicate n (k', x)) k = (if k' = k then int n else 0)"
  by (induction n) simp_all

lemma step_leave:
  assumes "run_ok env w" "c \<in> known (br w)" "phases w c = Idle" "disconnect env c (br w) = (b, r)"
    and "library_contract (be_lib env)"
  shows "run_ok env (w\<lparr>br := b\<rparr>) \<and> fatal_error b = fatal_error (br w) \<and> known b = known (br w) \<and>
    closed_connections b = insert c (closed_connections (br w)) \<and> (\<exists>n. r = Inr n)"
proof (cases "closed (conn_of (br w) c)")
  case True
  then have "b = br w" "\<exists>n. r = Inr n" using disconnect_effect [OF assms(5,2,4)] by auto
  moreover have "insert c (closed_connections (br w)) = closed_connections (br w)"
    using True assms(2) by (auto simp: closed_connections_def)
  ultimately show ?thesis using assms(1) by simp
next
  case False
  let ?n = "length (sessions (conn_of (br w) c))"
  have l: "left_by c (br w) b" and r: "r = Inr (int ?n)" using disconnect_effect [OF assms(5,2,4)] False by auto
  have ok: "traffic_ok env w" "tables_ok w" "accounts_ok w" using assms(1) by (auto simp: run_ok_def)
  have tr: "trace b = trace (br w) @ (replicate ?n (''session.forced_cleanup'', JStr c, JNull) @ [(''connection.close'', JStr c, JNull)])"
    and fr: "map fst (connections b) = map fst (connections (br w))" "states b = remove1 c (states (br w))"
      "connection_count b = connection_count (br w)" "frozen b = frozen (br w)"
      "leaked_session_count b = leaked_session_count (br w) + int ?n" "fatal_error b = fatal_error (br w)"
    and cc: "sessions (conn_of b c) = []" "closed (conn_of b c)" and co: "x \<noteq> c \<Longrightarrow> conn_of b x = conn_of (br w) x" for x
    using l by (simp_all add: left_by_def)
  have kn: "known b = known (br w)" using fr(1) by (simp add: known_def)
  have fin: "finite (known (br w))" by (simp add: known_def)
  have cl: "closed_connections b = insert c (closed_connections (br w))"
    using assms(2) co cc by (auto simp: closed_connections_def kn) (metis co)+
  have nc: "c \<notin> closed_connections (br w)" using False by (simp add: closed_connections_def)
  have fc: "finite (closed_connections (br w))" using fin by (simp add: closed_connections_def)
  have li: "live_sessions b = live_sessions (br w) - int ?n"
    unfolding live_sessions_def kn using sum_point [OF fin assms(2), of "\<lambda>x. int (length (sessions (conn_of b x)))"
      "\<lambda>x. int (length (sessions (conn_of (br w) x)))"] co cc by simp
  have "traffic_ok env (w\<lparr>br := b\<rparr>)"
    by (rule traffic_same [OF ok(1) tr]) (auto simp: kn TRACKED_def)
  moreover have "tables_ok (w\<lparr>br := b\<rparr>)"
  proof -
    have "distinct (map fst (sessions (conn_of b x))) \<and> (closed (conn_of b x) \<longrightarrow> sessions (conn_of b x) = [])" for x
      using ok(2) cc co [of x] by (cases "x = c") (auto simp: tables_ok_def)
    moreover have "distinct (states b)" "set (states b) = set (states (br w)) - {c}"
      using ok(2) by (auto simp: fr tables_ok_def distinct_remove1 set_remove1_eq)
    ultimately show ?thesis using ok(2) by (auto simp: tables_ok_def fr(1,4) kn cl busy_update)
  qed
  moreover have "accounts_ok (w\<lparr>br := b\<rparr>)"
    using ok(3) nc fc by (simp add: accounts_ok_def Let_def tr busy_update kn cl li fr)
  ultimately show ?thesis using fr(6) kn cl r by (simp add: run_ok_def)
qed


lemma step_disconnect_all:
  assumes "library_contract (be_lib env)" "\<forall>c. phases w c = Idle"
  shows "run_ok env w \<Longrightarrow> set cs \<subseteq> known (br w) \<Longrightarrow> disconnect_all env cs (br w) = (b, r) \<Longrightarrow>
    r = Inr () \<and> run_ok env (w\<lparr>br := b\<rparr>) \<and> fatal_error b = fatal_error (br w) \<and> known b = known (br w) \<and>
    closed_connections b = set cs \<union> closed_connections (br w)"
  using assms(2)
proof (induction cs arbitrary: w)
  case (Cons c cs)
  obtain b1 r1 where d: "disconnect env c (br w) = (b1, r1)" by (cases "disconnect env c (br w)")
  have c: "c \<in> known (br w)" "phases w c = Idle" using Cons.prems by simp_all
  note l = step_leave [OF Cons.prems(1) c d assms(1)]
  from l Cons.prems(3) d have rest: "disconnect_all env cs b1 = (b, r)" by (auto simp: bind_act_def)
  have "r = Inr () \<and> run_ok env (w\<lparr>br := b1, br := b\<rparr>) \<and> fatal_error b = fatal_error b1 \<and> known b = known b1 \<and>
      closed_connections b = set cs \<union> closed_connections b1"
    using Cons.IH [of "w\<lparr>br := b1\<rparr>"] l rest Cons.prems(2,4) by simp
  with l show ?case by simp
qed (auto simp: ret_def)

lemma step_finish:
  assumes "run_ok env w" "closing w = Some cs" "\<forall>c. phases w c = Idle" "freeze_finish env cs 0 (br w) = (b, r)"
    and "library_contract (be_lib env)"
  shows "run_ok env (w\<lparr>br := b\<rparr>) \<and> fatal_error b = fatal_error (br w) \<and> closed_connections b = known b \<and>
    broker_summary b = Some \<lparr>bs_connections = connection_count b, bs_leaked_sessions = leaked_session_count b, bs_frozen = True\<rparr> \<and>
    (\<exists>s. r = Inr s \<and> broker_summary b = Some s)"
proof -
  have t: "tables_ok w" using assms(1) by (simp add: run_ok_def)
  then have cs: "set cs \<subseteq> known (br w)" "set (states (br w)) \<subseteq> set cs"
    "set (states (br w)) = known (br w) - closed_connections (br w)"
    using assms(2) by (auto simp: tables_ok_def)
  obtain b1 r1 where d: "disconnect_all env cs (br w) = (b1, r1)" by (cases "disconnect_all env cs (br w)")
  note l = step_disconnect_all [OF assms(5,3,1) cs(1) d]
  let ?s = "\<lparr>bs_connections = connection_count b1, bs_leaked_sessions = leaked_session_count b1, bs_frozen = True\<rparr>"
  let ?b = "b1\<lparr>broker_summary := Some ?s\<rparr>"
  have r: "r = Inr ?s" and b: "b = logged env ''broker.frozen''
      [(''connections'', JInt (connection_count b1)), (''leaked_sessions'', JInt (leaked_session_count b1))] ?b"
    using assms(4) l by (auto simp: freeze_finish_def bind_act_def guard_act_def d summarize_def Let_def ret_def)
  have same: "same_tables b1 ?b" "trace ?b = trace b1"
    by (simp_all add: same_tables_def conn_of_def trace_def)
  have sb: "same_tables b1 b" using same(1) by (simp add: b)
  have "run_ok env (w\<lparr>br := b1\<rparr>)" using l by blast
  then have "run_ok env (w\<lparr>br := b1, br := b\<rparr>)"
    by (rule step_silent [where new = "[(''broker.frozen'', JNull, JNull)]"])
      (simp_all add: b trace_logged is_hook_def ACCOUNTED_def TRACKED_def same)
  moreover have "closed_connections b1 = known b1"
  proof -
    have "closed_connections (br w) \<subseteq> known (br w)" by (simp add: closed_connections_def)
    then show ?thesis using l cs by auto
  qed
  then have "closed_connections b = known b" by (simp add: same_tables_counts [OF sb] same_tables_known [OF sb])
  ultimately show ?thesis using l r by (simp add: b)
qed

lemma step_start:
  assumes "new_broker ls j l = Inr b" "uncounted j"
  shows "run_ok env \<lparr>br = b, phases = \<lambda>_. Idle, closing = None\<rparr>"
proof -
  have b: "connections b = []" "states b = []" "connection_count b = 0" "leaked_session_count b = 0" "visa_journal b = j"
    using assms(1) by (auto simp: new_broker_def split: if_splits)
  have co: "sessions (conn_of b c) = []" for c by (simp add: conn_of_def b)
  have kn: "known b = {}" "live_sessions b = 0" "closed_connections b = {}"
    by (simp_all add: known_def b live_sessions_def closed_connections_def)
  have k: "fst i \<notin> set (map fst COUNTED_EVENTS)" if i: "i \<in> set (trace b)" for i
  proof -
    obtain e where "e \<in> set (vj_events j)" "fst i = ve_kind e"
      using i by (auto simp: trace_def trace_of_def item_def b)
    with assms(2) show ?thesis by (simp only: uncounted_def list_all_iff) simp
  qed
  have acc: "set ACCOUNTED \<subseteq> set (map fst COUNTED_EVENTS)" by (simp add: ACCOUNTED_def TRACKED_def COUNTED_EVENTS_def)
  have z: "kinds_in (trace b) knd = 0" if "knd \<in> set ACCOUNTED" for knd
    using k acc that by (fastforce simp: kinds_in_def filter_empty_conv)
  have tk: "k \<notin> set TRACKED" if "(k, cid, op) \<in> set (trace b)" for k cid op
    using k [OF that] acc by (auto simp: ACCOUNTED_def)
  then have "rpc_of c (trace b) = []" for c by (auto simp: rpc_of_def filter_empty_conv)
  with tk have "traffic_ok env \<lparr>br = b, phases = \<lambda>_. Idle, closing = None\<rparr>"
    by (auto simp: traffic_ok_def audited_right_def phase_state_def)
  moreover have "tables_ok \<lparr>br = b, phases = \<lambda>_. Idle, closing = None\<rparr>"
    by (simp add: tables_ok_def b co kn busy_def)
  moreover have "accounts_ok \<lparr>br = b, phases = \<lambda>_. Idle, closing = None\<rparr>"
    using z by (simp add: accounts_ok_def Let_def b kn busy_def ACCOUNTED_def TRACKED_def)
  ultimately show ?thesis by (simp add: run_ok_def)
qed

lemma healthy_other:
  assumes "healthy (w\<lparr>br := b, phases := (phases w)(c := ph)\<rparr>)" "fatal_error b = fatal_error (br w)"
    and "\<And>p out. phases w c = Ran p out \<Longrightarrow> \<not> trusted_failure out"
  shows "healthy w"
  unfolding healthy_def
proof (intro conjI allI impI)
  show "fatal_error (br w) = None" using assms(1,2) by (simp add: healthy_def)
  show "\<not> trusted_failure out" if ph: "phases w x = Ran p out" for x p out
  proof (cases "x = c")
    case False
    with assms(1) ph show ?thesis unfolding healthy_def by (metis fun_upd_other world.select_convs(2) world.surjective world.update_convs(2))
  qed (use assms(3) ph in simp)
qed

lemma healthy_same:
  "fatal_error b = fatal_error (br w) \<Longrightarrow> healthy (w\<lparr>br := b\<rparr>) = healthy w"
  "fatal_error b = fatal_error (br w) \<Longrightarrow> healthy (w\<lparr>br := b, closing := cl\<rparr>) = healthy w"
  by (simp_all add: healthy_def)

lemma fatal_logged:
  "announce env path b = (b', r) \<Longrightarrow> fatal_error b' = fatal_error b"
  "malformed env c detail b = (b', r2) \<Longrightarrow> fatal_error b' = fatal_error b"
  "freeze_begin env n b = (b', r3) \<Longrightarrow> fatal_error b' = fatal_error b"
  "new_connection env c uid gid pid b = (b', r4) \<Longrightarrow> fatal_error b' = fatal_error b"
  by (auto simp: announce_def malformed_def freeze_begin_def new_connection_def Let_def bind_act_def ret_def throw_def
      split: if_splits)

lemma fatal_disconnect:
  assumes "library_contract (be_lib env)" "disconnect env c b = (b', r)"
  shows "fatal_error b' = fatal_error b"
proof -
  obtain b1 where "close_all env c (rev (sessions (conn_of b c))) b = (b1, Inr ())" "frame_of b1 = frame_of b"
    using close_all_effect [OF assms(1), of c "rev (sessions (conn_of b c))" b] by metis
  with assms(2) show ?thesis by (auto simp: disconnect_def Let_def bind_act_def frame_of_def split: if_splits)
qed

lemma fatal_disconnect_all:
  "library_contract (be_lib env) \<Longrightarrow> disconnect_all env cs b = (b', r) \<Longrightarrow> fatal_error b' = fatal_error b"
proof (induction cs arbitrary: b)
  case (Cons c cs)
  then show ?case
    using fatal_disconnect [OF Cons.prems(1)] by (auto simp: bind_act_def split: prod.splits sum.splits)
qed (simp add: ret_def)

lemma fatal_finish:
  assumes "library_contract (be_lib env)" "freeze_finish env cs 0 b = (b', r)"
  shows "fatal_error b' = fatal_error b"
proof -
  obtain b1 r1 where d: "disconnect_all env cs b = (b1, r1)" by (cases "disconnect_all env cs b")
  show ?thesis
    using assms(2) fatal_disconnect_all [OF assms(1) d]
    by (cases r1) (auto simp: freeze_finish_def bind_act_def guard_act_def d summarize_def Let_def ret_def)
qed

lemma fatal_report:
  assumes "report_request env c p out b = (b', r)"
  shows "if trusted_failure out then fatal_error b' \<noteq> None else fatal_error b' = fatal_error b"
proof (cases "trusted_failure out")
  case True
  then obtain t where "out = Inl (TrustedError t)" by (auto simp: trusted_failure_def)
  with assms True show ?thesis
    by (auto simp: report_request_def rejection_def bind_act_def throw_def record_trusted_failure_def split: if_splits)
next
  case False
  then show ?thesis
  proof (cases out)
    case (Inl e)
    with False obtain k n m where "rejection env e = Some (k, n, m)"
      by (cases e) (auto simp: rejection_def trusted_failure_def)
    with assms Inl False show ?thesis by (auto simp: report_request_def latency_def bind_act_def throw_def)
  qed (use assms in \<open>auto simp: report_request_def latency_def bind_act_def ret_def split: prod.splits\<close>)
qed

lemma fatal_run:
  assumes "library_contract (be_lib env)" "token \<notin> set (map fst (sessions (conn_of b c)))" "c \<in> known b"
    and "run_request env c token p b = (b', out)"
  shows "fatal_error b' = fatal_error b"
  using run_request_effect [OF assms(1-3), of p] assms(4)
  by (simp add: wp_def run_effect_def op_effect_def conn_effect_def frame_of_def)

lemma fatal_begin: "begin_request env c op args b = (b', r) \<Longrightarrow> fatal_error b' = fatal_error b"
  by (auto simp: begin_request_def Let_def bind_act_def ret_def)


lemma run_invariant:
  assumes "broker_run env w" "library_contract (be_lib env)"
  shows "healthy w \<Longrightarrow> run_ok env w"
  using assms(1)
proof induction
  case (start ls j l b)
  then show ?case using step_start [of ls j l b env] by (simp add: fresh_journal_def)
next
  case (listen w path b r)
  have "healthy w" using listen.prems healthy_same(1) [OF fatal_logged(1) [OF listen.hyps(2)]] by blast
  then show ?case using step_listen(1) [OF listen.IH listen.hyps(2)] by blast
next
  case (accept w c uid gid pid b r)
  have "healthy w" using accept.prems healthy_same(1) [OF fatal_logged(4) [OF accept.hyps(4)]] by blast
  then show ?case using step_accept(1) [OF accept.IH accept.hyps(2-4)] by blast
next
  case (submit w c op args b p)
  have "healthy w" using healthy_other [OF submit.prems fatal_begin [OF submit.hyps(4)]] submit.hyps(3) by simp
  then show ?case using step_begin [OF submit.IH submit.hyps(2-4)] by blast
next
  case (run w c p token b out)
  have "phases (w\<lparr>br := b, phases := (phases w)(c := Ran p out)\<rparr>) c = Ran p out" by simp
  with run.prems have nt: "\<not> trusted_failure out" unfolding healthy_def by blast
  have "healthy w"
    using healthy_other [OF run.prems fatal_run [OF assms(2) run.hyps(4) [rule_format] run.hyps(2,5)]] run.hyps(3) by simp
  then show ?case using step_run [OF run.IH run.hyps(3) assms(2) run.hyps(4,5) nt] by blast
next
  case (report w c p out b r)
  have nt: "\<not> trusted_failure out"
    using fatal_report [OF report.hyps(3)] report.prems by (auto simp: healthy_def)
  then have "fatal_error b = fatal_error (br w)" using fatal_report [OF report.hyps(3)] by simp
  then have "healthy w" using healthy_other [OF report.prems] report.hyps(2) nt by simp
  then show ?case using step_report [OF report.IH report.hyps(2) nt report.hyps(3)] by blast
next
  case (garble w c detail b r)
  have "healthy w" using garble.prems healthy_same(1) [OF fatal_logged(2) [OF garble.hyps(4)]] by blast
  then show ?case using step_garble(1) [OF garble.IH garble.hyps(4)] by blast
next
  case (fail w component exception_type b r)
  then show ?case
    by (auto simp: record_trusted_failure_def healthy_def split: if_splits)
next
  case (leave w c b r)
  have "healthy w" using leave.prems healthy_same(1) [OF fatal_disconnect [OF assms(2) leave.hyps(4)]] by blast
  then show ?case using step_leave [OF leave.IH leave.hyps(2-4) assms(2)] by blast
next
  case (freeze w workers b cs)
  have "healthy w" using freeze.prems healthy_same(2) [OF fatal_logged(3) [OF freeze.hyps(2)]] by blast
  then show ?case using step_freeze(1) [OF freeze.IH freeze.hyps(2)] by blast
next
  case (finish w cs b r)
  have "healthy w" using finish.prems healthy_same(1) [OF fatal_finish [OF assms(2) finish.hyps(4)]] by blast
  then show ?case using step_finish [OF finish.IH finish.hyps(2-4) assms(2)] by blast
qed

section \<open>The end of a run\<close>

lemma counters:
  assumes "\<not> is_hook knd" "(knd, name) \<in> set COUNTED_EVENTS"
  shows "counter (event_counts (map visa_to_dict es)) name = kinds_in (trace_of es) knd"
proof -
  have "distinct (map fst (event_counts (map visa_to_dict es)))" by (simp add: event_counts_def COUNTED_EVENTS_def)
  moreover have "(name, kind_count (map visa_to_dict es) knd) \<in> set (event_counts (map visa_to_dict es))"
    using assms(2) by (force simp: event_counts_def)
  ultimately show ?thesis by (simp add: counter_def kind_count_trace [OF assms(1)])
qed

lemmas counters_of = counters [of "''connection.open''" "''connections_opened''"] counters [of "''connection.close''" "''connections_closed''"]
  counters [of "''rpc.request''" "''rpc_requests''"] counters [of "''rpc.result''" "''rpc_results''"]
  counters [of "''rpc.reject''" "''rpc_rejections''"] counters [of "''resource_query.request''" "''resource_queries''"]
  counters [of "''resource_query.result''" "''resource_query_results''"]
  counters [of "''resource_query.reject''" "''resource_query_rejections''"] counters [of "''session.open''" "''sessions_opened''"]
  counters [of "''session.close''" "''sessions_explicitly_closed''"] counters [of "''session.forced_cleanup''" "''sessions_forced_closed''"]

lemma run_ok_boundaries:
  assumes "run_ok env w" "\<forall>c. phases w c = Idle"
  shows "boundaries (trace (br w))"
proof -
  have ok: "traffic_ok env w" "tables_ok w" using assms(1) by (auto simp: run_ok_def)
  have st: "tsteps (rpc_of c (trace (br w))) (JNull, []) = Some (JNull, [])" for c
    using ok(1) assms(2) by (auto simp: traffic_ok_def phase_state_def)
  have "c \<noteq> []" if "c \<in> known (br w)" for c using ok(2) that by (auto simp: tables_ok_def)
  with st ok(1) show ?thesis by (fastforce simp: boundaries_def traffic_ok_def)
qed

lemma frozen_run:
  assumes "broker_run env w" and "library_contract (be_lib env)" and "closing w = Some cs" and "\<forall>c. phases w c = Idle"
    and "freeze_finish env cs 0 (br w) = (b, r)" and "fatal_error b = None"
  shows "\<exists>s. r = Inr s \<and> broker_summary b = Some s \<and>
    (let events = map visa_to_dict (vj_events (visa_journal b)); counts = event_counts events in
     valid_rpc_boundaries events \<and> counts_balanced counts \<and>
     bs_connections s = counter counts ''connections_opened'' \<and>
     bs_leaked_sessions s = counter counts ''sessions_forced_closed'')"
proof -
  have "healthy w" using fatal_finish [OF assms(2,5)] assms(4,6) by (simp add: healthy_def)
  then have ok: "run_ok env w" by (rule run_invariant [OF assms(1,2)])
  note f = step_finish [OF ok assms(3-5,2)]
  let ?w = "w\<lparr>br := b\<rparr>"
  have cl: "closed_connections b = known b" and acc: "accounts_ok ?w" and t: "tables_ok ?w" and b: "boundaries (trace b)"
    using f run_ok_boundaries [of env ?w] assms(4) by (auto simp: run_ok_def)
  have "sessions (conn_of b c) = []" if "c \<in> known b" for c
    using t cl that by (auto simp: tables_ok_def closed_connections_def)
  then have "live_sessions b = 0" by (simp add: live_sessions_def)
  moreover have "busy ?w = {}" using assms(4) by (simp add: busy_def)
  ultimately have "counts_balanced (event_counts (map visa_to_dict (vj_events (visa_journal b))))"
    "connection_count b = kinds_in (trace b) ''connection.open''"
    "leaked_session_count b = kinds_in (trace b) ''session.forced_cleanup''"
    using acc cl
    by (simp_all add: accounts_ok_def Let_def counts_balanced_def open_session_count_def counters_of is_hook_def COUNTED_EVENTS_def
        flip: trace_def)
  with f b show ?thesis
    by (auto simp: Let_def valid_rpc_boundaries_trace trace_def counters_of is_hook_def COUNTED_EVENTS_def)
qed

text \<open>
  C3. A run of the broker that ends without a trusted failure leaves a journal the evidence check accepts. Whatever
  the clients do - any number of connections, interleaved requests, malformed frames, refused and
  invalid operations, sessions left open, sudden disconnections - once the broker is frozen and its
  workers have stopped, freezing succeeds, and in the journal every request is answered once and in order on its
  connection with the SCPI events its operation demands, the counters balance, and the
  broker's summary states the connections and forced cleanups the journal records.
\<close>

theorem frozen_run_accepted:
  assumes "broker_run env w" and "library_contract (be_lib env)" and "closing w = Some cs" and "\<forall>c. phases w c = Idle"
    and "freeze_finish env cs 0 (br w) = (b, r)" and "fatal_error b = None"
  shows "\<exists>s. r = Inr s \<and> broker_summary b = Some s \<and>
    (let events = map visa_to_dict (vj_events (visa_journal b)); counts = event_counts events in
     valid_rpc_boundaries events \<and> counts_balanced counts \<and>
     bs_connections s = counter counts ''connections_opened'' \<and>
     bs_leaked_sessions s = counter counts ''sessions_forced_closed'')"
  by (rule frozen_run [OF assms])

definition example_visalib :: "unit visalib" where
  "example_visalib = \<lparr>lib_open_manager = \<lambda>l. (l, [], Inr (1, 0)), lib_list_resources = \<lambda>l. (l, [], Inr []),
     lib_open = \<lambda>s n m t l. (l, [], Inr (2, 0)), lib_close = \<lambda>s l. (l, [], Inr 0), lib_read = \<lambda>s n l. (l, [], Inr ([], 0)),
     lib_write = \<lambda>d s bs l. (l, [], Inr (int (length bs), 0)), lib_get_attribute = \<lambda>s a l. (l, [], Inr (LNone, 0)),
     lib_set_attribute = \<lambda>s a v l. (l, [], Inr 0), lib_disable_event = \<lambda>s e m l. (l, [], Inr ()),
     lib_discard_events = \<lambda>s e m l. (l, [], Inr ()), is_access_mode = \<lambda>_. True, is_attribute = \<lambda>_. True,
     is_event_type = \<lambda>_. True, is_mechanism = \<lambda>_. True\<rparr>"

definition example_broker_env :: "unit broker_env" where
  "example_broker_env = \<lparr>be_runtime = \<lparr>float_repr = \<lambda>_. ''0.0'', sha256 = \<lambda>_. replicate 64 (CHR ''0'')\<rparr>, be_clock = int,
     be_lib = example_visalib,
     be_codes = \<lparr>error_invalid_object = 1, error_nonsupported_operation = 2, error_resource_not_found = 3,
       error_invalid_expression = 4\<rparr>,
     be_worker = \<lambda>_. WorkerTimeout, be_json_text = \<lambda>_. None, be_limit = 100\<rparr>"

lemma example_library: "library_contract (be_lib example_broker_env)"
  by (simp add: library_contract_def quiet_run_def example_visalib_def example_broker_env_def)

lemma begin_request_total:
  obtains b' p where "begin_request env c op args b = (b', Inr p)" "p_operation p = op" "p_args p = args"
    "p_limited p \<longleftrightarrow> max_requests_per_connection (limits b) < request_count (conn_of b c) + 1 \<or>
       max_total_requests (limits b) < total_requests b + 1 \<or>
       max_total_argument_bytes (limits b) < argument_bytes b + args_size (be_runtime env) op args"
    "conn_of b' = (conn_of b)(c := (conn_of b c)\<lparr>request_count := request_count (conn_of b c) + 1\<rparr>)"
proof -
  have co: "conn_of (b\<lparr>visa_journal := j, total_requests := n, argument_bytes := m\<rparr>) = conn_of b" for j n m
    by (simp add: conn_of_def fun_eq_iff)
  obtain b' r where r: "begin_request env c op args b = (b', r)" by (cases "begin_request env c op args b")
  then obtain p where "r = Inr p" by (auto simp: begin_request_def Let_def bind_act_def ret_def)
  with r show thesis
    by (intro that [of b' p]) (auto simp: begin_request_def Let_def bind_act_def ret_def fun_eq_iff co)
qed

lemma example_broker_run:
  obtains w cs where "broker_run example_broker_env w" "closing w = Some cs" "\<forall>c. phases w c = Idle"
    "fatal_error (br w) = None" "kinds_in (trace (br w)) ''session.open'' = 1"
proof -
  let ?env = example_broker_env and ?c = "u ''c''" and ?j = "\<lparr>vj_run_id = u ''r'', vj_world_id = u ''w'', vj_events = [], vj_readings = 0\<rparr>"
  define b0 where "b0 = \<lparr>limits = default_limits, connections = [], states = [], connection_count = 0, total_requests = 0,
    argument_bytes = 0, leaked_session_count = 0, frozen = False, broker_summary = None,
    fatal_error = None, visa_journal = ?j, library = ()\<rparr>"
  have "new_broker default_limits ?j () = Inr b0" by (simp add: new_broker_def default_limits_def b0_def)
  from broker_run.start [OF this] have r0: "broker_run ?env \<lparr>br = b0, phases = \<lambda>_. Idle, closing = None\<rparr>"
    by (simp add: fresh_journal_def uncounted_def settled_def journal_sound_def timed_def)
  let ?s = "\<lparr>peer_uid = 10001, peer_gid = 0, peer_pid = 0, sessions = [], request_count = 0, closed = False\<rparr>"
  define b1 where "b1 = logged ?env ''connection.open'' [(''connection_id'', JStr ?c), (''peer_uid'', JInt 10001),
    (''peer_gid'', JInt 0), (''peer_pid'', JInt 0)] (put_conn ?c ?s (b0\<lparr>states := [?c], connection_count := 1\<rparr>))"
  have "new_connection ?env ?c 10001 0 0 b0 = (b1, Inr ())"
    by (simp add: new_connection_def b1_def b0_def default_limits_def)
  with broker_run.accept [OF r0, of ?c 10001 0 0 b1] have r1: "broker_run ?env \<lparr>br = b1, phases = \<lambda>_. Idle, closing = None\<rparr>"
    by (simp add: known_def b0_def)
  have b1: "known b1 = {?c}" "conn_of b1 x = (if x = ?c then ?s else conn_of b0 x)" "sessions (conn_of b0 x) = []"
    "kinds_in (trace b1) ''session.open'' = 0" "fatal_error b1 = None" for x
    by (simp_all add: known_def b1_def b0_def conn_of_def update_conv' trace_logged is_hook_def) (simp add: trace_def trace_of_def)
  let ?op = "u ''open_default_resource_manager''"
  have small: "args_size (be_runtime ?env) ?op [] < 100"
    unfolding example_broker_env_def args_size_def audit_mapping_def by code_simp
  obtain b2 p where q: "begin_request ?env ?c ?op [] b1 = (b2, Inr p)" and p: "p_operation p = ?op" "p_args p = []"
    and pl: "p_limited p \<longleftrightarrow> max_requests_per_connection (limits b1) < request_count (conn_of b1 ?c) + 1 \<or>
       max_total_requests (limits b1) < total_requests b1 + 1 \<or>
       max_total_argument_bytes (limits b1) < argument_bytes b1 + args_size (be_runtime ?env) ?op []"
    and b2c: "conn_of b2 = (conn_of b1)(?c := (conn_of b1 ?c)\<lparr>request_count := request_count (conn_of b1 ?c) + 1\<rparr>)"
    by (rule begin_request_total)
  have lim: "\<not> p_limited p" using small unfolding pl b1 by (simp add: b1_def b0_def default_limits_def)
  have r2: "broker_run ?env \<lparr>br = b2, phases = (\<lambda>_. Idle)(?c := Begun p), closing = None\<rparr>"
    using broker_run.submit [OF r1, of ?c ?op "[]" b2 p] q by (simp add: b1)
  have c1: "?c \<in> known b1" by (simp only: b1 insertI1)
  note be = begin_request_effect [OF q c1]
  have k2: "known b2 = {?c}" using be same_tables_known b1(1) by metis
  have e2: "trace b2 = trace b1 @ [(''rpc.request'', JStr ?c, canon (p_audited p))]" "fatal_error b2 = None"
    using be b1(5) by auto
  have ar: "audited_right ?env (Ran p out)" for out using be lim by (simp add: audited_right_def)
  obtain b3 out where x: "run_request ?env ?c (u ''t'') p b2 = (b3, out)" by (cases "run_request ?env ?c (u ''t'') p b2")
  have e3: "trace b3 = trace b2 @ [(''session.open'', JStr ?c, JNull)]" "fatal_error b3 = fatal_error b2" "\<not> trusted_failure out"
    using x by (auto simp: run_request_def Let_def lim b2c b1 p invoke_def broker_open_manager_def exact_args_def
      bind_act_def guard_act_def call_library_eq add_session_def ret_def OPERATIONS_def example_broker_env_def example_visalib_def
      has_keys_def trace_logged is_hook_def quiet_run_def trusted_failure_def)
  have r3: "broker_run ?env \<lparr>br = b3, phases = (\<lambda>_. Idle)(?c := Ran p out), closing = None\<rparr>"
    using broker_run.run [OF r2, of ?c p "u ''t''" b3 out] x by (simp add: k2 b2c b1)
  obtain b4 r where y: "report_request ?env ?c p out b3 = (b4, r)" by (cases "report_request ?env ?c p out b3")
  have r4: "broker_run ?env \<lparr>br = b4, phases = \<lambda>_. Idle, closing = None\<rparr>"
  proof -
    have "(\<lambda>_. Idle)(?c := Idle) = (\<lambda>_. Idle)" by (simp add: fun_eq_iff)
    with broker_run.report [OF r3, of ?c p out b4 r] y show ?thesis by simp
  qed
  have "?c \<in> known b3"
  proof -
    have t: "u ''t'' \<notin> set (map fst (sessions (conn_of b2 ?c)))" by (simp add: b2c b1)
    have c2: "?c \<in> known b2" by (simp add: k2)
    have "conn_effect ?c (new_kinds b2 b3) b2 b3"
      using run_request_effect [OF example_library t c2, of p] x by (simp add: wp_def run_effect_def op_effect_def)
    from effect_tables(1) [OF this c2] c2 show ?thesis by simp
  qed
  then obtain knd where e4: "trace b4 = trace b3 @ [(knd, JStr ?c, canon (p_audited p))]" "fatal_error b4 = fatal_error b3"
    "knd = (case out of Inr _ \<Rightarrow> ''rpc.result'' | Inl _ \<Rightarrow> ''rpc.reject'')"
    using report_request_effect [OF y e3(3) ar] by metis
  then have kn: "knd \<noteq> ''session.open''" by (simp split: sum.splits)
  obtain b5 cs where z: "freeze_begin ?env 0 b4 = (b5, Inr cs)" and b5: "fatal_error b5 = fatal_error b4"
    "trace b5 = trace b4 @ [(''broker.cancellation_requested'', JNull, JNull)]"
  proof -
    have "trace (b4\<lparr>frozen := True\<rparr>) = trace b4" by (simp add: trace_def)
    with that show thesis by (simp add: freeze_begin_def bind_act_def ret_def trace_logged is_hook_def)
  qed
  have "broker_run ?env \<lparr>br = b5, phases = \<lambda>_. Idle, closing = Some cs\<rparr>"
    using broker_run.freeze [OF r4, of 0 b5 cs] z by simp
  with that show thesis using b5 e4 e3 e2 b1(4) kn by simp
qed

theorem frozen_run_accepted_witness:
  "\<exists>w cs b s. broker_run example_broker_env w \<and> kinds_in (trace (br w)) ''session.open'' = 1 \<and>
     freeze_finish example_broker_env cs 0 (br w) = (b, Inr s) \<and>
     counts_balanced (event_counts (map visa_to_dict (vj_events (visa_journal b)))) \<and>
     valid_rpc_boundaries (map visa_to_dict (vj_events (visa_journal b)))"
proof -
  obtain w cs where w: "broker_run example_broker_env w" "closing w = Some cs" "\<forall>c. phases w c = Idle"
    "fatal_error (br w) = None" "kinds_in (trace (br w)) ''session.open'' = 1"
    by (rule example_broker_run)
  obtain b r where f: "freeze_finish example_broker_env cs 0 (br w) = (b, r)" by (cases "freeze_finish example_broker_env cs 0 (br w)")
  have "fatal_error b = None" using fatal_finish [OF example_library f] w(4) by simp
  from frozen_run_accepted [OF w(1) example_library w(2,3) f this] w(1,5) f show ?thesis
    by (simp add: Let_def) blast
qed

end
