(* ===== verification/Journal_File.thy ===== *)
theory Journal_File
  imports Sim_Evidence
begin

text \<open>
  The writer and the reader of the journal file. The broker's journal is written by \<open>visa_export\<close> of
  \<^verbatim>\<open>pyvisa_dut_validation_v2/journal.py\<close> and read back by \<open>load_events\<close> of \<^verbatim>\<open>container/sim_evidence.py\<close>,
  two independent pieces of code. The theory shows that they agree: what a sound journal exports
  is read back event by event.
\<close>

section \<open>The text of JSON is printable\<close>

definition printable_code :: "int \<Rightarrow> bool" where
  "printable_code c = (32 \<le> c \<and> c \<le> 126)"

lemma printable_codes [simp]:
  "printable_code 34" "printable_code 44" "printable_code 58" "printable_code 91" "printable_code 92" "printable_code 93"
  "printable_code 117" "printable_code 123" "printable_code 125"
  by (simp_all add: printable_code_def)

definition printable_floats :: "runtime \<Rightarrow> bool" where
  \<comment> \<open>\<^verbatim>\<open>repr\<close> of a float is printable ASCII\<close>
  "printable_floats rt = (\<forall>q. list_all printable_code (u (float_repr rt q)))"

lemma hex_code_printable: "0 \<le> d \<Longrightarrow> d < 16 \<Longrightarrow> printable_code (hex_code d)"
  by (simp add: hex_code_def printable_code_def)

lemma u_escape_printable: "0 \<le> v \<Longrightarrow> v < 65536 \<Longrightarrow> list_all printable_code (u_escape v)"
  by (simp add: u_escape_def hex4_def hex_code_printable)

lemma escape_printable: "0 \<le> c \<Longrightarrow> c < 0x110000 \<Longrightarrow> list_all printable_code (escape_code True c)"
  using u_escape_printable [of c] u_escape_printable [of "0xD800 + (c - 0x10000) div 1024"]
    u_escape_printable [of "0xDC00 + (c - 0x10000) mod 1024"]
  by (auto simp: escape_code_def short_escape_def printable_code_def)

lemma uquote_printable: "list_all scalar s \<Longrightarrow> list_all printable_code (uquote True s)"
  using escape_printable by (auto simp: uquote_def printable_code_def list_all_iff scalar_def)

lemma ucommas_printable: "list_all (list_all printable_code) ss \<Longrightarrow> list_all printable_code (ucommas ss)"
  by (induction ss rule: ucommas.induct) (auto simp: printable_code_def)

lemma show_int_printable: "list_all printable_code (u (show_int n))"
  using show_pos_digits [of n] show_pos_digits [of "- n"]
  by (auto simp: show_int_def list_all_iff is_dig_def printable_code_def u_def code_of_def)

lemma udumps_printable:
  assumes "printable_floats rt"
  shows "readable h (float_repr rt) v \<Longrightarrow> list_all printable_code (udumps True (float_repr rt) v)"
proof (induction v rule: canon.induct)
  case (1 vs)
  then have "list_all (list_all printable_code) (map (udumps True (float_repr rt)) vs)" by (simp add: list_all_iff)
  from ucommas_printable [OF this] show ?case by simp
next
  case (2 kvs)
  have "list_all (list_all printable_code)
      (map (upair True) (sort_key fst (map (\<lambda>(k, v). (k, udumps True (float_repr rt) v)) kvs)))"
    using 2 uquote_printable by (fastforce simp: list_all_iff upair_def)
  from ucommas_printable [OF this] show ?case by simp
qed (use assms show_int_printable in \<open>auto simp: uquote_printable printable_floats_def printable_code_def u_def code_of_def
  split: pyfloat.splits\<close>)

lemma ascii_text_codes: "list_all printable_code t \<Longrightarrow> map code_of (ascii_text t) = t"
  by (induction t) (auto simp: ascii_text_def code_of_def printable_code_def of_char_of)

section \<open>Canonical dictionaries\<close>

lemma sort_key_idem [simp]: "sort_key f (sort_key f xs) = sort_key f xs"
  by (rule sort_key_id_if_sorted) simp

lemma udumps_canon: "udumps a fr (canon v) = udumps a fr v"
proof (induction v rule: canon.induct)
  case (1 vs)
  then show ?case by (simp cong: map_cong)
next
  case (2 kvs)
  have "map (\<lambda>(k, v). (k, udumps a fr v)) (map (\<lambda>(k, v). (k, canon v)) kvs) = map (\<lambda>(k, v). (k, udumps a fr v)) kvs"
    using 2 by (auto simp: comp_def)
  then show ?case
    by (simp only: canon.simps udumps.simps sort_key_map_snd [symmetric] sort_key_idem)
qed simp_all

lemma canon_canon: "canon (canon v) = canon v"
proof (induction v rule: canon.induct)
  case (1 vs)
  then show ?case by (simp cong: map_cong)
next
  case (2 kvs)
  have "map (\<lambda>(k, v). (k, canon v)) (map (\<lambda>(k, v). (k, canon v)) kvs) = map (\<lambda>(k, v). (k, canon v)) kvs"
    using 2 by (auto simp: comp_def)
  then show ?case by (simp only: canon.simps sort_key_map_snd [symmetric] sort_key_idem)
qed simp_all

lemma visa_copied_idem [simp]: "visa_copied (visa_copied fs) = visa_copied fs"
  using canon_canon [of "JObj fs"] by (simp add: visa_copied_def)


section \<open>Reading back one event\<close>

definition reads_ascii :: "reader \<Rightarrow> bool" where
  \<comment> \<open>\<^verbatim>\<open>json.loads\<close> decodes printable ASCII as itself\<close>
  "reads_ascii rd = (\<forall>t. list_all printable_code t \<longrightarrow> rd_json_text rd (ascii_text t) = Some t)"

definition hex_digests :: "runtime \<Rightarrow> bool" where
  \<comment> \<open>\<^verbatim>\<open>hexdigest\<close> of SHA-256\<close>
  "hex_digests rt = (\<forall>s. hash_text (jstr (sha256 rt s)))"

definition recordable :: "reader \<Rightarrow> VisaEvent \<Rightarrow> bool" where
  \<comment> \<open>an event with a kind whose text the reader can parse: finite floats, integers within the digit bound, no surrogates,
      no deeper than the interpreter allows\<close>
  "recordable rd e = (ve_kind e \<noteq> [] \<and> readable evidence_hooks (float_repr (rd_runtime rd)) (JObj (visa_to_dict e)) \<and>
     nested_within (rd_limit rd) (JObj (visa_to_dict e)))"

lemma evidence_loads_canonical:
  assumes "printable_floats (rd_runtime rd)" "reads_ascii rd"
    and "readable evidence_hooks (float_repr (rd_runtime rd)) v" "nested_within (rd_limit rd) v"
  shows "evidence_loads rd message (visa_canonical (rd_runtime rd) v) = Inr (canon v)"
proof -
  let ?t = "udumps True (float_repr (rd_runtime rd)) v"
  have "rd_json_text rd (ascii_text ?t) = Some ?t"
    using assms(2) udumps_printable [OF assms(1,3)] by (simp add: reads_ascii_def)
  moreover have "loads evidence_hooks (rd_limit rd) ?t = Inr (canon v)"
    by (rule loads_udumps [OF _ assms(3,4)]) (simp add: evidence_hooks_def unique_object_def)
  ultimately show ?thesis by (simp add: evidence_loads_def visa_canonical_def)
qed

lemma visa_dict_keys: "map fst (visa_to_dict e) = map u EVENT_KEYS"
  by (simp add: visa_to_dict_def visa_unsigned_def EVENT_KEYS_def)

lemma distinct_visa_dict: "distinct (map fst (visa_to_dict e))"
  by (simp add: visa_to_dict_def visa_unsigned_def)

lemma field_copied_dict: "field (visa_copied (visa_to_dict e)) k = canon (field (visa_to_dict e) k)"
  unfolding visa_copied_def by (rule field_canon [OF distinct_visa_dict])

lemma field_visa_dict [simp]:
  "field (visa_to_dict e) ''run_id'' = JStr (ve_run_id e)" "field (visa_to_dict e) ''world_id'' = JStr (ve_world_id e)"
  "field (visa_to_dict e) ''sequence'' = JInt (ve_sequence e)" "field (visa_to_dict e) ''monotonic_ns'' = JInt (ve_time e)"
  "field (visa_to_dict e) ''previous_hash'' = jstr (ve_previous e)" "field (visa_to_dict e) ''kind'' = jstr (ve_kind e)"
  "field (visa_to_dict e) ''fields'' = JObj (ve_fields e)" "field (visa_to_dict e) ''event_hash'' = jstr (ve_hash e)"
  by (simp_all add: visa_to_dict_def visa_unsigned_def)

lemma unsigned_text:
  "visa_canonical rt (JObj (AList.delete (u ''event_hash'') (visa_copied (visa_to_dict e)))) = visa_canonical rt (JObj (visa_unsigned e))"
proof -
  let ?m = "map (\<lambda>(k, v). (k, canon v))"
  have "AList.delete (u ''event_hash'') (visa_copied (visa_to_dict e)) =
      sort_key fst (filter (\<lambda>(k, v). u ''event_hash'' \<noteq> k) (?m (visa_to_dict e)))"
    by (simp only: visa_copied_def AList.delete_eq filter_sort)
  also have "filter (\<lambda>(k, v). u ''event_hash'' \<noteq> k) (?m (visa_to_dict e)) = ?m (visa_unsigned e)"
    by (simp add: visa_to_dict_def visa_unsigned_def)
  finally have "JObj (AList.delete (u ''event_hash'') (visa_copied (visa_to_dict e))) = canon (JObj (visa_unsigned e))"
    by (simp only: canon.simps)
  then show ?thesis by (simp only: visa_canonical_def udumps_canon)
qed

lemma load_event_export:
  assumes "printable_floats (rd_runtime rd)" "reads_ascii rd" "hex_digests (rd_runtime rd)" "recordable rd e"
    and "event_sound (rd_runtime rd) e" "previous_time \<le> ve_time e"
  shows "load_event rd (ve_run_id e) (ve_world_id e) (ve_sequence e) (ve_previous e) previous_time
      (visa_canonical (rd_runtime rd) (JObj (visa_to_dict e))) =
    Inr (visa_copied (visa_to_dict e), ve_hash e, ve_time e)"
proof -
  have r: "readable evidence_hooks (float_repr (rd_runtime rd)) (JObj (visa_to_dict e))"
    "nested_within (rd_limit rd) (JObj (visa_to_dict e))" and k: "ve_kind e \<noteq> []"
    using assms(4) by (auto simp: recordable_def)
  have l: "evidence_loads rd message (visa_canonical (rd_runtime rd) (JObj (visa_to_dict e))) = Inr (JObj (visa_copied (visa_to_dict e)))"
    for message using evidence_loads_canonical [OF assms(1,2) r] by (simp add: visa_copied_def)
  have ne: "visa_canonical (rd_runtime rd) (JObj (visa_to_dict e)) \<noteq> []" by (simp add: visa_canonical_def ascii_text_def)
  have keys: "keys_are (visa_copied (visa_to_dict e)) EVENT_KEYS"
    by (simp add: visa_copied_def keys_are_canon) (simp add: keys_are_simps visa_dict_keys [THEN arg_cong [of _ _ set], simplified])
  have h: "sha256 (rd_runtime rd) (visa_canonical (rd_runtime rd) (JObj (visa_unsigned e))) = ve_hash e"
    using assms(5) by (simp add: event_sound_def)
  have "hash_text (jstr (ve_hash e))" using assms(3) unfolding hex_digests_def h [symmetric] by blast
  then have v: "event_fields_valid (ve_run_id e) (ve_world_id e) (ve_sequence e) (ve_previous e) previous_time (visa_copied (visa_to_dict e))"
    using k assms(6) by (simp add: event_fields_valid_def field_copied_dict eq_int_def is_bool_def is_text_def is_obj_def jstr_def num_of_def)
  show ?thesis
    by (simp add: load_event_def ne l keys v unsigned_text h Let_def res_simps field_copied_dict)
qed

section \<open>Reading back the file\<close>

lemma lines_of_line:
  assumes "list_all (\<lambda>c. c \<noteq> CHR 0x0A \<and> c \<noteq> CHR 0x0D) l"
  shows "lines_of acc (l @ CHR 0x0A # rest) = (rev acc @ l) # lines_of [] rest"
  using assms by (induction l arbitrary: acc) auto

lemma canonical_one_line:
  assumes "printable_floats rt" "readable h (float_repr rt) v"
  shows "list_all (\<lambda>c. c \<noteq> CHR 0x0A \<and> c \<noteq> CHR 0x0D) (visa_canonical rt v)"
proof -
  have p: "list_all printable_code (udumps True (float_repr rt) v)" by (rule udumps_printable [OF assms])
  have "list_all printable_code (map code_of (visa_canonical rt v))"
    unfolding visa_canonical_def ascii_text_codes [OF p] by (rule p)
  then show ?thesis by (auto simp: list_all_iff code_of_def printable_code_def)
qed

lemma splitlines_export:
  assumes "printable_floats rt" "\<And>e. e \<in> set es \<Longrightarrow> readable h (float_repr rt) (JObj (visa_to_dict e))"
  shows "splitlines (concat (map (\<lambda>e. visa_canonical rt (JObj (visa_to_dict e)) @ [CHR 0x0A]) es)) =
    map (\<lambda>e. visa_canonical rt (JObj (visa_to_dict e))) es"
  using assms(2)
proof (induction es)
  case (Cons e es)
  have "list_all (\<lambda>c. c \<noteq> CHR 0x0A \<and> c \<noteq> CHR 0x0D) (visa_canonical rt (JObj (visa_to_dict e)))"
    by (rule canonical_one_line [OF assms(1) Cons.prems]) simp
  from lines_of_line [OF this, of "[]"] Cons.IH Cons.prems show ?case by (simp add: splitlines_def)
qed (simp add: splitlines_def)

lemma load_lines_export:
  assumes "printable_floats (rd_runtime rd)" "reads_ascii rd" "hex_digests (rd_runtime rd)"
  shows "chained previous n es \<Longrightarrow> sorted (t # map ve_time es) \<Longrightarrow>
    list_all (\<lambda>e. recordable rd e \<and> event_sound (rd_runtime rd) e \<and> ve_run_id e = run \<and> ve_world_id e = world) es \<Longrightarrow>
    load_lines rd run world n previous t (map (\<lambda>e. visa_canonical (rd_runtime rd) (JObj (visa_to_dict e))) es) =
      Inr (map (\<lambda>e. visa_copied (visa_to_dict e)) es)"
proof (induction es arbitrary: previous n t)
  case (Cons e es)
  have "load_event rd run world n previous t (visa_canonical (rd_runtime rd) (JObj (visa_to_dict e))) =
      Inr (visa_copied (visa_to_dict e), ve_hash e, ve_time e)"
    using load_event_export [OF assms, of e t] Cons.prems by simp
  moreover have "load_lines rd run world (n + 1) (ve_hash e) (ve_time e)
      (map (\<lambda>e. visa_canonical (rd_runtime rd) (JObj (visa_to_dict e))) es) = Inr (map (\<lambda>e. visa_copied (visa_to_dict e)) es)"
    using Cons.prems by (intro Cons.IH) simp_all
  ultimately show ?case by (simp add: res_simps)
qed simp

lemma load_events_export:
  assumes "printable_floats (rd_runtime rd)" "reads_ascii rd" "hex_digests (rd_runtime rd)"
    and "journal_sound (rd_runtime rd) j" "sorted (- 1 # map ve_time (vj_events j))" "list_all (recordable rd) (vj_events j)"
    and "length (visa_export (rd_runtime rd) j) \<le> EVENTS_LIMIT"
  shows "load_events rd (Regular (visa_export (rd_runtime rd) j)) (vj_run_id j) (vj_world_id j) =
    Inr (map (\<lambda>e. visa_copied (visa_to_dict e)) (vj_events j))"
proof -
  have "splitlines (visa_export (rd_runtime rd) j) = map (\<lambda>e. visa_canonical (rd_runtime rd) (JObj (visa_to_dict e))) (vj_events j)"
    unfolding visa_export_def
  proof (rule splitlines_export [OF assms(1)])
    show "readable evidence_hooks (float_repr (rd_runtime rd)) (JObj (visa_to_dict e))" if "e \<in> set (vj_events j)" for e
      using assms(6) that unfolding list_all_iff recordable_def by blast
  qed
  moreover have "load_lines rd (vj_run_id j) (vj_world_id j) 1 VISA_GENESIS_HASH (- 1)
      (map (\<lambda>e. visa_canonical (rd_runtime rd) (JObj (visa_to_dict e))) (vj_events j)) =
      Inr (map (\<lambda>e. visa_copied (visa_to_dict e)) (vj_events j))"
    using assms(4-6) by (intro load_lines_export [OF assms(1-3)]) (auto simp: journal_sound_def list_all_iff)
  ultimately show ?thesis using assms(7) by (simp add: load_events_def read_regular_def res_simps)
qed

lemma timed_sorted:
  assumes "timed clock j" "mono clock" "0 \<le> clock 0"
  shows "sorted (- 1 # map ve_time (vj_events j))"
proof -
  obtain ns where ns: "sorted_wrt (<) ns" "map ve_time (vj_events j) = map clock ns" using assms(1) by (auto simp: timed_def)
  have "sorted ns" using ns(1) by (simp add: strict_sorted_iff)
  then have "sorted (map clock ns)" using assms(2) by (simp add: sorted_map sorted_wrt_mono_rel [of _ "(\<le>)"] monoD)
  moreover have "0 \<le> clock n" for n using monoD [OF assms(2), of 0 n] assms(3) by simp
  ultimately show ?thesis by (auto simp: ns(2) intro: order_trans [of _ 0])
qed

end
