(* ===== verification/Broker_Service.thy ===== *)
theory Broker_Service
  imports Broker_Run Journal_File
begin

text \<open>
  What holds of the broker as a whole. The locale \<open>broker_invariant\<close> carries a property from the elementary
  updates to every action and every run; it is interpreted for the chain of the journal and for
  the limits on connections. The exported file of a run is accepted by the reader of the evidence.
\<close>

section \<open>Invariants of the broker\<close>

text \<open>
  A property of the broker that survives the elementary updates survives every action, and so holds in
  every run. The updates are the operations of the interface; the actions are its client.
\<close>

locale broker_invariant =
  fixes env :: "'l broker_env" and I :: "'l RemoteVisaBroker \<Rightarrow> bool"
  assumes kept_append: "I b \<Longrightarrow> I (b\<lparr>visa_journal := visa_append (be_runtime env) (be_clock env) knd fs (visa_journal b)\<rparr>)"
    and kept_clock: "I b \<Longrightarrow> I (b\<lparr>visa_journal := read_clock (visa_journal b)\<rparr>)"
    and kept_library: "I b \<Longrightarrow> I (b\<lparr>library := l\<rparr>)"
    and kept_connections: "I b \<Longrightarrow> I (b\<lparr>connections := cs\<rparr>)"
    and kept_requests: "I b \<Longrightarrow> I (b\<lparr>total_requests := n, argument_bytes := m\<rparr>)"
    and kept_leaked: "I b \<Longrightarrow> I (b\<lparr>leaked_session_count := n\<rparr>)"
    and kept_fatal: "I b \<Longrightarrow> I (b\<lparr>fatal_error := Some t\<rparr>)"
    and kept_frozen: "I b \<Longrightarrow> I (b\<lparr>frozen := True\<rparr>)"
    and kept_summary: "I b \<Longrightarrow> I (b\<lparr>broker_summary := Some s\<rparr>)"
    and kept_left: "I b \<Longrightarrow> I (b\<lparr>states := remove1 c (states b)\<rparr>)"
    and kept_accepted: "I b \<Longrightarrow> connection_count b < max_total_connections (limits b) \<Longrightarrow>
      int (length (states b)) < max_connections (limits b) \<Longrightarrow>
      I (b\<lparr>states := states b @ [c], connection_count := connection_count b + 1\<rparr>)"
begin

definition keeps :: "('l, 'a) action \<Rightarrow> bool" where
  "keeps m = (\<forall>b. I b \<longrightarrow> I (fst (m b)))"

lemma keepsD: "keeps m \<Longrightarrow> m b = (b', r) \<Longrightarrow> I b \<Longrightarrow> I b'"
  by (metis keeps_def fst_conv)

lemma keeps_bind: "keeps m \<Longrightarrow> (\<And>x. keeps (f x)) \<Longrightarrow> keeps (bind_act m f)"
  unfolding keeps_def bind_act_def by (fastforce split: prod.splits sum.splits)

lemma keeps_plain:
  "keeps (ret x)" "keeps (throw e)" "keeps (guard_act c e)" "keeps (lift_res r)" "keeps (exact_args env args ks)"
  by (simp_all add: keeps_def ret_def throw_def guard_act_def lift_res_def exact_args_def)

lemma kept_logged: "I b \<Longrightarrow> I (logged env knd fs b)"
  by (simp add: logged_def kept_append)

lemma kept_put: "I b \<Longrightarrow> I (put_conn c s b)"
  by (simp add: put_conn_def kept_connections)

lemma keeps_emit: "keeps (emit env knd fs)"
  by (simp add: keeps_def kept_logged)

lemma keeps_library: "keeps (call_library env f)"
proof -
  have "I (b\<lparr>library := l, visa_journal := fold (\<lambda>(k, fs). visa_append (be_runtime env) (be_clock env) k fs) es (visa_journal b)\<rparr>)"
    if "I b" for es l b
    using that
  proof (induction es arbitrary: b)
    case (Cons e es)
    have "I (b\<lparr>visa_journal := visa_append (be_runtime env) (be_clock env) (fst e) (snd e) (visa_journal b)\<rparr>)"
      by (rule kept_append [OF Cons.prems])
    from Cons.IH [OF this] show ?case by (cases e) simp
  qed (simp add: kept_library)
  then show ?thesis by (simp add: keeps_def call_library_def split: prod.split)
qed

lemma keeps_find: "keeps (find_session env c args)"
  by (simp add: keeps_def find_session_def bind_act_def throw_def kept_logged split: option.split)

lemma keeps_add: "keeps (add_session env c token s knd extra)"
  by (simp add: keeps_def add_session_def Let_def bind_act_def ret_def kept_logged kept_put)

lemmas keeps_rules = keeps_bind keeps_plain keeps_emit keeps_library keeps_find keeps_add

lemma keeps_ops:
  "keeps (broker_open_manager env c token args)" "keeps (broker_list_resources env c args)"
  "keeps (broker_open env c token t s args)" "keeps (broker_read env c t s args)" "keeps (broker_write env c t s args)"
  "keeps (broker_get_attribute env s args)" "keeps (broker_set_attribute env s args)" "keeps (broker_events env f s args)"
  unfolding broker_open_manager_def broker_list_resources_def broker_open_def broker_read_def broker_write_def
    broker_get_attribute_def broker_set_attribute_def broker_events_def Let_def
  by (auto intro!: keeps_rules split: prod.split sum.split broker_exc.split option.split WireValue.split)

lemma keeps_close: "keeps (broker_close env c t s args)"
  unfolding broker_close_def Let_def by (intro keeps_rules) (simp add: keeps_def kept_put)

lemma keeps_invoke: "keeps (invoke env c token op args)"
  unfolding invoke_def by (auto intro!: keeps_rules keeps_ops keeps_close split: prod.split)

lemma keeps_begin: "keeps (begin_request env c op args)"
proof -
  have "I (b\<lparr>visa_journal := read_clock (visa_journal b), total_requests := n, argument_bytes := m\<rparr>)" if "I b" for b n m
    using kept_requests [where n = n and m = m, OF kept_clock [OF that]] by simp
  then show ?thesis by (simp add: keeps_def begin_request_def Let_def bind_act_def ret_def kept_logged kept_put)
qed

lemma keeps_run: "keeps (run_request env c token p)"
  using keeps_invoke [of c token "p_operation p" "p_args p"]
  by (simp add: keeps_def run_request_def Let_def throw_def exact_args_def guard_act_def bind_act_def ret_def)

lemma keeps_trusted: "keeps (record_trusted_failure env component exception_type)"
  by (simp add: keeps_def record_trusted_failure_def kept_logged kept_fatal)

lemma keeps_report: "keeps (report_request env c p out)"
proof (cases out)
  case (Inr rs)
  then show ?thesis
    by (cases rs) (simp add: keeps_def report_request_def latency_def bind_act_def ret_def kept_logged kept_clock)
next
  case (Inl e)
  show ?thesis
  proof (cases "rejection env e")
    case None
    have "keeps (bind_act (record_trusted_failure env ''broker'' t) (\<lambda>_. throw e :: ('l, broker_reply) action))" for t
      by (intro keeps_rules keeps_trusted)
    then show ?thesis by (simp add: keeps_def report_request_def Inl None)
  next
    case (Some r)
    then show ?thesis
      by (cases r) (simp add: keeps_def report_request_def Inl latency_def bind_act_def throw_def kept_logged kept_clock)
  qed
qed

lemma keeps_connection: "keeps (new_connection env c uid gid pid)"
  by (auto simp: keeps_def new_connection_def Let_def bind_act_def throw_def intro!: kept_logged kept_put kept_accepted)

lemma keeps_disconnect: "keeps (disconnect env c)"
proof -
  have a: "keeps (close_all env c ss)" for ss
    by (induction ss) (auto intro!: keeps_rules)
  have p: "keeps (\<lambda>b. (put_conn c ((conn_of b c)\<lparr>sessions := [], closed := True\<rparr>)
      (b\<lparr>leaked_session_count := leaked_session_count b + n\<rparr>), Inr ()))" for n
    by (simp add: keeps_def kept_put kept_leaked)
  have r: "keeps (\<lambda>b. (b\<lparr>states := remove1 c (states b)\<rparr>, Inr n))" for n :: int
    by (simp add: keeps_def kept_left)
  have "keeps (bind_act (close_all env c ss) (\<lambda>_.
      bind_act (\<lambda>b. (put_conn c ((conn_of b c)\<lparr>sessions := [], closed := True\<rparr>)
               (b\<lparr>leaked_session_count := leaked_session_count b + n\<rparr>), Inr ())) (\<lambda>_.
      bind_act (emit env ''connection.close'' [(''connection_id'', JStr c), (''leaked_sessions'', JInt n)]) (\<lambda>_.
      (\<lambda>b. (b\<lparr>states := remove1 c (states b)\<rparr>, Inr n))))))" for ss n
    by (intro keeps_bind a p r keeps_emit)
  then show ?thesis by (simp add: keeps_def disconnect_def Let_def)
qed

lemma keeps_ends:
  "keeps (announce env path)" "keeps (malformed env c detail)" "keeps (freeze_begin env n)"
  by (simp_all add: keeps_def announce_def malformed_def freeze_begin_def bind_act_def ret_def kept_logged kept_frozen)

lemma keeps_finish: "keeps (freeze_finish env cs alive)"
proof -
  have "keeps (disconnect_all env cs)" by (induction cs) (auto intro!: keeps_rules keeps_disconnect)
  moreover have "keeps summarize" by (simp add: keeps_def summarize_def Let_def kept_summary)
  ultimately show ?thesis unfolding freeze_finish_def by (intro keeps_rules) assumption+
qed

lemma run_kept:
  assumes "broker_run env w" and start: "\<And>ls j l b. new_broker ls j l = Inr b \<Longrightarrow> fresh_journal env j \<Longrightarrow> I b"
  shows "I (br w)"
  using assms(1)
proof induction
  case (start ls j l b)
  then show ?case by (simp add: assms(2))
qed (auto dest: keepsD [OF keeps_ends(1)] keepsD [OF keeps_connection] keepsD [OF keeps_begin] keepsD [OF keeps_run]
  keepsD [OF keeps_report] keepsD [OF keeps_ends(2)] keepsD [OF keeps_trusted] keepsD [OF keeps_disconnect]
  keepsD [OF keeps_ends(3)] keepsD [OF keeps_finish])

end

section \<open>The chain and the limits in every run\<close>

definition sound_journal :: "'l broker_env \<Rightarrow> 'l RemoteVisaBroker \<Rightarrow> bool" where
  "sound_journal env b = (settled (visa_journal b) \<and> journal_sound (be_runtime env) (visa_journal b) \<and>
     timed (be_clock env) (visa_journal b))"

lemma settled_append: "settled j \<Longrightarrow> settled (visa_append rt clock knd fs j)"
  by (simp add: settled_def visa_append_def Let_def)

lemma read_clock_kept: "settled (read_clock j) = settled j" "journal_sound rt (read_clock j) = journal_sound rt j"
  by (simp_all add: settled_def journal_sound_def)

interpretation chain: broker_invariant env "sound_journal env" for env :: "'l broker_env"
  by unfold_locales
    (simp_all add: sound_journal_def settled_append journal_sound_append timed_append read_clock_kept timed_read)

definition within_limits :: "'l RemoteVisaBroker \<Rightarrow> bool" where
  "within_limits b = (0 \<le> connection_count b \<and> connection_count b \<le> max_total_connections (limits b) \<and>
     int (length (states b)) \<le> max_connections (limits b) \<and> int (length (states b)) \<le> connection_count b)"

lemma length_remove1_le: "length (remove1 c xs) \<le> length xs"
  by (simp add: length_remove1)

interpretation bounds: broker_invariant env within_limits for env :: "'l broker_env"
  by unfold_locales (auto simp: within_limits_def intro: order_trans [OF of_nat_mono [OF length_remove1_le]])

lemma run_journal: "broker_run env w \<Longrightarrow> sound_journal env (br w)"
  by (erule chain.run_kept) (auto simp: new_broker_def fresh_journal_def sound_journal_def split: if_splits)

section \<open>The exported file of a run\<close>

definition agrees_with :: "uobj \<Rightarrow> uobj \<Rightarrow> bool" where
  \<comment> \<open>the same kind and the same fields, as far as the checks read them\<close>
  "agrees_with d d' = (field d ''kind'' = field d' ''kind'' \<and> event_field d = event_field d')"

lemma copied_agrees: "visa_copied (ve_fields e) = ve_fields e \<Longrightarrow> agrees_with (visa_copied (visa_to_dict e)) (visa_to_dict e)"
proof -
  assume s: "visa_copied (ve_fields e) = ve_fields e"
  then have "canon (JObj (ve_fields e)) = JObj (ve_fields e)" by (simp add: visa_copied_def)
  then show ?thesis by (simp add: agrees_with_def fun_eq_iff event_field_def field_copied_dict del: canon.simps)
qed

lemma agrees_tracked: "agrees_with d d' \<Longrightarrow> is_tracked d = is_tracked d'" "agrees_with d d' \<Longrightarrow> kind_is d k = kind_is d' k"
  "agrees_with d d' \<Longrightarrow> rpc_step d = rpc_step d'" "agrees_with d d' \<Longrightarrow> event_field d k = event_field d' k"
  by (simp_all add: agrees_with_def is_tracked_def kind_is_def [abs_def] rpc_step_def list_ex_iff cong: if_cong)

lemma agrees_filter:
  assumes "list_all2 agrees_with ds ds'" "\<And>d d'. agrees_with d d' \<Longrightarrow> P d = P d'"
  shows "list_all2 agrees_with (filter P ds) (filter P ds')"
  using assms(1) by (induction rule: list_all2_induct) (auto simp: assms(2))

lemma agrees_steps: "list_all2 agrees_with ds ds' \<Longrightarrow> rpc_steps ds st = rpc_steps ds' st"
  by (induction arbitrary: st rule: list_all2_induct) (auto simp: agrees_tracked(3) split: option.split)

lemma agrees_valid:
  assumes "list_all2 agrees_with ds ds'"
  shows "valid_rpc_boundaries ds = valid_rpc_boundaries ds'" and "event_counts ds = event_counts ds'"
proof -
  have st: "stream_valid (stream_of ds c) = stream_valid (stream_of ds' c)" for c
  proof -
    have "list_all2 agrees_with (stream_of ds c) (stream_of ds' c)"
      unfolding stream_of_def by (rule agrees_filter [OF assms]) (simp add: agrees_tracked(1,4))
    then show ?thesis by (simp add: stream_valid_def agrees_steps)
  qed
  have "list_all2 agrees_with (filter is_tracked ds) (filter is_tracked ds')"
    by (rule agrees_filter [OF assms]) (rule agrees_tracked(1))
  then have m: "map (\<lambda>d. event_field d ''connection_id'') (filter is_tracked ds) = map (\<lambda>d. event_field d ''connection_id'') (filter is_tracked ds')"
    by (induction rule: list_all2_induct) (auto simp: agrees_tracked(4))
  have la: "list_all (\<lambda>d. P (event_field d ''connection_id'')) (filter is_tracked ds) =
      list_all (\<lambda>d. P (event_field d ''connection_id'')) (filter is_tracked ds')" for P
    using arg_cong [OF m, of "list_all P"] by (simp add: list.pred_map comp_def)
  show "valid_rpc_boundaries ds = valid_rpc_boundaries ds'"
    using la [of is_text] la [of "\<lambda>v. stream_valid (stream_of ds' v)"] by (simp add: valid_rpc_boundaries_def Let_def st)
  have "kind_count ds k = kind_count ds' k" for k
    using assms by (induction rule: list_all2_induct) (auto simp: kind_count_def agrees_tracked(2))
  then show "event_counts ds = event_counts ds'" by (simp add: event_counts_def)
qed


definition example_reader :: reader where
  "example_reader = \<lparr>rd_runtime = be_runtime example_broker_env, rd_json_text = \<lambda>s. Some (map code_of s), rd_limit = 100\<rparr>"

definition example_broker :: "unit RemoteVisaBroker" where
  "example_broker = \<lparr>limits = default_limits, connections = [], states = [], connection_count = 0, total_requests = 0,
     argument_bytes = 0, leaked_session_count = 0, frozen = False, broker_summary = None, fatal_error = None,
     visa_journal = \<lparr>vj_run_id = u ''r'', vj_world_id = u ''w'', vj_events = [], vj_readings = 0\<rparr>, library = ()\<rparr>"

definition example_accepted :: "unit RemoteVisaBroker" where
  "example_accepted = fst (new_connection example_broker_env (u ''c'') 10001 0 0 example_broker)"

definition example_frozen :: "unit RemoteVisaBroker" where
  "example_frozen = fst (freeze_begin example_broker_env 1 example_accepted)"

definition example_finished :: "unit RemoteVisaBroker" where
  "example_finished = fst (freeze_finish example_broker_env [u ''c''] 0 example_frozen)"

lemma example_journal:
  "list_all (recordable example_reader) (vj_events (visa_journal example_finished))"
  by code_simp

lemma example_finished_facts:
  "fatal_error example_finished = None" "length (vj_events (visa_journal example_finished)) = 4"
  "length (visa_export (be_runtime example_broker_env) (visa_journal example_finished)) \<le> 2000"
  "snd (freeze_begin example_broker_env 1 example_accepted) = Inr [u ''c'']"
  by code_simp+

lemma example_file_run:
  obtains w where "broker_run example_broker_env w" "closing w = Some [u ''c'']" "\<forall>c. phases w c = Idle" "br w = example_frozen"
proof -
  let ?env = example_broker_env
  have "new_broker default_limits (visa_journal example_broker) () = Inr example_broker"
    by (simp add: new_broker_def default_limits_def example_broker_def)
  from broker_run.start [OF this] have r0: "broker_run ?env \<lparr>br = example_broker, phases = \<lambda>_. Idle, closing = None\<rparr>"
    by (simp add: fresh_journal_def uncounted_def settled_def journal_sound_def timed_def example_broker_def)
  obtain r where "new_connection ?env (u ''c'') 10001 0 0 example_broker = (example_accepted, r)"
    unfolding example_accepted_def by (cases "new_connection ?env (u ''c'') 10001 0 0 example_broker") simp
  with broker_run.accept [OF r0, of "u ''c''" 10001 0 0 example_accepted r]
  have r1: "broker_run ?env \<lparr>br = example_accepted, phases = \<lambda>_. Idle, closing = None\<rparr>"
    by (simp add: known_def example_broker_def)
  have "freeze_begin ?env 1 example_accepted = (example_frozen, Inr [u ''c''])"
    using example_finished_facts(4) unfolding example_frozen_def by (cases "freeze_begin ?env 1 example_accepted") simp
  with broker_run.freeze [OF r1, of 1 example_frozen] that show thesis by simp
qed

text \<open>
  C17. The reader of the evidence accepts the file of every run that ends without a trusted failure.
  The journal is exported, and \<^verbatim>\<open>sim_evidence.py\<close>, an independent piece of code, loads the
  file event by event, recomputes every hash of the chain, gets back exactly the journaled events, with
  their keys in canonical order, and finds that requests and results match and that the counters balance. What is assumed of the events is what the JSON text can carry
  (\<open>recordable\<close>) and that the file is not over the reader's limit.
\<close>

theorem run_file_accepted:
  assumes "broker_run env w" and "library_contract (be_lib env)" and "closing w = Some cs" and "\<forall>c. phases w c = Idle"
    and "freeze_finish env cs 0 (br w) = (b, r)" and "fatal_error b = None"
    and "rd_runtime rd = be_runtime env" and "printable_floats (be_runtime env)" and "reads_ascii rd"
    and "hex_digests (be_runtime env)" and "mono (be_clock env)" and "0 \<le> be_clock env 0"
    and "list_all (recordable rd) (vj_events (visa_journal b))"
    and "length (visa_export (be_runtime env) (visa_journal b)) \<le> EVENTS_LIMIT"
  shows "\<exists>events. load_events rd (Regular (visa_export (be_runtime env) (visa_journal b)))
      (vj_run_id (visa_journal b)) (vj_world_id (visa_journal b)) = Inr events \<and>
    events = map (\<lambda>e. visa_copied (visa_to_dict e)) (vj_events (visa_journal b)) \<and>
    length events = length (vj_events (visa_journal b)) \<and> valid_rpc_boundaries events \<and> counts_balanced (event_counts events)"
proof -
  let ?j = "visa_journal b" and ?w = "w\<lparr>br := b\<rparr>"
  let ?events = "map (\<lambda>e. visa_copied (visa_to_dict e)) (vj_events ?j)"
  have j: "settled ?j" "journal_sound (be_runtime env) ?j" "timed (be_clock env) ?j"
    using run_journal [OF broker_run.finish [OF assms(1,3,4,5)]] by (simp_all add: sound_journal_def)
  have "load_events rd (Regular (visa_export (be_runtime env) ?j)) (vj_run_id ?j) (vj_world_id ?j) = Inr ?events"
    using load_events_export [of rd ?j, unfolded assms(7), OF assms(8,9,10) j(2) timed_sorted [OF j(3) assms(11,12)] assms(13,14)] .
  moreover have "list_all2 agrees_with ?events (map visa_to_dict (vj_events ?j))"
    using j(1) by (auto simp: settled_def list_all_iff list_all2_iff zip_map_map set_zip intro!: copied_agrees)
  note agrees_valid [OF this]
  ultimately show ?thesis using frozen_run [OF assms(1-6)] by (auto simp: Let_def)
qed

theorem run_file_accepted_witness:
  "\<exists>events. load_events example_reader (Regular (visa_export (be_runtime example_broker_env) (visa_journal example_finished)))
      (u ''r'') (u ''w'') = Inr events \<and> length events = 4 \<and> valid_rpc_boundaries events \<and> counts_balanced (event_counts events)"
proof -
  obtain w where w: "broker_run example_broker_env w" "closing w = Some [u ''c'']" "\<forall>c. phases w c = Idle" "br w = example_frozen"
    by (rule example_file_run)
  obtain r where f: "freeze_finish example_broker_env [u ''c''] 0 (br w) = (example_finished, r)"
    unfolding w(4) example_finished_def by (cases "freeze_finish example_broker_env [u ''c''] 0 example_frozen") simp
  have i: "vj_run_id (visa_journal example_finished) = u ''r''" "vj_world_id (visa_journal example_finished) = u ''w''"
    by code_simp+
  have a: "reads_ascii example_reader" by (simp add: reads_ascii_def example_reader_def ascii_text_codes)
  have h: "hex_digests (be_runtime example_broker_env)" "printable_floats (be_runtime example_broker_env)"
    by (simp_all add: hex_digests_def printable_floats_def example_broker_env_def hash_text_def jstr_def) (simp_all add: u_def code_of_def printable_code_def list_all_iff)
  have c: "mono (be_clock example_broker_env)" "0 \<le> be_clock example_broker_env 0"
    by (simp_all add: example_broker_env_def mono_def)
  have "rd_runtime example_reader = be_runtime example_broker_env" by (simp add: example_reader_def)
  from run_file_accepted [OF w(1) example_library w(2,3) f example_finished_facts(1) this h(2) a h(1) c example_journal]
  show ?thesis using example_finished_facts(2,3) by (simp add: i EVENTS_LIMIT_def)
qed


text \<open>
  C18. At every moment of every run, whatever clients connect, crash or misbehave and whatever
  the library does, the broker has no more open connections and has accepted no more in all than
  its limits allow.
\<close>

theorem connections_bounded:
  "broker_run env w \<Longrightarrow> connection_count (br w) \<le> max_total_connections (limits (br w)) \<and>
    int (length (states (br w))) \<le> max_connections (limits (br w))"
proof -
  assume r: "broker_run env w"
  have "within_limits (br w)"
    by (rule bounds.run_kept [OF r]) (auto simp: new_broker_def within_limits_def split: if_splits)
  then show ?thesis by (simp add: within_limits_def)
qed

theorem connections_bounded_witness:
  "connection_count example_frozen \<le> 64 \<and> length (states example_frozen) = 1"
proof -
  obtain w where w: "broker_run example_broker_env w" "br w = example_frozen" by (rule example_file_run)
  have "limits example_frozen = default_limits" "length (states example_frozen) = 1" by code_simp+
  with connections_bounded [OF w(1)] show ?thesis by (simp add: w(2) default_limits_def)
qed

section \<open>A remote call is a dispatch\<close>

definition broker_peer :: "'l broker_env \<Rightarrow> ustr \<Rightarrow> ustr \<Rightarrow> 'l RemoteVisaBroker \<Rightarrow> peer" where
  \<comment> \<open>the broker as the peer of a client on connection \<open>c\<close>\<close>
  "broker_peer env c token b = \<lparr>connector = None, answer = \<lambda>frame. Some (case snd (serve_frame env c token [frame] b) of
     Inr (Answer f, _) \<Rightarrow> [f] | Inr (LastAnswer f, _) \<Rightarrow> [f] | _ \<Rightarrow> [])\<rparr>"

definition sendable :: "runtime \<Rightarrow> int \<Rightarrow> broker_exc + broker_reply \<Rightarrow> bool" where
  \<comment> \<open>an outcome that fits into a frame\<close>
  "sendable rt rid out = (case out of
     Inr (r, st) \<Rightarrow> deliverable (float_repr rt) r \<and> wire_items r \<le> MAX_WIRE_ITEMS \<and> status_exact st \<and>
       (\<exists>m f. success_response rid r st = Inr m \<and> encode_message rt m = Inr f)
   | Inl (CandidateRequestError knd code msg) \<Rightarrow> length (show_pos \<bar>code\<bar>) \<le> MAX_JSON_INTEGER_DIGITS \<and>
       (\<exists>m f. rpc_error_response rid (u knd) code (u msg) = Inr m \<and> encode_message rt m = Inr f)
   | _ \<Rightarrow> False)"

definition client_view :: "broker_exc + broker_reply \<Rightarrow> wire_error + WireValue \<times> int option" where
  "client_view out = (case out of Inr r \<Rightarrow> Inr r
     | Inl (CandidateRequestError knd code msg) \<Rightarrow> Inl (RemoteVisaError (u knd) code (u msg)) | Inl e \<Rightarrow> Inl OSError)"

lemma encode_message_nonempty: "encode_message rt m = Inr f \<Longrightarrow> f \<noteq> []"
  by (auto simp: encode_message_def Let_def split: if_splits option.splits)

lemma live_one: "f \<noteq> [] \<Longrightarrow> live_stream [f]" "live_stream s \<Longrightarrow> concat s = [] \<Longrightarrow> s = []"
  by (auto simp: live_stream_def list_all_iff)

lemma outcome_delivered:
  assumes "sendable rt rid out" "length (show_pos rid) \<le> MAX_JSON_INTEGER_DIGITS" "36 \<le> limit"
  obtains f where "(case out of Inr (r, st) \<Rightarrow> bind_res (success_response rid r st) (encode_message rt)
      | Inl (CandidateRequestError knd code msg) \<Rightarrow> bind_res (rpc_error_response rid (u knd) code (u msg)) (encode_message rt)
      | Inl e \<Rightarrow> Inl OSError) = Inr f"
    and "\<exists>m. recv_message limit [f] = Inr (m, []) \<and> decode_response m rid = client_view out"
proof (cases out)
  case (Inr rs)
  obtain r st where rs: "rs = (r, st)" by (cases rs)
  from assms(1) obtain m f where s: "success_response rid r st = Inr m" "encode_message rt m = Inr f"
    "deliverable (float_repr rt) r" "wire_items r \<le> MAX_WIRE_ITEMS" "status_exact st"
    by (auto simp: sendable_def Inr rs)
  have l: "live_stream [f]" using encode_message_nonempty [OF s(2)] by (rule live_one(1))
  obtain m' s' where m': "recv_message limit [f] = Inr (m', s')" "concat s' = []" "live_stream s'" "decode_response m' rid = Inr (r, st)"
    using success_round_trip [OF s(1-4) assms(2) s(5) assms(3) l, of "[]"] by auto
  show thesis
    by (rule that [of f]) (use s m' live_one(2) [OF m'(3,2)] in \<open>simp_all add: Inr rs res_simps client_view_def\<close>)
next
  case (Inl e)
  then obtain knd code msg where e: "e = CandidateRequestError knd code msg"
    using assms(1) by (cases e) (auto simp: sendable_def)
  from assms(1) obtain m f where s: "rpc_error_response rid (u knd) code (u msg) = Inr m" "encode_message rt m = Inr f"
    "length (show_pos \<bar>code\<bar>) \<le> MAX_JSON_INTEGER_DIGITS"
    by (auto simp: sendable_def Inl e)
  have l: "live_stream [f]" using encode_message_nonempty [OF s(2)] by (rule live_one(1))
  have "2 \<le> limit" using assms(3) by simp
  from error_round_trip [OF s(1,2) keys_scalar keys_scalar assms(2) s(3) this l, of "[]"]
  obtain m' s' where m': "recv_message limit [f] = Inr (m', s')" "concat s' = []" "live_stream s'"
    "decode_response m' rid = Inl (RemoteVisaError (u knd) code (u msg))" by auto
  show thesis
    by (rule that [of f]) (use s m' live_one(2) [OF m'(3,2)] in \<open>simp_all add: Inl e res_simps client_view_def\<close>)
qed

text \<open>
  C9. A remote call is a dispatch. What a client of \<^verbatim>\<open>protocol.py\<close> gets for an operation, through its
  encoding, the frame on the socket, the decoding in the broker, and the same way back, is exactly
  what \<^verbatim>\<open>dispatch\<close> of the broker returns for the same operation and arguments, results, statuses
  and errors alike; the client stays connected and the broker is left as the dispatch leaves it. The arguments arrive sorted by name.
\<close>

theorem remote_call_is_dispatch:
  fixes env :: "'l broker_env"
  defines "rt \<equiv> be_runtime env"
  assumes "connection client = Some []" and "encode_request rt (next_request_id client) op args = Inr frame"
    and "distinct (map fst args)" and "list_all (\<lambda>(k, v). deliverable (float_repr rt) v) args" and "args_cost args \<le> MAX_WIRE_ITEMS"
    and "length (show_pos (next_request_id client)) \<le> MAX_JSON_INTEGER_DIGITS" and "36 \<le> be_limit env" and "36 \<le> limit"
    and "broker_dispatch env c token op (sort_key fst args) b = (b', out)" and "sendable rt (next_request_id client) out"
  shows "call rt limit (broker_peer env c token b) op args client =
      (client\<lparr>next_request_id := next_request_id client + 1\<rparr>, client_view out) \<and>
    fst (serve_frame env c token [frame] b) = b'"
proof -
  let ?rid = "next_request_id client" and ?p = "broker_peer env c token b"
  have "frame \<noteq> []"
    using assms(3) encode_message_nonempty by (auto simp: encode_request_def res_simps case_eq_Inr)
  then obtain m s' where m: "recv_message (be_limit env) [frame] = Inr (m, s')" "decode_request m = Inr (?rid, op, sort_key fst args)"
    using request_round_trip_lemma [OF assms(3-8), of "[frame]" "[]"] live_one(1) by auto
  obtain f where f: "(case out of Inr (r, st) \<Rightarrow> bind_res (success_response ?rid r st) (encode_message rt)
      | Inl (CandidateRequestError knd code msg) \<Rightarrow> bind_res (rpc_error_response ?rid (u knd) code (u msg)) (encode_message rt)
      | Inl e \<Rightarrow> Inl OSError) = Inr f"
    and "\<exists>m. recv_message limit [f] = Inr (m, []) \<and> decode_response m ?rid = client_view out"
    by (rule outcome_delivered [OF assms(11,7,9)])
  then obtain m' where m': "recv_message limit [f] = Inr (m', [])" "decode_response m' ?rid = client_view out" by blast
  have sf: "\<exists>served. serve_frame env c token [frame] b = (b', Inr (served, s')) \<and> (served = Answer f \<or> served = LastAnswer f)"
    using f assms(10,11)
    by (auto simp: serve_frame_def m bind_act_def broker_serve_request_def send_response_def ret_def rt_def sendable_def
        split: sum.splits broker_exc.splits)
  then have "answer ?p frame = Some [f]" and b': "fst (serve_frame env c token [frame] b) = b'"
    by (auto simp: broker_peer_def)
  then have "exchange_call rt limit ?p ?rid op args (client\<lparr>next_request_id := ?rid + 1\<rparr>) = Inr (m', [])"
    by (simp add: exchange_call_def connect_def assms(2,3) res_simps m')
  then have c: "call rt limit ?p op args client = (case client_view out of
      Inr r \<Rightarrow> (client\<lparr>next_request_id := ?rid + 1, connection := Some []\<rparr>, Inr r)
    | Inl (RemoteVisaError knd code msg) \<Rightarrow>
        (client\<lparr>next_request_id := ?rid + 1, connection := Some []\<rparr>, Inl (RemoteVisaError knd code msg))
    | Inl e \<Rightarrow> (drop_connection (client\<lparr>next_request_id := ?rid + 1, connection := Some []\<rparr>), Inl e))"
    by (simp add: call_def Let_def m')
  have cl: "client\<lparr>next_request_id := ?rid + 1, connection := Some []\<rparr> = client\<lparr>next_request_id := ?rid + 1\<rparr>"
    using assms(2) by (cases client) simp
  show ?thesis
  proof (cases out)
    case (Inl e)
    with assms(11) obtain knd code msg where "e = CandidateRequestError knd code msg"
      by (cases e) (auto simp: sendable_def)
    with Inl show ?thesis using b' by (simp add: c client_view_def cl)
  qed (use b' in \<open>simp add: c client_view_def cl\<close>)
qed

definition example_client :: RpcClient where
  "example_client = \<lparr>endpoint = u ''/run/visa.sock'', connection = Some [], next_request_id = 1\<rparr>"

lemma example_hello:
  "snd (broker_dispatch example_broker_env (u ''c'') (u ''t'') (u ''hello'') [] example_accepted) =
    Inr (WTuple (map (\<lambda>n. WStr (u n)) OPERATIONS), None)"
  "case encode_request (be_runtime example_broker_env) 1 (u ''hello'') [] of Inr _ \<Rightarrow> True | Inl _ \<Rightarrow> False"
  "deliverable (float_repr (be_runtime example_broker_env)) (WTuple (map (\<lambda>n. WStr (u n)) OPERATIONS))"
  "wire_items (WTuple (map (\<lambda>n. WStr (u n)) OPERATIONS)) = 11"
  "case bind_res (success_response 1 (WTuple (map (\<lambda>n. WStr (u n)) OPERATIONS)) None) (encode_message (be_runtime example_broker_env)) of
     Inr _ \<Rightarrow> True | Inl _ \<Rightarrow> False"
  "length (show_pos 1) = 1" "status_exact None"
  by code_simp+

theorem remote_call_is_dispatch_witness:
  "snd (call (be_runtime example_broker_env) 100 (broker_peer example_broker_env (u ''c'') (u ''t'') example_accepted)
      (u ''hello'') [] example_client) = Inr (WTuple (map (\<lambda>n. WStr (u n)) OPERATIONS), None)"
proof -
  let ?out = "Inr (WTuple (map (\<lambda>n. WStr (u n)) OPERATIONS), None) :: broker_exc + broker_reply"
  obtain frame where f: "encode_request (be_runtime example_broker_env) (next_request_id example_client) (u ''hello'') [] = Inr frame"
    using example_hello(2) by (auto simp: example_client_def split: sum.splits)
  obtain b' where d: "broker_dispatch example_broker_env (u ''c'') (u ''t'') (u ''hello'') (sort_key fst []) example_accepted = (b', ?out)"
    using example_hello(1)
    by (cases "broker_dispatch example_broker_env (u ''c'') (u ''t'') (u ''hello'') [] example_accepted") simp
  have "sendable (be_runtime example_broker_env) (next_request_id example_client) ?out"
    using example_hello(3-5,7) by (auto simp: sendable_def example_client_def MAX_WIRE_ITEMS_def bind_res_Inr_iff split: sum.splits)
  from remote_call_is_dispatch [OF _ f _ _ _ _ _ _ d this, of 100] show ?thesis
    using example_hello(6) by (simp add: example_client_def args_cost_def MAX_WIRE_ITEMS_def MAX_JSON_INTEGER_DIGITS_def
      example_broker_env_def client_view_def)
qed


section \<open>Sessions of other clients\<close>

lemma session_unowned:
  "map_of args (u ''session'') = Some (WStr t) \<Longrightarrow> t \<notin> set (map fst (sessions s)) \<Longrightarrow> session_named s args = None"
  by (simp add: session_named_def map_of_eq_None_iff)

definition untouched :: "'l RemoteVisaBroker \<Rightarrow> 'l RemoteVisaBroker \<Rightarrow> bool" where
  "untouched b b' = (library b' = library b \<and> (\<forall>x. sessions (conn_of b' x) = sessions (conn_of b x)))"

lemma untouched_logged [simp]: "untouched b (logged env knd fs b') = untouched b b'"
  by (simp add: untouched_def logged_def conn_of_def)

lemma untouched_begin:
  assumes "begin_request env c op args b = (b1, r)"
  shows "untouched b b1"
proof -
  have l: "library b1 = library b"
    using assms by (auto simp: begin_request_def Let_def bind_act_def ret_def logged_def)
  obtain p where "conn_of b1 = (conn_of b)(c := (conn_of b c)\<lparr>request_count := request_count (conn_of b c) + 1\<rparr>)"
    using begin_request_total [of env c op args b] assms by (metis prod.inject)
  with l show ?thesis by (simp add: untouched_def)
qed

lemma untouched_report:
  assumes "report_request env c p (Inl (CandidateRequestError knd code msg)) b = (b', r)"
  shows "untouched b b' \<and> r = Inl (CandidateRequestError knd code msg)"
proof -
  have "untouched b (b\<lparr>visa_journal := read_clock (visa_journal b)\<rparr>)" by (simp add: untouched_def conn_of_def)
  with assms show ?thesis
    by (auto simp: report_request_def rejection_def latency_def bind_act_def throw_def)
qed

text \<open>
  C10. No client can use a session of another. A request that names a session its own connection does not hold - a
  guessed token, a closed session, or one of another client - is refused, the library is not called, and no session of any
  connection changes.
\<close>

theorem foreign_session_refused:
  assumes "map_of args (u ''session'') = Some (WStr t)" and "t \<notin> set (map fst (sessions (conn_of b c)))"
    and "op \<noteq> u ''hello''" and "op \<noteq> u ''open_default_resource_manager''"
    and "broker_dispatch env c token op args b = (b', out)"
  shows "library b' = library b \<and> (\<forall>x. sessions (conn_of b' x) = sessions (conn_of b x)) \<and>
    (\<exists>knd code msg. out = Inl (CandidateRequestError knd code msg))"
proof -
  obtain b1 p where q: "begin_request env c op args b = (b1, Inr p)" and p: "p_operation p = op" "p_args p = args"
    by (rule begin_request_total)
  obtain b2 out1 where x: "run_request env c token p b1 = (b2, out1)" by (cases "run_request env c token p b1")
  have u1: "untouched b b1" by (rule untouched_begin [OF q])
  then have "session_named (conn_of b1 c) args = None"
    using assms(1,2) by (intro session_unowned) (simp_all add: untouched_def)
  then have "untouched b b2 \<and> (\<exists>knd code msg. out1 = Inl (CandidateRequestError knd code msg))"
    using x u1 assms(3,4)
    by (auto simp: run_request_def Let_def p throw_def invoke_def find_session_def bind_act_def split: if_splits)
  then obtain knd code msg where u2: "untouched b b2" and out1: "out1 = Inl (CandidateRequestError knd code msg)" by blast
  have y: "report_request env c p out1 b2 = (b', out)"
    using assms(5) by (simp add: broker_dispatch_def bind_act_def q x)
  from untouched_report [OF y [unfolded out1]] u2 show ?thesis by (auto simp: untouched_def)
qed

theorem foreign_session_refused_witness:
  "\<exists>b' knd code msg. broker_dispatch example_broker_env (u ''c'') (u ''t2'') (u ''read'')
      [(u ''session'', WStr (u ''other'')), (u ''count'', WInt 8)] example_accepted =
    (b', Inl (CandidateRequestError knd code msg))"
proof -
  let ?args = "[(u ''session'', WStr (u ''other'')), (u ''count'', WInt 8)]"
  obtain b' out where d: "broker_dispatch example_broker_env (u ''c'') (u ''t2'') (u ''read'') ?args example_accepted = (b', out)"
    by (cases "broker_dispatch example_broker_env (u ''c'') (u ''t2'') (u ''read'') ?args example_accepted")
  have "sessions (conn_of example_accepted (u ''c'')) = []" by code_simp
  with foreign_session_refused [OF _ _ _ _ d, of "u ''other''"] d show ?thesis by simp
qed

end
