(* ===== verification/Projection.thy ===== *)
theory Projection
  imports Visa_Journal
begin

text \<open>
  The projection of a raw journal to what the grader reads
  (\<^verbatim>\<open>sources/pyvisa/pyvisa_dut_validation_v2/projection.py\<close>): requests, hooks of the simulator and results
  of the broker become the events of version 1, numbered by ten times the raw number. The state of the
  loop is a record (\<open>Projecting\<close>), each kind of event is one function. The events it returns have the
  fields of \<^verbatim>\<open>EvidenceEvent\<close>, with texts over all code points. The constants of the VISA library and
  what the runtime does with characters beyond ASCII are fields of \<open>projection_env\<close>. The lemmas show where
  the projected events come from and that nothing a hook completed is lost.
\<close>

section \<open>Data\<close>

datatype projection_error = ProjectionError string | ProjectionUncaught string

record projection_env =
  pe_runtime :: runtime
  pe_timeout :: int \<comment> \<open>\<^verbatim>\<open>ResourceAttribute.timeout_value\<close>\<close>
  pe_termchar :: int
  pe_termchar_enabled :: int
  pe_upper :: "int \<Rightarrow> ustr" \<comment> \<open>\<^verbatim>\<open>upper\<close> of a character beyond ASCII\<close>
  pe_float_text :: "ustr \<Rightarrow> pyfloat option" \<comment> \<open>\<^verbatim>\<open>float\<close> of a text that is not ASCII\<close>
  pe_repr :: "ustr json \<Rightarrow> ustr" \<comment> \<open>\<^verbatim>\<open>str\<close> of a list or an object\<close>

record SimState = \<comment> \<open>\<^verbatim>\<open>asdict(WorldSnapshot(...))\<close>\<close>
  ss_clock_ms :: int
  ss_closed_routes :: "ustr list"
  ss_psu_voltage_v :: pyfloat
  ss_psu_output :: bool
  ss_awg_waveform_name :: "ustr option"
  ss_awg_points :: "pyfloat list"
  ss_awg_amplitude_vpp :: pyfloat
  ss_awg_output :: bool
  ss_stimulus_started_ms :: "int option"
  ss_safe :: bool

record PSession =
  ps_digest :: ustr
  ps_connection_id :: ustr
  ps_resource :: "ustr option"
  ps_role :: "ustr option"
  ps_closed :: bool
  ps_termchar_seen :: bool
  ps_termchar_enabled :: bool

record Draft =
  dr_raw :: VisaEvent
  dr_operation :: string
  dr_session :: "ustr option"
  dr_request :: "string option"
  dr_response :: "string option"
  dr_before :: SimState
  dr_after :: SimState
  dr_role :: "ustr option"
  dr_resource :: "ustr option"
  dr_outcome :: string
  dr_error :: "ustr option"
  dr_cleanup :: "string option"
  dr_offset :: int

record ProjectedEvent = \<comment> \<open>\<^verbatim>\<open>EvidenceEvent\<close>\<close>
  pr_run_id :: ustr
  pr_world_id :: ustr
  pr_sequence :: int
  pr_time :: int
  pr_operation :: string
  pr_session :: "ustr option"
  pr_resource :: "ustr option"
  pr_role :: "ustr option"
  pr_request :: "string option"
  pr_response :: "string option"
  pr_request_sha256 :: string
  pr_response_sha256 :: string
  pr_request_bytes :: int
  pr_response_bytes :: int
  pr_before :: SimState
  pr_after :: SimState
  pr_before_sha256 :: string
  pr_after_sha256 :: string
  pr_outcome :: string
  pr_error :: "ustr option"
  pr_cleanup :: "string option"
  pr_source :: int

record Projecting = \<comment> \<open>the variables of the loop\<close>
  pj_sessions :: "(ustr, PSession) dict"
  pj_requests :: "(ustr, VisaEvent) dict"
  pj_writes :: "(ustr, VisaEvent \<times> string) dict"
  pj_write_termination :: "ustr list"
  pj_read_termination :: "ustr list"
  pj_drafts :: "Draft list"
  pj_last :: SimState
  pj_active :: "ustr option"
  pj_stimulus :: "int option"

section \<open>Values of the language\<close>

definition truthy :: "ustr json \<Rightarrow> bool" where
  "truthy v = (case v of JNull \<Rightarrow> False | JBool b \<Rightarrow> b | JInt n \<Rightarrow> n \<noteq> 0 | JFloat x \<Rightarrow> x \<noteq> Fin 0
     | JStr s \<Rightarrow> s \<noteq> [] | JList vs \<Rightarrow> vs \<noteq> [] | JObj d \<Rightarrow> d \<noteq> [])"

definition py_str :: "projection_env \<Rightarrow> ustr json \<Rightarrow> ustr" where
  "py_str env v = (case v of JNull \<Rightarrow> u ''None'' | JBool b \<Rightarrow> u (if b then ''True'' else ''False'')
     | JInt n \<Rightarrow> u (show_int n) | JStr s \<Rightarrow> s
     | JFloat (Fin q) \<Rightarrow> u (float_repr (pe_runtime env) q) | JFloat PosInf \<Rightarrow> u ''inf''
     | JFloat NegInf \<Rightarrow> u ''-inf'' | JFloat NaN \<Rightarrow> u ''nan''
     | v \<Rightarrow> pe_repr env v)"

definition upper_text :: "projection_env \<Rightarrow> ustr \<Rightarrow> ustr" where
  "upper_text env s =
     concat (map (\<lambda>c. if 97 \<le> c \<and> c \<le> 122 then [c - 32] else if c < 128 then [c] else pe_upper env c) s)"

definition float_of_text :: "projection_env \<Rightarrow> ustr \<Rightarrow> pyfloat option" where
  "float_of_text env s =
     (if list_all (\<lambda>c. 0 \<le> c \<and> c < 128) s then parse_float (ascii_text s) else pe_float_text env s)"

definition ascii_bytes :: "ustr \<Rightarrow> projection_error + string" where
  \<comment> \<open>\<^verbatim>\<open>encode("ascii")\<close>\<close>
  "ascii_bytes s =
     (if list_all (\<lambda>c. 0 \<le> c \<and> c < 128) s then Inr (ascii_text s) else Inl (ProjectionUncaught ''UnicodeEncodeError''))"

definition utf8_text :: "ustr \<Rightarrow> projection_error + string" where
  "utf8_text s = (case utf8_encode s of Some b \<Rightarrow> Inr b | None \<Rightarrow> Inl (ProjectionUncaught ''UnicodeEncodeError''))"

section \<open>Fields\<close>

definition mapping_field :: "uobj \<Rightarrow> string \<Rightarrow> projection_error + uobj" where
  "mapping_field d k = as_obj (field d k) (ProjectionError (''raw event '' @ k @ '' must be an object''))"

definition text_field :: "uobj \<Rightarrow> string \<Rightarrow> projection_error + ustr" where
  "text_field d k = (case field d k of
     JStr (c # s) \<Rightarrow> Inr (c # s) | _ \<Rightarrow> Inl (ProjectionError (''raw event '' @ k @ '' must be text'')))"

definition field_text_or_none :: "ustr json \<Rightarrow> ustr option" where
  "field_text_or_none v = (case v of JStr (c # s) \<Rightarrow> Some (c # s) | _ \<Rightarrow> None)"

definition integer_field :: "uobj \<Rightarrow> string \<Rightarrow> projection_error + int" where
  "integer_field d k = as_int (field d k) (ProjectionError (''raw event '' @ k @ '' must be an integer''))"

definition projected_float :: "projection_env \<Rightarrow> ustr json \<Rightarrow> projection_error + pyfloat" where
  \<comment> \<open>\<^verbatim>\<open>_finite_float\<close>\<close>
  "projected_float env v =
     (let invalid = Inl (ProjectionError ''simulator state number is invalid'');
          finite = (\<lambda>x. if isfinite x then Inr x else Inl (ProjectionError ''simulator state number is not finite'')) in
      case v of
        JBool b \<Rightarrow> Inr (Fin (if b then 1 else 0))
      | JInt n \<Rightarrow> (let x = to_float (of_int n) in if isfinite x then Inr x else invalid)
      | JFloat x \<Rightarrow> finite x
      | JStr s \<Rightarrow> (case float_of_text env s of Some x \<Rightarrow> finite x | None \<Rightarrow> invalid)
      | _ \<Rightarrow> invalid)"

definition projected_bool :: "projection_env \<Rightarrow> ustr json \<Rightarrow> projection_error + bool" where
  \<comment> \<open>\<^verbatim>\<open>_boolean\<close>\<close>
  "projected_bool env v =
     (let invalid = Inl (ProjectionError ''simulator output state is invalid'') in
      case v of
        JBool b \<Rightarrow> Inr b
      | JStr s \<Rightarrow> (if upper_text env s = u ''ON'' then Inr True
                  else if upper_text env s = u ''OFF'' then Inr False else invalid)
      | _ \<Rightarrow> invalid)"

definition token_digest :: "ustr json \<Rightarrow> projection_error + ustr" where
  "token_digest v =
     (case v of
        JObj d \<Rightarrow> (if field d ''type'' = jstr ''token''
                   then as_str (field d ''sha256'') (ProjectionError ''invalid audited session token'')
                   else Inl (ProjectionError ''invalid audited session token''))
      | _ \<Rightarrow> Inl (ProjectionError ''invalid audited session token''))"

definition optional_token_digest :: "ustr json \<Rightarrow> ustr option" where
  "optional_token_digest v = (case token_digest v of Inr d \<Rightarrow> Some d | Inl _ \<Rightarrow> None)"

definition field_bytes :: "uobj \<Rightarrow> string option" where
  \<comment> \<open>\<^verbatim>\<open>base64.b64decode(value["base64"], validate=True)\<close>, \<^verbatim>\<open>None\<close> for each exception caught\<close>
  "field_bytes d = (case field d ''base64'' of JStr s \<Rightarrow> b64_text s | _ \<Rightarrow> None)"

definition audited_bytes :: "runtime \<Rightarrow> ustr json \<Rightarrow> projection_error + string" where
  "audited_bytes rt v =
     (case v of
        JObj d \<Rightarrow>
          (if field d ''type'' \<noteq> jstr ''bytes'' then Inl (ProjectionError ''invalid audited bytes'')
           else case field_bytes d of
             None \<Rightarrow> Inl (ProjectionError ''invalid audited byte encoding'')
           | Some b \<Rightarrow>
               if eq_int (field d ''length'') (int (length b)) \<and> field d ''sha256'' = jstr (sha256 rt b) then Inr b
               else Inl (ProjectionError ''audited byte digest mismatch''))
      | _ \<Rightarrow> Inl (ProjectionError ''invalid audited bytes''))"

definition hook_response :: "ustr json \<Rightarrow> projection_error + string option" where
  "hook_response v =
     (case v of
        JNull \<Rightarrow> Inr None
      | JObj d \<Rightarrow>
          (case field_bytes d of
             None \<Rightarrow> Inl (ProjectionError ''invalid hook response encoding'')
           | Some b \<Rightarrow> if eq_int (field d ''length'') (int (length b)) then Inr (Some b)
                       else Inl (ProjectionError ''hook response length mismatch''))
      | _ \<Rightarrow> Inl (ProjectionError ''invalid hook response''))"

section \<open>States of the simulator\<close>

definition projected_snapshot ::
  "projection_env \<Rightarrow> uobj \<Rightarrow> int \<Rightarrow> int option \<Rightarrow> projection_error + SimState" where
  "projected_snapshot env v clock stimulus =
     bind_res (mapping_field v ''psu'') (\<lambda>psu.
     bind_res (mapping_field v ''switch'') (\<lambda>switch.
     bind_res (mapping_field v ''awg'') (\<lambda>awg.
     let selected = (if truthy (field awg ''selected'') then Some (upper_text env (py_str env (field awg ''selected''))) else None) in
     bind_res (as_obj (json_get_or awg (u ''waveforms'') (JObj [])) (ProjectionError ''invalid AWG waveform state'')) (\<lambda>waveforms.
     bind_res (as_list (json_get_or waveforms (case selected of Some s \<Rightarrow> s | None \<Rightarrow> []) (JList []))
       (ProjectionError ''invalid AWG points state'')) (\<lambda>points_raw.
     bind_res (as_list (field switch ''closed_routes'') (ProjectionError ''invalid switch route state'')) (\<lambda>routes_raw.
     bind_res (traverse (\<lambda>r. as_str r (ProjectionError ''invalid switch route state'')) routes_raw) (\<lambda>routes.
     bind_res (traverse (projected_float env) points_raw) (\<lambda>points.
     bind_res (projected_float env (field psu ''voltage'')) (\<lambda>voltage.
     bind_res (projected_float env (field awg ''amplitude'')) (\<lambda>amplitude.
     bind_res (projected_bool env (field psu ''output'')) (\<lambda>psu_output.
     bind_res (projected_bool env (field awg ''output'')) (\<lambda>awg_output.
     Inr \<lparr>ss_clock_ms = clock, ss_closed_routes = sort routes, ss_psu_voltage_v = voltage, ss_psu_output = psu_output,
          ss_awg_waveform_name = selected, ss_awg_points = points, ss_awg_amplitude_vpp = amplitude,
          ss_awg_output = awg_output, ss_stimulus_started_ms = stimulus,
          ss_safe = (\<not> psu_output \<and> \<not> awg_output \<and> routes = [])\<rparr>))))))))))))"

fun initial_state :: "projection_env \<Rightarrow> VisaEvent list \<Rightarrow> projection_error + SimState" where
  "initial_state env [] = Inl (ProjectionError ''raw journal has no trusted simulator state'')"
| "initial_state env (e # es) =
     (if ve_kind e \<in> {''hook.before'', ''state.force_safe''}
      then (case field (ve_fields e) ''state_before'' of
              JObj before \<Rightarrow> projected_snapshot env before 0 None
            | _ \<Rightarrow> initial_state env es)
      else initial_state env es)"

definition clocked :: "SimState \<Rightarrow> int \<Rightarrow> int option \<Rightarrow> SimState" where
  "clocked s clock stimulus = s\<lparr>ss_clock_ms := clock, ss_stimulus_started_ms := stimulus\<rparr>"

definition nested_awg_output :: "projection_env \<Rightarrow> uobj \<Rightarrow> projection_error + bool" where
  "nested_awg_output env v =
     bind_res (mapping_field v ''awg'') (\<lambda>awg. projected_bool env (field awg ''output''))"

definition sim_state_json :: "SimState \<Rightarrow> ustr json" where
  "sim_state_json s = jobj
     [(''clock_ms'', JInt (ss_clock_ms s)), (''closed_routes'', JList (map JStr (ss_closed_routes s))),
      (''psu_voltage_v'', JFloat (ss_psu_voltage_v s)), (''psu_output'', JBool (ss_psu_output s)),
      (''awg_waveform_name'', opt_json JStr (ss_awg_waveform_name s)),
      (''awg_points'', JList (map JFloat (ss_awg_points s))), (''awg_amplitude_vpp'', JFloat (ss_awg_amplitude_vpp s)),
      (''awg_output'', JBool (ss_awg_output s)), (''stimulus_started_ms'', opt_json JInt (ss_stimulus_started_ms s)),
      (''safe'', JBool (ss_safe s))]"

definition digest_state :: "runtime \<Rightarrow> SimState \<Rightarrow> string" where
  "digest_state rt s = sha256 rt (visa_canonical rt (sim_state_json s))"

section \<open>The kinds of events\<close>

definition plain_draft :: "VisaEvent \<Rightarrow> string \<Rightarrow> ustr option \<Rightarrow> SimState \<Rightarrow> SimState \<Rightarrow> Draft" where
  "plain_draft e op digest before after =
     \<lparr>dr_raw = e, dr_operation = op, dr_session = digest, dr_request = None, dr_response = None, dr_before = before,
      dr_after = after, dr_role = None, dr_resource = None, dr_outcome = ''ok'', dr_error = None, dr_cleanup = None,
      dr_offset = 0\<rparr>"

definition add_drafts :: "Draft list \<Rightarrow> Projecting \<Rightarrow> Projecting" where
  "add_drafts ds st = st\<lparr>pj_drafts := pj_drafts st @ ds\<rparr>"

definition put_session :: "PSession \<Rightarrow> Projecting \<Rightarrow> Projecting" where
  "put_session s st = st\<lparr>pj_sessions := AList.update (ps_digest s) s (pj_sessions st)\<rparr>"

definition new_session :: "ustr \<Rightarrow> ustr \<Rightarrow> ustr option \<Rightarrow> PSession" where
  "new_session digest c resource =
     \<lparr>ps_digest = digest, ps_connection_id = c, ps_resource = resource, ps_role = None, ps_closed = False,
      ps_termchar_seen = False, ps_termchar_enabled = False\<rparr>"

definition required_session :: "Projecting \<Rightarrow> ustr \<Rightarrow> projection_error + PSession" where
  "required_session st digest = (case map_of (pj_sessions st) digest of
     Some s \<Rightarrow> Inr s | None \<Rightarrow> Inl (ProjectionError ''RPC refers to an unknown session''))"

definition note_write :: "projection_env \<Rightarrow> VisaEvent \<Rightarrow> uobj \<Rightarrow> Projecting \<Rightarrow> Projecting" where
  \<comment> \<open>the payload of a write waits for its hook, where it can be read\<close>
  "note_write env e args st =
     (case optional_token_digest (field args ''session'') of
        None \<Rightarrow> st
      | Some digest \<Rightarrow>
          (case audited_bytes (pe_runtime env) (field args ''data'') of
             Inr payload \<Rightarrow> st\<lparr>pj_writes := AList.update digest (e, payload) (pj_writes st)\<rparr>
           | Inl _ \<Rightarrow> st))"

definition on_request :: "projection_env \<Rightarrow> VisaEvent \<Rightarrow> Projecting \<Rightarrow> projection_error + Projecting" where
  "on_request env e st =
     bind_res (text_field (ve_fields e) ''connection_id'') (\<lambda>c.
     let st1 = st\<lparr>pj_requests := AList.update c e (pj_requests st)\<rparr> in
     if field (ve_fields e) ''operation'' = jstr ''write''
     then bind_res (mapping_field (ve_fields e) ''args'') (\<lambda>args. Inr (note_write env e args st1))
     else Inr st1)"

definition note_session :: "ustr \<Rightarrow> uobj \<Rightarrow> Projecting \<Rightarrow> projection_error + Projecting" where
  \<comment> \<open>a hook says which resource and role a session has\<close>
  "note_session digest fs st =
     (case map_of (pj_sessions st) digest of
        None \<Rightarrow> Inr st
      | Some s \<Rightarrow>
          bind_res (text_field fs ''resource'') (\<lambda>resource.
          bind_res (text_field fs ''role'') (\<lambda>role.
          Inr (put_session (s\<lparr>ps_resource := Some resource, ps_role := Some role\<rparr>) st))))"

definition on_hook_start :: "projection_env \<Rightarrow> int \<Rightarrow> VisaEvent \<Rightarrow> Projecting \<Rightarrow> projection_error + Projecting" where
  "on_hook_start env clock e st =
     bind_res (text_field (ve_fields e) ''session_digest'') (\<lambda>digest.
     bind_res (note_session digest (ve_fields e) st) (\<lambda>st1.
     bind_res (require (pj_active st1 = None) (ProjectionError ''nested hook command is invalid'')) (\<lambda>_.
     bind_res (mapping_field (ve_fields e) ''state_before'') (\<lambda>before.
     bind_res (projected_snapshot env before clock (pj_stimulus st1)) (\<lambda>last.
     Inr (st1\<lparr>pj_active := Some digest, pj_last := last\<rparr>))))))"

definition stimulus_after :: "SimState \<Rightarrow> bool \<Rightarrow> int \<Rightarrow> int option \<Rightarrow> int option" where
  "stimulus_after before after_output clock stimulus =
     (if \<not> ss_awg_output before \<and> after_output then Some clock else if \<not> after_output then None else stimulus)"

definition write_termination ::
  "ustr \<Rightarrow> uobj \<Rightarrow> VisaEvent \<Rightarrow> string \<Rightarrow> SimState \<Rightarrow> Projecting \<Rightarrow> Projecting" where
  \<comment> \<open>the first command of a session that ends in a newline\<close>
  "write_termination digest fs write_event request before st =
     (if ends_with request [CHR 0x0A] \<and> digest \<notin> set (pj_write_termination st)
      then add_drafts [(plain_draft write_event ''set_write_termination'' (Some digest) before before)
               \<lparr>dr_request := Some [CHR 0x0A], dr_role := field_text_or_none (field fs ''role''),
                dr_resource := field_text_or_none (field fs ''resource''), dr_offset := 1\<rparr>]
             (st\<lparr>pj_write_termination := digest # pj_write_termination st\<rparr>)
      else st)"

definition hook_draft ::
  "projection_env \<Rightarrow> VisaEvent \<Rightarrow> ustr \<Rightarrow> string \<Rightarrow> string option \<Rightarrow> SimState \<Rightarrow> SimState \<Rightarrow> Draft" where
  "hook_draft env e digest request response before after =
     (plain_draft e ''write'' (Some digest) before after)
       \<lparr>dr_request := Some request, dr_response := response, dr_role := field_text_or_none (field (ve_fields e) ''role''),
        dr_resource := field_text_or_none (field (ve_fields e) ''resource''),
        dr_outcome := (if ve_kind e = ''hook.after'' then ''ok'' else ''error''),
        dr_error := (if ve_kind e = ''hook.after'' then None
          else Some (py_str env (json_get_or (ve_fields e) (u ''error_code'') (jstr ''instrument_error''))))\<rparr>"

definition on_hook_end :: "projection_env \<Rightarrow> int \<Rightarrow> VisaEvent \<Rightarrow> Projecting \<Rightarrow> projection_error + Projecting" where
  \<comment> \<open>\<^verbatim>\<open>hook.after\<close> and \<^verbatim>\<open>hook.error\<close>\<close>
  "on_hook_end env clock e st =
     (case pj_active st of
        None \<Rightarrow> Inl (ProjectionError ''hook completion has no matching hook start'')
      | Some digest \<Rightarrow>
          bind_res (note_session digest (ve_fields e) st) (\<lambda>st1.
          bind_res (mapping_field (ve_fields e) ''state_before'') (\<lambda>before_raw.
          bind_res (projected_snapshot env before_raw clock (pj_stimulus st1)) (\<lambda>before.
          bind_res (mapping_field (ve_fields e) ''state_after'') (\<lambda>after_raw.
          bind_res (nested_awg_output env after_raw) (\<lambda>after_output.
          let stimulus = stimulus_after before after_output clock (pj_stimulus st1) in
          bind_res (projected_snapshot env after_raw clock stimulus) (\<lambda>after.
          case map_of (pj_writes st1) digest of
            None \<Rightarrow> Inl (ProjectionError ''hook completion has no raw write request'')
          | Some (write_event, request) \<Rightarrow>
              let st2 = write_termination digest (ve_fields e) write_event request before
                    (st1\<lparr>pj_writes := AList.delete digest (pj_writes st1)\<rparr>) in
              bind_res (if ve_kind e = ''hook.after'' then hook_response (field (ve_fields e) ''response'') else Inr None) (\<lambda>response.
              Inr ((add_drafts [hook_draft env e digest request response before after] st2)
                \<lparr>pj_last := after, pj_active := None, pj_stimulus := stimulus\<rparr>)))))))))"

definition result_open :: "projection_env \<Rightarrow> VisaEvent \<Rightarrow> ustr \<Rightarrow> uobj \<Rightarrow> SimState \<Rightarrow> Projecting \<Rightarrow> projection_error + Projecting" where
  "result_open env e c args current st =
     bind_res (text_field (ve_fields e) ''result'') (\<lambda>token.
     bind_res (utf8_text token) (\<lambda>token_bytes.
     bind_res (text_field args ''resource_name'') (\<lambda>resource.
     let digest = u (sha256 (pe_runtime env) token_bytes) in
     bind_res (utf8_text resource) (\<lambda>request.
     Inr (add_drafts [(plain_draft e ''open_resource'' (Some digest) current current)\<lparr>dr_request := Some request\<rparr>]
       (put_session (new_session digest c (Some resource)) st))))))"

definition result_open_manager :: "projection_env \<Rightarrow> VisaEvent \<Rightarrow> ustr \<Rightarrow> Projecting \<Rightarrow> projection_error + Projecting" where
  "result_open_manager env e c st =
     bind_res (text_field (ve_fields e) ''result'') (\<lambda>token.
     bind_res (utf8_text token) (\<lambda>token_bytes.
     Inr (put_session (new_session (u (sha256 (pe_runtime env) token_bytes)) c None) st)))"

definition attribute_noted :: "projection_env \<Rightarrow> int \<Rightarrow> ustr json \<Rightarrow> PSession \<Rightarrow> PSession" where
  "attribute_noted env attribute v s =
     (if attribute = pe_timeout env then s
      else if attribute = pe_termchar env then s\<lparr>ps_termchar_seen := eq_int v 10\<rparr>
      else if attribute = pe_termchar_enabled env then s\<lparr>ps_termchar_enabled := (v = JBool True)\<rparr>
      else s)"

definition result_set_attribute ::
  "projection_env \<Rightarrow> VisaEvent \<Rightarrow> uobj \<Rightarrow> SimState \<Rightarrow> Projecting \<Rightarrow> projection_error + Projecting" where
  "result_set_attribute env e args current st =
     bind_res (token_digest (field args ''session'')) (\<lambda>digest.
     bind_res (required_session st digest) (\<lambda>s.
     bind_res (integer_field args ''attribute'') (\<lambda>attribute.
     let v = field args ''attribute_state''; s1 = attribute_noted env attribute v s; st1 = put_session s1 st in
     if digest \<notin> set (pj_read_termination st) \<and> ps_termchar_seen s1 \<and> ps_termchar_enabled s1
     then Inr (add_drafts [(plain_draft e ''set_read_termination'' (Some digest) current current)\<lparr>dr_request := Some [CHR 0x0A]\<rparr>]
            (st1\<lparr>pj_read_termination := digest # pj_read_termination st\<rparr>))
     else if attribute = pe_timeout env
     then bind_res (ascii_bytes (py_str env v)) (\<lambda>request.
            Inr (add_drafts [(plain_draft e ''set_timeout'' (Some digest) current current)\<lparr>dr_request := Some request\<rparr>] st1))
     else Inr st1)))"

definition result_close :: "VisaEvent \<Rightarrow> uobj \<Rightarrow> SimState \<Rightarrow> Projecting \<Rightarrow> projection_error + Projecting" where
  "result_close e args current st =
     bind_res (token_digest (field args ''session'')) (\<lambda>digest.
     bind_res (required_session st digest) (\<lambda>s.
     let closing = (if ps_resource s \<noteq> None \<and> \<not> ps_closed s
           then [(plain_draft e ''close'' (Some digest) current current)\<lparr>dr_cleanup := Some ''candidate''\<rparr>] else []) in
     Inr (put_session (s\<lparr>ps_closed := True\<rparr>) (add_drafts closing st))))"

definition on_result :: "projection_env \<Rightarrow> SimState \<Rightarrow> VisaEvent \<Rightarrow> Projecting \<Rightarrow> projection_error + Projecting" where
  "on_result env current e st =
     bind_res (text_field (ve_fields e) ''connection_id'') (\<lambda>c.
     case map_of (pj_requests st) c of
       None \<Rightarrow> Inl (ProjectionError ''RPC result has no request'')
     | Some request \<Rightarrow>
         let st1 = st\<lparr>pj_requests := AList.delete c (pj_requests st)\<rparr> in
         bind_res (text_field (ve_fields e) ''operation'') (\<lambda>op.
         bind_res (require (field (ve_fields request) ''operation'' = JStr op) (ProjectionError ''RPC result operation mismatch'')) (\<lambda>_.
         bind_res (mapping_field (ve_fields request) ''args'') (\<lambda>args.
         if op = u ''open_default_resource_manager'' then result_open_manager env e c st1
         else if op = u ''open'' then result_open env e c args current st1
         else if op = u ''set_attribute'' then result_set_attribute env e args current st1
         else if op = u ''close'' then result_close e args current st1
         else Inr st1))))"

definition rejected_session :: "ustr json \<Rightarrow> ustr option" where
  \<comment> \<open>from the arguments of the request, where they are an object with a session\<close>
  "rejected_session v = (case v of JObj args \<Rightarrow> optional_token_digest (field args ''session'') | _ \<Rightarrow> None)"

definition on_reject :: "projection_env \<Rightarrow> SimState \<Rightarrow> VisaEvent \<Rightarrow> Projecting \<Rightarrow> projection_error + Projecting" where
  "on_reject env current e st =
     bind_res (text_field (ve_fields e) ''connection_id'') (\<lambda>c.
     let request = (case map_of (pj_requests st) c of Some r \<Rightarrow> r | None \<Rightarrow> e);
         digest = rejected_session (json_get_or (ve_fields request) (u ''args'') (JObj []));
         st1 = st\<lparr>pj_requests := AList.delete c (pj_requests st),
                 pj_writes := (case digest of Some d \<Rightarrow> AList.delete d (pj_writes st) | None \<Rightarrow> pj_writes st)\<rparr>;
         error_kind = py_str env (json_get_or (ve_fields e) (u ''error_kind'') (jstr ''rejected'')) in
     if error_kind = u ''visa_error'' \<and> field (ve_fields request) ''operation'' = jstr ''write'' then Inr st1
     else Inr (add_drafts [(plain_draft e (if error_kind = u ''visa_error'' then ''visa_error'' else ''rpc_reject'') digest current current)
            \<lparr>dr_outcome := ''error'',
             dr_error := Some (error_kind @ u '':'' @
               py_str env (json_get_or (ve_fields e) (u ''code'') (field (ve_fields e) ''error_kind'')))\<rparr>] st1))"

definition on_connection_reject :: "projection_env \<Rightarrow> SimState \<Rightarrow> VisaEvent \<Rightarrow> Projecting \<Rightarrow> Projecting" where
  "on_connection_reject env current e st =
     add_drafts [(plain_draft e ''protocol_reject'' None current current)
       \<lparr>dr_outcome := ''error'',
        dr_error := Some (py_str env (json_get_or (ve_fields e) (u ''reason'') (jstr ''malformed_frame'')))\<rparr>] st"

definition cleanup_key :: "PSession \<Rightarrow> ustr" where
  \<comment> \<open>\<^verbatim>\<open>session.role or session.resource\<close>, for a session with a resource\<close>
  "cleanup_key s = (case (ps_role s, ps_resource s) of (Some (c # r), _) \<Rightarrow> c # r | (_, Some r) \<Rightarrow> r | _ \<Rightarrow> [])"

fun forced_closes ::
  "VisaEvent \<Rightarrow> ustr \<Rightarrow> SimState \<Rightarrow> int \<Rightarrow> ustr list \<Rightarrow> (ustr, PSession) dict \<Rightarrow> (ustr, PSession) dict \<times> Draft list" where
  "forced_closes e c current offset keys [] = ([], [])"
| "forced_closes e c current offset keys ((d, s) # rest) =
     (if ps_connection_id s = c \<and> ps_resource s \<noteq> None \<and> \<not> ps_closed s
      then if cleanup_key s \<in> set keys
        then (case forced_closes e c current offset keys rest of
                (ss, ds) \<Rightarrow> ((d, s\<lparr>ps_closed := True\<rparr>) # ss, ds))
        else (case forced_closes e c current (offset + 1) (cleanup_key s # keys) rest of
                (ss, ds) \<Rightarrow> ((d, s\<lparr>ps_closed := True\<rparr>) # ss,
                  (plain_draft e ''close'' (Some (ps_digest s)) current current)
                    \<lparr>dr_cleanup := Some ''forced'', dr_offset := offset\<rparr> # ds))
      else (case forced_closes e c current offset keys rest of (ss, ds) \<Rightarrow> ((d, s) # ss, ds)))"

definition on_connection_close :: "SimState \<Rightarrow> VisaEvent \<Rightarrow> Projecting \<Rightarrow> projection_error + Projecting" where
  "on_connection_close current e st =
     bind_res (text_field (ve_fields e) ''connection_id'') (\<lambda>c.
     case forced_closes e c current 0 [] (pj_sessions st) of
       (ss, ds) \<Rightarrow> Inr (add_drafts ds (st\<lparr>pj_sessions := ss\<rparr>)))"

definition on_force_safe :: "projection_env \<Rightarrow> int \<Rightarrow> VisaEvent \<Rightarrow> Projecting \<Rightarrow> projection_error + Projecting" where
  "on_force_safe env clock e st =
     bind_res (mapping_field (ve_fields e) ''state_before'') (\<lambda>before_raw.
     bind_res (projected_snapshot env before_raw clock (pj_stimulus st)) (\<lambda>before.
     bind_res (mapping_field (ve_fields e) ''state_after'') (\<lambda>after_raw.
     bind_res (projected_snapshot env after_raw clock None) (\<lambda>after.
     Inr (add_drafts [(plain_draft e ''force_safe'' None before after)\<lparr>dr_cleanup := Some ''forced''\<rparr>]
       (st\<lparr>pj_last := after, pj_stimulus := None\<rparr>))))))"

definition clock_at :: "int \<Rightarrow> VisaEvent \<Rightarrow> int" where
  "clock_at start e = max 0 ((ve_time e - start) div 1000000)"

definition project_event ::
  "projection_env \<Rightarrow> int \<Rightarrow> VisaEvent \<Rightarrow> Projecting \<Rightarrow> projection_error + Projecting" where
  \<comment> \<open>one turn of the loop\<close>
  "project_event env start e st =
     (let clock = clock_at start e; current = clocked (pj_last st) clock (pj_stimulus st) in
      if ve_kind e = ''rpc.request'' then on_request env e st
      else if ve_kind e = ''hook.before'' then on_hook_start env clock e st
      else if ve_kind e \<in> {''hook.after'', ''hook.error''} then on_hook_end env clock e st
      else if ve_kind e = ''rpc.result'' then on_result env current e st
      else if ve_kind e = ''rpc.reject'' then on_reject env current e st
      else if ve_kind e = ''connection.reject'' then Inr (on_connection_reject env current e st)
      else if ve_kind e = ''connection.close'' then on_connection_close current e st
      else if ve_kind e = ''state.force_safe'' then on_force_safe env clock e st
      else Inr st)"

fun project_loop ::
  "projection_env \<Rightarrow> int \<Rightarrow> VisaEvent list \<Rightarrow> Projecting \<Rightarrow> projection_error + Projecting" where
  "project_loop env start [] st = Inr st"
| "project_loop env start (e # es) st =
     bind_res (project_event env start e st) (project_loop env start es)"

section \<open>The whole projection\<close>

fun validate_raw :: "ustr \<Rightarrow> ustr \<Rightarrow> int \<Rightarrow> VisaEvent list \<Rightarrow> projection_error + unit" where
  \<comment> \<open>\<^verbatim>\<open>_validate_records\<close>, from the previous number on\<close>
  "validate_raw run world previous [] = Inr ()"
| "validate_raw run world previous (e # es) =
     (if ve_run_id e \<noteq> run \<or> ve_world_id e \<noteq> world then Inl (ProjectionError ''raw journal identity mismatch'')
      else if ve_sequence e \<noteq> previous + 1 then Inl (ProjectionError ''raw journal order is invalid'')
      else validate_raw run world (ve_sequence e) es)"

definition resource_roles :: "(ustr, PSession) dict \<Rightarrow> (ustr, ustr) dict" where
  "resource_roles ss =
     fold (\<lambda>(d, s) roles. case (ps_resource s, ps_role s) of
        (Some resource, Some role) \<Rightarrow> AList.update resource role roles | _ \<Rightarrow> roles) ss []"

definition completed_sessions :: "(ustr, PSession) dict \<Rightarrow> (ustr, PSession) dict" where
  \<comment> \<open>sessions without a role get the one their resource has elsewhere\<close>
  "completed_sessions ss =
     map (\<lambda>(d, s). (d, case (ps_role s, ps_resource s) of
        (None, Some resource) \<Rightarrow> s\<lparr>ps_role := map_of (resource_roles ss) resource\<rparr> | _ \<Rightarrow> s)) ss"

definition opt_or :: "'a option \<Rightarrow> 'a option \<Rightarrow> 'a option" where
  "opt_or x y = (case x of Some a \<Rightarrow> Some a | None \<Rightarrow> y)"

definition bytes_of :: "string option \<Rightarrow> string" where
  "bytes_of b = (case b of Some s \<Rightarrow> s | None \<Rightarrow> [])"

definition materialize :: "runtime \<Rightarrow> (ustr, PSession) dict \<Rightarrow> Draft \<Rightarrow> ProjectedEvent" where
  "materialize rt ss d =
     (let s = (case dr_session d of Some digest \<Rightarrow> map_of ss digest | None \<Rightarrow> None);
          request = bytes_of (dr_request d); response = bytes_of (dr_response d) in
      \<lparr>pr_run_id = ve_run_id (dr_raw d), pr_world_id = ve_world_id (dr_raw d),
       pr_sequence = ve_sequence (dr_raw d) * 10 + dr_offset d, pr_time = ve_time (dr_raw d),
       pr_operation = dr_operation d, pr_session = dr_session d,
       pr_resource = opt_or (dr_resource d) (Option.bind s ps_resource),
       pr_role = opt_or (dr_role d) (Option.bind s ps_role),
       pr_request = dr_request d, pr_response = dr_response d,
       pr_request_sha256 = sha256 rt request, pr_response_sha256 = sha256 rt response,
       pr_request_bytes = int (length request), pr_response_bytes = int (length response),
       pr_before = dr_before d, pr_after = dr_after d,
       pr_before_sha256 = digest_state rt (dr_before d), pr_after_sha256 = digest_state rt (dr_after d),
       pr_outcome = dr_outcome d, pr_error = dr_error d, pr_cleanup = dr_cleanup d, pr_source = ve_sequence (dr_raw d)\<rparr>)"

definition project_start :: "SimState \<Rightarrow> Projecting" where
  "project_start s = \<lparr>pj_sessions = [], pj_requests = [], pj_writes = [], pj_write_termination = [],
     pj_read_termination = [], pj_drafts = [], pj_last = s, pj_active = None, pj_stimulus = None\<rparr>"

definition project_finish :: "projection_env \<Rightarrow> Projecting \<Rightarrow> projection_error + ProjectedEvent list" where
  "project_finish env st =
     (let projected = sort_key pr_sequence
        (map (materialize (pe_runtime env) (completed_sessions (pj_sessions st))) (pj_drafts st)) in
      if \<not> distinct (map pr_sequence projected) then Inl (ProjectionError ''projected event sequence collision'')
      else if pj_active st \<noteq> None \<or> pj_writes st \<noteq> [] \<or> pj_requests st \<noteq> []
      then Inl (ProjectionError ''raw journal contains incomplete operations'')
      else Inr projected)"

definition project_events :: "projection_env \<Rightarrow> VisaEvent list \<Rightarrow> projection_error + ProjectedEvent list" where
  "project_events env raw =
     (case raw of
        [] \<Rightarrow> Inr []
      | e # _ \<Rightarrow>
          bind_res (validate_raw (ve_run_id e) (ve_world_id e) 0 raw) (\<lambda>_.
          bind_res (initial_state env raw) (\<lambda>s.
          bind_res (project_loop env (ve_time e) raw (project_start s)) (\<lambda>st.
          project_finish env st))))"


section \<open>What a turn adds\<close>

definition is_write :: "Draft \<Rightarrow> bool" where "is_write d = (dr_operation d = ''write'')"

definition is_violation :: "Draft \<Rightarrow> bool" where
  "is_violation d = (dr_operation d \<in> {''protocol_reject'', ''rpc_reject''})"

definition hook_completed :: "VisaEvent \<Rightarrow> bool" where
  "hook_completed e = (ve_kind e \<in> {''hook.after'', ''hook.error''})"

definition violation :: "projection_env \<Rightarrow> VisaEvent \<Rightarrow> bool" where
  \<comment> \<open>a malformed frame, or a request refused for another reason than an error of the instrument\<close>
  "violation env e =
     (ve_kind e = ''connection.reject'' \<or>
      ve_kind e = ''rpc.reject'' \<and>
        py_str env (json_get_or (ve_fields e) (u ''error_kind'') (jstr ''rejected'')) \<noteq> u ''visa_error'')"

definition adds :: "Projecting \<Rightarrow> Projecting \<Rightarrow> VisaEvent list \<Rightarrow> VisaEvent list \<Rightarrow> bool" where
  \<comment> \<open>the events behind the new drafts of writes, and behind those of violations\<close>
  "adds st st' ws vs =
     (\<exists>ds. pj_drafts st' = pj_drafts st @ ds \<and> map dr_raw (filter is_write ds) = ws \<and> map dr_raw (filter is_violation ds) = vs \<and>
        (\<forall>d \<in> set ds. is_write d \<or> is_violation d \<longrightarrow> dr_offset d = 0))"

lemma adds_same: "pj_drafts st' = pj_drafts st \<Longrightarrow> adds st st' [] []"
  by (simp add: adds_def)

lemma adds_trans:
  assumes "adds st st1 ws vs" "adds st1 st2 ws' vs'"
  shows "adds st st2 (ws @ ws') (vs @ vs')"
proof -
  from assms(1) obtain ds where a: "pj_drafts st1 = pj_drafts st @ ds" "map dr_raw (filter is_write ds) = ws"
    "map dr_raw (filter is_violation ds) = vs" "\<forall>d \<in> set ds. is_write d \<or> is_violation d \<longrightarrow> dr_offset d = 0"
    unfolding adds_def by blast
  from assms(2) obtain ds' where b: "pj_drafts st2 = pj_drafts st1 @ ds'" "map dr_raw (filter is_write ds') = ws'"
    "map dr_raw (filter is_violation ds') = vs'" "\<forall>d \<in> set ds'. is_write d \<or> is_violation d \<longrightarrow> dr_offset d = 0"
    unfolding adds_def by blast
  have "pj_drafts st2 = pj_drafts st @ (ds @ ds')" using a b by simp
  moreover have "map dr_raw (filter is_write (ds @ ds')) = ws @ ws'" "map dr_raw (filter is_violation (ds @ ds')) = vs @ vs'"
    using a b by simp_all
  moreover have "\<forall>d \<in> set (ds @ ds'). is_write d \<or> is_violation d \<longrightarrow> dr_offset d = 0" using a(4) b(4) by auto
  ultimately show ?thesis unfolding adds_def by blast
qed

lemmas draft_kinds = is_write_def is_violation_def plain_draft_def

lemma projecting_frame [simp]:
  "pj_drafts (put_session s st) = pj_drafts st" "pj_writes (put_session s st) = pj_writes st"
  "pj_requests (put_session s st) = pj_requests st" "pj_active (put_session s st) = pj_active st"
  "pj_drafts (add_drafts ds st) = pj_drafts st @ ds" "pj_writes (add_drafts ds st) = pj_writes st"
  "pj_requests (add_drafts ds st) = pj_requests st" "pj_active (add_drafts ds st) = pj_active st"
  "pj_sessions (add_drafts ds st) = pj_sessions st" "pj_stimulus (put_session s st) = pj_stimulus st"
  by (simp_all add: put_session_def add_drafts_def)

lemma note_session_frame:
  assumes "note_session digest fs st = Inr st'"
  shows "pj_drafts st' = pj_drafts st" "pj_writes st' = pj_writes st" "pj_requests st' = pj_requests st"
    "pj_active st' = pj_active st"
  using assms by (auto simp: note_session_def bind_res_Inr_iff split: option.splits)

lemma note_write_frame [simp]:
  "pj_drafts (note_write env e args st) = pj_drafts st" "pj_requests (note_write env e args st) = pj_requests st"
  "pj_sessions (note_write env e args st) = pj_sessions st" "pj_active (note_write env e args st) = pj_active st"
  by (simp_all add: note_write_def split: option.split sum.split)

lemma on_request_adds: "on_request env e st = Inr st' \<Longrightarrow> adds st st' [] []"
  by (rule adds_same) (auto simp: on_request_def Let_def bind_res_Inr_iff split: if_splits)

lemma on_hook_start_adds: "on_hook_start env clock e st = Inr st' \<Longrightarrow> adds st st' [] []"
  by (rule adds_same) (auto simp: on_hook_start_def bind_res_Inr_iff dest: note_session_frame)

lemma write_termination_adds:
  "adds st (write_termination digest fs q request before st) [] []"
proof (cases "write_termination digest fs q request before st = st")
  case False
  then obtain d where "pj_drafts (write_termination digest fs q request before st) = pj_drafts st @ [d]"
      "dr_operation d = ''set_write_termination''"
    by (auto simp: write_termination_def plain_draft_def split: if_splits)
  then show ?thesis by (simp add: adds_def draft_kinds)
qed (simp add: adds_same)

lemma on_hook_end_cases:
  assumes "on_hook_end env clock e st = Inr st'"
  obtains digest st1 q request before response after stimulus where
    "pj_active st = Some digest" "note_session digest (ve_fields e) st = Inr st1"
    "map_of (pj_writes st1) digest = Some (q, request)"
    "st' = (add_drafts [hook_draft env e digest request response before after]
        (write_termination digest (ve_fields e) q request before (st1\<lparr>pj_writes := AList.delete digest (pj_writes st1)\<rparr>)))
      \<lparr>pj_last := after, pj_active := None, pj_stimulus := stimulus\<rparr>"
proof (cases "pj_active st")
  case (Some digest)
  from assms obtain st1 before after stimulus where n: "note_session digest (ve_fields e) st = Inr st1"
    and x: "(case map_of (pj_writes st1) digest of
            None \<Rightarrow> Inl (ProjectionError ''hook completion has no raw write request'')
          | Some (write_event, request) \<Rightarrow>
              bind_res (if ve_kind e = ''hook.after'' then hook_response (field (ve_fields e) ''response'') else Inr None) (\<lambda>response.
              Inr ((add_drafts [hook_draft env e digest request response before after]
                (write_termination digest (ve_fields e) write_event request before
                    (st1\<lparr>pj_writes := AList.delete digest (pj_writes st1)\<rparr>)))
                \<lparr>pj_last := after, pj_active := None, pj_stimulus := stimulus\<rparr>))) = Inr st'"
    unfolding on_hook_end_def Let_def Some option.case bind_res_Inr_iff by blast
  then obtain q request where w: "map_of (pj_writes st1) digest = Some (q, request)"
    by (cases "map_of (pj_writes st1) digest") auto
  from x obtain response where "st' = (add_drafts [hook_draft env e digest request response before after]
        (write_termination digest (ve_fields e) q request before (st1\<lparr>pj_writes := AList.delete digest (pj_writes st1)\<rparr>)))
      \<lparr>pj_last := after, pj_active := None, pj_stimulus := stimulus\<rparr>"
    unfolding w option.case prod.case bind_res_Inr_iff by blast
  with that Some n w show thesis by blast
qed (use assms in \<open>simp add: on_hook_end_def\<close>)

lemma on_hook_end_adds: "on_hook_end env clock e st = Inr st' \<Longrightarrow> adds st st' [e] []"
proof (elim on_hook_end_cases)
  fix digest st1 q request before response after stimulus
  assume n: "note_session digest (ve_fields e) st = Inr st1"
    and st': "st' = (add_drafts [hook_draft env e digest request response before after]
        (write_termination digest (ve_fields e) q request before (st1\<lparr>pj_writes := AList.delete digest (pj_writes st1)\<rparr>)))
      \<lparr>pj_last := after, pj_active := None, pj_stimulus := stimulus\<rparr>"
  let ?st2 = "st1\<lparr>pj_writes := AList.delete digest (pj_writes st1)\<rparr>"
  let ?st3 = "write_termination digest (ve_fields e) q request before ?st2"
  have a: "adds st ?st2 [] []" by (rule adds_same) (simp add: note_session_frame [OF n])
  have b: "adds ?st2 ?st3 [] []" by (rule write_termination_adds)
  have "adds ?st3 st' [e] []" by (simp add: adds_def st' hook_draft_def draft_kinds)
  with adds_trans [OF adds_trans [OF a b]] show ?thesis by simp
qed

lemma result_adds:
  "result_open_manager env e c st = Inr st' \<Longrightarrow> adds st st' [] []"
  "result_open env e c args cur st = Inr st' \<Longrightarrow> adds st st' [] []"
  "result_set_attribute env e args cur st = Inr st' \<Longrightarrow> adds st st' [] []"
  "result_close e args cur st = Inr st' \<Longrightarrow> adds st st' [] []"
  by (auto simp: adds_def result_open_manager_def result_open_def result_set_attribute_def result_close_def
    Let_def bind_res_Inr_iff draft_kinds split: if_splits)

lemma on_result_adds:
  assumes "on_result env cur e st = Inr st'"
  shows "adds st st' [] []"
proof -
  obtain c request args op where
    x: "(if op = u ''open_default_resource_manager'' then result_open_manager env e c (st\<lparr>pj_requests := AList.delete c (pj_requests st)\<rparr>)
         else if op = u ''open'' then result_open env e c args cur (st\<lparr>pj_requests := AList.delete c (pj_requests st)\<rparr>)
         else if op = u ''set_attribute'' then result_set_attribute env e args cur (st\<lparr>pj_requests := AList.delete c (pj_requests st)\<rparr>)
         else if op = u ''close'' then result_close e args cur (st\<lparr>pj_requests := AList.delete c (pj_requests st)\<rparr>)
         else Inr (st\<lparr>pj_requests := AList.delete c (pj_requests st)\<rparr>)) = Inr st'"
    using assms unfolding on_result_def Let_def by (auto simp: bind_res_Inr_iff split: option.splits)
  have "adds (st\<lparr>pj_requests := AList.delete c (pj_requests st)\<rparr>) st' [] []"
    using x result_adds by (auto simp: adds_same split: if_splits)
  then show ?thesis by (simp add: adds_def)
qed

lemma on_reject_adds:
  assumes "on_reject env cur e st = Inr st'"
  shows "adds st st' [] (if py_str env (json_get_or (ve_fields e) (u ''error_kind'') (jstr ''rejected'')) \<noteq> u ''visa_error'' then [e] else [])"
  using assms by (auto simp: adds_def on_reject_def Let_def bind_res_Inr_iff draft_kinds split: if_splits)

lemma forced_closes_drafts:
  "forced_closes e c cur n keys ss = (ss', ds) \<Longrightarrow> filter is_write ds = [] \<and> filter is_violation ds = []"
  by (induction e c cur n keys ss arbitrary: ss' ds rule: forced_closes.induct)
    (auto simp: draft_kinds split: if_splits prod.splits)

lemma on_connection_close_cases:
  assumes "on_connection_close cur e st = Inr st'"
  obtains x ss ds where "forced_closes e x cur 0 [] (pj_sessions st) = (ss, ds)" "st' = add_drafts ds (st\<lparr>pj_sessions := ss\<rparr>)"
proof -
  from assms obtain x where x: "(case forced_closes e x cur 0 [] (pj_sessions st) of
      (ss, ds) \<Rightarrow> Inr (add_drafts ds (st\<lparr>pj_sessions := ss\<rparr>))) = (Inr st' :: projection_error + Projecting)"
    unfolding on_connection_close_def bind_res_Inr_iff by blast
  obtain ss ds where f: "forced_closes e x cur 0 [] (pj_sessions st) = (ss, ds)"
    by (cases "forced_closes e x cur 0 [] (pj_sessions st)")
  with x that show thesis by simp
qed

lemma project_event_adds:
  assumes "project_event env start e st = Inr st'"
  shows "adds st st' (if hook_completed e then [e] else []) (if violation env e then [e] else [])"
proof -
  have close: "adds st st' [] []" if c: "on_connection_close cur e st = Inr st'" for cur
  proof -
    obtain x ss ds where x: "forced_closes e x cur 0 [] (pj_sessions st) = (ss, ds)"
      and "st' = add_drafts ds (st\<lparr>pj_sessions := ss\<rparr>)"
      by (rule on_connection_close_cases [OF c])
    with forced_closes_drafts [OF x] show ?thesis by (auto simp: adds_def filter_empty_conv)
  qed
  have safe: "adds st st' [] []" if "on_force_safe env clock e st = Inr st'" for clock
    using that by (auto simp: adds_def on_force_safe_def bind_res_Inr_iff draft_kinds)
  have reject: "adds st (on_connection_reject env cur e st) [] [e]" for cur
    by (simp add: adds_def on_connection_reject_def draft_kinds)
  show ?thesis
    using assms unfolding project_event_def Let_def
    by (auto simp: hook_completed_def violation_def adds_same split: if_splits
        dest: on_request_adds on_hook_start_adds on_hook_end_adds on_result_adds on_reject_adds close safe
        intro: reject)
qed

lemma project_loop_adds:
  "project_loop env start es st = Inr st' \<Longrightarrow> adds st st' (filter hook_completed es) (filter (violation env) es)"
proof (induction es arbitrary: st)
  case (Cons e es)
  then obtain st1 where "project_event env start e st = Inr st1" "project_loop env start es st1 = Inr st'"
    by (auto simp: bind_res_Inr_iff)
  from adds_trans [OF project_event_adds [OF this(1)] Cons.IH [OF this(2)]] show ?case by (simp split: if_splits)
qed (simp add: adds_same)

section \<open>Where writes come from\<close>

definition confirmed_bytes :: "runtime \<Rightarrow> ustr json \<Rightarrow> string \<Rightarrow> bool" where
  \<comment> \<open>an audited value whose text encodes this payload, with the length and the digest of the payload\<close>
  "confirmed_bytes rt v payload =
     (case v of
        JObj d \<Rightarrow> field d ''type'' = jstr ''bytes'' \<and> field_bytes d = Some payload \<and>
          eq_int (field d ''length'') (int (length payload)) \<and> field d ''sha256'' = jstr (sha256 rt payload)
      | _ \<Rightarrow> False)"

lemma audited_bytes_Inr: "audited_bytes rt v = Inr payload \<longleftrightarrow> confirmed_bytes rt v payload"
  by (auto simp: audited_bytes_def confirmed_bytes_def split: json.splits option.splits)

definition audited_write :: "runtime \<Rightarrow> VisaEvent \<Rightarrow> ustr \<Rightarrow> string \<Rightarrow> bool" where
  \<comment> \<open>the event is a request to write this payload to this session, and its own digest confirms the payload\<close>
  "audited_write rt q digest payload =
     (ve_kind q = ''rpc.request'' \<and> field (ve_fields q) ''operation'' = jstr ''write'' \<and>
      (case field (ve_fields q) ''args'' of
         JObj args \<Rightarrow> token_digest (field args ''session'') = Inr digest \<and> confirmed_bytes rt (field args ''data'') payload
       | _ \<Rightarrow> False))"

definition grounded :: "runtime \<Rightarrow> VisaEvent list \<Rightarrow> Projecting \<Rightarrow> bool" where
  "grounded rt seen st =
     ((\<forall>digest q payload. map_of (pj_writes st) digest = Some (q, payload) \<longrightarrow> q \<in> set seen \<and> audited_write rt q digest payload) \<and>
      (\<forall>d \<in> set (pj_drafts st). is_write d \<longrightarrow>
         (\<exists>q digest payload xs ys. seen = xs @ dr_raw d # ys \<and> q \<in> set xs \<and> audited_write rt q digest payload \<and>
            dr_session d = Some digest \<and> dr_request d = Some payload)))"

lemma grounded_quiet:
  assumes "grounded rt seen st" and "adds st st' [] vs" and "\<And>digest. map_of (pj_writes st') digest \<in> {None, map_of (pj_writes st) digest}"
  shows "grounded rt seen st'"
proof -
  obtain ds where ds: "pj_drafts st' = pj_drafts st @ ds" "filter is_write ds = []" using assms(2) by (auto simp: adds_def)
  have "\<forall>digest x. map_of (pj_writes st') digest = Some x \<longrightarrow> map_of (pj_writes st) digest = Some x"
  proof (intro allI impI)
    fix digest x
    assume "map_of (pj_writes st') digest = Some x"
    with assms(3) [of digest] show "map_of (pj_writes st) digest = Some x" by auto
  qed
  with assms(1) ds show ?thesis unfolding grounded_def by (simp add: filter_empty_conv) blast
qed

lemma grounded_more: "grounded rt seen st \<Longrightarrow> grounded rt (seen @ [e]) st"
  unfolding grounded_def by fastforce

lemma grounded_request:
  assumes "grounded rt seen st" and "on_request env e st = Inr st'" and "ve_kind e = ''rpc.request''" and "rt = pe_runtime env"
  shows "grounded rt (seen @ [e]) st'"
proof -
  obtain c where st': "st' = st\<lparr>pj_requests := AList.update c e (pj_requests st)\<rparr> \<or>
     (\<exists>args. field (ve_fields e) ''operation'' = jstr ''write'' \<and> field (ve_fields e) ''args'' = JObj args \<and>
       st' = note_write env e args (st\<lparr>pj_requests := AList.update c e (pj_requests st)\<rparr>))"
    using assms(2) by (auto simp: on_request_def Let_def bind_res_Inr_iff mapping_field_def as_Inr split: if_splits)
  have old: "\<And>digest q payload. map_of (pj_writes st) digest = Some (q, payload) \<Longrightarrow> q \<in> set seen \<and> audited_write rt q digest payload"
    using assms(1) by (auto simp: grounded_def)
  have "q \<in> set (seen @ [e]) \<and> audited_write rt q digest payload" if m: "map_of (pj_writes st') digest = Some (q, payload)" for digest q payload
    using st' m old assms(3,4)
    by (auto simp: note_write_def optional_token_digest_def audited_write_def audited_bytes_Inr update_Some_unfold update_conv
        split: option.splits sum.splits if_splits)
  moreover have "pj_drafts st' = pj_drafts st" using st' by auto
  ultimately show ?thesis using grounded_more [OF assms(1), of e] by (simp add: grounded_def)
qed

lemma grounded_hook_end:
  assumes "grounded rt seen st" and "on_hook_end env clock e st = Inr st'"
  shows "grounded rt (seen @ [e]) st'"
proof -
  obtain digest st1 q request before response after stimulus where
    n: "note_session digest (ve_fields e) st = Inr st1" and w: "map_of (pj_writes st1) digest = Some (q, request)"
    and st': "st' = (add_drafts [hook_draft env e digest request response before after]
        (write_termination digest (ve_fields e) q request before (st1\<lparr>pj_writes := AList.delete digest (pj_writes st1)\<rparr>)))
      \<lparr>pj_last := after, pj_active := None, pj_stimulus := stimulus\<rparr>"
    by (rule on_hook_end_cases [OF assms(2)])
  let ?st2 = "st1\<lparr>pj_writes := AList.delete digest (pj_writes st1)\<rparr>"
  let ?st3 = "write_termination digest (ve_fields e) q request before ?st2"
  have g1: "grounded rt seen st1" using assms(1) note_session_frame [OF n] by (simp add: grounded_def)
  then have g2: "grounded rt seen ?st2" by (rule grounded_quiet [OF _ adds_same]) (auto simp: delete_conv)
  have "pj_writes ?st3 = pj_writes ?st2" by (simp add: write_termination_def)
  then have "grounded rt seen ?st3" by (intro grounded_quiet [OF g2 write_termination_adds]) simp
  then have "grounded rt (seen @ [e]) ?st3" by (rule grounded_more)
  moreover have "q \<in> set seen \<and> audited_write rt q digest request" using g1 w by (auto simp: grounded_def)
  ultimately show ?thesis
    by (fastforce simp: grounded_def st' hook_draft_def plain_draft_def)
qed

lemma result_writes:
  "result_open_manager env e c st = Inr st' \<Longrightarrow> pj_writes st' = pj_writes st"
  "result_open env e c args cur st = Inr st' \<Longrightarrow> pj_writes st' = pj_writes st"
  "result_set_attribute env e args cur st = Inr st' \<Longrightarrow> pj_writes st' = pj_writes st"
  "result_close e args cur st = Inr st' \<Longrightarrow> pj_writes st' = pj_writes st"
  by (auto simp: result_open_manager_def result_open_def result_set_attribute_def result_close_def
    Let_def bind_res_Inr_iff split: if_splits)

lemma on_result_writes: "on_result env cur e st = Inr st' \<Longrightarrow> pj_writes st' = pj_writes st"
  unfolding on_result_def Let_def
  by (auto simp: bind_res_Inr_iff dest!: result_writes split: option.splits if_splits)

lemma other_writes:
  "on_hook_start env clock e st = Inr st' \<Longrightarrow> pj_writes st' = pj_writes st"
  "on_force_safe env clock e st = Inr st' \<Longrightarrow> pj_writes st' = pj_writes st"
  "on_reject env cur e st = Inr st' \<Longrightarrow> map_of (pj_writes st') digest \<in> {None, map_of (pj_writes st) digest}"
  by (auto simp: on_hook_start_def on_force_safe_def on_reject_def Let_def bind_res_Inr_iff
      delete_conv split: if_splits prod.splits option.splits dest: note_session_frame)

lemma grounded_event:
  assumes "grounded (pe_runtime env) seen st" and "project_event env start e st = Inr st'"
  shows "grounded (pe_runtime env) (seen @ [e]) st'"
proof -
  have a: "adds st st' (if hook_completed e then [e] else []) (if violation env e then [e] else [])"
    by (rule project_event_adds [OF assms(2)])
  consider (request) "ve_kind e = ''rpc.request''" | (completed) "hook_completed e" | (other) "ve_kind e \<noteq> ''rpc.request''" "\<not> hook_completed e"
    by blast
  then show ?thesis
  proof cases
    case request
    with assms show ?thesis by (intro grounded_request [OF assms(1)]) (simp_all add: project_event_def Let_def)
  next
    case completed
    with assms(2) have "on_hook_end env (clock_at start e) e st = Inr st'"
      by (auto simp: project_event_def Let_def hook_completed_def)
    from grounded_hook_end [OF assms(1) this] show ?thesis .
  next
    case other
    have "map_of (pj_writes st') digest \<in> {None, map_of (pj_writes st) digest}" for digest
      using assms(2) other unfolding project_event_def Let_def hook_completed_def
      by (auto split: if_splits dest: other_writes(1,2) on_result_writes other_writes(3) [of _ _ _ _ _ digest]
          elim!: on_connection_close_cases simp: on_connection_reject_def)
    moreover have "adds st st' [] (if violation env e then [e] else [])" using a other by simp
    ultimately have "grounded (pe_runtime env) seen st'" using grounded_quiet [OF assms(1)] by blast
    then show ?thesis by (rule grounded_more)
  qed
qed

lemma grounded_loop:
  "grounded (pe_runtime env) seen st \<Longrightarrow> project_loop env start es st = Inr st' \<Longrightarrow> grounded (pe_runtime env) (seen @ es) st'"
proof (induction es arbitrary: seen st)
  case (Cons e es)
  then obtain st1 where "project_event env start e st = Inr st1" "project_loop env start es st1 = Inr st'"
    by (auto simp: bind_res_Inr_iff)
  with Cons.IH [OF grounded_event [OF Cons.prems(1)]] show ?case by fastforce
qed simp

section \<open>Order\<close>

lemma validated_sequences:
  "validate_raw run world n es = Inr () \<Longrightarrow>
     map ve_sequence es = map (\<lambda>i. n + 1 + int i) [0..<length es] \<and> list_all (\<lambda>e. ve_run_id e = run \<and> ve_world_id e = world) es"
proof (induction es arbitrary: n)
  case (Cons e es)
  then have e: "ve_sequence e = n + 1" "ve_run_id e = run" "ve_world_id e = world"
    and v: "validate_raw run world (ve_sequence e) es = Inr ()" by (auto split: if_splits)
  have "map (\<lambda>i. n + 1 + int i) [0..<length (e # es)] = (n + 1) # map (\<lambda>i. n + 1 + 1 + int i) [0..<length es]"
    by (simp add: upt_conv_Cons map_Suc_upt [symmetric] comp_def del: upt_Suc)
  with Cons.IH [OF v] e show ?case by simp
qed simp

lemma sorted_filter_sequences:
  assumes "validate_raw run world n es = Inr ()"
  shows "sorted_wrt (<) (map ve_sequence (filter P es))"
proof -
  have "sorted_wrt (<) (map (\<lambda>i. n + 1 + int i) [0..<length es])"
    using sorted_wrt_upt [of 0 "length es"] by (simp add: sorted_wrt_map)
  with validated_sequences [OF assms] have "sorted_wrt (\<lambda>a b. ve_sequence a < ve_sequence b) es"
    by (metis sorted_wrt_map)
  then show ?thesis by (simp add: sorted_wrt_map sorted_wrt_filter)
qed

section \<open>The events returned\<close>

lemma project_events_Inr:
  assumes "project_events env raw = Inr ps" and "raw \<noteq> []"
  obtains s st where "validate_raw (ve_run_id (hd raw)) (ve_world_id (hd raw)) 0 raw = Inr ()"
    "project_loop env (ve_time (hd raw)) raw (project_start s) = Inr st" "project_finish env st = Inr ps"
  using assms that by (cases raw) (auto simp: project_events_def bind_res_Inr_iff)

lemma project_finish_Inr:
  assumes "project_finish env st = Inr ps"
  shows "ps = sort_key pr_sequence (map (materialize (pe_runtime env) (completed_sessions (pj_sessions st))) (pj_drafts st))"
    and "sorted_wrt (<) (map pr_sequence ps)" and "pj_active st = None" "pj_writes st = []" "pj_requests st = []"
proof -
  show ps: "ps = sort_key pr_sequence (map (materialize (pe_runtime env) (completed_sessions (pj_sessions st))) (pj_drafts st))"
    and d: "pj_active st = None" "pj_writes st = []" "pj_requests st = []"
    using assms by (auto simp: project_finish_def Let_def split: if_splits)
  have "distinct (map pr_sequence ps)" using assms ps by (auto simp: project_finish_def Let_def split: if_splits)
  moreover have "sorted (map pr_sequence ps)" unfolding ps by simp
  ultimately show "sorted_wrt (<) (map pr_sequence ps)" by (simp add: strict_sorted_iff)
qed

lemma materialize_simps [simp]:
  "pr_operation (materialize rt ss d) = dr_operation d" "pr_source (materialize rt ss d) = ve_sequence (dr_raw d)"
  "pr_sequence (materialize rt ss d) = ve_sequence (dr_raw d) * 10 + dr_offset d"
  "pr_session (materialize rt ss d) = dr_session d" "pr_request (materialize rt ss d) = dr_request d"
  "pr_request_sha256 (materialize rt ss d) = sha256 rt (bytes_of (dr_request d))"
  by (simp_all add: materialize_def Let_def)

lemma projected_sources:
  assumes "project_finish env st = Inr ps" and "map dr_raw (filter (\<lambda>d. Q (dr_operation d)) (pj_drafts st)) = es"
    and "\<And>d. d \<in> set (pj_drafts st) \<Longrightarrow> Q (dr_operation d) \<Longrightarrow> dr_offset d = 0" and "sorted_wrt (<) (map ve_sequence es)"
  shows "map pr_source (filter (\<lambda>p. Q (pr_operation p)) ps) = map ve_sequence es"
proof -
  let ?m = "materialize (pe_runtime env) (completed_sessions (pj_sessions st))"
  let ?ds = "filter (\<lambda>d. Q (dr_operation d)) (pj_drafts st)"
  have "filter (\<lambda>p. Q (pr_operation p)) ps = sort_key pr_sequence (map ?m ?ds)"
    by (simp add: project_finish_Inr(1) [OF assms(1)] filter_sort filter_map comp_def)
  moreover have "map pr_sequence (map ?m ?ds) = map (\<lambda>e. ve_sequence e * 10) es"
    using assms(3) unfolding assms(2) [symmetric] by simp
  then have "sorted (map pr_sequence (map ?m ?ds))"
    using assms(4) by (simp add: sorted_wrt_map) (erule sorted_wrt_mono_rel [rotated], simp)
  ultimately have "filter (\<lambda>p. Q (pr_operation p)) ps = map ?m ?ds"
    by (simp only: sort_key_id_if_sorted)
  then show ?thesis by (simp add: assms(2) [symmetric])
qed

section \<open>An example\<close>

definition example_projection_env :: projection_env where
  "example_projection_env = \<lparr>pe_runtime = \<lparr>float_repr = \<lambda>_. ''0.0'', sha256 = \<lambda>_. replicate 64 (CHR ''0'')\<rparr>,
     pe_timeout = 0x3FFF001A, pe_termchar = 0x3FFF0018, pe_termchar_enabled = 0x3FFF0038,
     pe_upper = \<lambda>c. [c], pe_float_text = \<lambda>_. None, pe_repr = \<lambda>_. []\<rparr>"

definition example_raw_event :: "int \<Rightarrow> string \<Rightarrow> (string \<times> ustr json) list \<Rightarrow> VisaEvent" where
  "example_raw_event n knd fs = \<lparr>ve_run_id = u ''r'', ve_world_id = u ''w'', ve_sequence = n, ve_time = n, ve_previous = [],
     ve_kind = knd, ve_fields = map (\<lambda>(k, v). (u k, v)) fs, ve_hash = []\<rparr>"

definition example_sim_state :: "ustr json" where
  "example_sim_state = jobj
     [(''psu'', jobj [(''voltage'', JInt 0), (''output'', JBool False)]), (''switch'', jobj [(''closed_routes'', JList [])]),
      (''awg'', jobj [(''amplitude'', JInt 1), (''output'', jstr ''OFF'')])]"

definition example_hook :: "(string \<times> ustr json) list" where
  "example_hook = [(''session_digest'', jstr ''d''), (''resource'', jstr ''ASRL1::INSTR''), (''role'', jstr ''psu''),
     (''state_before'', example_sim_state), (''state_after'', example_sim_state)]"

definition example_raw :: "VisaEvent list" where
  \<comment> \<open>one command, and a malformed frame of another connection\<close>
  "example_raw =
     [example_raw_event 1 ''rpc.request'' [(''connection_id'', jstr ''c''), (''operation'', jstr ''write''),
        (''args'', jobj [(''session'', jobj [(''type'', jstr ''token''), (''sha256'', jstr ''d'')]),
           (''data'', jobj [(''type'', jstr ''bytes''), (''length'', JInt 1), (''base64'', jstr ''Kg==''),
              (''sha256'', jstr (replicate 64 (CHR ''0'')))])])],
      example_raw_event 2 ''hook.before'' example_hook, example_raw_event 3 ''hook.after'' example_hook,
      example_raw_event 4 ''rpc.result'' [(''connection_id'', jstr ''c''), (''operation'', jstr ''write'')],
      example_raw_event 5 ''connection.reject'' [(''reason'', jstr ''malformed_frame'')]]"

lemma example_projected:
  obtains ps where "project_events example_projection_env example_raw = Inr ps"
proof -
  have "case project_events example_projection_env example_raw of Inr _ \<Rightarrow> True | Inl _ \<Rightarrow> False" by code_simp
  with that show thesis by (auto split: sum.splits)
qed

lemma example_raw_kinds:
  "map ve_sequence (filter hook_completed example_raw) = [3]"
  "map ve_sequence (filter (violation example_projection_env) example_raw) = [5]"
  by code_simp+

section \<open>Completeness and origin\<close>

lemma projection_counts:
  assumes "project_events env raw = Inr ps"
  shows "sorted_wrt (<) (map pr_sequence ps) \<and>
    map pr_source (filter (\<lambda>p. pr_operation p = ''write'') ps) = map ve_sequence (filter hook_completed raw) \<and>
    map pr_source (filter (\<lambda>p. pr_operation p \<in> {''protocol_reject'', ''rpc_reject''}) ps) =
      map ve_sequence (filter (violation env) raw)"
proof (cases "raw = []")
  case False
  obtain s st where v: "validate_raw (ve_run_id (hd raw)) (ve_world_id (hd raw)) 0 raw = Inr ()"
    and l: "project_loop env (ve_time (hd raw)) raw (project_start s) = Inr st" and f: "project_finish env st = Inr ps"
    by (rule project_events_Inr [OF assms False])
  have "adds (project_start s) st (filter hook_completed raw) (filter (violation env) raw)" by (rule project_loop_adds [OF l])
  then have a: "map dr_raw (filter is_write (pj_drafts st)) = filter hook_completed raw"
      "map dr_raw (filter is_violation (pj_drafts st)) = filter (violation env) raw"
      "\<And>d. d \<in> set (pj_drafts st) \<Longrightarrow> is_write d \<or> is_violation d \<Longrightarrow> dr_offset d = 0"
    by (auto simp: adds_def project_start_def)
  note w = projected_sources [OF f, of "\<lambda>op. op = ''write''"]
  note x = projected_sources [OF f, of "\<lambda>op. op \<in> {''protocol_reject'', ''rpc_reject''}"]
  show ?thesis
    using project_finish_Inr(2) [OF f] w [OF a(1) [unfolded is_write_def [abs_def]] _ sorted_filter_sequences [OF v]]
      x [OF a(2) [unfolded is_violation_def [abs_def]] _ sorted_filter_sequences [OF v]] a(3)
    by (simp add: is_write_def is_violation_def)
qed (use assms in \<open>simp add: project_events_def\<close>)

text \<open>
  C7. Nothing is lost or invented by the projection. The events it returns are in strict order; the writes among them stand, in
  order, for exactly the commands the simulator's hooks completed or failed; and the
  refusals the grader counts as forbidden access stand, in order, for exactly the malformed frames
  and the requests refused for another reason than an error of the instrument.
\<close>

theorem projection_complete:
  assumes "project_events env raw = Inr ps"
  shows "sorted_wrt (<) (map pr_sequence ps) \<and>
    map pr_source (filter (\<lambda>p. pr_operation p = ''write'') ps) = map ve_sequence (filter hook_completed raw) \<and>
    map pr_source (filter (\<lambda>p. pr_operation p \<in> {''protocol_reject'', ''rpc_reject''}) ps) =
      map ve_sequence (filter (violation env) raw)"
  by (rule projection_counts [OF assms])

theorem projection_complete_witness:
  "\<exists>ps. project_events example_projection_env example_raw = Inr ps \<and>
     map pr_source (filter (\<lambda>p. pr_operation p = ''write'') ps) = [3] \<and>
     map pr_source (filter (\<lambda>p. pr_operation p \<in> {''protocol_reject'', ''rpc_reject''}) ps) = [5]"
proof -
  obtain ps where p: "project_events example_projection_env example_raw = Inr ps" by (rule example_projected)
  from projection_complete [OF p] p show ?thesis by (simp add: example_raw_kinds)
qed

text \<open>
  C6. Every write the grader sees was asked for. The bytes of a projected write are the payload of an
  earlier journaled request of that session, and the digest in that request confirms them. (That the write
  was also carried out, as a completed hook, is part of C7.)
\<close>

theorem projected_writes_genuine:
  assumes "project_events env raw = Inr ps" and "p \<in> set ps" and "pr_operation p = ''write''"
  shows "\<exists>q \<in> set raw. \<exists>digest payload. ve_sequence q < pr_source p \<and> audited_write (pe_runtime env) q digest payload \<and>
    pr_session p = Some digest \<and> pr_request p = Some payload \<and> pr_request_sha256 p = sha256 (pe_runtime env) payload"
proof -
  have "raw \<noteq> []" using assms by (auto simp: project_events_def)
  obtain s st where v: "validate_raw (ve_run_id (hd raw)) (ve_world_id (hd raw)) 0 raw = Inr ()"
    and l: "project_loop env (ve_time (hd raw)) raw (project_start s) = Inr st" and f: "project_finish env st = Inr ps"
    by (rule project_events_Inr [OF assms(1) \<open>raw \<noteq> []\<close>])
  have g: "grounded (pe_runtime env) raw st"
    using grounded_loop [OF _ l, of "[]"] by (simp add: grounded_def project_start_def)
  obtain d where d: "d \<in> set (pj_drafts st)" "p = materialize (pe_runtime env) (completed_sessions (pj_sessions st)) d"
    using assms(2) by (auto simp: project_finish_Inr(1) [OF f])
  with assms(3) g obtain q digest payload xs ys where x: "raw = xs @ dr_raw d # ys" "q \<in> set xs"
    "audited_write (pe_runtime env) q digest payload" "dr_session d = Some digest" "dr_request d = Some payload"
    unfolding grounded_def is_write_def by fastforce
  have "sorted_wrt (<) (map ve_sequence raw)" using sorted_filter_sequences [OF v, of "\<lambda>_. True"] by simp
  with x(1,2) have "ve_sequence q < ve_sequence (dr_raw d)" by (auto simp: sorted_wrt_append)
  with x d show ?thesis by (auto simp: bytes_of_def)
qed

theorem projected_writes_genuine_witness:
  "\<exists>ps p. project_events example_projection_env example_raw = Inr ps \<and> p \<in> set ps \<and> pr_operation p = ''write'' \<and>
     (\<exists>q \<in> set example_raw. \<exists>digest payload. audited_write (pe_runtime example_projection_env) q digest payload \<and>
        pr_request p = Some payload)"
proof -
  have "case project_events example_projection_env example_raw of
      Inr ps \<Rightarrow> list_ex (\<lambda>p. pr_operation p = ''write'') ps | Inl _ \<Rightarrow> False" by code_simp
  then obtain ps p where p: "project_events example_projection_env example_raw = Inr ps" "p \<in> set ps"
    "pr_operation p = ''write''" by (auto simp: list_ex_iff split: sum.splits)
  from projected_writes_genuine [OF p] p show ?thesis by blast
qed

end
