(* ===== verification/Audit_Trail.thy ===== *)
theory Audit_Trail
  imports Broker_Run Projection
begin

text \<open>
  The way of a command from the candidate to the grader, version 2: the broker journals a request to write, and the projection
  reads the payload back from that entry. The two are separate pieces of code (\<^verbatim>\<open>broker.py\<close>,
  \<^verbatim>\<open>projection.py\<close>) that agree on the audited form of a value.
\<close>

lemma map_of_audited:
  "map_of (audit_mapping rt args) k =
     map_option (\<lambda>v. if k = u ''session'' then audit_token rt (Some v) else audit_value rt False v) (map_of args k)"
  by (induction args) (auto simp: audit_mapping_def)

lemma audited_keys: "map fst (audit_mapping rt args) = map fst args"
  by (simp add: audit_mapping_def comp_def case_prod_beta)

lemma field_audited:
  assumes "distinct (map fst args)" and "map_of args (u k) = Some v"
  shows "field (sort_key fst (map (\<lambda>(k, v). (k, canon v)) (audit_mapping rt args))) k =
    canon (if k = ''session'' then audit_token rt (Some v) else audit_value rt False v)"
proof -
  have "distinct (map fst (audit_mapping rt args))" using assms(1) by (simp only: audited_keys)
  from field_canon [OF this] show ?thesis by (simp add: field_def json_get_def map_of_audited assms(2))
qed

lemma token_read_back: "token_digest (canon (audit_text_token rt t)) = Inr (u (sha256 rt (utf8_bytes t)))"
proof -
  have "canon (audit_text_token rt t) = JObj (sort_key fst (map (\<lambda>(k, v). (k, canon v))
      [(u ''type'', jstr ''token''), (u ''length'', JInt (int (length t))), (u ''sha256'', digest_of rt (utf8_bytes t))]))"
    by (simp only: audit_text_token_def jobj_def canon.simps list.map prod.case)
  moreover have "distinct (map fst [(u ''type'', jstr ''token''), (u ''length'', JInt (int (length t))), (u ''sha256'', digest_of rt (utf8_bytes t))])"
    by simp
  ultimately show ?thesis
    by (simp only: token_digest_def json.case field_canon) (simp add: field_def jstr_def digest_of_def)
qed

lemma bytes_read_back: "audited_bytes rt (canon (audit_value rt False (WBytes d))) = Inr d"
proof -
  let ?fs = "[(u ''type'', jstr ''bytes''), (u ''length'', JInt (int (length d))), (u ''sha256'', digest_of rt d),
      (u ''base64'', jstr (b64_encode d))]"
  have "canon (audit_value rt False (WBytes d)) = JObj (sort_key fst (map (\<lambda>(k, v). (k, canon v)) ?fs))"
    by (simp only: audit_value.simps if_False append.simps jobj_def canon.simps list.map prod.case)
  moreover have "distinct (map fst ?fs)" by simp
  ultimately show ?thesis
    by (simp only: audited_bytes_def json.case field_bytes_def field_canon)
      (simp add: field_def jstr_def digest_of_def b64_text_encode eq_int_def)
qed

text \<open>
  C16. What the candidate asked to write is what the grader reads. The entry the broker journals for a request to write
  bytes to a session is read back by the projection as these very bytes for the digest of that very token.
\<close>

theorem journaled_write_reads_back:
  assumes "begin_request env c (u ''write'') args b = (b', Inr p)" and "\<not> p_limited p"
    and "distinct (map fst args)" and "map_of args (u ''session'') = Some (WStr t)" and "map_of args (u ''data'') = Some (WBytes d)"
  shows "\<exists>e. vj_events (visa_journal b') = vj_events (visa_journal b) @ [e] \<and>
    audited_write (be_runtime env) e (u (sha256 (be_runtime env) (utf8_bytes t))) d"
proof -
  let ?rt = "be_runtime env"
  let ?fs = "[(u ''connection_id'', JStr c), (u ''operation'', jstr ''write''), (u ''args'', JObj (audit_mapping ?rt args))]"
  have "visa_journal b' = visa_append ?rt (be_clock env) ''rpc.request'' ?fs (read_clock (visa_journal b))"
    using assms(1,2)
    by (auto simp: begin_request_def Let_def bind_act_def ret_def logged_def put_conn_def audit_operation_def jstr_def)
  then obtain e where e: "vj_events (visa_journal b') = vj_events (visa_journal b) @ [e]" "ve_kind e = ''rpc.request''"
    "ve_fields e = visa_copied ?fs"
    by (simp add: visa_append_def Let_def)
  have f: "field (ve_fields e) k = canon (field ?fs k)" for k
    unfolding e(3) visa_copied_def by (rule field_canon) simp
  let ?args = "sort_key fst (map (\<lambda>(k, v). (k, canon v)) (audit_mapping ?rt args))"
  have a: "field (ve_fields e) ''args'' = JObj ?args" unfolding f by (simp add: field_def)
  have "token_digest (field ?args ''session'') = Inr (u (sha256 ?rt (utf8_bytes t)))"
    using field_audited [OF assms(3,4)] token_read_back by (simp add: audit_token_def)
  moreover have "confirmed_bytes ?rt (field ?args ''data'') d"
    unfolding audited_bytes_Inr [symmetric] using field_audited [OF assms(3,5)] bytes_read_back [of ?rt d] by (simp del: audit_value.simps canon.simps)
  moreover have "field (ve_fields e) ''operation'' = jstr ''write''" unfolding f by (simp add: field_def jstr_def)
  ultimately show ?thesis using e(1,2) by (auto simp: audited_write_def a)
qed

theorem journaled_write_reads_back_witness:
  "\<exists>b b' p e. begin_request example_broker_env (u ''c'') (u ''write'')
      [(u ''session'', WStr (u ''t'')), (u ''data'', WBytes ''*IDN?'')] b = (b', Inr p) \<and>
    vj_events (visa_journal b') = vj_events (visa_journal b) @ [e] \<and>
    audited_write (be_runtime example_broker_env) e (u (sha256 (be_runtime example_broker_env) ''t'')) ''*IDN?''"
proof -
  let ?args = "[(u ''session'', WStr (u ''t'')), (u ''data'', WBytes ''*IDN?'')]"
  let ?b = "\<lparr>limits = default_limits, connections = [], states = [], connection_count = 0, total_requests = 0,
     argument_bytes = 0, leaked_session_count = 0, frozen = False, broker_summary = None, fatal_error = None,
     visa_journal = \<lparr>vj_run_id = u ''r'', vj_world_id = u ''w'', vj_events = [], vj_readings = 0\<rparr>, library = ()\<rparr>"
  have q: "case snd (begin_request example_broker_env (u ''c'') (u ''write'') ?args ?b) of
      Inr p \<Rightarrow> \<not> p_limited p | Inl _ \<Rightarrow> False" by code_simp
  obtain b' p where r: "begin_request example_broker_env (u ''c'') (u ''write'') ?args ?b = (b', Inr p)" "\<not> p_limited p"
    using q by (cases "begin_request example_broker_env (u ''c'') (u ''write'') ?args ?b") (auto split: sum.splits)
  have t: "utf8_bytes (u ''t'') = ''t''" by code_simp
  obtain e where "vj_events (visa_journal b') = vj_events (visa_journal ?b) @ [e]"
    "audited_write (be_runtime example_broker_env) e (u (sha256 (be_runtime example_broker_env) ''t'')) ''*IDN?''"
    using journaled_write_reads_back [OF r, of "u ''t''" "''*IDN?''", unfolded t] by auto
  with r(1) show ?thesis by blast
qed

end
