(* ===== verification/Accepted_Evidence.thy ===== *)
theory Accepted_Evidence
  imports Journal_File
begin

text \<open>
  What the verification of an evidence directory proves, and a concrete directory that passes it: the
  journal of a run without clients, from its start to its exit, with its summary.
\<close>

section \<open>What an accepted directory guarantees\<close>

fun linked :: "runtime \<Rightarrow> string \<Rightarrow> int \<Rightarrow> uobj list \<Rightarrow> bool" where
  \<comment> \<open>every event carries the hash of the one before it, the next number and the digest of its own text\<close>
  "linked rt previous n [] = True"
| "linked rt previous n (e # es) =
     (let digest = sha256 rt (visa_canonical rt (JObj (AList.delete (u ''event_hash'') e))) in
      field e ''previous_hash'' = jstr previous \<and> eq_int (field e ''sequence'') n \<and> field e ''event_hash'' = jstr digest \<and>
      linked rt digest (n + 1) es)"

lemma check_Inr [simp]: "check c message = Inr x \<longleftrightarrow> c"
  by (simp add: check_def)

lemma load_lines_linked:
  "load_lines rd run world n previous t ls = Inr es \<Longrightarrow>
    linked (rd_runtime rd) previous n es \<and> list_all (\<lambda>e. field e ''run_id'' = JStr run \<and> field e ''world_id'' = JStr world) es"
proof (induction rd run world n previous t ls arbitrary: es rule: load_lines.induct)
  case (2 rd run world n previous t raw rest)
  then obtain e digest t' es' where e: "load_event rd run world n previous t raw = Inr (e, digest, t')"
    "load_lines rd run world (n + 1) digest t' rest = Inr es'" and es: "es = e # es'"
    by (auto simp: res_simps)
  have i: "linked (rd_runtime rd) digest (n + 1) es' \<and> list_all (\<lambda>e. field e ''run_id'' = JStr run \<and> field e ''world_id'' = JStr world) es'"
    using "2.IH" [OF e(2)] by blast
  from e(1) have "field e ''run_id'' = JStr run \<and> field e ''world_id'' = JStr world \<and> field e ''previous_hash'' = jstr previous \<and>
      eq_int (field e ''sequence'') n \<and> field e ''event_hash'' = jstr digest \<and>
      digest = sha256 (rd_runtime rd) (visa_canonical (rd_runtime rd) (JObj (AList.delete (u ''event_hash'') e)))"
    unfolding load_event_def bind_res_Inr_iff Let_def by (auto simp: event_fields_valid_def)
  with i show ?case by (simp add: es Let_def)
qed simp

lemma safe_snapshot:
  assumes "valid_snapshot v" "sub v ''safe'' = JBool True"
  shows "sub v ''psu_output'' = JBool False \<and> sub v ''awg_output'' = JBool False \<and> sub v ''closed_routes'' = JList []"
  using assms
  by (auto simp: valid_snapshot_def sub_def is_bool_def split: json.splits)

lemma normal_checks:
  assumes "verify_normal rd d run world = Inr ev"
  obtains s where
    "load_json rd (file_named d ''summary.json'') SUMMARY_LIMIT ''summary'' = Inr s" and
    "summary_matches s run world (evidence_events ev)
       (if evidence_events ev = [] then jstr VISA_GENESIS_HASH else last_hash (evidence_events ev))" and
    "post_cleanup_snapshot ev = field s ''post_cleanup_snapshot''" and
    "load_events rd (file_named d ''events.jsonl'') run world = Inr (evidence_events ev)" and
    "accounting_valid s (field s ''broker'') (event_counts (evidence_events ev))" and
    "verify_journal (evidence_events ev) = Inr ()" and
    "valid_snapshot (post_cleanup_snapshot ev)" and "sub (post_cleanup_snapshot ev) ''safe'' = JBool True"
proof -
  from assms [unfolded verify_normal_def Let_def bind_res_Inr_iff check_Inr] show thesis
    by - (elim exE conjE, drule Inr_inject, drule sym [of _ ev], rule that,
      (assumption | simp only: SimJournalEvidence.select_convs | simp)+)
qed

lemma accepted_evidence:
  assumes "verify_evidence rd (Some d) run world = Inr ev" and "evidence_fatal ev = None"
  shows "linked (rd_runtime rd) VISA_GENESIS_HASH 1 (evidence_events ev) \<and>
    list_all (\<lambda>e. field e ''run_id'' = JStr run \<and> field e ''world_id'' = JStr world) (evidence_events ev) \<and>
    valid_rpc_boundaries (evidence_events ev) \<and> counts_balanced (event_counts (evidence_events ev)) \<and>
    list_all (\<lambda>k. kind_count (evidence_events ev) k = 0) FAILURES \<and>
    list_all (\<lambda>k. kind_count (evidence_events ev) k = 1) LIFECYCLE \<and>
    ascending (map (index_of (evidence_events ev)) LIFECYCLE) \<and>
    sub (post_cleanup_snapshot ev) ''psu_output'' = JBool False \<and> sub (post_cleanup_snapshot ev) ''awg_output'' = JBool False \<and>
    sub (post_cleanup_snapshot ev) ''closed_routes'' = JList [] \<and>
    (\<exists>s. load_json rd (file_named d ''summary.json'') SUMMARY_LIMIT ''summary'' = Inr s \<and>
       field s ''final_hash'' = last_hash (evidence_events ev) \<and>
       field s ''event_count'' = JInt (int (length (evidence_events ev))) \<and>
       post_cleanup_snapshot ev = field s ''post_cleanup_snapshot'')"
proof -
  have v: "verify_normal rd d run world = Inr ev"
  proof (cases "''fatal.json'' \<in> set (map fst d)")
    case True
    then have "verify_fatal rd d run world = Inr ev" using assms(1) by (simp add: verify_evidence_def)
    then have "\<exists>fatal. evidence_fatal ev = Some fatal" unfolding verify_fatal_def bind_res_Inr_iff check_Inr by force
    with assms(2) show ?thesis by simp
  qed (use assms(1) in \<open>simp add: verify_evidence_def\<close>)
  obtain s where
    m: "load_json rd (file_named d ''summary.json'') SUMMARY_LIMIT ''summary'' = Inr s"
      "summary_matches s run world (evidence_events ev)
         (if evidence_events ev = [] then jstr VISA_GENESIS_HASH else last_hash (evidence_events ev))"
      "post_cleanup_snapshot ev = field s ''post_cleanup_snapshot''" and
    l: "load_events rd (file_named d ''events.jsonl'') run world = Inr (evidence_events ev)" and
    a: "accounting_valid s (field s ''broker'') (event_counts (evidence_events ev))" and
    j: "verify_journal (evidence_events ev) = Inr ()" and
    p: "valid_snapshot (post_cleanup_snapshot ev)" "sub (post_cleanup_snapshot ev) ''safe'' = JBool True"
    by (rule normal_checks [OF v])
  from l have "linked (rd_runtime rd) VISA_GENESIS_HASH 1 (evidence_events ev) \<and>
      list_all (\<lambda>e. field e ''run_id'' = JStr run \<and> field e ''world_id'' = JStr world) (evidence_events ev)"
    by (auto simp: load_events_def res_simps dest: load_lines_linked)
  moreover from j have "valid_rpc_boundaries (evidence_events ev) \<and>
      \<not> list_ex (\<lambda>e. list_ex (kind_is e) FAILURES) (evidence_events ev) \<and> lifecycle_complete (evidence_events ev) \<and>
      ascending (map (index_of (evidence_events ev)) LIFECYCLE)"
    unfolding verify_journal_def bind_res_Inr_iff check_Inr by blast
  moreover have "counts_balanced (event_counts (evidence_events ev))" using a by (simp add: accounting_valid_def)
  moreover have "\<exists>s. load_json rd (file_named d ''summary.json'') SUMMARY_LIMIT ''summary'' = Inr s \<and>
      field s ''final_hash'' = last_hash (evidence_events ev) \<and>
      field s ''event_count'' = JInt (int (length (evidence_events ev))) \<and>
      post_cleanup_snapshot ev = field s ''post_cleanup_snapshot''"
  proof -
    have "evidence_events ev \<noteq> []"
      using j unfolding verify_journal_def bind_res_Inr_iff check_Inr by blast
    with m show ?thesis by (intro exI [of _ s]) (simp add: summary_matches_def)
  qed
  ultimately show ?thesis
    using safe_snapshot [OF p]
    by (auto simp: lifecycle_complete_def kind_count_def list_ex_iff list_all_iff filter_empty_conv)
qed

text \<open>
  C5. Evidence without a fatal marker is only accepted from a run that was complete and safe: the
  journal is a hash chain from the genesis hash to the final hash that the summary file states, with the number
  of events it states, every event of this run and world;
  every request has one outcome and the SCPI events its operation demands; every session opened
  was closed, every query has its verdict; no failure was recorded; each step of the life cycle
  happened exactly once and in order; and at the end both sources were off and no route was closed.
\<close>

theorem accepted_evidence_sound:
  assumes "verify_evidence rd (Some d) run world = Inr ev" and "evidence_fatal ev = None"
  shows "linked (rd_runtime rd) VISA_GENESIS_HASH 1 (evidence_events ev) \<and>
    list_all (\<lambda>e. field e ''run_id'' = JStr run \<and> field e ''world_id'' = JStr world) (evidence_events ev) \<and>
    valid_rpc_boundaries (evidence_events ev) \<and> counts_balanced (event_counts (evidence_events ev)) \<and>
    list_all (\<lambda>k. kind_count (evidence_events ev) k = 0) FAILURES \<and>
    list_all (\<lambda>k. kind_count (evidence_events ev) k = 1) LIFECYCLE \<and>
    ascending (map (index_of (evidence_events ev)) LIFECYCLE) \<and>
    sub (post_cleanup_snapshot ev) ''psu_output'' = JBool False \<and> sub (post_cleanup_snapshot ev) ''awg_output'' = JBool False \<and>
    sub (post_cleanup_snapshot ev) ''closed_routes'' = JList [] \<and>
    (\<exists>s. load_json rd (file_named d ''summary.json'') SUMMARY_LIMIT ''summary'' = Inr s \<and>
       field s ''final_hash'' = last_hash (evidence_events ev) \<and>
       field s ''event_count'' = JInt (int (length (evidence_events ev))) \<and>
       post_cleanup_snapshot ev = field s ''post_cleanup_snapshot'')"
  by (rule accepted_evidence [OF assms])


section \<open>An accepted directory\<close>

definition example_rd :: reader where
  "example_rd = \<lparr>rd_runtime = \<lparr>float_repr = \<lambda>_. ''0.0'', sha256 = \<lambda>_. replicate 64 (CHR ''0'')\<rparr>,
     rd_json_text = \<lambda>s. Some (map code_of s), rd_limit = 100\<rparr>"

definition example_state :: "ustr json" where
  "example_state = jobj [(''clock_ms'', JInt 0), (''closed_routes'', JList []), (''psu_voltage_v'', JInt 0),
     (''psu_output'', JBool False), (''awg_waveform_name'', JNull), (''awg_points'', JList []), (''awg_amplitude_vpp'', JInt 0),
     (''awg_output'', JBool False), (''stimulus_started_ms'', JNull), (''safe'', JBool True)]"

definition example_hardware :: "ustr json" where
  "example_hardware = jobj
     [(''psu'', jobj [(''voltage'', JInt 0), (''output'', JBool False)]), (''switch'', jobj [(''closed_routes'', JList [])]),
      (''awg'', jobj [(''amplitude'', JInt 1), (''output'', JBool False)])]"

definition example_broker_json :: "ustr json" where
  "example_broker_json = jobj [(''connections'', JInt 0), (''leaked_sessions'', JInt 0), (''frozen'', JBool True)]"

definition example_totals :: "(string \<times> ustr json) list" where
  "example_totals = [(''broker'', example_broker_json), (''counts'', counts_json (event_counts [])), (''open_sessions'', JInt 0),
     (''leaked_sessions'', JInt 0), (''safe'', JBool True), (''fatal'', JNull)]"

definition example_lifecycle :: "(string \<times> (string \<times> ustr json) list) list" where
  "example_lifecycle =
     [(''lifecycle.start'', []),
      (''lifecycle.configuration'', [(''world_sha256'', jstr (replicate 64 (CHR ''1''))), (''simulator_sha256'', jstr (replicate 64 (CHR ''2'')))]),
      (''lifecycle.socket_bound'', [(''endpoint_name'', jstr ''visa.sock''), (''mode'', jstr ''0666'')]),
      (''broker.ready'', [(''endpoint_name'', jstr ''visa.sock'')]),
      (''lifecycle.signal'', [(''signal'', jstr ''SIGTERM'')]),
      (''broker.cancellation_requested'', [(''active_workers'', JInt 0), (''active_connections'', JInt 0)]),
      (''broker.frozen'', [(''connections'', JInt 0), (''leaked_sessions'', JInt 0)]),
      (''cleanup.pre_snapshot'', [(''snapshot'', example_state)]),
      (''state.force_safe'', [(''state_before'', example_hardware), (''state_after'', example_hardware)]),
      (''cleanup.post_snapshot'', [(''snapshot'', example_state)]),
      (''lifecycle.summary'', example_totals),
      (''lifecycle.finalized'', [(''pre_cleanup_snapshot'', example_state), (''post_cleanup_snapshot'', example_state)] @ example_totals),
      (''lifecycle.exit'', [(''code'', JInt 0), (''safe'', JBool True)])]"

definition example_visa_journal :: VisaJournal where
  "example_visa_journal = fold (\<lambda>(k, fs). visa_append (rd_runtime example_rd) int k (map (\<lambda>(k, v). (u k, v)) fs)) example_lifecycle
     \<lparr>vj_run_id = u ''r'', vj_world_id = u ''w'', vj_events = [], vj_readings = 0\<rparr>"

definition example_events :: "uobj list" where
  "example_events = map (\<lambda>e. visa_copied (visa_to_dict e)) (vj_events example_visa_journal)"

definition example_summary :: "ustr json" where
  "example_summary = jobj ([(''schema_version'', JInt 1), (''run_id'', jstr ''r''), (''world_id'', jstr ''w''),
     (''pre_cleanup_snapshot'', example_state), (''post_cleanup_snapshot'', example_state), (''event_count'', JInt 13),
     (''final_hash'', jstr (replicate 64 (CHR ''0'')))] @ example_totals)"

definition example_dir :: evidence_dir where
  "example_dir = [(''events.jsonl'', Regular (visa_export (rd_runtime example_rd) example_visa_journal)),
     (''summary.json'', Regular (visa_canonical (rd_runtime example_rd) example_summary))]"

text \<open>The checks read the kinds of the events and their data; both are known of an appended journal.\<close>

definition has_kinds :: "uobj list \<Rightarrow> string list \<Rightarrow> bool" where
  "has_kinds es ks = (map (\<lambda>e. field e ''kind'') es = map jstr ks)"

lemma has_kinds_Cons: "has_kinds (e # es) (k # ks) \<longleftrightarrow> field e ''kind'' = jstr k \<and> has_kinds es ks"
  by (simp add: has_kinds_def)

lemma has_kinds_induct [consumes 1]:
  assumes "has_kinds es ks" and "P [] []"
    and "\<And>e es k ks. field e ''kind'' = jstr k \<Longrightarrow> has_kinds es ks \<Longrightarrow> P es ks \<Longrightarrow> P (e # es) (k # ks)"
  shows "P es ks"
  using assms(1)
proof (induction es arbitrary: ks)
  case Nil
  then show ?case using assms(2) by (simp add: has_kinds_def)
next
  case (Cons e es)
  then obtain k ks' where "ks = k # ks'" by (cases ks) (auto simp: has_kinds_def)
  with Cons assms(3) show ?case by (simp add: has_kinds_Cons)
qed

lemma index_of_kinds: "has_kinds es ks \<Longrightarrow> index_of es k = length (takeWhile (\<lambda>x. x \<noteq> k) ks)"
  by (induction rule: has_kinds_induct) (auto simp: kind_is_def)

lemma kind_count_kinds: "has_kinds es ks \<Longrightarrow> kind_count es k = int (count_list ks k)"
  by (induction rule: has_kinds_induct) (auto simp: kind_is_def kind_count_def)

lemma no_kind: "has_kinds es ks \<Longrightarrow> list_ex (\<lambda>e. list_ex (kind_is e) xs) es \<longleftrightarrow> list_ex (\<lambda>k. k \<in> set xs) ks"
  by (induction rule: has_kinds_induct) (auto simp: kind_is_def list_ex_iff)

lemma untracked_valid: "has_kinds es ks \<Longrightarrow> list_all (\<lambda>k. k \<notin> set TRACKED) ks \<Longrightarrow> valid_rpc_boundaries es"
proof -
  assume k: "has_kinds es ks" "list_all (\<lambda>k. k \<notin> set TRACKED) ks"
  then have "filter is_tracked es = []"
    using no_kind [OF k(1), of TRACKED] by (auto simp: is_tracked_def filter_empty_conv list_ex_iff list_all_iff)
  then show ?thesis by (simp add: valid_rpc_boundaries_def)
qed

lemma event_at: "i < length es \<Longrightarrow> event_data (es ! i) = map event_data es ! i"
  by simp

lemma appended_events:
  assumes "list_all (\<lambda>(k, fs). distinct (map fst fs)) entries"
  shows "let j' = fold (\<lambda>(k, fs). visa_append rt clock k (map (\<lambda>(k, v). (u k, v)) fs)) entries j in
    map (\<lambda>e. field (visa_copied (visa_to_dict e)) ''kind'') (vj_events j') =
      map (\<lambda>e. field (visa_copied (visa_to_dict e)) ''kind'') (vj_events j) @ map (\<lambda>(k, fs). jstr k) entries \<and>
    map (\<lambda>e. event_data (visa_copied (visa_to_dict e))) (vj_events j') =
      map (\<lambda>e. event_data (visa_copied (visa_to_dict e))) (vj_events j) @ map (\<lambda>(k, fs). canon (jobj fs)) entries"
  using assms
proof (induction entries arbitrary: j)
  case (Cons x entries)
  obtain k fs where x: "x = (k, fs)" by (cases x)
  let ?j = "visa_append rt clock k (map (\<lambda>(k, v). (u k, v)) fs) j"
  obtain e where e: "vj_events ?j = vj_events j @ [e]" "ve_kind e = k" "ve_fields e = visa_copied (map (\<lambda>(k, v). (u k, v)) fs)"
    by (simp add: visa_append_def Let_def)
  have "canon (JObj (visa_copied (map (\<lambda>(k, v). (u k, v)) fs))) = canon (jobj fs)"
    using canon_canon [of "jobj fs"] by (simp only: jobj_def canon.simps visa_copied_def)
  then show ?case
    using Cons.IH [of ?j] Cons.prems by (simp add: x e Let_def event_data_def field_copied_dict del: canon.simps)
qed simp

lemma example_kinds:
  "has_kinds example_events (map fst example_lifecycle)"
  "map event_data example_events = map (\<lambda>(k, fs). canon (jobj fs)) example_lifecycle"
proof -
  have "list_all (\<lambda>(k, fs). distinct (map fst fs)) example_lifecycle" by (simp add: example_lifecycle_def example_totals_def)
  from appended_events [OF this, of "rd_runtime example_rd" int
      "\<lparr>vj_run_id = u ''r'', vj_world_id = u ''w'', vj_events = [], vj_readings = 0\<rparr>"]
  show "has_kinds example_events (map fst example_lifecycle)"
    "map event_data example_events = map (\<lambda>(k, fs). canon (jobj fs)) example_lifecycle"
    by (simp_all add: example_events_def example_visa_journal_def has_kinds_def Let_def comp_def case_prod_beta')
qed


text \<open>A bound on the length of the text, computed without writing it.\<close>

fun text_size :: "(rat \<Rightarrow> string) \<Rightarrow> ustr json \<Rightarrow> nat" where
  "text_size fr (JStr s) = 12 * length s + 2"
| "text_size fr (JList vs) = 2 + sum_list (map (\<lambda>v. text_size fr v + 1) vs)"
| "text_size fr (JObj kvs) = 2 + sum_list (map (\<lambda>(k, v). 12 * length k + text_size fr v + 4) kvs)"
| "text_size fr v = length (udumps True fr v)"

lemma sum_list_sort: "sum_list (map f (sort_key k xs)) = sum_list (map f xs)" for f :: "'a \<Rightarrow> nat"
  by (simp flip: sum_mset_sum_list)

lemma length_escape: "length (escape_code a c) \<le> 12"
  by (simp add: escape_code_def u_escape_def hex4_def split: option.split)

lemma length_uquote: "length (uquote a s) \<le> 12 * length s + 2"
proof -
  have "length (concat (map (escape_code a) s)) \<le> 12 * length s"
  proof (induction s)
    case (Cons c s)
    then show ?case using length_escape [of a c] by simp
  qed simp
  then show ?thesis by (simp add: uquote_def)
qed

lemma length_ucommas_sum: "length (ucommas ss) \<le> sum_list (map (\<lambda>s. length s + 1) ss)"
  by (induction ss rule: ucommas.induct) simp_all

lemma text_size_bound: "length (udumps True fr v) \<le> text_size fr v"
proof (induction v rule: canon.induct)
  case (1 vs)
  have "sum_list (map (\<lambda>v. length (udumps True fr v) + 1) vs) \<le> sum_list (map (\<lambda>v. text_size fr v + 1) vs)"
    using 1 by (intro sum_list_mono) simp
  with length_ucommas_sum [of "map (udumps True fr) vs"] show ?case by (simp add: comp_def)
next
  case (2 kvs)
  let ?p = "\<lambda>(k, v). upair True (k, udumps True fr v)"
  have "length (upair True (k, udumps True fr v)) + 1 \<le> 12 * length k + text_size fr v + 4" if "(k, v) \<in> set kvs" for k v
    using 2 [OF that refl] length_uquote [of True k] by (simp add: upair_def)
  then have "sum_list (map (\<lambda>kv. length (?p kv) + 1) kvs) \<le> sum_list (map (\<lambda>(k, v). 12 * length k + text_size fr v + 4) kvs)"
    by (intro sum_list_mono) auto
  moreover have "length (ucommas (map ?p (sort_key fst kvs))) \<le> sum_list (map (\<lambda>kv. length (?p kv) + 1) kvs)"
    using length_ucommas_sum [of "map ?p (sort_key fst kvs)"] by (simp only: map_map comp_def sum_list_sort)
  moreover have "udumps True fr (JObj kvs) = 123 # ucommas (map ?p (sort_key fst kvs)) @ [125]"
    by (simp only: udumps.simps sort_key_map_snd map_map) (simp add: comp_def case_prod_beta')
  ultimately show ?case by simp
qed (use length_uquote in auto)

lemma canon_text_size: "text_size fr (canon v) = text_size fr v"
proof (induction v rule: canon.induct)
  case (1 vs)
  have "map (\<lambda>v. text_size fr v + 1) (map canon vs) = map (\<lambda>v. text_size fr v + 1) vs" using 1 by simp
  then show ?case by (simp only: canon.simps text_size.simps)
next
  case (2 kvs)
  have "map (\<lambda>(k, v). 12 * length k + text_size fr v + 4) (map (\<lambda>(k, v). (k, canon v)) kvs) =
      map (\<lambda>(k, v). 12 * length k + text_size fr v + 4) kvs"
    using 2 by (auto simp: comp_def)
  then show ?case by (simp only: canon.simps text_size.simps sum_list_sort)
qed simp_all

lemma canon_readable: "readable h fr v \<Longrightarrow> readable h fr (canon v)"
proof (induction v rule: canon.induct)
  case (1 vs)
  have "readable h fr (canon w)" if w: "w \<in> set vs" for w
    using 1(1) [OF w] 1(2) w unfolding readable.simps list_all_iff by blast
  then show ?case unfolding canon.simps readable.simps list_all_iff by auto
next
  case (2 kvs)
  have f: "map fst (map (\<lambda>(k, v). (k, canon v)) kvs) = map fst kvs" by (simp add: comp_def case_prod_beta)
  have "distinct (map fst (map (\<lambda>(k, v). (k, canon v)) kvs))" using 2(2) unfolding f by simp
  then have d: "distinct (map fst (sort_key fst (map (\<lambda>(k, v). (k, canon v)) kvs)))"
    by (simp only: distinct_map distinct_sort set_sort)
  have "list_all (\<lambda>(k, v). list_all scalar k \<and> readable h fr v) (sort_key fst (map (\<lambda>(k, v). (k, canon v)) kvs))"
    unfolding list_all_iff
  proof (intro ballI, clarsimp)
    fix k v
    assume kv: "(k, v) \<in> set kvs"
    with 2(2) have "list_all scalar k" "readable h fr v" by (auto simp: list_all_iff)
    with 2(1) [OF kv refl] show "Ball (set k) scalar \<and> readable h fr (canon v)" by (simp add: list_all_iff)
  qed
  with d show ?case unfolding canon.simps readable.simps by blast
qed simp_all

lemma canon_nested: "nested_within d v \<Longrightarrow> nested_within d (canon v)"
proof (induction v arbitrary: d rule: canon.induct)
  case (1 vs)
  then show ?case by (cases d) (simp_all add: list_all_iff)
next
  case (2 kvs)
  show ?case
  proof (cases d)
    case (Suc d')
    have "nested_within d' (canon v)" if kv: "(k, v) \<in> set kvs" for k v
      using 2(1) [OF kv refl, of d'] 2(2) kv by (auto simp: Suc list_all_iff)
    then show ?thesis by (auto simp: Suc list_all_iff)
  qed (use 2(2) in simp)
qed simp_all

lemma event_text:
  assumes "ve_kind e \<noteq> []" "list_all scalar (ve_run_id e)" "list_all scalar (ve_world_id e)"
    and "\<bar>ve_sequence e\<bar> \<le> 1000" "\<bar>ve_time e\<bar> \<le> 1000"
    and "readable evidence_hooks (float_repr (rd_runtime rd)) (JObj (ve_fields e))"
    and "nested_within d (JObj (ve_fields e))" "Suc d \<le> rd_limit rd"
  shows "recordable rd e"
proof -
  have i: "int_hook evidence_hooks (show_int n) = Some n" if "\<bar>n\<bar> \<le> 1000" for n
    using parse_int_show_int [of n] length_show_pos [of "\<bar>n\<bar>"] that by (simp add: evidence_hooks_def MAX_STR_DIGITS_def)
  have "readable evidence_hooks (float_repr (rd_runtime rd)) (JObj (visa_to_dict e))"
    using assms i by (simp add: visa_to_dict_def visa_unsigned_def keys_scalar jstr_def)
  moreover have "nested_within (Suc d) (JObj (visa_to_dict e))"
    using assms(7) by (simp add: visa_to_dict_def visa_unsigned_def jstr_def)
  from nested_mono [OF this assms(8)] have "nested_within (rd_limit rd) (JObj (visa_to_dict e))" .
  ultimately show ?thesis unfolding recordable_def using assms(1) by blast
qed

lemma appended_all:
  assumes "e \<in> set (vj_events (fold (\<lambda>(k, fs). visa_append rt clock k (map (\<lambda>(k, v). (u k, v)) fs)) entries j))"
    and "visa_final_hash j \<in> insert VISA_GENESIS_HASH (range (sha256 rt))"
  shows "e \<in> set (vj_events j) \<or>
    (\<exists>k fs n i x. (k, fs) \<in> set entries \<and> ve_kind e = k \<and> ve_fields e = visa_copied (map (\<lambda>(k, v). (u k, v)) fs) \<and>
       ve_run_id e = vj_run_id j \<and> ve_world_id e = vj_world_id j \<and>
       ve_sequence e = int n + 1 \<and> n < length (vj_events j) + length entries \<and>
       ve_time e = clock i \<and> i < vj_readings j + length entries \<and> ve_hash e = sha256 rt x \<and>
       ve_previous e \<in> insert VISA_GENESIS_HASH (range (sha256 rt)))"
  using assms
proof (induction entries arbitrary: j)
  case (Cons a entries)
  obtain k fs where a: "a = (k, fs)" by (cases a)
  let ?j = "visa_append rt clock k (map (\<lambda>(k, v). (u k, v)) fs) j"
  obtain d x where d: "vj_events ?j = vj_events j @ [d]" "ve_kind d = k" "ve_fields d = visa_copied (map (\<lambda>(k, v). (u k, v)) fs)"
    "ve_run_id d = vj_run_id j" "ve_world_id d = vj_world_id j" "ve_sequence d = int (length (vj_events j)) + 1"
    "ve_time d = clock (vj_readings j)" "ve_hash d = sha256 rt x" "ve_previous d = visa_final_hash j"
    by (simp add: visa_append_def Let_def)
  have h: "visa_final_hash ?j \<in> insert VISA_GENESIS_HASH (range (sha256 rt))" by (simp add: visa_final_hash_def d(1,8))
  from Cons.IH [of ?j] Cons.prems consider "e \<in> set (vj_events j)" | "e = d" |
    k' fs' n i x' where "(k', fs') \<in> set entries" "ve_kind e = k'" "ve_fields e = visa_copied (map (\<lambda>(k, v). (u k, v)) fs')"
      "ve_run_id e = vj_run_id j" "ve_world_id e = vj_world_id j" "ve_sequence e = int n + 1"
      "n < length (vj_events j) + 1 + length entries" "ve_time e = clock i" "i < vj_readings j + 1 + length entries" "ve_hash e = sha256 rt x'"
      "ve_previous e \<in> insert VISA_GENESIS_HASH (range (sha256 rt))"
    using h by (auto simp: a d(1))
  then show ?case
  proof cases
    case 2
    then show ?thesis using d(2-) a Cons.prems(2) by (intro disjI2 exI [of _ k] exI [of _ fs] exI [of _ "length (vj_events j)"] exI [of _ "vj_readings j"] exI [of _ x]) simp
  next
    case 3
    then show ?thesis by (intro disjI2 exI [of _ k'] exI [of _ fs'] exI [of _ n] exI [of _ i] exI [of _ x']) simp
  qed simp
qed simp

lemma example_event:
  assumes "e \<in> set (vj_events example_visa_journal)"
  obtains k fs where "(k, fs) \<in> set example_lifecycle" "ve_kind e = k" "JObj (ve_fields e) = canon (jobj fs)"
    "ve_run_id e = u ''r''" "ve_world_id e = u ''w''" "0 \<le> ve_sequence e" "ve_sequence e \<le> 13" "0 \<le> ve_time e" "ve_time e \<le> 13"
    "ve_hash e = replicate 64 (CHR ''0'')" "ve_previous e = replicate 64 (CHR ''0'')"
proof -
  have n: "length example_lifecycle = 13" by (simp add: example_lifecycle_def)
  obtain k fs i m x where e: "(k, fs) \<in> set example_lifecycle" "ve_kind e = k" "ve_fields e = visa_copied (map (\<lambda>(k, v). (u k, v)) fs)"
    "ve_run_id e = u ''r''" "ve_world_id e = u ''w''" "ve_sequence e = int i + 1" "i < 13" "ve_time e = int m" "m < 13"
    "ve_hash e = sha256 (rd_runtime example_rd) x" "ve_previous e \<in> insert VISA_GENESIS_HASH (range (sha256 (rd_runtime example_rd)))"
    using appended_all [OF assms [unfolded example_visa_journal_def]] unfolding n by (simp add: visa_final_hash_def) blast
  have "JObj (ve_fields e) = canon (jobj fs)" by (simp add: e(3) visa_copied_def jobj_def)
  from that [OF e(1,2) this e(4,5)] e(6-) show thesis by (auto simp: example_rd_def VISA_GENESIS_HASH_def)
qed

lemma u_facts: "list_all scalar (u s)" "length (u s) = length s"
  by (simp_all add: list_all_iff scalar_u) (simp add: u_def)

lemma example_ints: "parse_int ''0'' = Some 0" "parse_int ''1'' = Some 1" "show_int 0 = ''0''" "show_int 1 = ''1''"
  "parse_int ''13'' = Some 13" "show_int 13 = ''13''"
  by code_simp+

lemmas example_parts = example_lifecycle_def example_totals_def example_state_def example_hardware_def example_broker_json_def
  counts_json_def event_counts_def kind_count_def COUNTED_EVENTS_def jobj_def jstr_def

lemma example_values:
  assumes "(k, fs) \<in> set example_lifecycle"
  shows "k \<noteq> []" "length k \<le> 30" "readable evidence_hooks (\<lambda>_. ''0.0'') (jobj fs)" "nested_within 6 (jobj fs)"
    "text_size (\<lambda>_. ''0.0'') (jobj fs) \<le> 50000"
proof -
  show "k \<noteq> []" "length k \<le> 30" using assms by (auto simp: example_lifecycle_def)
  have "list_all (\<lambda>(k, fs). readable evidence_hooks (\<lambda>_. ''0.0'') (jobj fs)) example_lifecycle"
    by (simp add: example_parts u_facts example_ints evidence_hooks_def)
  with assms show "readable evidence_hooks (\<lambda>_. ''0.0'') (jobj fs)" by (auto simp: list_all_iff)
  have "list_all (\<lambda>(k, fs). nested_within 6 (jobj fs)) example_lifecycle"
    by (simp add: example_parts numeral_eq_Suc)
  with assms show "nested_within 6 (jobj fs)" by (auto simp: list_all_iff)
  have "list_all (\<lambda>(k, fs). text_size (\<lambda>_. ''0.0'') (jobj fs) \<le> 50000) example_lifecycle"
    by (simp add: example_parts u_facts example_ints)
  with assms show "text_size (\<lambda>_. ''0.0'') (jobj fs) \<le> 50000" by (auto simp: list_all_iff)
qed

lemma example_recordable: "list_all (recordable example_rd) (vj_events example_visa_journal)"
  unfolding list_all_iff
proof
  fix e
  assume "e \<in> set (vj_events example_visa_journal)"
  then obtain k fs where e: "(k, fs) \<in> set example_lifecycle" "ve_kind e = k" "JObj (ve_fields e) = canon (jobj fs)"
    "ve_run_id e = u ''r''" "ve_world_id e = u ''w''" "0 \<le> ve_sequence e" "ve_sequence e \<le> 13" "0 \<le> ve_time e" "ve_time e \<le> 13"
    by (rule example_event)
  note v = example_values(1,3,4) [OF e(1)]
  show "recordable example_rd e"
    using e v canon_readable [OF v(2)] canon_nested [OF v(3)]
    by (intro event_text [where d = 6]) (simp_all add: example_rd_def u_def code_of_def scalar_def is_surrogate_def)
qed

lemma export_length:
  assumes "\<And>e. e \<in> set (vj_events j) \<Longrightarrow> text_size (float_repr rt) (JObj (visa_to_dict e)) < n"
  shows "length (visa_export rt j) \<le> n * length (vj_events j)"
proof -
  have l: "length (visa_canonical rt (JObj (visa_to_dict e)) @ [CHR 0x0A]) \<le> n" if "e \<in> set (vj_events j)" for e
    using assms [OF that] text_size_bound [of "float_repr rt" "JObj (visa_to_dict e)"]
    by (simp add: visa_canonical_def ascii_text_def del: udumps.simps text_size.simps)
  have "sum_list (map (\<lambda>e. length (visa_canonical rt (JObj (visa_to_dict e)) @ [CHR 0x0A])) (vj_events j)) \<le>
      sum_list (map (\<lambda>_. n) (vj_events j))"
    by (rule sum_list_mono) (rule l)
  then show ?thesis by (simp add: visa_export_def length_concat comp_def sum_list_triv mult.commute)
qed

lemma example_length: "length example_events = 13"
proof -
  have "length (map (\<lambda>e. field e ''kind'') example_events) = length (map jstr (map fst example_lifecycle))"
    using example_kinds(1) unfolding has_kinds_def by (rule arg_cong)
  then show ?thesis by (simp add: example_lifecycle_def)
qed

lemma example_size: "length (visa_export (rd_runtime example_rd) example_visa_journal) \<le> EVENTS_LIMIT"
proof -
  have "text_size (float_repr (rd_runtime example_rd)) (JObj (visa_to_dict e)) < 60000" if e: "e \<in> set (vj_events example_visa_journal)" for e
  proof -
    obtain k fs where x: "(k, fs) \<in> set example_lifecycle" "ve_kind e = k" "JObj (ve_fields e) = canon (jobj fs)"
      "ve_run_id e = u ''r''" "ve_world_id e = u ''w''" "0 \<le> ve_sequence e" "ve_sequence e \<le> 13" "0 \<le> ve_time e" "ve_time e \<le> 13"
      "ve_hash e = replicate 64 (CHR ''0'')" "ve_previous e = replicate 64 (CHR ''0'')"
      by (rule example_event [OF e])
    have f: "text_size (\<lambda>_. ''0.0'') (JObj (ve_fields e)) \<le> 50000"
      unfolding x(3) canon_text_size by (rule example_values(5) [OF x(1)])
    note k = example_values(2) [OF x(1)]
    have "length (show_int n) \<le> 13" if "0 \<le> n" "n \<le> 13" for n
      using that length_show_pos [of n] by (auto simp: show_int_def)
    then have "length (show_int (ve_sequence e)) \<le> 13" "length (show_int (ve_time e)) \<le> 13" using x(6-9) by auto
    with f [unfolded x(3)] k show ?thesis
      by (simp add: x(2-5,10,11) visa_to_dict_def visa_unsigned_def jstr_def u_def example_rd_def)
  qed
  then have "length (visa_export (rd_runtime example_rd) example_visa_journal) \<le> 60000 * length (vj_events example_visa_journal)"
    by (rule export_length)
  moreover have "length (vj_events example_visa_journal) = 13" using example_length by (simp add: example_events_def)
  ultimately show ?thesis by (simp add: EVENTS_LIMIT_def)
qed

lemma example_journal_facts:
  "journal_sound (rd_runtime example_rd) example_visa_journal" "timed int example_visa_journal"
  "vj_run_id example_visa_journal = u ''r''" "vj_world_id example_visa_journal = u ''w''"
proof -
  have "journal_sound rt (fold (\<lambda>(k, fs). visa_append rt clock k (map (\<lambda>(k, v). (u k, v)) fs)) entries j) \<and>
      timed clock (fold (\<lambda>(k, fs). visa_append rt clock k (map (\<lambda>(k, v). (u k, v)) fs)) entries j) \<and>
      vj_run_id (fold (\<lambda>(k, fs). visa_append rt clock k (map (\<lambda>(k, v). (u k, v)) fs)) entries j) = vj_run_id j \<and>
      vj_world_id (fold (\<lambda>(k, fs). visa_append rt clock k (map (\<lambda>(k, v). (u k, v)) fs)) entries j) = vj_world_id j"
    if "journal_sound rt j" "timed clock j" for rt clock entries j
    using that
  proof (induction entries arbitrary: j)
    case (Cons a entries)
    then show ?case by (cases a) (simp add: journal_sound_append timed_append)
  qed simp
  note kept = this
  let ?j = "\<lparr>vj_run_id = u ''r'', vj_world_id = u ''w'', vj_events = [], vj_readings = 0\<rparr>"
  have "journal_sound (rd_runtime example_rd) ?j" "timed int ?j" by (simp_all add: journal_sound_def timed_def)
  from kept [OF this, of example_lifecycle, folded example_visa_journal_def]
  show "journal_sound (rd_runtime example_rd) example_visa_journal" "timed int example_visa_journal"
    "vj_run_id example_visa_journal = u ''r''" "vj_world_id example_visa_journal = u ''w''" by simp_all
qed

lemma example_reads:
  "printable_floats (rd_runtime example_rd)" "reads_ascii example_rd" "hex_digests (rd_runtime example_rd)"
proof -
  show "printable_floats (rd_runtime example_rd)" by (simp add: printable_floats_def example_rd_def u_def printable_code_def code_of_def)
  show "reads_ascii example_rd" by (simp add: reads_ascii_def example_rd_def ascii_text_codes)
  show "hex_digests (rd_runtime example_rd)" by (simp add: hex_digests_def example_rd_def hash_text_def jstr_def u_def list_all_iff code_of_def)
qed

lemma example_loaded:
  "load_events example_rd (file_named example_dir ''events.jsonl'') (u ''r'') (u ''w'') = Inr example_events"
  using load_events_export [OF example_reads example_journal_facts(1)
      timed_sorted [OF example_journal_facts(2) _ _] example_recordable example_size]
  by (simp add: example_journal_facts example_dir_def file_named_def example_events_def mono_def)

definition example_sd :: uobj where
  \<comment> \<open>the summary as it is read back\<close>
  "example_sd = (case canon example_summary of JObj d \<Rightarrow> d | _ \<Rightarrow> [])"

lemma example_summary_read:
  "load_json example_rd (file_named example_dir ''summary.json'') SUMMARY_LIMIT ''summary'' = Inr example_sd"
proof -
  have k: "float_repr (rd_runtime example_rd) = (\<lambda>_. ''0.0'')" by (simp add: example_rd_def)
  have r: "readable evidence_hooks (\<lambda>_. ''0.0'') example_summary"
    by (simp add: example_summary_def example_parts u_facts example_ints evidence_hooks_def)
  have n: "nested_within 100 example_summary"
    by (simp add: example_summary_def example_parts numeral_eq_Suc)
  have s: "text_size (\<lambda>_. ''0.0'') example_summary \<le> 50000"
    by (simp add: example_summary_def example_parts u_facts example_ints)
  have c: "canon example_summary = JObj example_sd" by (simp add: example_sd_def example_summary_def jobj_def)
  have "length (visa_canonical (rd_runtime example_rd) example_summary) \<le> SUMMARY_LIMIT"
    using text_size_bound [of "\<lambda>_. ''0.0''" example_summary] s
    by (simp add: visa_canonical_def k ascii_text_def SUMMARY_LIMIT_def)
  moreover have "evidence_loads example_rd message (visa_canonical (rd_runtime example_rd) example_summary) = Inr (JObj example_sd)" for message
    using evidence_loads_canonical [OF example_reads(1,2), of example_summary message] r n
    by (simp add: k c) (simp add: example_rd_def)
  ultimately show ?thesis
    by (simp add: load_json_def read_regular_def example_dir_def file_named_def)
qed

definition example_data :: "string \<Rightarrow> ustr json" where
  "example_data k = (case map_of example_lifecycle k of Some fs \<Rightarrow> canon (jobj fs) | None \<Rightarrow> JNull)"

lemma map_of_takeWhile:
  "k \<in> set (map fst xs) \<Longrightarrow> map_of xs k = Some (snd (xs ! length (takeWhile (\<lambda>x. x \<noteq> k) (map fst xs))))"
  by (induction xs) auto

lemma takeWhile_index: "k \<in> set xs \<Longrightarrow> length (takeWhile (\<lambda>x. x \<noteq> k) xs) < length xs"
  by (induction xs) auto

lemma example_the_event:
  assumes "k \<in> set (map fst example_lifecycle)"
  shows "the_event example_events k = example_data k"
proof -
  let ?i = "length (takeWhile (\<lambda>x. x \<noteq> k) (map fst example_lifecycle))"
  have i: "index_of example_events k = ?i" by (rule index_of_kinds [OF example_kinds(1)])
  have l: "?i < length (map fst example_lifecycle)"
    by (rule takeWhile_index [OF assms])
  then have "?i < length example_events" using example_length by (simp add: example_lifecycle_def)
  then have "event_data (example_events ! ?i) = map event_data example_events ! ?i" by simp
  also have "\<dots> = canon (jobj (snd (example_lifecycle ! ?i)))"
    using l unfolding example_kinds(2) by (simp add: case_prod_beta)
  finally show ?thesis by (simp add: the_event_def i example_data_def map_of_takeWhile [OF assms])
qed

lemma example_last: "event_data (last example_events) = example_data ''lifecycle.exit''"
  "last_hash example_events = jstr (replicate 64 (CHR ''0''))" "example_events \<noteq> []"
  "kind_is (hd example_events) ''lifecycle.start''" "kind_is (last example_events) ''lifecycle.exit''"
proof -
  show ne: "example_events \<noteq> []" using example_length by auto
  have "map event_data example_events = map (\<lambda>(k, fs). canon (jobj fs)) example_lifecycle" by (rule example_kinds(2))
  then have "last (map event_data example_events) = last (map (\<lambda>(k, fs). canon (jobj fs)) example_lifecycle)" by (rule arg_cong)
  then show "event_data (last example_events) = example_data ''lifecycle.exit''"
    using ne by (simp add: last_map example_lifecycle_def example_data_def)
  have k: "map (\<lambda>e. field e ''kind'') example_events = map jstr (map fst example_lifecycle)"
    using example_kinds(1) by (simp add: has_kinds_def)
  have "last (map (\<lambda>e. field e ''kind'') example_events) = last (map jstr (map fst example_lifecycle))"
    "hd (map (\<lambda>e. field e ''kind'') example_events) = hd (map jstr (map fst example_lifecycle))"
    using arg_cong [OF k, of last] arg_cong [OF k, of hd] by blast+
  then show "kind_is (hd example_events) ''lifecycle.start''" "kind_is (last example_events) ''lifecycle.exit''"
    using ne by (simp_all add: last_map hd_map kind_is_def example_lifecycle_def)
  from ne have "last example_events \<in> set example_events" by simp
  then obtain e where e: "e \<in> set (vj_events example_visa_journal)" "last example_events = visa_copied (visa_to_dict e)"
    by (auto simp: example_events_def)
  from e(1) have "ve_hash e = replicate 64 (CHR ''0'')" by (rule example_event)
  then show "last_hash example_events = jstr (replicate 64 (CHR ''0''))"
    by (simp add: last_hash_def e(2) field_copied_dict)
qed

lemma example_counts: "event_counts example_events = event_counts []"
  using kind_count_kinds [OF example_kinds(1)]
  by (simp add: event_counts_def COUNTED_EVENTS_def example_lifecycle_def) (simp add: kind_count_def)

lemma example_closed:
  "keys_are example_sd SUMMARY_KEYS" "broker_valid (field example_sd ''broker'')"
  "py_eq (field example_sd ''counts'') (counts_json (event_counts []))"
  "accounting_valid example_sd (field example_sd ''broker'') (event_counts [])"
  "valid_snapshot (field example_sd ''pre_cleanup_snapshot'')" "valid_snapshot (field example_sd ''post_cleanup_snapshot'')"
  "sub (field example_sd ''post_cleanup_snapshot'') ''safe'' = JBool True"
  by code_simp+

lemma example_data_checks:
  "configuration_valid (example_data ''lifecycle.configuration'')"
  "sub (example_data ''lifecycle.socket_bound'') ''endpoint_name'' = jstr ''visa.sock''"
  "sub (example_data ''lifecycle.socket_bound'') ''mode'' = jstr ''0666''"
  "py_eq (example_data ''lifecycle.signal'') (jobj [(''signal'', jstr ''SIGTERM'')])"
  "cancellation_valid (example_data ''broker.cancellation_requested'')"
  "py_eq (example_data ''broker.frozen'') (jobj [(''connections'', sub (field example_sd ''broker'') ''connections''),
     (''leaked_sessions'', sub (field example_sd ''broker'') ''leaked_sessions'')])"
  "safe_state_valid (sub (example_data ''state.force_safe'') ''state_after'')"
  "py_eq (example_data ''lifecycle.exit'') (jobj [(''code'', JInt 0), (''safe'', JBool True)])"
  by code_simp+

lemma example_terminal:
  "py_eq (example_data ''cleanup.pre_snapshot'') (jobj [(''snapshot'', field example_sd ''pre_cleanup_snapshot'')])"
  "py_eq (example_data ''cleanup.post_snapshot'') (jobj [(''snapshot'', field example_sd ''post_cleanup_snapshot'')])"
  "py_eq (example_data ''lifecycle.summary'')
     (jobj [(''broker'', field example_sd ''broker''), (''counts'', counts_json (event_counts [])), (''open_sessions'', JInt 0),
        (''leaked_sessions'', field example_sd ''leaked_sessions''), (''safe'', JBool True), (''fatal'', JNull)])"
  "py_eq (sub (example_data ''lifecycle.finalized'') ''pre_cleanup_snapshot'') (field example_sd ''pre_cleanup_snapshot'')"
  "py_eq (sub (example_data ''lifecycle.finalized'') ''post_cleanup_snapshot'') (field example_sd ''post_cleanup_snapshot'')"
  "py_eq (sub (example_data ''lifecycle.finalized'') ''broker'') (field example_sd ''broker'')"
  "py_eq (sub (example_data ''lifecycle.finalized'') ''counts'') (counts_json (event_counts []))"
  "eq_int (sub (example_data ''lifecycle.finalized'') ''open_sessions'') 0"
  "py_eq (sub (example_data ''lifecycle.finalized'') ''leaked_sessions'') (field example_sd ''leaked_sessions'')"
  "sub (example_data ''lifecycle.finalized'') ''safe'' = JBool True" "sub (example_data ''lifecycle.finalized'') ''fatal'' = JNull"
  by code_simp+

lemma example_matches: "summary_matches example_sd (u ''r'') (u ''w'') example_events (jstr (replicate 64 (CHR ''0'')))"
  unfolding summary_matches_def example_length by code_simp

lemma example_verified: "verify_journal example_events = Inr ()"
proof -
  have tracked: "list_all (\<lambda>k. k \<notin> set TRACKED) (map fst example_lifecycle)" by (simp add: example_lifecycle_def TRACKED_def)
  have failures: "\<not> list_ex (\<lambda>e. list_ex (kind_is e) FAILURES) example_events"
    unfolding no_kind [OF example_kinds(1)] by (simp add: example_lifecycle_def FAILURES_def)
  have complete: "lifecycle_complete example_events"
    unfolding lifecycle_complete_def kind_count_kinds [OF example_kinds(1)] by (simp add: example_lifecycle_def LIFECYCLE_def)
  have order: "ascending (map (index_of example_events) LIFECYCLE)"
    by (simp add: index_of_kinds [OF example_kinds(1)] example_lifecycle_def LIFECYCLE_def)
  have events: "the_event example_events ''lifecycle.configuration'' = example_data ''lifecycle.configuration''"
    "the_event example_events ''lifecycle.socket_bound'' = example_data ''lifecycle.socket_bound''"
    "the_event example_events ''lifecycle.signal'' = example_data ''lifecycle.signal''"
    "the_event example_events ''broker.cancellation_requested'' = example_data ''broker.cancellation_requested''"
    by (rule example_the_event, simp add: example_lifecycle_def)+
  show ?thesis
    using untracked_valid [OF example_kinds(1) tracked] failures complete order example_last(3-5) example_data_checks(1-5)
    by (simp add: verify_journal_def check_def events)
qed

lemma example_terminal_valid: "terminal_valid example_sd (event_counts []) example_events"
proof -
  have events: "the_event example_events ''cleanup.pre_snapshot'' = example_data ''cleanup.pre_snapshot''"
    "the_event example_events ''cleanup.post_snapshot'' = example_data ''cleanup.post_snapshot''"
    "the_event example_events ''lifecycle.summary'' = example_data ''lifecycle.summary''"
    "the_event example_events ''lifecycle.finalized'' = example_data ''lifecycle.finalized''"
    by (rule example_the_event, simp add: example_lifecycle_def)+
  show ?thesis unfolding terminal_valid_def Let_def events using example_terminal by blast
qed

lemma example_accepted_dir:
  obtains ev where "verify_evidence example_rd (Some example_dir) (u ''r'') (u ''w'') = Inr ev" "evidence_fatal ev = None"
    "evidence_events ev = example_events" "pre_cleanup_snapshot ev = field example_sd ''pre_cleanup_snapshot''"
proof -
  have events: "the_event example_events ''broker.frozen'' = example_data ''broker.frozen''"
    "the_event example_events ''state.force_safe'' = example_data ''state.force_safe''"
    by (rule example_the_event, simp add: example_lifecycle_def)+
  have files: "set (map fst example_dir) = {''events.jsonl'', ''summary.json''}" "''fatal.json'' \<notin> set (map fst example_dir)"
    by (auto simp: example_dir_def)
  have "\<exists>ev. verify_normal example_rd example_dir (u ''r'') (u ''w'') = Inr ev \<and> evidence_fatal ev = None \<and>
      evidence_events ev = example_events \<and> pre_cleanup_snapshot ev = field example_sd ''pre_cleanup_snapshot''"
    using files(1) example_closed example_data_checks(6-8) example_matches example_last(1-3)
    by (simp add: verify_normal_def check_def example_loaded example_summary_read example_verified example_terminal_valid
        example_counts events Let_def)
  with that files(2) show thesis by (auto simp: verify_evidence_def)
qed

theorem accepted_evidence_sound_witness:
  "\<exists>ev. verify_evidence example_rd (Some example_dir) (u ''r'') (u ''w'') = Inr ev \<and> length (evidence_events ev) = 13 \<and>
     linked (rd_runtime example_rd) VISA_GENESIS_HASH 1 (evidence_events ev) \<and>
     sub (post_cleanup_snapshot ev) ''closed_routes'' = JList []"
proof -
  obtain ev where ev: "verify_evidence example_rd (Some example_dir) (u ''r'') (u ''w'') = Inr ev" "evidence_fatal ev = None"
    and "evidence_events ev = example_events" by (rule example_accepted_dir)
  with accepted_evidence_sound [OF ev] example_length show ?thesis by auto
qed

end
