(* ===== verification/Sim_Runner.thy ===== *)
theory Sim_Runner
  imports Container Accepted_Evidence
begin

text \<open>
  The container of the trusted simulator (\<^verbatim>\<open>instrument_benchmark_evaluator/container/sim_runner.py\<close>): how it
  is created and waited for, and how it is stopped, inspected and its evidence verified. The
  answers of Docker are arguments (\<open>sim_docker\<close>), as are the evidence directory and the resolution
  of symbolic links; the functions return the calls they make with their result. The lemmas show that
  a result is only returned for a container that ran under its policy, ended properly and left evidence
  that verifies, and that the container is removed on every path.
\<close>

section \<open>Creation\<close>

record sim_docker =
  s_create :: "string list \<Rightarrow> container_error + string"
  s_start :: "string \<Rightarrow> container_error + unit"
  s_ready :: "string \<Rightarrow> container_error + bool"
    \<comment> \<open>the readiness probe of an endpoint\<close>
  s_signal :: "string \<Rightarrow> container_error + unit"
  s_wait :: "string \<Rightarrow> container_error + int"
  s_inspect :: "string \<Rightarrow> container_error + (string \<times> string json) list"
  s_remove :: "string \<Rightarrow> string option"
    \<comment> \<open>the message of the \<^verbatim>\<open>ContainerInfrastructureError\<close>, if any\<close>

datatype sim_call =
    SimCreate "string list" | SimStart string | SimSignal string | SimWait string | SimInspect string | SimRemove string

datatype directory_state = DirSymlink | DirMissing | DirEmpty | DirOccupied

record sim_inputs =
  si_image_id :: string
  si_run_id :: string
  si_world_id :: string
  si_world_path :: string
  si_world_regular :: bool
    \<comment> \<open>a file and not a symbolic link\<close>
  si_transport :: string
  si_transport_state :: directory_state
  si_evidence :: string
  si_evidence_state :: directory_state
  si_owner :: "string option"
  si_token :: string

record SimContainerHandle =
  sh_container_id :: string
  sh_name :: string
  sh_run_id :: string
  sh_world_id :: string
  sh_transport :: string
    \<comment> \<open>the directory of the endpoint\<close>
  sh_evidence_dir :: string
  sh_world_path :: string

record SimContainerResult =
  sim_container_evidence :: ContainerEvidence
  sim_journal_evidence :: SimJournalEvidence
  sim_fatal :: "uobj option"

definition exact_image_id :: "string \<Rightarrow> bool" where
  \<comment> \<open>\<^verbatim>\<open>IMAGE_ID.fullmatch\<close>, checked by the constructor\<close>
  "exact_image_id s =
     (starts_with ''sha256:'' s \<and> length s = 71 \<and> list_all (\<lambda>c. c \<in> set ''0123456789abcdef'') (drop 7 s))"

definition sim_name :: "string \<Rightarrow> string \<Rightarrow> string \<Rightarrow> string" where
  "sim_name rid wid token =
     take 128 (map (\<lambda>c. if is_alnum c \<or> c \<in> set ''_.-'' then c else CHR ''-'')
       (''iab-sim-'' @ rid @ ''-'' @ wid @ ''-'' @ token))"

definition prepare_empty_directory :: "directory_state \<Rightarrow> string \<Rightarrow> container_error + unit" where
  "prepare_empty_directory st label = (case st of
     DirSymlink \<Rightarrow> Inl (ContainerInfrastructureError (''sim '' @ label @ '' directory is invalid''))
   | DirOccupied \<Rightarrow> Inl (ContainerInfrastructureError (''sim '' @ label @ '' directory must be empty''))
   | _ \<Rightarrow> Inr ())"

definition sim_create_arguments :: "sim_inputs \<Rightarrow> string list" where
  "sim_create_arguments i =
     [''create'',
      ''--name='' @ sim_name (si_run_id i) (si_world_id i) (si_token i),
      ''--label=iab.managed=true'',
      ''--label=iab.role=sim'',
      ''--label=iab.owner='' @ (case si_owner i of None \<Rightarrow> si_run_id i | Some x \<Rightarrow> x),
      ''--label=iab.run='' @ si_run_id i,
      ''--label=iab.world='' @ si_world_id i,
      ''--network=none'',
      ''--read-only'',
      ''--cap-drop=ALL'',
      ''--security-opt=no-new-privileges'',
      ''--log-driver=none'',
      ''--user=11001:11001'',
      ''--cpus=1.0'',
      ''--memory=512m'',
      ''--memory-swap=512m'',
      ''--pids-limit=64'',
      ''--ulimit=nofile=256:256'',
      ''--stop-timeout=2'',
      ''--tmpfs=/tmp:rw,noexec,nosuid,nodev,size=64m,uid=11001,gid=11001'',
      ''--mount=type=bind,src='' @ si_transport i @ '',dst=/run/iab/transport'',
      ''--mount=type=bind,src='' @ si_evidence i @ '',dst=/run/iab/evidence'',
      ''--mount=type=bind,src='' @ si_world_path i @ '',dst=/run/iab/world.json,readonly'',
      si_image_id i,
      ''serve-sim'', ''--world'', ''/run/iab/world.json'', ''--endpoint'', ''/run/iab/transport/visa.sock'',
      ''--evidence'', ''/run/iab/evidence'', ''--run-id'', si_run_id i]"

definition not_ready :: "(string \<times> string json) list \<Rightarrow> container_error" where
  \<comment> \<open>what the state of a container that never answered says; Docker's exit codes are integers, other numbers and
    containers are not printed\<close>
  "not_ready value = ContainerInfrastructureError
     (case json_get value ''State'' of
        JObj state \<Rightarrow> (if json_get state ''Status'' = JStr ''exited''
          then ''sim exited before readiness with code '' @
            (case json_get_or state ''ExitCode'' (JStr ''unknown'') of JInt n \<Rightarrow> show_int n | JStr s \<Rightarrow> s | JNull \<Rightarrow> ''None''
              | JBool b \<Rightarrow> (if b then ''True'' else ''False'') | _ \<Rightarrow> [])
          else ''sim readiness timed out'')
      | _ \<Rightarrow> ''sim readiness timed out'')"

definition start_body :: "sim_docker \<Rightarrow> sim_inputs \<Rightarrow> string \<Rightarrow> sim_call list \<times> (container_error + SimContainerHandle)" where
  \<comment> \<open>after \<^verbatim>\<open>docker create\<close> returned\<close>
  "start_body dk i cid =
     (if cid = [] \<or> CHR 0x0A \<in> set cid
      then ([], Inl (ContainerInfrastructureError ''docker create did not return sim container ID''))
      else case s_start dk cid of
        Inl e \<Rightarrow> ([SimStart cid], Inl e)
      | Inr _ \<Rightarrow>
          (case s_ready dk (si_transport i @ ''/visa.sock'') of
             Inl e \<Rightarrow> ([SimStart cid], Inl e)
           | Inr False \<Rightarrow>
               ([SimStart cid, SimInspect cid], case s_inspect dk cid of Inl e \<Rightarrow> Inl e | Inr value \<Rightarrow> Inl (not_ready value))
           | Inr True \<Rightarrow>
               ([SimStart cid],
                Inr \<lparr>sh_container_id = cid, sh_name = sim_name (si_run_id i) (si_world_id i) (si_token i),
                  sh_run_id = si_run_id i, sh_world_id = si_world_id i, sh_transport = si_transport i,
                  sh_evidence_dir = si_evidence i, sh_world_path = si_world_path i\<rparr>)))"

definition sim_start :: "sim_docker \<Rightarrow> sim_inputs \<Rightarrow> sim_call list \<times> (container_error + SimContainerHandle)" where
  "sim_start dk i =
     (case bind_res (require (si_world_regular i) (ContainerInfrastructureError ''hidden world file is invalid'')) (\<lambda>_.
           bind_res (prepare_empty_directory (si_transport_state i) ''transport'') (\<lambda>_.
           prepare_empty_directory (si_evidence_state i) ''evidence'')) of
        Inl e \<Rightarrow> ([], Inl e)
      | Inr _ \<Rightarrow>
          let args = sim_create_arguments i in
          (case s_create dk args of
             Inl e \<Rightarrow> ([SimCreate args], Inl e)
           | Inr out \<Rightarrow>
               (case start_body dk i (strip out) of
                  (calls, Inr h) \<Rightarrow> (SimCreate args # calls, Inr h)
                | (calls, Inl e) \<Rightarrow>
                    (SimCreate args # calls @ [SimRemove (strip out)],
                     Inl (case s_remove dk (strip out) of Some m \<Rightarrow> ContainerInfrastructureError m | None \<Rightarrow> e)))))"

section \<open>The policy of the simulator\<close>

definition mount_at :: "ContainerEvidence \<Rightarrow> string \<Rightarrow> MountEvidence option" where
  \<comment> \<open>of several mounts with one destination the last counts\<close>
  "mount_at ev dst = map_of (rev (map (\<lambda>m. (mount_destination m, m)) (mounts ev))) dst"

definition mount_ok :: "(string \<Rightarrow> string) \<Rightarrow> ContainerEvidence \<Rightarrow> string \<Rightarrow> bool \<Rightarrow> string \<Rightarrow> bool" where
  "mount_ok resolve ev dst writable source =
     (case mount_at ev dst of
        None \<Rightarrow> False
      | Some m \<Rightarrow> mount_type m = ''bind'' \<and> mount_writable m = writable \<and>
          resolve (mount_source m) = resolve source)"

definition sim_runtime_checks ::
  "(string \<Rightarrow> string) \<Rightarrow> ContainerEvidence \<Rightarrow> string \<Rightarrow> SimContainerHandle \<Rightarrow> (string \<times> bool) list" where
  "sim_runtime_checks resolve ev img h =
     [(''image'', image_digest ev = img),
      (''user'', c_user ev = ''11001:11001''),
      (''network'', network_mode ev = ''none''),
      (''rootfs'', readonly_rootfs ev),
      (''capabilities'', ''ALL'' \<in> set (cap_drop ev)),
      (''privileges'', ''no-new-privileges'' \<in> set (security_options ev)),
      (''memory'', memory_bytes ev = 512 * 1024 * 1024),
      (''swap'', memory_swap_bytes ev = 512 * 1024 * 1024),
      (''cpu'', nano_cpus ev = 1000000000),
      (''pids'', pids_limit ev = 64),
      (''logs'', log_driver ev = ''none''),
      (''nofile'', ulimits ev = [''nofile:256:256'']),
      (''stop timeout'', stop_timeout ev = 2),
      (''tmpfs'', tmpfs ev = [''/tmp:rw,noexec,nosuid,nodev,size=64m,uid=11001,gid=11001'']),
      (''pid namespace'', pid_mode ev = []),
      (''ipc namespace'', ipc_mode ev \<in> {[], ''private''}),
      (''uts namespace'', uts_mode ev = []),
      (''mount allowlist'', set (map mount_destination (mounts ev)) =
         set [''/run/iab/transport'', ''/run/iab/evidence'', ''/run/iab/world.json'']),
      (''transport writable'', mount_ok resolve ev ''/run/iab/transport'' True (sh_transport h)),
      (''evidence writable'', mount_ok resolve ev ''/run/iab/evidence'' True (sh_evidence_dir h)),
      (''world read-only'', (case mount_at ev ''/run/iab/world.json'' of
         None \<Rightarrow> False | Some m \<Rightarrow> mount_type m = ''bind'' \<and> \<not> mount_writable m)),
      (''world source'', (case mount_at ev ''/run/iab/world.json'' of
         None \<Rightarrow> False | Some m \<Rightarrow> resolve (mount_source m) = resolve (sh_world_path h)))]"

definition sim_validate_runtime ::
  "(string \<Rightarrow> string) \<Rightarrow> ContainerEvidence \<Rightarrow> string \<Rightarrow> SimContainerHandle \<Rightarrow> container_error + unit" where
  "sim_validate_runtime resolve ev img h =
     (let failed = map fst (filter (\<lambda>(n, b). \<not> b) (sim_runtime_checks resolve ev img h)) in
      require (failed = []) (ContainerInfrastructureError (''sim runtime policy mismatch: '' @ join '', '' failed)))"

section \<open>The end of a simulator\<close>

record finalizing = \<comment> \<open>the variables of \<^verbatim>\<open>finalize\<close>\<close>
  fi_evidence :: "ContainerEvidence option"
  fi_journal :: "SimJournalEvidence option"
  fi_error :: "container_error option"
  fi_exit :: "int option"

definition note_error :: "container_error \<Rightarrow> finalizing \<Rightarrow> finalizing" where
  \<comment> \<open>the first error counts\<close>
  "note_error e f = (if fi_error f = None then f\<lparr>fi_error := Some e\<rparr> else f)"

definition await_exit :: "sim_docker \<Rightarrow> string \<Rightarrow> bool \<Rightarrow> finalizing \<Rightarrow> finalizing" where
  "await_exit dk cid signalled f =
     (if signalled then (case s_wait dk cid of Inr code \<Rightarrow> f\<lparr>fi_exit := Some code\<rparr> | Inl e \<Rightarrow> f\<lparr>fi_error := Some e\<rparr>) else f)"

definition inspect_end ::
  "sim_docker \<Rightarrow> (string \<Rightarrow> string) \<Rightarrow> string \<Rightarrow> SimContainerHandle \<Rightarrow> bool \<Rightarrow> finalizing \<Rightarrow> finalizing" where
  "inspect_end dk resolve img h signalled f =
     (case bind_res (s_inspect dk (sh_container_id h)) normalize_inspect of
        Inl e \<Rightarrow> note_error e f
      | Inr ev \<Rightarrow>
          let f1 = f\<lparr>fi_evidence := Some ev\<rparr> in
          (case sim_validate_runtime resolve ev img h of
             Inl e \<Rightarrow> note_error e f1
           | Inr _ \<Rightarrow>
               if \<not> signalled \<and> c_status ev = ''exited'' then f1\<lparr>fi_error := None, fi_exit := Some (exit_code ev)\<rparr>
               else if fi_error f = None \<and> (c_status ev \<noteq> ''exited'' \<or> Some (exit_code ev) \<noteq> fi_exit f)
               then f1\<lparr>fi_error := Some (ContainerInfrastructureError ''sim wait result does not match inspect state'')\<rparr>
               else f1))"

definition as_container_error :: "evidence_error \<Rightarrow> container_error" where
  "as_container_error e = (case e of
     InfrastructureError m \<Rightarrow> ContainerInfrastructureError m | EvidenceRecursionError \<Rightarrow> PyError ''RecursionError'')"

definition verify_end :: "reader \<Rightarrow> evidence_dir option \<Rightarrow> SimContainerHandle \<Rightarrow> finalizing \<Rightarrow> finalizing" where
  "verify_end rd dir h f =
     (case verify_evidence rd dir (u (sh_run_id h)) (u (sh_world_id h)) of
        Inl e \<Rightarrow> note_error (as_container_error e) f
      | Inr j \<Rightarrow> f\<lparr>fi_journal := Some j\<rparr>)"

definition exit_allowed :: "finalizing \<Rightarrow> bool" where
  "exit_allowed f =
     (fi_exit f = Some 0 \<or> fi_exit f = Some 70 \<and> (case fi_journal f of Some j \<Rightarrow> evidence_fatal j \<noteq> None | None \<Rightarrow> False))"

definition exit_text :: "int option \<Rightarrow> string" where
  "exit_text c = (case c of Some n \<Rightarrow> show_int n | None \<Rightarrow> ''None'')"

definition judge_end :: "finalizing \<Rightarrow> finalizing" where
  "judge_end f =
     (let f1 = (case fi_evidence f of
            Some ev \<Rightarrow> if oom_killed ev then note_error (ContainerInfrastructureError ''sim container was OOM killed'') f else f
          | None \<Rightarrow> f) in
      if exit_allowed f1 then f1
      else note_error (ContainerInfrastructureError (''sim container exited with code '' @ exit_text (fi_exit f1))) f1)"

definition finalize_body ::
  "sim_docker \<Rightarrow> (string \<Rightarrow> string) \<Rightarrow> reader \<Rightarrow> evidence_dir option \<Rightarrow> string \<Rightarrow> SimContainerHandle \<Rightarrow>
     sim_call list \<times> (container_error + finalizing)" where
  \<comment> \<open>the outer \<^verbatim>\<open>try\<close> block; only an error that is not a \<^verbatim>\<open>ContainerInfrastructureError\<close> leaves it, from the signal\<close>
  "finalize_body dk resolve rd dir img h =
     (let cid = sh_container_id h;
          start = \<lparr>fi_evidence = None, fi_journal = None, fi_error = None, fi_exit = None\<rparr>;
          rest = (\<lambda>signalled f. Inr (judge_end (verify_end rd dir h (inspect_end dk resolve img h signalled (await_exit dk cid signalled f))))) in
      case s_signal dk cid of
        Inr _ \<Rightarrow> ([SimSignal cid, SimWait cid, SimInspect cid], rest True start)
      | Inl (ContainerInfrastructureError m) \<Rightarrow>
          ([SimSignal cid, SimInspect cid], rest False (start\<lparr>fi_error := Some (ContainerInfrastructureError m)\<rparr>))
      | Inl e \<Rightarrow> ([SimSignal cid], Inl e))"

definition sim_finalize ::
  "sim_docker \<Rightarrow> (string \<Rightarrow> string) \<Rightarrow> reader \<Rightarrow> evidence_dir option \<Rightarrow> string \<Rightarrow> SimContainerHandle \<Rightarrow>
     sim_call list \<times> (container_error + SimContainerResult)" where
  "sim_finalize dk resolve rd dir img h =
     (case finalize_body dk resolve rd dir img h of
        (calls, res) \<Rightarrow>
          let failed = s_remove dk (sh_container_id h) in
          (calls @ [SimRemove (sh_container_id h)],
           case res of
             Inl e \<Rightarrow> Inl e
           | Inr f \<Rightarrow>
               (case (failed, fi_error f, fi_evidence f, fi_journal f) of
                  (Some m, _, _, _) \<Rightarrow> Inl (ContainerInfrastructureError m)
                | (None, Some e, _, _) \<Rightarrow> Inl e
                | (None, None, Some ev, Some j) \<Rightarrow>
                    Inr \<lparr>sim_container_evidence = ev\<lparr>cleanup_attempted := True, cleanup_succeeded := Some True,
                           cleanup_error := None\<rparr>,
                         sim_journal_evidence = j, sim_fatal = evidence_fatal j\<rparr>
                | _ \<Rightarrow> Inl (PyError ''AssertionError''))))"


section \<open>What a result proves\<close>

lemma note_error_simps [simp]:
  "fi_error (note_error e f) \<noteq> None" "fi_evidence (note_error e f) = fi_evidence f"
  "fi_journal (note_error e f) = fi_journal f" "fi_exit (note_error e f) = fi_exit f"
  by (simp_all add: note_error_def)

lemma note_error_none [simp]: "fi_error (note_error e f) = None \<longleftrightarrow> False"
  by simp

lemma sim_validate_Inr: "sim_validate_runtime resolve ev img h = Inr x \<longleftrightarrow> list_all snd (sim_runtime_checks resolve ev img h)"
  by (force simp: sim_validate_runtime_def Let_def list_all_iff filter_empty_conv require_def)

lemma inspect_end_ok:
  assumes "fi_error (inspect_end dk resolve img h signalled f) = None" and "fi_evidence f = None"
    and "\<not> signalled \<Longrightarrow> fi_error f \<noteq> None"
  obtains raw ev where "s_inspect dk (sh_container_id h) = Inr raw" "normalize_inspect raw = Inr ev"
    "fi_evidence (inspect_end dk resolve img h signalled f) = Some ev"
    "list_all snd (sim_runtime_checks resolve ev img h)" "c_status ev = ''exited''"
    "fi_exit (inspect_end dk resolve img h signalled f) = Some (exit_code ev)"
proof (cases "bind_res (s_inspect dk (sh_container_id h)) normalize_inspect")
  case (Inr ev)
  then obtain raw where r: "s_inspect dk (sh_container_id h) = Inr raw" "normalize_inspect raw = Inr ev"
    by (auto simp: bind_res_Inr_iff)
  have v: "sim_validate_runtime resolve ev img h = Inr ()"
    using assms(1) Inr by (cases "sim_validate_runtime resolve ev img h") (auto simp: inspect_end_def)
  then have "list_all snd (sim_runtime_checks resolve ev img h)" by (simp add: sim_validate_Inr)
  with that [OF r] assms v Inr show thesis
    by (auto simp: inspect_end_def Let_def split: if_splits)
qed (use assms in \<open>simp add: inspect_end_def\<close>)

lemma verify_end_ok:
  assumes "fi_error (verify_end rd dir h f) = None"
  shows "\<exists>j. verify_evidence rd dir (u (sh_run_id h)) (u (sh_world_id h)) = Inr j \<and>
    verify_end rd dir h f = f\<lparr>fi_journal := Some j\<rparr>"
  using assms by (cases "verify_evidence rd dir (u (sh_run_id h)) (u (sh_world_id h))") (simp_all add: verify_end_def)

lemma judge_end_ok:
  "fi_error (judge_end f) = None \<longleftrightarrow>
     fi_error f = None \<and> exit_allowed f \<and> (case fi_evidence f of Some ev \<Rightarrow> \<not> oom_killed ev | None \<Rightarrow> True)"
  "fi_evidence (judge_end f) = fi_evidence f" "fi_journal (judge_end f) = fi_journal f"
  by (auto simp: judge_end_def Let_def exit_allowed_def split: option.split)

lemma finalize_body_ok:
  assumes "snd (finalize_body dk resolve rd dir img h) = Inr f" and "fi_error f = None"
  obtains raw ev j where "s_inspect dk (sh_container_id h) = Inr raw" "normalize_inspect raw = Inr ev"
    "list_all snd (sim_runtime_checks resolve ev img h)" "c_status ev = ''exited''" "\<not> oom_killed ev"
    "verify_evidence rd dir (u (sh_run_id h)) (u (sh_world_id h)) = Inr j"
    "exit_code ev = 0 \<or> exit_code ev = 70 \<and> evidence_fatal j \<noteq> None"
    "fi_evidence f = Some ev" "fi_journal f = Some j"
proof -
  obtain signalled g where f: "f = judge_end (verify_end rd dir h (inspect_end dk resolve img h signalled g))"
    and g: "fi_evidence g = None" "\<not> signalled \<Longrightarrow> fi_error g \<noteq> None"
  proof (cases "s_signal dk (sh_container_id h)")
    case (Inr x)
    with assms(1) that [of True] show thesis
      by (auto simp: finalize_body_def Let_def await_exit_def split: sum.splits)
  next
    case (Inl e)
    with assms(1) that [of False] show thesis
      by (cases e) (auto simp: finalize_body_def Let_def await_exit_def)
  qed
  let ?i = "inspect_end dk resolve img h signalled g"
  have e: "fi_error (verify_end rd dir h ?i) = None" "exit_allowed (verify_end rd dir h ?i)"
    "case fi_evidence (verify_end rd dir h ?i) of Some ev \<Rightarrow> \<not> oom_killed ev | None \<Rightarrow> True"
    using assms(2) by (simp_all add: f judge_end_ok(1))
  obtain j where j: "verify_evidence rd dir (u (sh_run_id h)) (u (sh_world_id h)) = Inr j"
    "verify_end rd dir h ?i = ?i\<lparr>fi_journal := Some j\<rparr>"
    using verify_end_ok [OF e(1)] by blast
  have "fi_error ?i = None" using e(1) by (simp add: j(2))
  then obtain raw ev where i: "s_inspect dk (sh_container_id h) = Inr raw" "normalize_inspect raw = Inr ev"
    "fi_evidence ?i = Some ev" "list_all snd (sim_runtime_checks resolve ev img h)" "c_status ev = ''exited''"
    "fi_exit ?i = Some (exit_code ev)"
    by (rule inspect_end_ok [OF _ g])
  from that [OF i(1,2,4,5) _ j(1)] e(2,3) i(3,6) show thesis
    by (auto simp: f j(2) judge_end_ok(2,3) exit_allowed_def)
qed

definition example_sim_inspect :: "(string \<times> string json) list" where
  "example_sim_inspect =
     [(''Id'', JStr ''s1''), (''Image'', JStr ''sha256:1''), (''Created'', JStr ''t0''),
      (''Config'', JObj [(''User'', JStr ''11001:11001''), (''StopTimeout'', JInt 2)]),
      (''State'', JObj [(''StartedAt'', JStr ''t1''), (''FinishedAt'', JStr ''t2''), (''Status'', JStr ''exited''),
        (''ExitCode'', JInt 0), (''OOMKilled'', JBool False)]),
      (''HostConfig'', JObj [(''NetworkMode'', JStr ''none''), (''ReadonlyRootfs'', JBool True),
        (''CapDrop'', JList [JStr ''ALL'']), (''SecurityOpt'', JList [JStr ''no-new-privileges'']),
        (''Memory'', JInt 536870912), (''MemorySwap'', JInt 536870912), (''NanoCpus'', JInt 1000000000),
        (''PidsLimit'', JInt 64), (''LogConfig'', JObj [(''Type'', JStr ''none'')]),
        (''Ulimits'', JList [JObj [(''Name'', JStr ''nofile''), (''Soft'', JInt 256), (''Hard'', JInt 256)]]),
        (''Tmpfs'', JObj [(''/tmp'', JStr ''rw,noexec,nosuid,nodev,size=64m,uid=11001,gid=11001'')])]),
      (''Mounts'', JList (map (\<lambda>(src, dst, rw). JObj [(''Type'', JStr ''bind''), (''Source'', JStr src),
         (''Destination'', JStr dst), (''RW'', JBool rw)])
        [(''/t'', ''/run/iab/transport'', True), (''/e'', ''/run/iab/evidence'', True), (''/w.json'', ''/run/iab/world.json'', False)]))]"

definition example_sim_docker :: sim_docker where
  "example_sim_docker = \<lparr>s_create = \<lambda>_. Inr ''s1'', s_start = \<lambda>_. Inr (), s_ready = \<lambda>_. Inr True, s_signal = \<lambda>_. Inr (),
     s_wait = \<lambda>_. Inr 0, s_inspect = \<lambda>_. Inr example_sim_inspect, s_remove = \<lambda>_. None\<rparr>"

definition example_handle :: SimContainerHandle where
  "example_handle = \<lparr>sh_container_id = ''s1'', sh_name = ''iab-sim-r-w-0'', sh_run_id = ''r'', sh_world_id = ''w'',
     sh_transport = ''/t'', sh_evidence_dir = ''/e'', sh_world_path = ''/w.json''\<rparr>"

lemma example_sim_evidence:
  obtains ev where "normalize_inspect example_sim_inspect = Inr ev" "c_status ev = ''exited''" "exit_code ev = 0" "\<not> oom_killed ev"
    "list_all snd (sim_runtime_checks (\<lambda>p. p) ev ''sha256:1'' example_handle)"
proof -
  have "case normalize_inspect example_sim_inspect of
      Inr ev \<Rightarrow> c_status ev = ''exited'' \<and> exit_code ev = 0 \<and> \<not> oom_killed ev \<and>
        list_all snd (sim_runtime_checks (\<lambda>p. p) ev ''sha256:1'' example_handle)
    | Inl _ \<Rightarrow> False" by code_simp
  with that show thesis by (auto split: sum.splits)
qed

lemma example_finalized:
  obtains r where "snd (sim_finalize example_sim_docker (\<lambda>p. p) example_rd (Some example_dir) ''sha256:1'' example_handle) = Inr r"
    "sim_fatal r = None" "evidence_events (sim_journal_evidence r) = example_events"
    "pre_cleanup_snapshot (sim_journal_evidence r) = field example_sd ''pre_cleanup_snapshot''"
proof -
  obtain ev where ev: "normalize_inspect example_sim_inspect = Inr ev" "c_status ev = ''exited''" "exit_code ev = 0" "\<not> oom_killed ev"
    "list_all snd (sim_runtime_checks (\<lambda>p. p) ev ''sha256:1'' example_handle)" by (rule example_sim_evidence)
  obtain j where j: "verify_evidence example_rd (Some example_dir) (u ''r'') (u ''w'') = Inr j" "evidence_fatal j = None"
    "evidence_events j = example_events" "pre_cleanup_snapshot j = field example_sd ''pre_cleanup_snapshot''"
    by (rule example_accepted_dir)
  have v: "sim_validate_runtime (\<lambda>p. p) ev ''sha256:1'' example_handle = Inr ()" using ev(5) by (simp add: sim_validate_Inr)
  have "snd (sim_finalize example_sim_docker (\<lambda>p. p) example_rd (Some example_dir) ''sha256:1'' example_handle) =
      Inr \<lparr>sim_container_evidence = ev\<lparr>cleanup_attempted := True, cleanup_succeeded := Some True, cleanup_error := None\<rparr>,
        sim_journal_evidence = j, sim_fatal = evidence_fatal j\<rparr>"
    using ev v j
    by (simp add: sim_finalize_def finalize_body_def await_exit_def inspect_end_def verify_end_def judge_end_def exit_allowed_def
        example_sim_docker_def example_handle_def Let_def)
  with that j show thesis by simp
qed

definition mount_counts :: "ContainerEvidence \<Rightarrow> string \<Rightarrow> MountEvidence \<Rightarrow> bool" where
  \<comment> \<open>the last mount of that destination, which is the one the checks look at\<close>
  "mount_counts ev dst m \<longleftrightarrow> (\<exists>before after. mounts ev = before @ m # after \<and> mount_destination m = dst \<and>
     dst \<notin> mount_destination ` set after)"

lemma mount_at_Some: "mount_at ev dst = Some m \<Longrightarrow> mount_counts ev dst m"
proof -
  have "map_of (rev (map (\<lambda>m. (mount_destination m, m)) ms)) dst = Some m \<Longrightarrow>
      \<exists>before after. ms = before @ m # after \<and> mount_destination m = dst \<and> dst \<notin> mount_destination ` set after" for ms
  proof (induction ms)
    case (Cons x ms)
    show ?case
    proof (cases "map_of (rev (map (\<lambda>m. (mount_destination m, m)) ms)) dst")
      case None
      then have "dst \<notin> mount_destination ` set ms" by (force simp: map_of_eq_None_iff)
      with Cons.prems None show ?thesis by (intro exI [of _ "[]"] exI [of _ ms]) (auto simp: map_add_def split: if_splits)
    next
      case (Some y)
      with Cons.prems have "y = m" by (simp add: map_add_def)
      with Cons.IH Some obtain before after where "ms = before @ m # after" "mount_destination m = dst"
        "dst \<notin> mount_destination ` set after" by blast
      then show ?thesis by (intro exI [of _ "x # before"] exI [of _ after]) simp
    qed
  qed simp
  then show "mount_at ev dst = Some m \<Longrightarrow> mount_counts ev dst m" unfolding mount_at_def mount_counts_def by blast
qed

lemma mount_ok_counts:
  "mount_ok resolve ev dst w source \<Longrightarrow> \<exists>m. mount_counts ev dst m \<and> mount_type m = ''bind'' \<and>
     mount_writable m = w \<and> resolve (mount_source m) = resolve source"
  by (auto simp: mount_ok_def split: option.splits dest: mount_at_Some)

lemma sim_checks_facts:
  assumes "list_all snd (sim_runtime_checks resolve ev img h)"
  shows "image_digest ev = img" "c_user ev = ''11001:11001''" "network_mode ev = ''none''" "readonly_rootfs ev"
    "''ALL'' \<in> set (cap_drop ev)" "''no-new-privileges'' \<in> set (security_options ev)"
    "memory_bytes ev = 512 * 1024 * 1024" "memory_swap_bytes ev = 512 * 1024 * 1024"
    "nano_cpus ev = 1000000000" "pids_limit ev = 64" "log_driver ev = ''none''" "ulimits ev = [''nofile:256:256'']"
    "stop_timeout ev = 2" "tmpfs ev = [''/tmp:rw,noexec,nosuid,nodev,size=64m,uid=11001,gid=11001'']"
    "pid_mode ev = []" "ipc_mode ev \<in> {[], ''private''}" "uts_mode ev = []"
    "mount_destination ` set (mounts ev) = {''/run/iab/transport'', ''/run/iab/evidence'', ''/run/iab/world.json''}"
    "\<exists>m. mount_counts ev ''/run/iab/transport'' m \<and> mount_type m = ''bind'' \<and> mount_writable m \<and>
       resolve (mount_source m) = resolve (sh_transport h)"
    "\<exists>m. mount_counts ev ''/run/iab/evidence'' m \<and> mount_type m = ''bind'' \<and> mount_writable m \<and>
       resolve (mount_source m) = resolve (sh_evidence_dir h)"
    "\<exists>m. mount_counts ev ''/run/iab/world.json'' m \<and> mount_type m = ''bind'' \<and> \<not> mount_writable m \<and>
       resolve (mount_source m) = resolve (sh_world_path h)"
proof -
  note a = assms [unfolded sim_runtime_checks_def list.pred_inject snd_conv]
  show "\<exists>m. mount_counts ev ''/run/iab/transport'' m \<and> mount_type m = ''bind'' \<and> mount_writable m \<and>
       resolve (mount_source m) = resolve (sh_transport h)"
    and "\<exists>m. mount_counts ev ''/run/iab/evidence'' m \<and> mount_type m = ''bind'' \<and> mount_writable m \<and>
       resolve (mount_source m) = resolve (sh_evidence_dir h)"
    using a by (auto dest!: mount_ok_counts)
  show "\<exists>m. mount_counts ev ''/run/iab/world.json'' m \<and> mount_type m = ''bind'' \<and> \<not> mount_writable m \<and>
       resolve (mount_source m) = resolve (sh_world_path h)"
    using a by (auto split: option.splits dest: mount_at_Some)
qed (use assms in \<open>simp_all add: sim_runtime_checks_def\<close>)

lemma sim_result:
  assumes "snd (sim_finalize dk resolve rd dir img h) = Inr r"
  shows "\<exists>raw ev. s_inspect dk (sh_container_id h) = Inr raw \<and> normalize_inspect raw = Inr ev \<and>
    image_digest ev = img \<and> c_user ev = ''11001:11001'' \<and> network_mode ev = ''none'' \<and> readonly_rootfs ev \<and>
    ''ALL'' \<in> set (cap_drop ev) \<and> ''no-new-privileges'' \<in> set (security_options ev) \<and>
    memory_bytes ev = 512 * 1024 * 1024 \<and> memory_swap_bytes ev = 512 * 1024 * 1024 \<and>
    nano_cpus ev = 1000000000 \<and> pids_limit ev = 64 \<and> log_driver ev = ''none'' \<and>
    ulimits ev = [''nofile:256:256''] \<and> stop_timeout ev = 2 \<and>
    tmpfs ev = [''/tmp:rw,noexec,nosuid,nodev,size=64m,uid=11001,gid=11001''] \<and>
    pid_mode ev = [] \<and> ipc_mode ev \<in> {[], ''private''} \<and> uts_mode ev = [] \<and>
    mount_destination ` set (mounts ev) = {''/run/iab/transport'', ''/run/iab/evidence'', ''/run/iab/world.json''} \<and>
    (\<exists>m. mount_counts ev ''/run/iab/transport'' m \<and> mount_type m = ''bind'' \<and> mount_writable m \<and>
       resolve (mount_source m) = resolve (sh_transport h)) \<and>
    (\<exists>m. mount_counts ev ''/run/iab/evidence'' m \<and> mount_type m = ''bind'' \<and> mount_writable m \<and>
       resolve (mount_source m) = resolve (sh_evidence_dir h)) \<and>
    (\<exists>m. mount_counts ev ''/run/iab/world.json'' m \<and> mount_type m = ''bind'' \<and> \<not> mount_writable m \<and>
       resolve (mount_source m) = resolve (sh_world_path h)) \<and>
    c_status ev = ''exited'' \<and> \<not> oom_killed ev \<and> s_remove dk (sh_container_id h) = None \<and>
    (exit_code ev = 0 \<or> exit_code ev = 70 \<and> sim_fatal r \<noteq> None) \<and>
    verify_evidence rd dir (u (sh_run_id h)) (u (sh_world_id h)) = Inr (sim_journal_evidence r) \<and>
    sim_fatal r = evidence_fatal (sim_journal_evidence r)"
proof -
  obtain calls res where b: "finalize_body dk resolve rd dir img h = (calls, res)" by fastforce
  with assms obtain f where f: "res = Inr f" by (cases res) (auto simp: sim_finalize_def Let_def)
  have n: "s_remove dk (sh_container_id h) = None" "fi_error f = None"
    using assms by (auto simp: sim_finalize_def b f Let_def split: option.splits)
  have "snd (finalize_body dk resolve rd dir img h) = Inr f" by (simp add: b f)
  from this n(2) obtain raw ev j where x: "s_inspect dk (sh_container_id h) = Inr raw" "normalize_inspect raw = Inr ev"
    "list_all snd (sim_runtime_checks resolve ev img h)" "c_status ev = ''exited''" "\<not> oom_killed ev"
    "verify_evidence rd dir (u (sh_run_id h)) (u (sh_world_id h)) = Inr j"
    "exit_code ev = 0 \<or> exit_code ev = 70 \<and> evidence_fatal j \<noteq> None"
    "fi_evidence f = Some ev" "fi_journal f = Some j" by (rule finalize_body_ok)
  have r: "sim_journal_evidence r = j" "sim_fatal r = evidence_fatal j"
    using assms n x(8,9) by (auto simp: sim_finalize_def b f Let_def)
  note c = sim_checks_facts [OF x(3)]
  show ?thesis
    by (intro exI [of _ raw] exI [of _ ev] conjI) (use c x n r in \<open>simp_all only: simp_thms\<close>)
qed

text \<open>
  C8. A result of the simulator can be trusted. When \<^verbatim>\<open>finalize\<close> returns, the container ran as inspected
  under the whole policy, all twenty-two checks of it: the pinned image, the simulator's user, no network, a
  read-only root, no capabilities and no new privileges, the fixed memory, swap, processor, process and
  file limits, no log, the stop timeout, the one temporary file system, private namespaces, and exactly
  three mounts, of which the transport and the evidence directory are writable and the hidden world is not,
  each bound to the path of this run. It exited by itself with code 0, or with 70 and a fatal marker, was not
  killed for memory, was removed, and the evidence directory verifies for this run and world.
\<close>

theorem sim_result_trusted:
  assumes "snd (sim_finalize dk resolve rd dir img h) = Inr r"
  shows "\<exists>raw ev. s_inspect dk (sh_container_id h) = Inr raw \<and> normalize_inspect raw = Inr ev \<and>
    image_digest ev = img \<and> c_user ev = ''11001:11001'' \<and> network_mode ev = ''none'' \<and> readonly_rootfs ev \<and>
    ''ALL'' \<in> set (cap_drop ev) \<and> ''no-new-privileges'' \<in> set (security_options ev) \<and>
    memory_bytes ev = 512 * 1024 * 1024 \<and> memory_swap_bytes ev = 512 * 1024 * 1024 \<and>
    nano_cpus ev = 1000000000 \<and> pids_limit ev = 64 \<and> log_driver ev = ''none'' \<and>
    ulimits ev = [''nofile:256:256''] \<and> stop_timeout ev = 2 \<and>
    tmpfs ev = [''/tmp:rw,noexec,nosuid,nodev,size=64m,uid=11001,gid=11001''] \<and>
    pid_mode ev = [] \<and> ipc_mode ev \<in> {[], ''private''} \<and> uts_mode ev = [] \<and>
    mount_destination ` set (mounts ev) = {''/run/iab/transport'', ''/run/iab/evidence'', ''/run/iab/world.json''} \<and>
    (\<exists>m. mount_counts ev ''/run/iab/transport'' m \<and> mount_type m = ''bind'' \<and> mount_writable m \<and>
       resolve (mount_source m) = resolve (sh_transport h)) \<and>
    (\<exists>m. mount_counts ev ''/run/iab/evidence'' m \<and> mount_type m = ''bind'' \<and> mount_writable m \<and>
       resolve (mount_source m) = resolve (sh_evidence_dir h)) \<and>
    (\<exists>m. mount_counts ev ''/run/iab/world.json'' m \<and> mount_type m = ''bind'' \<and> \<not> mount_writable m \<and>
       resolve (mount_source m) = resolve (sh_world_path h)) \<and>
    c_status ev = ''exited'' \<and> \<not> oom_killed ev \<and> s_remove dk (sh_container_id h) = None \<and>
    (exit_code ev = 0 \<or> exit_code ev = 70 \<and> sim_fatal r \<noteq> None) \<and>
    verify_evidence rd dir (u (sh_run_id h)) (u (sh_world_id h)) = Inr (sim_journal_evidence r) \<and>
    sim_fatal r = evidence_fatal (sim_journal_evidence r)"
  by (rule sim_result [OF assms])

theorem sim_result_trusted_witness:
  "\<exists>r. snd (sim_finalize example_sim_docker (\<lambda>p. p) example_rd (Some example_dir) ''sha256:1'' example_handle) = Inr r \<and>
     sim_fatal r = None \<and> s_remove example_sim_docker ''s1'' = None \<and>
     verify_evidence example_rd (Some example_dir) (u ''r'') (u ''w'') = Inr (sim_journal_evidence r)"
proof -
  obtain r where r: "snd (sim_finalize example_sim_docker (\<lambda>p. p) example_rd (Some example_dir) ''sha256:1'' example_handle) = Inr r"
    "sim_fatal r = None" by (rule example_finalized)
  from sim_result_trusted [OF r(1)] r show ?thesis by (auto simp: example_handle_def)
qed

text \<open>
  The container is removed on every path: whatever Docker answers, the last call of \<^verbatim>\<open>finalize\<close> removes
  it, and \<^verbatim>\<open>start\<close> removes a container it created and could not hand out.
\<close>

lemma finalize_removes:
  "last (fst (sim_finalize dk resolve rd dir img h)) = SimRemove (sh_container_id h)"
  by (simp add: sim_finalize_def Let_def split: prod.split)

lemma start_removes:
  assumes "sim_start dk i = (calls, Inl e)" and "s_create dk (sim_create_arguments i) = Inr out" and "calls \<noteq> []"
  shows "last calls = SimRemove (strip out)"
  using assms by (auto simp: sim_start_def Let_def split: sum.splits prod.splits)

end
