(* ===== verification/Run_V2.thy ===== *)
theory Run_V2
  imports Worlds Grading_V1 Projection Sim_Runner
begin

text \<open>
  One evaluation of the PyVISA benchmark, version 2
  (\<^verbatim>\<open>instrument_benchmark_evaluator/v2_run.py\<close>, \<^verbatim>\<open>pyvisa_dut_validation_v2/reports.py\<close>): the verified evidence of the
  simulator is projected and handed to the grader of version 1. What starting the container, the candidate
  process and \<^verbatim>\<open>finalize\<close> give are arguments, an exception by its message. The grader of version 1 is modelled
  over characters below 256; a projection with other characters is outside the model (\<open>WideText\<close>). The
  lemmas show what an infrastructure-valid report rests on.
\<close>

section \<open>From version 2 to version 1\<close>

definition raw_event :: "uobj \<Rightarrow> VisaEvent" where
  \<comment> \<open>\<^verbatim>\<open>JournalEvent(**event)\<close> of a verified event; a kind that is not ASCII is no kind the sources know\<close>
  "raw_event e =
     \<lparr>ve_run_id = (case field e ''run_id'' of JStr s \<Rightarrow> s | _ \<Rightarrow> []),
      ve_world_id = (case field e ''world_id'' of JStr s \<Rightarrow> s | _ \<Rightarrow> []),
      ve_sequence = (case field e ''sequence'' of JInt n \<Rightarrow> n | JFloat (Fin q) \<Rightarrow> \<lfloor>q\<rfloor> | _ \<Rightarrow> 0),
      ve_time = (case field e ''monotonic_ns'' of JInt n \<Rightarrow> n | _ \<Rightarrow> 0),
      ve_previous = (case field e ''previous_hash'' of JStr s \<Rightarrow> ascii_text s | _ \<Rightarrow> []),
      ve_kind = (case field e ''kind'' of JStr s \<Rightarrow> (if list_all (\<lambda>c. 0 \<le> c \<and> c < 128) s then ascii_text s else []) | _ \<Rightarrow> []),
      ve_fields = (case field e ''fields'' of JObj d \<Rightarrow> d | _ \<Rightarrow> []),
      ve_hash = (case field e ''event_hash'' of JStr s \<Rightarrow> ascii_text s | _ \<Rightarrow> [])\<rparr>"

datatype v2_error = WideText | Escaped string

definition narrow :: "ustr \<Rightarrow> v2_error + string" where
  "narrow s = (if list_all (\<lambda>c. 0 \<le> c \<and> c < 256) s then Inr (ascii_text s) else Inl WideText)"

definition narrow_option :: "ustr option \<Rightarrow> v2_error + string option" where
  "narrow_option x = (case x of None \<Rightarrow> Inr None | Some s \<Rightarrow> bind_res (narrow s) (\<lambda>t. Inr (Some t)))"

definition narrow_state :: "SimState \<Rightarrow> v2_error + WorldSnapshot" where
  "narrow_state s =
     bind_res (traverse narrow (ss_closed_routes s)) (\<lambda>routes.
     bind_res (narrow_option (ss_awg_waveform_name s)) (\<lambda>name.
     Inr \<lparr>snap_clock_ms = ss_clock_ms s, snap_closed_routes = routes, snap_psu_voltage_v = ss_psu_voltage_v s,
          snap_psu_output = ss_psu_output s, snap_awg_waveform_name = name, snap_awg_points = ss_awg_points s,
          snap_awg_amplitude_vpp = ss_awg_amplitude_vpp s, snap_awg_output = ss_awg_output s,
          snap_stimulus_started_ms = ss_stimulus_started_ms s, snap_safe = ss_safe s\<rparr>))"

definition narrow_event :: "ProjectedEvent \<Rightarrow> v2_error + EvidenceEvent" where
  "narrow_event p =
     bind_res (narrow (pr_run_id p)) (\<lambda>run.
     bind_res (narrow (pr_world_id p)) (\<lambda>world.
     bind_res (narrow_option (pr_session p)) (\<lambda>session.
     bind_res (narrow_option (pr_resource p)) (\<lambda>res.
     bind_res (narrow_option (pr_role p)) (\<lambda>rl.
     bind_res (narrow_option (pr_error p)) (\<lambda>err.
     bind_res (narrow_state (pr_before p)) (\<lambda>before.
     bind_res (narrow_state (pr_after p)) (\<lambda>after.
     Inr \<lparr>e_run_id = run, e_world_id = world, e_sequence = pr_sequence p, monotonic_ns = pr_time p,
          operation = pr_operation p, session_digest = session, resource = res, role = rl,
          request = pr_request p, response = pr_response p, request_sha256 = pr_request_sha256 p,
          response_sha256 = pr_response_sha256 p, request_bytes = pr_request_bytes p,
          response_bytes = pr_response_bytes p, state_before = before, state_after = after,
          state_before_sha256 = pr_before_sha256 p, state_after_sha256 = pr_after_sha256 p,
          e_outcome = pr_outcome p, error_code = err, cleanup_source = pr_cleanup p,
          source_sequence = Some (pr_source p)\<rparr>))))))))"

definition number_of :: "ustr json \<Rightarrow> pyfloat" where
  "number_of v = (case v of JInt n \<Rightarrow> Fin (of_int n) | JFloat x \<Rightarrow> x | _ \<Rightarrow> NaN)"

definition snapshot_of :: "ustr json \<Rightarrow> (string + uobj)" where
  \<comment> \<open>\<^verbatim>\<open>_snapshot\<close>: the keyword arguments must be the fields of \<^verbatim>\<open>WorldSnapshot\<close>\<close>
  "snapshot_of v = (case v of
     JObj d \<Rightarrow> (if keys_are d SNAPSHOT_KEYS then Inr d else Inl ''TypeError'')
   | _ \<Rightarrow> Inl ''sim pre-cleanup snapshot is missing'')"

definition world_snapshot :: "uobj \<Rightarrow> v2_error + WorldSnapshot" where
  \<comment> \<open>of a snapshot the evidence check found valid\<close>
  "world_snapshot d =
     bind_res (traverse (\<lambda>v. case v of JStr s \<Rightarrow> narrow s | _ \<Rightarrow> Inl WideText)
       (case field d ''closed_routes'' of JList vs \<Rightarrow> vs | _ \<Rightarrow> [])) (\<lambda>routes.
     bind_res (narrow_option (str_of (field d ''awg_waveform_name''))) (\<lambda>name.
     Inr \<lparr>snap_clock_ms = (case field d ''clock_ms'' of JInt n \<Rightarrow> n | _ \<Rightarrow> 0), snap_closed_routes = routes,
          snap_psu_voltage_v = number_of (field d ''psu_voltage_v''),
          snap_psu_output = (field d ''psu_output'' = JBool True), snap_awg_waveform_name = name,
          snap_awg_points = map number_of (case field d ''awg_points'' of JList vs \<Rightarrow> vs | _ \<Rightarrow> []),
          snap_awg_amplitude_vpp = number_of (field d ''awg_amplitude_vpp''),
          snap_awg_output = (field d ''awg_output'' = JBool True),
          snap_stimulus_started_ms = (case field d ''stimulus_started_ms'' of JInt n \<Rightarrow> Some n | _ \<Rightarrow> None),
          snap_safe = (field d ''safe'' = JBool True)\<rparr>))"

section \<open>One world\<close>

record v2_process =
  \<comment> \<open>what \<^verbatim>\<open>backend.invoke\<close> returns\<close>
  vp_process :: ProcessResult
  vp_result :: "(string \<times> string json) list option"
  vp_candidate_status :: "string option"

record V2WorldReport =
  v2_base :: WorldReport
  v2_candidate_status :: "string option"
    \<comment> \<open>the entry \<^verbatim>\<open>candidate_status\<close> of the candidate's container evidence\<close>
  v2_sim_container_evidence :: "ContainerEvidence option"
  v2_sim_journal_evidence :: "SimJournalEvidence option"

record V2WorldExecution =
  v2_execution_process :: "v2_process option"
  v2_sim_result :: "SimContainerResult option"
  v2_report :: V2WorldReport

definition new_v2_report ::
  "WorldReport \<Rightarrow> string option \<Rightarrow> SimContainerResult option \<Rightarrow> v2_error + V2WorldReport" where
  \<comment> \<open>\<^verbatim>\<open>__post_init__\<close>: evidence may only be missing after an infrastructure failure that is retried\<close>
  "new_v2_report base status sim =
     (if (container_evidence base = None \<or> sim = None) \<and> \<not> (\<not> r_infrastructure_valid base \<and> r_retry_eligible base)
      then Inl (Escaped ''missing v2 evidence requires retryable infrastructure failure'')
      else Inr \<lparr>v2_base = base, v2_candidate_status = status,
             v2_sim_container_evidence = map_option sim_container_evidence sim,
             v2_sim_journal_evidence = map_option sim_journal_evidence sim\<rparr>)"

definition candidate_status_of :: "v2_process \<Rightarrow> string option" where
  \<comment> \<open>\<^verbatim>\<open>process.candidate_status or process.status\<close>, of a container process\<close>
  "candidate_status_of p = (if p_container (vp_process p) = None then None
     else Some (case vp_candidate_status p of Some (c # s) \<Rightarrow> c # s | _ \<Rightarrow> p_status (vp_process p)))"

definition no_evidence_snapshot :: WorldSnapshot where
  "no_evidence_snapshot =
     \<lparr>snap_clock_ms = 0, snap_closed_routes = [], snap_psu_voltage_v = Fin 0, snap_psu_output = False,
      snap_awg_waveform_name = None, snap_awg_points = [], snap_awg_amplitude_vpp = Fin 1, snap_awg_output = False,
      snap_stimulus_started_ms = None, snap_safe = True\<rparr>"

definition infrastructure_execution ::
  "WorldSpec \<Rightarrow> v2_process option \<Rightarrow> SimContainerResult option \<Rightarrow> string \<Rightarrow> v2_error + V2WorldExecution" where
  "infrastructure_execution sp process sim failure =
     (case grade_run None [] sp no_evidence_snapshot False False of
        Inl _ \<Rightarrow> Inl (Escaped ''grading'')
      | Inr base0 \<Rightarrow>
          let base1 = (case process of Some p \<Rightarrow> attach_runtime_evidence base0 (vp_process p) False | None \<Rightarrow> base0);
              base = base1\<lparr>r_status := ''infrastructure_failure'', r_strict_pass := False, r_infrastructure_valid := False,
                r_retry_eligible := True, r_errors := r_errors base1 @ [failure]\<rparr> in
          bind_res (new_v2_report base (Option.bind process candidate_status_of) sim) (\<lambda>report.
          Inr \<lparr>v2_execution_process = process, v2_sim_result = sim, v2_report = report\<rparr>))"

definition projection_message :: "projection_error \<Rightarrow> string" where
  "projection_message e = (case e of ProjectionError m \<Rightarrow> m | ProjectionUncaught m \<Rightarrow> m)"

definition oracle_message :: "oracle_error \<Rightarrow> string" where
  "oracle_message e = (case e of OracleError m \<Rightarrow> m | Uncaught m \<Rightarrow> m)"

definition container_message :: "container_error \<Rightarrow> string" where
  "container_message e = (case e of ContainerInfrastructureError m \<Rightarrow> m | ContainerContractError m \<Rightarrow> m
     | OutputCollectionError m \<Rightarrow> m | PyError m \<Rightarrow> m)"

definition forbidden :: "ProjectedEvent list \<Rightarrow> bool" where
  "forbidden ps = list_ex (\<lambda>p. pr_operation p \<in> {''protocol_reject'', ''rpc_reject''}) ps"

definition graded_world ::
  "projection_env \<Rightarrow> WorldSpec \<Rightarrow> v2_process option \<Rightarrow> SimContainerResult \<Rightarrow> v2_error + (string + WorldReport \<times> WorldSnapshot)" where
  \<comment> \<open>the \<^verbatim>\<open>try\<close> block that projects and grades; the inner sum is an exception it catches\<close>
  "graded_world env sp process sim =
     (case project_events env (map raw_event (evidence_events (sim_journal_evidence sim))) of
        Inl e \<Rightarrow> Inr (Inl (projection_message e))
      | Inr projected \<Rightarrow>
          (case snapshot_of (SimJournalEvidence.pre_cleanup_snapshot (sim_journal_evidence sim)) of
             Inl m \<Rightarrow> Inr (Inl m)
           | Inr d \<Rightarrow>
               bind_res (world_snapshot d) (\<lambda>snap.
               bind_res (traverse narrow_event projected) (\<lambda>events.
               case grade_run (Option.bind process vp_result) events sp snap (forbidden projected) True of
                 Inl e \<Rightarrow> Inr (Inl (oracle_message e))
               | Inr base \<Rightarrow> Inr (Inr (base, snap))))))"

definition run_v2_world ::
  "projection_env \<Rightarrow> WorldSpec \<Rightarrow> container_error + SimContainerHandle \<Rightarrow> string + v2_process \<Rightarrow>
     container_error + SimContainerResult \<Rightarrow> v2_error + V2WorldExecution" where
  "run_v2_world env sp started invoked finalized =
     (case started of
        Inl e \<Rightarrow> infrastructure_execution sp None None (container_message e)
      | Inr _ \<Rightarrow>
          let process = (case invoked of Inr p \<Rightarrow> Some p | Inl _ \<Rightarrow> None);
              sim_result = (case finalized of Inr r \<Rightarrow> Some r | Inl _ \<Rightarrow> None);
              failure = (case invoked of Inl m \<Rightarrow> Some m
                | Inr _ \<Rightarrow> (case finalized of Inl e \<Rightarrow> Some (container_message e) | Inr _ \<Rightarrow> None)) in
          (case (failure, sim_result) of
             (None, Some sim) \<Rightarrow>
               if sim_fatal sim \<noteq> None then infrastructure_execution sp process sim_result ''trusted simulator failed''
               else bind_res (graded_world env sp process sim) (\<lambda>graded.
                 case (graded, process) of
                   (Inl m, _) \<Rightarrow> infrastructure_execution sp process sim_result m
                 | (Inr (base, snap), Some p) \<Rightarrow>
                     bind_res (new_v2_report (finish_report base (vp_process p) (\<not> snap_safe snap)) (candidate_status_of p) sim_result) (\<lambda>report.
                     Inr \<lparr>v2_execution_process = process, v2_sim_result = sim_result, v2_report = report\<rparr>)
                 | (Inr _, None) \<Rightarrow> Inl (Escaped ''AssertionError''))
           | (Some m, _) \<Rightarrow> infrastructure_execution sp process sim_result m
           | (None, None) \<Rightarrow> infrastructure_execution sp process sim_result ''trusted simulator failed''))"

section \<open>The suite\<close>

definition run_v2_full_suite ::
  "(WorldSpec \<Rightarrow> v2_error + V2WorldExecution) \<Rightarrow> string list \<Rightarrow> int \<Rightarrow> int \<Rightarrow> (string, WorldSpec) dict \<Rightarrow>
     v2_error + EvaluationReport \<times> V2WorldReport list" where
  \<comment> \<open>the last check is the one \<^verbatim>\<open>V2EvaluationReport\<close> makes on the numbers of its reports\<close>
  "run_v2_full_suite execute fixed_worlds repeated base_seed specs =
     bind_res (require (repeated = 10) (Escaped ''v2 requires exactly ten repeated worlds'')) (\<lambda>_.
     bind_res (require (list_all (\<lambda>w. map_of specs w \<noteq> None) fixed_worlds)
       (Escaped (''missing fixed v2 worlds: '' @ join '', '' (filter (\<lambda>w. map_of specs w = None) fixed_worlds)))) (\<lambda>_.
     bind_res (traverse (\<lambda>w. execute (the (map_of specs w))) fixed_worlds) (\<lambda>fixed.
     bind_res (case repeated_specs 10 base_seed of Inl _ \<Rightarrow> Inl (Escaped ''repeated worlds'') | Inr sps \<Rightarrow> Inr sps) (\<lambda>sps.
     bind_res (traverse execute sps) (\<lambda>repeats.
     case aggregate_reports (map (v2_base \<circ> v2_report) fixed) (map (v2_base \<circ> v2_report) repeats) of
       Inl _ \<Rightarrow> Inl (Escaped ''aggregation'')
     | Inr base \<Rightarrow>
         if length fixed \<noteq> 9 \<or> length repeats \<noteq> 10
         then Inl (Escaped ''v2 evaluation requires nine fixed and ten repeated worlds'')
         else Inr (base, map v2_report (fixed @ repeats)))))))"


section \<open>What a report rests on\<close>

lemma graded_world_Inr:
  assumes "graded_world env sp process sim = Inr (Inr (base, snap))"
  obtains ps events where "project_events env (map raw_event (evidence_events (sim_journal_evidence sim))) = Inr ps"
    "traverse narrow_event ps = Inr events"
    "grade_run (Option.bind process vp_result) events sp snap (forbidden ps) True = Inr base"
proof -
  obtain ps where ps: "project_events env (map raw_event (evidence_events (sim_journal_evidence sim))) = Inr ps"
    using assms by (cases "project_events env (map raw_event (evidence_events (sim_journal_evidence sim)))") (simp_all add: graded_world_def)
  obtain d where d: "snapshot_of (SimJournalEvidence.pre_cleanup_snapshot (sim_journal_evidence sim)) = Inr d"
    using assms by (cases "snapshot_of (SimJournalEvidence.pre_cleanup_snapshot (sim_journal_evidence sim))") (simp_all add: graded_world_def ps)
  from assms obtain snap' events where e: "traverse narrow_event ps = Inr events"
    and g: "(case grade_run (Option.bind process vp_result) events sp snap' (forbidden ps) True of
        Inl e \<Rightarrow> Inr (Inl (oracle_message e)) | Inr base \<Rightarrow> Inr (Inr (base, snap'))) = (Inr (Inr (base, snap)) :: v2_error + _)"
    unfolding graded_world_def ps d sum.case bind_res_Inr_iff by blast
  have "grade_run (Option.bind process vp_result) events sp snap (forbidden ps) True = Inr base"
    using g by (cases "grade_run (Option.bind process vp_result) events sp snap' (forbidden ps) True") auto
  with that ps e show thesis by blast
qed

lemma infrastructure_execution_invalid:
  "infrastructure_execution sp process sim m = Inr x \<Longrightarrow>
     \<not> r_infrastructure_valid (v2_base (v2_report x)) \<and> \<not> r_strict_pass (v2_base (v2_report x)) \<and>
     r_retry_eligible (v2_base (v2_report x))"
  by (auto simp: infrastructure_execution_def new_v2_report_def Let_def bind_res_Inr_iff split: sum.splits if_splits)

lemma run_v2_world_valid:
  assumes "run_v2_world env sp started invoked finalized = Inr x" and "r_infrastructure_valid (v2_base (v2_report x))"
  obtains p sim base snap where "invoked = Inr p" "finalized = Inr sim" "sim_fatal sim = None"
    "graded_world env sp (Some p) sim = Inr (Inr (base, snap))"
    "v2_base (v2_report x) = finish_report base (vp_process p) (\<not> snap_safe snap)"
    "v2_sim_journal_evidence (v2_report x) = Some (sim_journal_evidence sim)"
proof -
  have no: "infrastructure_execution sp process sim m \<noteq> Inr x" for process sim m
    using infrastructure_execution_invalid assms(2) by blast
  obtain h where h: "started = Inr h" using assms(1) no by (cases started) (auto simp: run_v2_world_def)
  obtain p where p: "invoked = Inr p" using assms(1) no by (cases invoked) (auto simp: run_v2_world_def h Let_def)
  obtain sim where sim: "finalized = Inr sim" using assms(1) no by (cases finalized) (auto simp: run_v2_world_def h p Let_def)
  have f: "sim_fatal sim = None" using assms(1) no by (cases "sim_fatal sim") (auto simp: run_v2_world_def h p sim Let_def)
  from assms(1) obtain graded where g: "graded_world env sp (Some p) sim = Inr graded"
    by (auto simp: run_v2_world_def h p sim f Let_def bind_res_Inr_iff)
  obtain base snap where b: "graded = Inr (base, snap)"
    using assms(1) no by (cases graded) (auto simp: run_v2_world_def h p sim f g Let_def)
  from assms(1) have "\<exists>report. new_v2_report (finish_report base (vp_process p) (\<not> snap_safe snap)) (candidate_status_of p) (Some sim) = Inr report \<and>
      x = \<lparr>v2_execution_process = Some p, v2_sim_result = Some sim, v2_report = report\<rparr>"
    by (auto simp: run_v2_world_def h p sim f g b Let_def bind_res_Inr_iff)
  then have "v2_base (v2_report x) = finish_report base (vp_process p) (\<not> snap_safe snap)"
    "v2_sim_journal_evidence (v2_report x) = Some (sim_journal_evidence sim)"
    by (auto simp: new_v2_report_def split: if_splits)
  with that p sim f g b show thesis by blast
qed

lemma forbidden_violation:
  assumes "project_events env raw = Inr ps"
  shows "forbidden ps = list_ex (violation env) raw"
proof -
  have "map pr_source (filter (\<lambda>p. pr_operation p \<in> {''protocol_reject'', ''rpc_reject''}) ps) = map ve_sequence (filter (violation env) raw)"
    using projection_counts [OF assms] by blast
  then have "filter (\<lambda>p. pr_operation p \<in> {''protocol_reject'', ''rpc_reject''}) ps = [] \<longleftrightarrow> filter (violation env) raw = []"
    by (metis map_is_Nil_conv)
  then show ?thesis by (simp add: forbidden_def list_ex_iff filter_empty_conv) blast
qed

text \<open>
  C4. A report that is valid as to infrastructure rests on verified evidence. The simulator's journal is a complete
  hash chain of this run, the hardware ended safe, and the grade is the one of version 1 on exactly the
  projection of that journal, with forbidden access counted when and only when a frame was malformed or a request refused. A
  strict pass moreover means that the candidate completed, that nothing of that kind happened, and
  that its answer agrees with the oracle reconstructed from the projected events.
\<close>

theorem v2_report_sound:
  assumes "run_v2_world env sp started invoked (snd (sim_finalize dk resolve rd dir img h)) = Inr x"
    and "r_infrastructure_valid (v2_base (v2_report x))"
  shows "\<exists>p j ps events snap base. invoked = Inr p \<and> v2_sim_journal_evidence (v2_report x) = Some j \<and>
    verify_evidence rd dir (u (sh_run_id h)) (u (sh_world_id h)) = Inr j \<and>
    linked (rd_runtime rd) VISA_GENESIS_HASH 1 (evidence_events j) \<and> valid_rpc_boundaries (evidence_events j) \<and>
    sub (post_cleanup_snapshot j) ''psu_output'' = JBool False \<and> sub (post_cleanup_snapshot j) ''closed_routes'' = JList [] \<and>
    project_events env (map raw_event (evidence_events j)) = Inr ps \<and> traverse narrow_event ps = Inr events \<and>
    grade_run (vp_result p) events sp snap (list_ex (violation env) (map raw_event (evidence_events j))) True = Inr base \<and>
    v2_base (v2_report x) = finish_report base (vp_process p) (\<not> snap_safe snap) \<and>
    (r_strict_pass (v2_base (v2_report x)) \<longrightarrow>
       p_status (vp_process p) = ''completed'' \<and> \<not> list_ex (violation env) (map raw_event (evidence_events j)) \<and>
       (\<exists>cand o'. vp_result p = Some cand \<and> reconstruct events sp = Inr o' \<and> candidate_agrees cand o' = Inr True))"
proof -
  obtain p sim base snap where r: "invoked = Inr p" "snd (sim_finalize dk resolve rd dir img h) = Inr sim" "sim_fatal sim = None"
    "graded_world env sp (Some p) sim = Inr (Inr (base, snap))"
    "v2_base (v2_report x) = finish_report base (vp_process p) (\<not> snap_safe snap)"
    "v2_sim_journal_evidence (v2_report x) = Some (sim_journal_evidence sim)"
    by (rule run_v2_world_valid [OF assms])
  let ?j = "sim_journal_evidence sim"
  have "verify_evidence rd dir (u (sh_run_id h)) (u (sh_world_id h)) = Inr ?j \<and> sim_fatal sim = evidence_fatal ?j"
    using sim_result [OF r(2)] by (elim exE conjE) (intro conjI)
  then have v: "verify_evidence rd dir (u (sh_run_id h)) (u (sh_world_id h)) = Inr ?j" "evidence_fatal ?j = None"
    using r(3) by simp_all
  then obtain d where d: "dir = Some d" by (cases dir) (simp_all add: verify_evidence_def)
  note e = accepted_evidence [OF v(1) [unfolded d] v(2)]
  obtain ps events where g: "project_events env (map raw_event (evidence_events ?j)) = Inr ps"
    "traverse narrow_event ps = Inr events" "grade_run (vp_result p) events sp snap (forbidden ps) True = Inr base"
    by (rule graded_world_Inr [OF r(4)]) simp
  note f = forbidden_violation [OF g(1)]
  have strict: "r_strict_pass base \<and> p_status (vp_process p) = ''completed''" if "r_strict_pass (v2_base (v2_report x))"
    using that finish_report_strict [of base "vp_process p" "\<not> snap_safe snap"] by (simp add: r(5))
  have "r_strict_pass base \<longrightarrow> \<not> forbidden ps \<and>
      (\<exists>cand o'. vp_result p = Some cand \<and> reconstruct events sp = Inr o' \<and> candidate_agrees cand o' = Inr True)"
    using grade_run_strict [OF g(3)] by blast
  with strict have s: "r_strict_pass (v2_base (v2_report x)) \<longrightarrow>
       p_status (vp_process p) = ''completed'' \<and> \<not> list_ex (violation env) (map raw_event (evidence_events ?j)) \<and>
       (\<exists>cand o'. vp_result p = Some cand \<and> reconstruct events sp = Inr o' \<and> candidate_agrees cand o' = Inr True)"
    unfolding f by blast
  show ?thesis
    by (intro exI [of _ p] exI [of _ ?j] exI [of _ ps] exI [of _ events] exI [of _ snap] exI [of _ base] conjI)
      (use r(1,5,6) v(1) e g [unfolded f] s in \<open>simp_all only: simp_thms\<close>)
qed


section \<open>An example\<close>

abbreviation example_raw_events :: "VisaEvent list" where
  "example_raw_events \<equiv> map raw_event example_events"

lemma validate_chained:
  "chained prev (n + 1) es \<Longrightarrow> list_all (\<lambda>e. ve_run_id e = run \<and> ve_world_id e = world) es \<Longrightarrow>
     validate_raw run world n (map (\<lambda>e. raw_event (visa_copied (visa_to_dict e))) es) = Inr ()"
  by (induction es arbitrary: prev n) (auto simp: raw_event_def field_copied_dict)

definition kind_text :: "ustr json \<Rightarrow> string" where
  "kind_text v = (case v of JStr s \<Rightarrow> (if list_all (\<lambda>c. 0 \<le> c \<and> c < 128) s then ascii_text s else []) | _ \<Rightarrow> [])"

definition object_of :: "ustr json \<Rightarrow> uobj" where
  "object_of v = (case v of JObj d \<Rightarrow> d | _ \<Rightarrow> [])"

lemma example_raw_parts:
  "map ve_kind example_raw_events = map fst example_lifecycle"
  "map ve_fields example_raw_events = map (\<lambda>(k, fs). object_of (canon (jobj fs))) example_lifecycle"
proof -
  have k: "map (\<lambda>e. field e ''kind'') example_events = map jstr (map fst example_lifecycle)"
    using example_kinds(1) by (simp add: has_kinds_def)
  have "map ve_kind example_raw_events = map kind_text (map (\<lambda>e. field e ''kind'') example_events)"
    by (simp add: raw_event_def kind_text_def)
  also have "\<dots> = map fst example_lifecycle"
    unfolding k by (simp add: kind_text_def example_lifecycle_def jstr_def) (simp add: u_def code_of_def)
  finally show "map ve_kind example_raw_events = map fst example_lifecycle" .
  have "map ve_fields example_raw_events = map object_of (map event_data example_events)"
    by (simp add: raw_event_def object_of_def event_data_def)
  then show "map ve_fields example_raw_events = map (\<lambda>(k, fs). object_of (canon (jobj fs))) example_lifecycle"
    unfolding example_kinds(2) by (simp add: case_prod_beta')
qed

lemma example_raw_valid: "validate_raw (u ''r'') (u ''w'') 0 example_raw_events = Inr ()"
  using validate_chained [of VISA_GENESIS_HASH 0 "vj_events example_visa_journal" "u ''r''" "u ''w''"] example_journal_facts
  by (simp add: journal_sound_def example_events_def comp_def list_all_iff)

definition unprojected :: "VisaEvent \<Rightarrow> bool" where
  "unprojected e = (ve_kind e \<notin> {''rpc.request'', ''hook.before'', ''hook.after'', ''hook.error'', ''rpc.result'', ''rpc.reject'',
     ''connection.reject'', ''connection.close'', ''state.force_safe''})"

lemma unprojected_loop: "list_all unprojected es \<Longrightarrow> project_loop env start es st = Inr st"
  by (induction es) (auto simp: unprojected_def project_event_def Let_def)

lemma unprojected_initial: "list_all unprojected es \<Longrightarrow> initial_state env (es @ es') = initial_state env es'"
  by (induction es) (auto simp: unprojected_def)

lemma project_loop_append:
  "project_loop env start (es @ es') st = bind_res (project_loop env start es st) (project_loop env start es')"
  by (induction es arbitrary: st) (simp_all add: bind_res_def split: sum.splits)


lemma example_split:
  obtains xs f ys where "example_raw_events = xs @ f # ys" "list_all unprojected xs" "list_all unprojected ys"
    "ve_kind f = ''state.force_safe''" "ve_sequence f = 9" "ve_run_id f = u ''r''" "ve_world_id f = u ''w''"
    "field (ve_fields f) ''state_before'' = canon example_hardware" "field (ve_fields f) ''state_after'' = canon example_hardware"
proof -
  let ?raw = example_raw_events
  have l: "length ?raw = 13" using example_length by simp
  have k: "ve_kind (?raw ! i) = map fst example_lifecycle ! i" if "i < 13" for i
    using that example_length unfolding example_raw_parts(1) [symmetric] by (simp only: nth_map length_map)
  have split: "?raw = take 8 ?raw @ ?raw ! 8 # drop 9 ?raw"
    using l id_take_nth_drop [of 8 ?raw] by simp
  have "map ve_kind (take 8 ?raw) = take 8 (map fst example_lifecycle)" "map ve_kind (drop 9 ?raw) = drop 9 (map fst example_lifecycle)"
    unfolding example_raw_parts(1) [symmetric] by (simp_all only: take_map drop_map)
  then have "list_all (\<lambda>k. k \<notin> {''rpc.request'', ''hook.before'', ''hook.after'', ''hook.error'', ''rpc.result'', ''rpc.reject'',
     ''connection.reject'', ''connection.close'', ''state.force_safe''}) (map ve_kind (take 8 ?raw))"
    "list_all (\<lambda>k. k \<notin> {''rpc.request'', ''hook.before'', ''hook.after'', ''hook.error'', ''rpc.result'', ''rpc.reject'',
     ''connection.reject'', ''connection.close'', ''state.force_safe''}) (map ve_kind (drop 9 ?raw))"
    by (simp_all add: example_lifecycle_def)
  then have u: "list_all unprojected (take 8 ?raw)" "list_all unprojected (drop 9 ?raw)"
    by (simp_all add: unprojected_def [abs_def] list.pred_map comp_def)
  have kind: "ve_kind (?raw ! 8) = ''state.force_safe''" using k [of 8] by (simp add: example_lifecycle_def)
  have "ve_fields (?raw ! 8) = map (\<lambda>(k, fs). object_of (canon (jobj fs))) example_lifecycle ! 8"
    using example_length unfolding example_raw_parts(2) [symmetric] by (simp only: nth_map length_map)
  then have f: "ve_fields (?raw ! 8) = object_of (canon (jobj [(''state_before'', example_hardware), (''state_after'', example_hardware)]))"
    by (simp add: example_lifecycle_def)
  have "field (ve_fields (?raw ! 8)) ''state_before'' = canon example_hardware \<and> field (ve_fields (?raw ! 8)) ''state_after'' = canon example_hardware"
    unfolding f by code_simp
  moreover have s: "map ve_sequence ?raw = map (\<lambda>i. 0 + 1 + int i) [0..<13] \<and> list_all (\<lambda>e. ve_run_id e = u ''r'' \<and> ve_world_id e = u ''w'') ?raw"
    using validated_sequences [OF example_raw_valid] l by simp
  have "8 < length ?raw" using l by simp
  from nth_map [OF this, of ve_sequence] have "ve_sequence (?raw ! 8) = map (\<lambda>i. 0 + 1 + int i) [0..<13] ! 8"
    using s by (simp only:)
  then have "ve_sequence (?raw ! 8) = 9" by simp
  moreover have "?raw ! 8 \<in> set ?raw" using l by (intro nth_mem) simp
  then have "ve_run_id (?raw ! 8) = u ''r''" "ve_world_id (?raw ! 8) = u ''w''" using s by (auto simp: list_all_iff simp del: set_map)
  ultimately show thesis using that [OF split u kind] by blast
qed

definition quiet_state :: "int \<Rightarrow> SimState" where
  "quiet_state clock = \<lparr>ss_clock_ms = clock, ss_closed_routes = [], ss_psu_voltage_v = Fin 0, ss_psu_output = False,
     ss_awg_waveform_name = None, ss_awg_points = [], ss_awg_amplitude_vpp = Fin 1, ss_awg_output = False,
     ss_stimulus_started_ms = None, ss_safe = True\<rparr>"

lemma example_hardware_snapshot:
  "canon example_hardware = JObj (object_of (canon example_hardware))"
  "projected_snapshot example_projection_env (object_of (canon example_hardware)) clock None = Inr (quiet_state clock)"
proof -
  show "canon example_hardware = JObj (object_of (canon example_hardware))" by (simp add: example_hardware_def jobj_def object_of_def)
  have f: "to_float 0 = Fin 0" "to_float 1 = Fin 1" by code_simp+
  have "\<exists>psu switch awg. mapping_field (object_of (canon example_hardware)) ''psu'' = Inr psu \<and>
      mapping_field (object_of (canon example_hardware)) ''switch'' = Inr switch \<and>
      mapping_field (object_of (canon example_hardware)) ''awg'' = Inr awg \<and>
      field awg ''selected'' = JNull \<and> json_get_or awg (u ''waveforms'') (JObj []) = JObj [] \<and> field switch ''closed_routes'' = JList [] \<and>
      field psu ''voltage'' = JInt 0 \<and> field awg ''amplitude'' = JInt 1 \<and> field psu ''output'' = JBool False \<and> field awg ''output'' = JBool False"
  proof -
    let ?part = "\<lambda>k. object_of (field (object_of (canon example_hardware)) k)"
    have "mapping_field (object_of (canon example_hardware)) ''psu'' = Inr (?part ''psu'') \<and>
      mapping_field (object_of (canon example_hardware)) ''switch'' = Inr (?part ''switch'') \<and>
      mapping_field (object_of (canon example_hardware)) ''awg'' = Inr (?part ''awg'') \<and>
      field (?part ''awg'') ''selected'' = JNull \<and> json_get_or (?part ''awg'') (u ''waveforms'') (JObj []) = JObj [] \<and>
      field (?part ''switch'') ''closed_routes'' = JList [] \<and> field (?part ''psu'') ''voltage'' = JInt 0 \<and>
      field (?part ''awg'') ''amplitude'' = JInt 1 \<and> field (?part ''psu'') ''output'' = JBool False \<and>
      field (?part ''awg'') ''output'' = JBool False" by code_simp
    then show ?thesis by blast
  qed
  then show "projected_snapshot example_projection_env (object_of (canon example_hardware)) clock None = Inr (quiet_state clock)"
    by (elim exE conjE) (simp add: projected_snapshot_def truthy_def json_get_or_def projected_float_def projected_bool_def f quiet_state_def)
qed

lemma example_projection:
  obtains p where "project_events example_projection_env example_raw_events = Inr [p]" "pr_operation p = ''force_safe''"
    "pr_run_id p = u ''r''" "pr_world_id p = u ''w''" "pr_session p = None" "pr_resource p = None" "pr_role p = None" "pr_error p = None"
    "\<exists>c. pr_before p = quiet_state c" "\<exists>c. pr_after p = quiet_state c"
proof -
  let ?env = example_projection_env
  obtain xs f ys where s: "example_raw_events = xs @ f # ys" "list_all unprojected xs" "list_all unprojected ys"
    "ve_kind f = ''state.force_safe''" "ve_sequence f = 9" "ve_run_id f = u ''r''" "ve_world_id f = u ''w''"
    "field (ve_fields f) ''state_before'' = canon example_hardware" "field (ve_fields f) ''state_after'' = canon example_hardware"
    by (rule example_split)
  obtain hwd where hw: "canon example_hardware = JObj hwd" "\<And>clock. projected_snapshot ?env hwd clock None = Inr (quiet_state clock)"
    using example_hardware_snapshot by blast
  obtain e es where ne: "example_raw_events = e # es" using s(1) by (cases xs) auto
  have first: "ve_run_id e = u ''r''" "ve_world_id e = u ''w''"
    using validated_sequences [OF example_raw_valid] by (auto simp: ne)
  have start: "initial_state ?env example_raw_events = Inr (quiet_state 0)"
    unfolding s(1) unprojected_initial [OF s(2)] by (simp add: s(4,8) hw)
  let ?c = "clock_at (ve_time e) f"
  let ?d = "(plain_draft f ''force_safe'' None (quiet_state ?c) (quiet_state ?c))\<lparr>dr_cleanup := Some ''forced''\<rparr>"
  have "project_event ?env (ve_time e) f (project_start (quiet_state 0)) =
      Inr (add_drafts [?d] (project_start (quiet_state 0)\<lparr>pj_last := quiet_state ?c, pj_stimulus := None\<rparr>))"
    by (simp add: project_event_def s(4) on_force_safe_def mapping_field_def s(8,9) hw Let_def) (simp add: project_start_def hw)
  then have "project_loop ?env (ve_time e) example_raw_events (project_start (quiet_state 0)) =
      Inr (add_drafts [?d] (project_start (quiet_state 0)\<lparr>pj_last := quiet_state ?c, pj_stimulus := None\<rparr>))"
    unfolding s(1) project_loop_append unprojected_loop [OF s(2)] by (simp add: unprojected_loop [OF s(3)])
  then have "project_events ?env example_raw_events = Inr [materialize (pe_runtime ?env) [] ?d]"
    using example_raw_valid start first
    by (simp add: project_events_def ne project_finish_def add_drafts_def project_start_def completed_sessions_def)
  with that [OF this] show thesis by (simp add: materialize_def plain_draft_def s(6,7) opt_or_def Let_def) blast
qed

definition example_v2_process :: "ContainerEvidence \<Rightarrow> v2_process" where
  "example_v2_process c = \<lparr>vp_process = \<lparr>p_status = ''completed'', p_container = Some c, p_artifact = None\<rparr>,
     vp_result = None, vp_candidate_status = None\<rparr>"

lemma example_v2_graded:
  assumes "evidence_events (sim_journal_evidence sim) = example_events"
    and "SimJournalEvidence.pre_cleanup_snapshot (sim_journal_evidence sim) = field example_sd ''pre_cleanup_snapshot''"
  obtains base snap where "graded_world example_projection_env (nominal 1) (Some (example_v2_process c)) sim = Inr (Inr (base, snap))"
proof -
  obtain p where p: "project_events example_projection_env example_raw_events = Inr [p]" "pr_operation p = ''force_safe''"
    "pr_run_id p = u ''r''" "pr_world_id p = u ''w''" "pr_session p = None" "pr_resource p = None" "pr_role p = None" "pr_error p = None"
    "\<exists>c. pr_before p = quiet_state c" "\<exists>c. pr_after p = quiet_state c"
    by (rule example_projection)
  have n: "narrow (u ''r'') = Inr ''r''" "narrow (u ''w'') = Inr ''w''" by code_simp+
  have q: "\<exists>s. narrow_state (quiet_state c) = Inr s" for c by (simp add: narrow_state_def quiet_state_def narrow_option_def)
  obtain before after where s: "narrow_state (pr_before p) = Inr before" "narrow_state (pr_after p) = Inr after"
    using p(9,10) q by metis
  obtain e where e: "narrow_event p = Inr e" "operation e = ''force_safe''"
    by (simp add: narrow_event_def p n narrow_option_def s)
  have "case snapshot_of (field example_sd ''pre_cleanup_snapshot'') of
      Inr d \<Rightarrow> (case world_snapshot d of Inr _ \<Rightarrow> True | Inl _ \<Rightarrow> False) | Inl _ \<Rightarrow> False" by code_simp
  then obtain d snap where d: "snapshot_of (field example_sd ''pre_cleanup_snapshot'') = Inr d" "world_snapshot d = Inr snap"
    by (auto split: sum.splits)
  obtain base where "grade_run None [e] (nominal 1) snap (forbidden [p]) True = Inr base"
    using grade_run_no_writes [of "[e]" "nominal 1" snap "forbidden [p]" True] e(2) by auto
  with that p(1) e(1) d show thesis
    by (simp add: graded_world_def assms example_v2_process_def)
qed

theorem v2_report_sound_witness:
  "\<exists>x c j. run_v2_world example_projection_env (nominal 1) (Inr example_handle) (Inr (example_v2_process c))
      (snd (sim_finalize example_sim_docker (\<lambda>p. p) example_rd (Some example_dir) ''sha256:1'' example_handle)) = Inr x \<and>
    r_infrastructure_valid (v2_base (v2_report x)) \<and> v2_sim_journal_evidence (v2_report x) = Some j \<and>
    linked (rd_runtime example_rd) VISA_GENESIS_HASH 1 (evidence_events j)"
proof -
  let ?fin = "snd (sim_finalize example_sim_docker (\<lambda>p. p) example_rd (Some example_dir) ''sha256:1'' example_handle)"
  obtain r where r: "?fin = Inr r" "sim_fatal r = None" "evidence_events (sim_journal_evidence r) = example_events"
    "SimJournalEvidence.pre_cleanup_snapshot (sim_journal_evidence r) = field example_sd ''pre_cleanup_snapshot''"
    by (rule example_finalized)
  let ?c = "sim_container_evidence r"
  obtain base snap where g: "graded_world example_projection_env (nominal 1) (Some (example_v2_process ?c)) r = Inr (Inr (base, snap))"
    by (rule example_v2_graded [OF r(3,4)])
  have c: "container_evidence (finish_report base (vp_process (example_v2_process ?c)) f) = Some ?c"
    "r_infrastructure_valid (finish_report base (vp_process (example_v2_process ?c)) f)" for f
    by (simp_all add: finish_report_def attach_runtime_evidence_def example_v2_process_def Let_def)
  have "\<exists>x. run_v2_world example_projection_env (nominal 1) (Inr example_handle) (Inr (example_v2_process ?c)) ?fin = Inr x \<and>
      r_infrastructure_valid (v2_base (v2_report x))"
    by (simp add: run_v2_world_def r(1,2) g new_v2_report_def c Let_def)
  then obtain x where x: "run_v2_world example_projection_env (nominal 1) (Inr example_handle) (Inr (example_v2_process ?c)) ?fin = Inr x"
    "r_infrastructure_valid (v2_base (v2_report x))" by blast
  from v2_report_sound [OF x] x show ?thesis by metis
qed

end
