(* ===== verification/Spec2Isabelle.thy ===== *)
theory Spec2Isabelle
  imports Fibsem_Grading Run_V1 Broker_Service Audit_Trail Run_V2
begin

text \<open>
  A verification library for the instrument benchmark evaluator.

  The evaluator runs a candidate program against simulated laboratory instruments and grades what it
  did. A hidden simulated world sits behind a gateway; every command of the candidate goes through the
  gateway and leaves an entry in an evidence journal; the grader never trusts the answer of the
  candidate but compares it with what the journal shows. The candidate itself runs in a container
  whose actual configuration is inspected. Three sources of tasks exist. Covered are the PyVISA task,
  version 1 (\<^verbatim>\<open>sources/pyvisa/pyvisa_dut_validation_v1\<close>), from the instruments to the report of the
  suite; version 2 (\<^verbatim>\<open>sources/pyvisa/pyvisa_dut_validation_v2\<close>) from the remote broker, its protocol and its journal
  over the verification of the evidence it leaves and the projection of that evidence to the report; and the grading side of the FIBSEM lift-out task
  (\<^verbatim>\<open>sources/openfibsem/fibsem_liftout_v1\<close>); together with the shared container sandbox and runner
  (\<^verbatim>\<open>instrument_benchmark_evaluator\<close>).

  Foundations.
  \<^item> \<open>Prelude\<close>: errors as sums with \<open>bind_res\<close>, \<open>require\<close> and \<open>traverse\<close>; dictionaries as association
    lists, with the locale \<open>keyed_store\<close> as the contract of keyed tables and its interpretation \<open>dict\<close>;
    JSON values.
  \<^item> \<open>Float64\<close>: binary64 arithmetic on rationals, with the rounding \<open>fl\<close> defined and its error and
    monotonicity proved; grading scores are exact results of rounded operations.
  \<^item> \<open>Json_Text\<close> and \<open>Py_Text\<close>: the canonical text of JSON that is hashed, and the string, integer and
    float functions of the language the sources use. Characters are code points below 256. The record
    \<open>runtime\<close> holds the two functions of the language runtime that stay uninterpreted: the shortest
    decimal text of a float and SHA-256. Where a theorem needs that digests do not collide, it says so
    for the texts involved.

  PyVISA, version 1.
  \<^item> \<open>Dut_World\<close> (\<^verbatim>\<open>dut_world.py\<close>, \<^verbatim>\<open>models.py\<close>): the state of the device under test, every semantic action
    with its guards, the measurement guard and the deterministic noise. Shown: the invariant of all
    reachable worlds, when measurements succeed, that routes only close with the sources off, and the
    accuracy of the samples.
  \<^item> \<open>Worlds\<close> (\<^verbatim>\<open>worlds/__init__.py\<close>): validation of specifications and the generated worlds, which never
    fail validation.
  \<^item> \<open>Instruments\<close> (\<^verbatim>\<open>instruments.py\<close>): the shared command interpreter, the five instruments, distractors and
    the rack. The locale \<open>instrument_class\<close> is the contract of an instrument (what its commands and
    its reset keep); it is interpreted for every instrument of the rack, and the rack keeps the joint
    invariant.
  \<^item> \<open>Gateway\<close> (\<^verbatim>\<open>gateway/server.py\<close>, \<^verbatim>\<open>gateway/protocol.py\<close>): base64, request validation, sessions, every
    operation with its journal entry, the responses and the forced cleanup. One dispatched operation
    is one atomic step; requests of several clients interleave as sequences of steps. The source holds
    a lock around its session table but not around a whole operation, so interleavings inside an
    operation are outside the model.
  \<^item> \<open>Gateway_Sessions\<close>: the abstract registry of sessions and the proof that the gateway implements it
    in every run; isolation of clients; what a disconnect does; what a client reads.
  \<^item> \<open>Evidence\<close> (\<^verbatim>\<open>gateway/journal.py\<close>, \<^verbatim>\<open>constraints/partial_order.py\<close>): the journal and the nine ordering
    constraints, with their meaning as first and last events; the last identification of a device is the one
    the code looks at, and the theorem names the runs where that differs from the first.
  \<^item> \<open>Oracle\<close> (\<^verbatim>\<open>oracle/reconstruct.py\<close>): reconstruction of the hidden result from the journal, with the
    exceptions that escape, and the provenance of each value.
  \<^item> \<open>Scoring_V1\<close> and \<open>Grading_V1\<close> (\<^verbatim>\<open>scoring.py\<close>, report steps of \<^verbatim>\<open>run.py\<close>): grading of a run and of the
    suite; a strict pass is sound, an honest answer passes, scores are bounded.
  \<^item> \<open>Run_V1\<close> (\<^verbatim>\<open>run.py\<close>): one world from the rack to the report, the fixed worlds and the suite; the
    properties that span instruments, gateway, journal, oracle and grader.

  PyVISA, version 2. A broker process owns the VISA library; the candidate reaches it over a socket, and
  every request, SCPI event and session leaves a journal entry; the evaluator later reads the exported
  directory and decides whether it can be trusted.
  \<^item> \<open>Unicode_Text\<close>: texts as lists of code points, UTF-8, the canonical JSON text in both its ASCII and plain
    forms, and a reader of JSON text with its limits; reading inverts writing.
  \<^item> \<open>Wire_Protocol\<close> (\<^verbatim>\<open>protocol.py\<close>): frames, tagged values, requests, responses and the client. Shown: round
    trips of values, requests and responses, and that a message is received whatever the chunks of the
    stream are.
  \<^item> \<open>Visa_Journal\<close> (\<^verbatim>\<open>journal.py\<close>): numbered, timed and hash-chained events and the exported text. The
    clock is a function of the number of readings made so far.
  \<^item> \<open>Visa_Broker\<close> (\<^verbatim>\<open>broker.py\<close>, \<^verbatim>\<open>resource_query.py\<close>): connections, sessions, limits, every operation, the
    audit records, freezing, and the loop that serves a connection. An operation is a state-passing
    action that may raise. The VISA library is a record of functions (\<open>visalib\<close>) that return a new library
    state, the journal events of its hooks and a result. A request is three steps (\<open>begin_request\<close>,
    \<open>run_request\<close>, \<open>report_request\<close>), the pieces between two acquisitions of the lock of the source.
  \<^item> \<open>Broker_Evidence\<close>: what each operation adds to the journal, under \<open>library_contract\<close>: the hooks of
    the library emit one SCPI event for a successful read or write and none otherwise.
  \<^item> \<open>Broker_Run\<close>: \<open>broker_run\<close>, the inductive relation of all runs in which requests of several
    connections interleave between their steps; its invariant, and the evidence a frozen broker leaves.
  \<^item> \<open>Sim_Evidence\<close> (\<^verbatim>\<open>container/sim_evidence.py\<close>): every check made on the evidence directory, from the
    bytes of its files to the accounting of the journal. The directory is an argument, and so is the
    decoder of the bytes of a JSON file; the depth the reader accepts is the field \<open>rd_limit\<close>.
  \<^item> \<open>Journal_File\<close>: the reader loads back exactly the exported journal.
  \<^item> \<open>Accepted_Evidence\<close>: what evidence that is accepted proves about the run, and a directory that is accepted.
  \<^item> \<open>Broker_Service\<close>: the locale \<open>broker_invariant\<close> carries a property of the elementary updates to every
    operation and run; it is interpreted for the hash chain and for the connection limits. Every
    clean run exports a file the reader accepts, a remote call has the effect and the answer of a local
    dispatch, and sessions of other clients cannot be used.
  \<^item> \<open>Projection\<close> (\<^verbatim>\<open>projection.py\<close>): the raw journal turned into the events the grader of version 1 reads, one
    function for each kind of raw event and one for the end. The numbers of the VISA attributes and
    the conversions the language makes beyond ASCII (\<^verbatim>\<open>upper\<close>, \<^verbatim>\<open>float\<close>, \<^verbatim>\<open>str\<close>) are the record \<open>projection_env\<close>. Shown:
    every completed command and every violation is projected once and in order, and every projected
    write has the bytes of a journaled request.
  \<^item> \<open>Audit_Trail\<close>: a write request as the broker journals it is what the projection reads back.
  \<^item> \<open>Sim_Runner\<close> (\<^verbatim>\<open>container/sim_runner.py\<close>): the container of the simulator, from \<^verbatim>\<open>docker create\<close> to its removal. Shown:
    a result is only returned for a container that met every check of its policy and whose evidence verifies.
  \<^item> \<open>Run_V2\<close> (\<^verbatim>\<open>v2_run.py\<close>, \<^verbatim>\<open>reports.py\<close>): one world from the finished simulator to the report, and the suite. The grader of
    version 1 is modelled over characters below 256, so a projection with other characters
    ends in the value \<open>WideText\<close>, which stands for no behaviour of the program. Shown: what a valid report
    and a strict pass rest on.

  Container sandbox.
  \<^item> \<open>Container\<close> (\<^verbatim>\<open>container/contracts.py\<close>, \<^verbatim>\<open>container/evidence.py\<close>, \<^verbatim>\<open>container/runner.py\<close>): limits, the
    evidence read from \<^verbatim>\<open>docker inspect\<close>, the arguments of \<^verbatim>\<open>docker create\<close>, the policy check, the collected
    artifacts and the life cycle of a container. The answers of Docker are arguments. Shown: the
    evidence is, field by field, what was inspected, the container is always removed, and a result is only
    returned for a container that met every check of the policy. The sequence of Docker commands is part of the
    result; a kill that ends an attachment is part of the attachment.

  FIBSEM.
  \<^item> \<open>Step_Rubric\<close> (\<^verbatim>\<open>step_rubric.py\<close>): the rubric of the four steps with its caps; what full points require
    and that perfect evidence earns them.
  \<^item> \<open>Fibsem_Journal\<close> (\<^verbatim>\<open>journal.py\<close>): the hash-chained audit journal; appended journals validate, the
    export round trip, and tampering is detected unless digests collide.
  \<^item> \<open>Fibsem_Scoring\<close> and \<open>Fibsem_Grading\<close> (\<^verbatim>\<open>scoring.py\<close>): milestones read off the journal, grading of a
    world and of the suite; what a strict pass implies, and that a world with perfect exports and evidence, graded
    against the private reference as the run does, reaches it.

  Conventions. Python integers are \<open>int\<close>; finite floats are rationals representable in binary64, and
  \<open>pyfloat\<close> adds the non-finite values; the two zeros of the format are one value. Byte strings and
  texts are character lists. Every raise is an \<open>Inl\<close>; exceptions no caller handles have their own
  constructors, so that theorems can speak about them. Clock readings, random tokens and process
  results are arguments. All functions are total and no definition uses fuel except the readers of JSON text, whose \<open>limit\<close> is
  the recursion limit of the interpreter and is an argument; every other loop runs over a list or a counter.

  Not modelled: the bench, the service process and the world file of the PyVISA task, version 2; the FIBSEM runners and
  microscope front end, mesh and voxel geometry and artifact scoring (the grader reads their
  records, which are modelled); loading of contracts and worlds from disk, the Docker command client,
  sockets, threads and the command line. The to_dict methods of the reports only serialise and are
  not modelled either.
\<close>

end
